(* ===== verification/QF_Prelude.thy ===== *)
theory QF_Prelude
  imports Main "HOL-Library.AList" "HOL-Library.Word"
begin

text \<open>
  Shared ground of the development: the signed 64-bit arithmetic of the C++ sources
  (\<open>std::int64_t\<close> as an \<open>int\<close> with the wrap-around written out), the hash maps of the
  engine (\<open>std::unordered_map\<close> as an association list in iteration order), the
  named collections of lemmas and the generic list facts the components use.
\<close>

named_theorems i64_simps \<open>evaluation of in-range signed 64-bit arithmetic\<close>
named_theorems map_simps \<open>lookups after updates of the model's hash maps\<close>

section \<open>Signed 64-bit integers\<close>

definition INT64_MAX :: int where
  "INT64_MAX = 9223372036854775807"

definition INT64_MIN :: int where
  "INT64_MIN = - 9223372036854775808"

text \<open>
  The value a 64-bit two's complement register holds after an operation with the
  mathematical result \<open>x\<close>. Every \<open>+\<close> and \<open>-\<close> of the sources on \<open>std::int64_t\<close> goes
  through \<open>add64\<close> and \<open>sub64\<close>; \<open>s64_id\<close> shows where nothing wraps.
\<close>

definition s64 :: "int \<Rightarrow> int" where
  "s64 x = (x + 9223372036854775808) mod 18446744073709551616 - 9223372036854775808"

definition add64 :: "int \<Rightarrow> int \<Rightarrow> int" where
  "add64 a b = s64 (a + b)"

definition sub64 :: "int \<Rightarrow> int \<Rightarrow> int" where
  "sub64 a b = s64 (a - b)"

definition in_i64 :: "int \<Rightarrow> bool" where
  "in_i64 x \<longleftrightarrow> INT64_MIN \<le> x \<and> x \<le> INT64_MAX"

lemmas i64_bounds = INT64_MAX_def INT64_MIN_def

lemma INT64_MAX_pos [simp]: "0 < INT64_MAX" "0 \<le> INT64_MAX"
  by (simp_all add: INT64_MAX_def)

lemma s64_id [i64_simps]: "INT64_MIN \<le> x \<Longrightarrow> x \<le> INT64_MAX \<Longrightarrow> s64 x = x"
  by (simp add: s64_def i64_bounds)

lemma s64_range: "INT64_MIN \<le> s64 x \<and> s64 x \<le> INT64_MAX"
proof -
  have "0 \<le> (x + 9223372036854775808) mod 18446744073709551616"
    and "(x + 9223372036854775808) mod 18446744073709551616 < 18446744073709551616"
    by simp_all
  then show ?thesis unfolding s64_def i64_bounds by linarith
qed

lemma in_i64_s64 [simp]: "in_i64 (s64 x)"
  by (simp add: in_i64_def s64_range)

lemma add64_id [i64_simps]:
  "INT64_MIN \<le> a + b \<Longrightarrow> a + b \<le> INT64_MAX \<Longrightarrow> add64 a b = a + b"
  by (simp add: add64_def s64_id)

lemma sub64_id [i64_simps]:
  "INT64_MIN \<le> a - b \<Longrightarrow> a - b \<le> INT64_MAX \<Longrightarrow> sub64 a b = a - b"
  by (simp add: sub64_def s64_id)

lemma add64_nonneg [i64_simps]:
  "0 \<le> a \<Longrightarrow> 0 \<le> b \<Longrightarrow> a \<le> INT64_MAX - b \<Longrightarrow> add64 a b = a + b"
  by (rule add64_id) (auto simp: i64_bounds)

lemma sub64_nonneg [i64_simps]:
  "0 \<le> a \<Longrightarrow> a \<le> INT64_MAX \<Longrightarrow> 0 \<le> b \<Longrightarrow> b \<le> INT64_MAX \<Longrightarrow> sub64 a b = a - b"
  by (rule sub64_id) (auto simp: i64_bounds)

text \<open>The saturating helpers of the engine's anonymous namespace.\<close>

definition sat_add :: "int \<Rightarrow> int \<Rightarrow> int" where
  "sat_add a b = (if b > 0 \<and> a > INT64_MAX - b then INT64_MAX else add64 a b)"

definition sat_sub :: "int \<Rightarrow> int \<Rightarrow> int" where
  "sat_sub a b = (if b > 0 \<and> a < INT64_MIN + b then INT64_MIN else sub64 a b)"

lemma sat_add_nonneg:
  "0 \<le> a \<Longrightarrow> a \<le> INT64_MAX \<Longrightarrow> 0 \<le> b \<Longrightarrow> b \<le> INT64_MAX \<Longrightarrow> sat_add a b = min INT64_MAX (a + b)"
  by (auto simp: sat_add_def add64_nonneg min_def)

lemma sat_add_exact [i64_simps]:
  "0 \<le> a \<Longrightarrow> 0 \<le> b \<Longrightarrow> a + b \<le> INT64_MAX \<Longrightarrow> sat_add a b = a + b"
  by (simp add: sat_add_def add64_nonneg)

lemma sat_add_le_iff:
  assumes "0 \<le> a" "a \<le> INT64_MAX" "0 \<le> b" "b \<le> INT64_MAX" "c < INT64_MAX"
  shows "sat_add a b \<le> c \<longleftrightarrow> a + b \<le> c"
  using assms by (auto simp: sat_add_nonneg min_def)

lemma sat_add_bounds:
  "0 \<le> a \<Longrightarrow> a \<le> INT64_MAX \<Longrightarrow> 0 \<le> b \<Longrightarrow> b \<le> INT64_MAX \<Longrightarrow>
   a \<le> sat_add a b \<and> b \<le> sat_add a b \<and> sat_add a b \<le> INT64_MAX"
  by (auto simp: sat_add_nonneg min_def)

lemma sat_add_mono:
  "0 \<le> a \<Longrightarrow> a \<le> INT64_MAX \<Longrightarrow> 0 \<le> b \<Longrightarrow> b \<le> c \<Longrightarrow> c \<le> INT64_MAX \<Longrightarrow>
   sat_add a b \<le> sat_add a c"
  by (simp add: sat_add_nonneg)

section \<open>Hash maps\<close>

text \<open>
  A \<open>std::unordered_map\<close> is an association list with distinct keys; the list order is
  the order in which a range-for loop meets the entries. The C++ library leaves that order
  open, and every theorem that quantifies over a map quantifies over every order. A new
  key goes to the end. \<open>find\<close> is \<open>map_of\<close>, \<open>m[k] = v\<close> is \<open>AList.update k v\<close>,
  \<open>erase\<close> is \<open>AList.delete\<close>, and \<open>emplace\<close> leaves an existing entry alone.
\<close>

type_synonym ('k, 'v) hmap = "('k \<times> 'v) list"

definition emplace :: "'k \<Rightarrow> 'v \<Rightarrow> ('k, 'v) hmap \<Rightarrow> ('k, 'v) hmap" where
  "emplace k v m = (if map_of m k = None then m @ [(k, v)] else m)"

definition contains_key :: "('k, 'v) hmap \<Rightarrow> 'k \<Rightarrow> bool" where
  "contains_key m k \<longleftrightarrow> map_of m k \<noteq> None"

abbreviation distinct_keys :: "('k, 'v) hmap \<Rightarrow> bool" where
  "distinct_keys m \<equiv> distinct (map fst m)"

lemma emplace_new: "map_of m k = None \<Longrightarrow> emplace k v m = m @ [(k, v)]"
  by (simp add: emplace_def)

lemma map_of_emplace [map_simps]:
  "map_of (emplace k v m) k' =
     (if k' = k \<and> map_of m k = None then Some v else map_of m k')"
  by (auto simp: emplace_def map_add_def split: option.splits)

lemma map_of_update [map_simps]:
  "map_of (AList.update k v m) k' = (if k' = k then Some v else map_of m k')"
  by (simp add: update_conv')

lemma map_of_delete [map_simps]:
  "map_of (AList.delete k m) k' = (if k' = k then None else map_of m k')"
  by (simp add: delete_conv')

lemma distinct_keys_emplace [simp]: "distinct_keys m \<Longrightarrow> distinct_keys (emplace k v m)"
  by (auto simp: emplace_def map_of_eq_None_iff)

lemma distinct_keys_update [simp]: "distinct_keys m \<Longrightarrow> distinct_keys (AList.update k v m)"
  by (rule distinct_update)

lemma distinct_keys_delete [simp]: "distinct_keys m \<Longrightarrow> distinct_keys (AList.delete k m)"
  by (rule distinct_delete)

lemma delete_not_key: "map_of m k = None \<Longrightarrow> AList.delete k m = m"
  by (simp add: map_of_eq_None_iff)

lemma delete_append: "AList.delete k (m @ m') = AList.delete k m @ AList.delete k m'"
  by (induction m) auto

lemma delete_emplace_new: "map_of m k = None \<Longrightarrow> AList.delete k (emplace k v m) = m"
  by (simp add: emplace_new delete_append) (simp add: delete_not_key)

lemma delete_update_same: "AList.delete k (AList.update k v m) = AList.delete k m"
  by (induction m) auto

lemma set_update_subset:
  "set (AList.update k v m) \<subseteq> insert (k, v) (set m)"
  by (induction m) auto

lemma set_emplace_subset: "set (emplace k v m) \<subseteq> insert (k, v) (set m)"
  by (auto simp: emplace_def)

lemma set_delete_subset: "set (AList.delete k m) \<subseteq> set m"
  by (induction m) auto

lemma values_update_all:
  "\<forall>(k, v) \<in> set m. P k v \<Longrightarrow> P k' v' \<Longrightarrow> \<forall>(k, v) \<in> set (AList.update k' v' m). P k v"
  using set_update_subset [of k' v' m] by auto

lemma values_emplace_all:
  "\<forall>(k, v) \<in> set m. P k v \<Longrightarrow> P k' v' \<Longrightarrow> \<forall>(k, v) \<in> set (emplace k' v' m). P k v"
  using set_emplace_subset [of k' v' m] by auto

lemma values_delete_all:
  "\<forall>(k, v) \<in> set m. P k v \<Longrightarrow> \<forall>(k, v) \<in> set (AList.delete k' m). P k v"
  using set_delete_subset [of k' m] by auto

text \<open>
  The contract of the maps, as the engine relies on it: what a lookup finds after each kind
  of change. A record inserted under an unused key and erased again leaves no trace.
\<close>

locale record_map =
  fixes lookup :: "'m \<Rightarrow> 'k \<Rightarrow> 'v option"
    and insert_new assign :: "'k \<Rightarrow> 'v \<Rightarrow> 'm \<Rightarrow> 'm"
    and erase :: "'k \<Rightarrow> 'm \<Rightarrow> 'm"
    and valid :: "'m \<Rightarrow> bool"
  assumes lookup_insert_new: "lookup (insert_new k v m) k' = (if k' = k \<and> lookup m k = None then Some v else lookup m k')"
    and lookup_assign: "lookup (assign k v m) k' = (if k' = k then Some v else lookup m k')"
    and lookup_erase: "lookup (erase k m) k' = (if k' = k then None else lookup m k')"
    and valid_insert_new: "valid m \<Longrightarrow> valid (insert_new k v m)"
    and valid_assign: "valid m \<Longrightarrow> valid (assign k v m)"
    and valid_erase: "valid m \<Longrightarrow> valid (erase k m)"
begin

lemma lookup_insert_erase: "lookup m k = None \<Longrightarrow> lookup (erase k (insert_new k v m)) = lookup m"
  by (auto simp: fun_eq_iff lookup_erase lookup_insert_new)

lemma lookup_assign_erase: "lookup m k = None \<Longrightarrow> lookup (erase k (assign k v m)) = lookup m"
  by (auto simp: fun_eq_iff lookup_erase lookup_assign)

lemma insert_new_keeps: "lookup m k = Some w \<Longrightarrow> lookup (insert_new k v m) = lookup m"
  by (auto simp: fun_eq_iff lookup_insert_new)

end

interpretation hmap: record_map map_of emplace AList.update AList.delete distinct_keys
  by unfold_locales (simp_all add: map_simps)

section \<open>Searching an index range\<close>

lemma find_upt_Some_iff:
  "find P [0..<n] = Some k \<longleftrightarrow> k < n \<and> P k \<and> (\<forall>j<k. \<not> P j)"
proof
  assume "find P [0..<n] = Some k"
  then obtain i where "i < n" "P ([0..<n] ! i)" "k = [0..<n] ! i" "\<forall>j<i. \<not> P ([0..<n] ! j)"
    unfolding find_Some_iff by auto
  then show "k < n \<and> P k \<and> (\<forall>j<k. \<not> P j)" by simp
next
  assume "k < n \<and> P k \<and> (\<forall>j<k. \<not> P j)"
  then have "k < length [0..<n] \<and> P ([0..<n] ! k) \<and> k = [0..<n] ! k
      \<and> (\<forall>j<k. \<not> P ([0..<n] ! j))"
    by simp
  then show "find P [0..<n] = Some k" unfolding find_Some_iff by blast
qed

lemma find_upt_None_iff: "find P [0..<n] = None \<longleftrightarrow> (\<forall>k<n. \<not> P k)"
  by (auto simp: find_None_iff)

end
