(* ===== verification/QF_Ids.thy ===== *)
theory QF_Ids
  imports QF_Prelude
begin

text \<open>
  Strongly typed identifiers and generations: \<open>core/ids.hpp\<close> and \<open>core/identity.hpp\<close>.
  The C++ tag classes are the phantom parameter of \<open>strong_id\<close> and \<open>generation\<close>, so a
  tenant id and an allocation id have different HOL types as they have different C++
  types. The generator behind \<open>StrongId::make\<close> is translated with its state; the seed
  drawn from \<open>std::random_device\<close> is the initial value of that state.
\<close>

unbundle bit_operations_syntax

section \<open>Tags, identifiers, generations\<close>

datatype tenant_tag = TenantTag
datatype tenant_group_tag = TenantGroupTag
datatype resource_class_tag = ResourceClassTag
datatype reservation_tag = ReservationTag
datatype allocation_tag = AllocationTag
datatype agent_tag = AgentTag
datatype agent_boot_tag = AgentBootTag
datatype node_tag = NodeTag
datatype borrow_tag = BorrowTag
datatype lending_tag = LendingTag

datatype quota_gen_tag = QuotaGenTag
datatype policy_gen_tag = PolicyGenTag
datatype epoch_tag = EpochTag
datatype resource_gen_tag = ResourceGenTag
datatype snapshot_gen_tag = SnapshotGenTag
datatype node_boot_tag = NodeBootTag

datatype 'tag strong_id = StrongId (id_hi: "64 word") (id_lo: "64 word")

datatype 'tag generation = Generation (gen_value: "64 word")

type_synonym tenant_id = "tenant_tag strong_id"
type_synonym tenant_group_id = "tenant_group_tag strong_id"
type_synonym resource_class_id = "resource_class_tag strong_id"
type_synonym reservation_id = "reservation_tag strong_id"
type_synonym allocation_id = "allocation_tag strong_id"
type_synonym agent_id = "agent_tag strong_id"
type_synonym agent_boot_id = "agent_boot_tag strong_id"
type_synonym node_id = "node_tag strong_id"
type_synonym borrow_id = "borrow_tag strong_id"
type_synonym lending_id = "lending_tag strong_id"

type_synonym quota_generation = "quota_gen_tag generation"
type_synonym policy_generation = "policy_gen_tag generation"
type_synonym coordinator_epoch = "epoch_tag generation"
type_synonym resource_generation = "resource_gen_tag generation"
type_synonym resource_snapshot_generation = "snapshot_gen_tag generation"
type_synonym node_boot_generation = "node_boot_tag generation"

text \<open>The default-constructed values \<open>StrongId{}\<close> and \<open>Generation{}\<close>.\<close>

definition null_id :: "'tag strong_id" where
  "null_id = StrongId 0 0"

definition id_is_null :: "'tag strong_id \<Rightarrow> bool" where
  "id_is_null i \<longleftrightarrow> id_hi i = 0 \<and> id_lo i = 0"

definition gen_zero :: "'tag generation" where
  "gen_zero = Generation 0"

definition gen_initial :: "'tag generation" where
  "gen_initial = Generation 1"

definition gen_next :: "'tag generation \<Rightarrow> 'tag generation" where
  "gen_next g = Generation (gen_value g + 1)"

definition gen_is_valid :: "'tag generation \<Rightarrow> bool" where
  "gen_is_valid g \<longleftrightarrow> gen_value g \<noteq> 0"

section \<open>The order on identifiers\<close>

instantiation strong_id :: (type) linorder
begin

definition less_strong_id :: "'a strong_id \<Rightarrow> 'a strong_id \<Rightarrow> bool" where
  "less_strong_id a b \<longleftrightarrow> id_hi a < id_hi b \<or> (id_hi a = id_hi b \<and> id_lo a < id_lo b)"

definition less_eq_strong_id :: "'a strong_id \<Rightarrow> 'a strong_id \<Rightarrow> bool" where
  "less_eq_strong_id a b \<longleftrightarrow> a < b \<or> a = b"

instance
proof
  fix x y z :: "'a strong_id"
  show "(x < y) = (x \<le> y \<and> \<not> y \<le> x)"
    by (auto simp: less_eq_strong_id_def less_strong_id_def)
  show "x \<le> x" by (simp add: less_eq_strong_id_def)
  show "x \<le> y \<Longrightarrow> y \<le> z \<Longrightarrow> x \<le> z"
    by (auto simp: less_eq_strong_id_def less_strong_id_def)
  show "x \<le> y \<Longrightarrow> y \<le> x \<Longrightarrow> x = y"
    by (auto simp: less_eq_strong_id_def less_strong_id_def)
  show "x \<le> y \<or> y \<le> x"
    by (cases x; cases y) (auto simp: less_eq_strong_id_def less_strong_id_def)
qed

end

instantiation generation :: (type) linorder
begin

definition less_generation :: "'a generation \<Rightarrow> 'a generation \<Rightarrow> bool" where
  "less_generation a b \<longleftrightarrow> gen_value a < gen_value b"

definition less_eq_generation :: "'a generation \<Rightarrow> 'a generation \<Rightarrow> bool" where
  "less_eq_generation a b \<longleftrightarrow> gen_value a \<le> gen_value b"

instance
  by standard
    (auto simp: less_eq_generation_def less_generation_def generation.expand)

end

text \<open>A generation only repeats after all \<open>2^64\<close> values have been handed out.\<close>

lemma gen_next_greater: "gen_value g \<noteq> -1 \<Longrightarrow> g < gen_next g"
proof -
  assume "gen_value g \<noteq> -1"
  then have "1 + gen_value g \<noteq> 0" by (metis add_eq_0_iff)
  then have "unat (gen_value g + 1) = Suc (unat (gen_value g))"
    using unatSuc [of "gen_value g"] by (simp add: add.commute)
  then show ?thesis by (simp add: less_generation_def gen_next_def word_less_nat_alt)
qed

lemma gen_next_neq: "gen_next g \<noteq> g"
  by (cases g) (simp add: gen_next_def)

section \<open>The id generator\<close>

record rng =
  rng0 :: "64 word"
  rng1 :: "64 word"
  rng2 :: "64 word"
  rng3 :: "64 word"

definition rng_next :: "rng \<Rightarrow> 64 word \<times> rng" where
  "rng_next s =
     (let result = rng1 s * 5;
          t = push_bit 17 (rng1 s);
          s2 = rng2 s XOR rng0 s;
          s3 = rng3 s XOR rng1 s;
          s1 = rng1 s XOR s2;
          s0 = rng0 s XOR s3;
          s2' = s2 XOR t;
          s3' = push_bit 45 s3 OR drop_bit 19 s3
      in (result, \<lparr>rng0 = s0, rng1 = s1, rng2 = s2', rng3 = s3'\<rparr>))"

definition mix64 :: "64 word \<Rightarrow> 64 word" where
  "mix64 x0 =
     (let x1 = x0 + 0x9E3779B97F4A7C15;
          x2 = (x1 XOR drop_bit 30 x1) * 0xBF58476D1CE4E5B9;
          x3 = (x2 XOR drop_bit 27 x2) * 0x94D049BB133111EB
      in x3 XOR drop_bit 31 x3)"

text \<open>The function-local statics of \<open>StrongId<Tag>::make\<close>, one pair per tag.\<close>

record id_gen =
  ig_rng :: rng
  ig_counter :: "64 word"

definition make_id :: "id_gen \<Rightarrow> 'tag strong_id \<times> id_gen" where
  "make_id g =
     (let c = ig_counter g + 1;
          (r1, s1) = rng_next (ig_rng g);
          a = r1 XOR mix64 c;
          (b, s2) = rng_next s1
      in (StrongId a b, \<lparr>ig_rng = s2, ig_counter = c\<rparr>))"

definition rng_system :: "64 word \<Rightarrow> 64 word \<Rightarrow> 64 word \<Rightarrow> 64 word \<Rightarrow> rng" where
  "rng_system a b c d =
     (if (a OR b OR c OR d) = 0
      then \<lparr>rng0 = 0x9E3779B97F4A7C15, rng1 = b, rng2 = c, rng3 = d\<rparr>
      else \<lparr>rng0 = a, rng1 = b, rng2 = c, rng3 = d\<rparr>)"

definition rng_live :: "rng \<Rightarrow> bool" where
  "rng_live s \<longleftrightarrow> \<not> (rng0 s = 0 \<and> rng1 s = 0 \<and> rng2 s = 0 \<and> rng3 s = 0)"

lemma rng_system_live: "rng_live (rng_system a b c d)"
  by (auto simp: rng_live_def rng_system_def)

lemma word_xor_eq_0_iff: "(x XOR y = 0) \<longleftrightarrow> x = (y :: 'a::len word)"
  by (metis bit.xor_self xor.assoc xor.left_neutral xor.right_neutral)

lemma rotate_zero: "push_bit 45 x OR drop_bit 19 x = 0 \<Longrightarrow> x = (0 :: 64 word)"
proof -
  assume "push_bit 45 x OR drop_bit 19 x = 0"
  then have nb: "\<not> bit (push_bit 45 x OR drop_bit 19 x) n" for n by simp
  have "\<not> bit x n" if "n < 64" for n
  proof (cases "n < 19")
    case True
    with nb [of "n + 45"] show ?thesis by (simp add: bit_simps)
  next
    case False
    then obtain k where "n = 19 + k" using le_Suc_ex not_less by blast
    with nb [of k] show ?thesis by (simp add: bit_simps)
  qed
  then show ?thesis by (auto intro!: bit_word_eqI)
qed

lemma shift_fixpoint_zero: "push_bit 17 x = x \<Longrightarrow> x = (0 :: 64 word)"
proof -
  assume eq: "push_bit 17 x = x"
  have "\<not> bit x n" for n
  proof (induction n rule: less_induct)
    case (less n)
    have "bit x n \<longleftrightarrow> bit (push_bit 17 x) n" by (simp add: eq)
    also have "\<dots> \<longleftrightarrow> 17 \<le> n \<and> n < 64 \<and> bit x (n - 17)" by (auto simp: bit_simps)
    finally show ?case using less [of "n - 17"] by auto
  qed
  then show ?thesis by (auto intro!: bit_word_eqI)
qed

lemma rng_next_live: "rng_live s \<Longrightarrow> rng_live (snd (rng_next s))"
proof (rule ccontr)
  assume live: "rng_live s" and dead: "\<not> rng_live (snd (rng_next s))"
  let ?s3 = "rng3 s XOR rng1 s"
  from dead have z: "rng0 s XOR ?s3 = 0" "rng1 s XOR (rng2 s XOR rng0 s) = 0"
    "(rng2 s XOR rng0 s) XOR push_bit 17 (rng1 s) = 0" "push_bit 45 ?s3 OR drop_bit 19 ?s3 = 0"
    by (simp_all add: rng_live_def rng_next_def Let_def)
  from z(4) have s3: "?s3 = 0" by (rule rotate_zero)
  with z(1) have r0: "rng0 s = 0" by simp
  from z(2) r0 have r12: "rng1 s = rng2 s" by (simp add: word_xor_eq_0_iff)
  from z(3) r0 r12 have "push_bit 17 (rng1 s) = rng1 s" by (simp add: word_xor_eq_0_iff)
  then have r1: "rng1 s = 0" by (rule shift_fixpoint_zero)
  with s3 r12 r0 live show False by (simp add: rng_live_def)
qed

lemma make_id_live: "rng_live (ig_rng g) \<Longrightarrow> rng_live (ig_rng (snd (make_id g)))"
  by (simp add: make_id_def Let_def split_def rng_next_live)

section \<open>Hexadecimal form\<close>

definition hex_digit :: "char \<Rightarrow> int" where
  "hex_digit c =
     (if 48 \<le> (of_char c :: int) \<and> (of_char c :: int) \<le> 57 then of_char c - 48
      else if 97 \<le> (of_char c :: int) \<and> (of_char c :: int) \<le> 102 then 10 + (of_char c - 97)
      else if 65 \<le> (of_char c :: int) \<and> (of_char c :: int) \<le> 70 then 10 + (of_char c - 65)
      else -1)"

definition hex_chars :: string where
  "hex_chars = ''0123456789abcdef''"

text \<open>
  The loop of \<open>from_hex\<close>: \<open>i\<close> counts the digits read so far, the first sixteen go to the
  high word and the rest to the low word.
\<close>

fun from_hex_loop :: "nat \<Rightarrow> 64 word \<Rightarrow> 64 word \<Rightarrow> string \<Rightarrow> 'tag strong_id" where
  "from_hex_loop i hi lo [] = StrongId hi lo"
| "from_hex_loop i hi lo (c # cs) =
     (let nib = hex_digit c in
      if nib < 0 then null_id
      else if i < 16 then from_hex_loop (Suc i) (push_bit 4 hi OR of_int nib) lo cs
      else from_hex_loop (Suc i) hi (push_bit 4 lo OR of_int nib) cs)"

definition strip_0x :: "string \<Rightarrow> string" where
  "strip_0x s = (if take 2 s = ''0x'' \<or> take 2 s = ''0X'' then drop 2 s else s)"

definition from_hex :: "string \<Rightarrow> 'tag strong_id" where
  "from_hex s =
     (let hex = strip_0x s
      in if length hex \<noteq> 32 then null_id else from_hex_loop 0 0 0 hex)"

definition to_hex :: "'tag strong_id \<Rightarrow> string" where
  "to_hex i =
     map (\<lambda>j. let val = (if j < 16 then drop_bit ((15 - j) * 4) (id_hi i)
                         else drop_bit ((31 - j) * 4) (id_lo i))
              in hex_chars ! unat (val AND 15)) [0..<32]"

lemma hex_digit_chars: "n < 16 \<Longrightarrow> hex_digit (hex_chars ! n) = int n"
  by (simp add: hex_chars_def hex_digit_def numeral_eq_Suc less_Suc_eq) auto

lemma and_15_bound: "unat (w AND 15) < 16" for w :: "64 word"
proof -
  have "unat (w AND 15) \<le> unat (15 :: 64 word)"
    by (rule word_and_le1 [THEN word_le_nat_alt [THEN iffD1]])
  then show ?thesis by simp
qed

lemma nibble_step:
  "push_bit 4 (drop_bit (m + 4) w) OR (drop_bit m w AND 15) = drop_bit m (w :: 64 word)"
proof (rule bit_word_eqI)
  fix n :: nat
  have "bit (15 :: 64 word) n \<longleftrightarrow> n < 4"
    using bit_mask_iff [of 4 n, where ?'a = "64 word"] by (simp add: mask_eq_exp_minus_1) auto
  moreover assume "n < LENGTH(64)"
  moreover have "\<not> n < 4 \<Longrightarrow> m + 4 + (n - 4) = m + n" by simp
  ultimately show "bit (push_bit 4 (drop_bit (m + 4) w) OR (drop_bit m w AND 15)) n
      = bit (drop_bit m w) n"
    by (auto simp: bit_simps)
qed

definition nibble_char :: "64 word \<Rightarrow> nat \<Rightarrow> char" where
  "nibble_char w m = hex_chars ! unat (drop_bit m w AND 15)"

lemma nibble_char_step:
  "hex_digit (nibble_char w m) = int (unat (drop_bit m w AND 15))"
  "push_bit 4 (drop_bit (m + 4) w) OR of_int (hex_digit (nibble_char w m)) = drop_bit m w"
  using nibble_step [of m w] by (simp_all add: nibble_char_def hex_digit_chars and_15_bound)

text \<open>Reading the nibbles of a word from the top rebuilds the word, in either half.\<close>

lemma from_hex_loop_hi:
  "k \<le> 16 \<Longrightarrow>
   from_hex_loop (16 - k) (drop_bit (k * 4) hi) lo
     (map (\<lambda>j. nibble_char hi (j * 4)) (rev [0..<k]) @ cs) = from_hex_loop 16 hi lo cs"
proof (induction k)
  case 0
  then show ?case by simp
next
  case (Suc k)
  then have "Suc (16 - Suc k) = 16 - k" and "16 - Suc k < 16" by simp_all
  moreover have "push_bit 4 (drop_bit (Suc k * 4) hi) OR
      of_int (hex_digit (nibble_char hi (k * 4))) = drop_bit (k * 4) hi"
    using nibble_char_step(2) [of "k * 4" hi] by (simp add: add.commute)
  ultimately show ?case
    using Suc by (simp add: Let_def nibble_char_step(1) del: diff_Suc_Suc)
qed

lemma from_hex_loop_lo:
  "from_hex_loop (16 + i) hi (drop_bit (k * 4) lo)
     (map (\<lambda>j. nibble_char lo (j * 4)) (rev [0..<k])) = StrongId hi lo"
proof (induction k arbitrary: i)
  case 0
  then show ?case by simp
next
  case (Suc k)
  have "push_bit 4 (drop_bit (Suc k * 4) lo) OR
      of_int (hex_digit (nibble_char lo (k * 4))) = drop_bit (k * 4) lo"
    using nibble_char_step(2) [of "k * 4" lo] by (simp add: add.commute)
  then show ?case using Suc [of "Suc i"] by (simp add: Let_def nibble_char_step(1))
qed

lemma upt_split_reverse: "[0..<32] = map (\<lambda>j. 15 - j) (rev [0..<16]) @ map (\<lambda>j. 31 - j) (rev [0..<16])"
  by (simp add: upt_rec)

lemma to_hex_nibbles:
  "to_hex i = map (\<lambda>j. nibble_char (id_hi i) (j * 4)) (rev [0..<16])
            @ map (\<lambda>j. nibble_char (id_lo i) (j * 4)) (rev [0..<16])"
  by (simp add: to_hex_def upt_split_reverse nibble_char_def Let_def)

lemma length_to_hex [simp]: "length (to_hex i) = 32"
  by (simp add: to_hex_def)

lemma hex_chars_not_x: "n < 16 \<Longrightarrow> hex_chars ! n \<noteq> CHR ''x'' \<and> hex_chars ! n \<noteq> CHR ''X''"
  by (simp add: hex_chars_def numeral_eq_Suc less_Suc_eq) auto

lemma strip_0x_to_hex: "strip_0x (to_hex i) = to_hex i"
proof -
  have "to_hex i ! 1 \<noteq> CHR ''x''" and "to_hex i ! 1 \<noteq> CHR ''X''"
    using hex_chars_not_x [OF and_15_bound] by (simp_all add: to_hex_def Let_def)
  moreover have "take 2 (to_hex i) ! 1 = to_hex i ! 1" by simp
  ultimately show ?thesis by (auto simp: strip_0x_def simp del: nth_take)
qed

lemma drop_bit_64 [simp]: "drop_bit 64 w = (0 :: 64 word)"
  by (rule bit_word_eqI) (simp add: bit_simps)

text \<open>
  The 32-digit hexadecimal form of an identifier is parsed back to the same identifier.
\<close>

lemma from_hex_to_hex: "from_hex (to_hex i) = i"
proof -
  have "from_hex (to_hex i) = from_hex_loop 0 0 0 (to_hex i)"
    by (simp add: from_hex_def strip_0x_to_hex)
  also have "\<dots> = from_hex_loop 16 (id_hi i) 0
      (map (\<lambda>j. nibble_char (id_lo i) (j * 4)) (rev [0..<16]))"
    using from_hex_loop_hi [of 16 "id_hi i" 0] by (simp add: to_hex_nibbles)
  also have "\<dots> = i"
    using from_hex_loop_lo [of 0 "id_hi i" 16 "id_lo i"] by (cases i) simp
  finally show ?thesis .
qed

end
