(* ===== verification/QF_Enums.thy ===== *)
theory QF_Enums
  imports QF_Prelude
begin

text \<open>
  The enumerations of \<open>core/enums.hpp\<close> and \<open>core/hierarchy.hpp\<close> with their names from
  \<open>core/enum_defs.hpp\<close>. Each is a scoped enumeration over \<open>std::uint8_t\<close>, so besides its
  enumerators it has a value for every other byte, which \<open>static_cast\<close> from a decoded byte
  produces; that value is the \<open>_raw\<close> constructor. The list of enumerators is in the order
  of the numeric values. The locale \<open>named_enum\<close> is the contract of the macro
  \<open>QF_ENUM_TRAITS\<close>; it is interpreted for every enumeration.
\<close>

section \<open>The shared templates\<close>

text \<open>\<open>static_cast<ENUM>(i)\<close> for a byte value \<open>i\<close>.\<close>

definition enum_of_code :: "'e list \<Rightarrow> (8 word \<Rightarrow> 'e) \<Rightarrow> nat \<Rightarrow> 'e" where
  "enum_of_code es raw i = (if i < length es then es ! i else raw (of_nat i))"

text \<open>\<open>EnumTraits<ENUM>::parse\<close>: the first byte value whose name is the given string.\<close>

definition parse_enum :: "'e list \<Rightarrow> (8 word \<Rightarrow> 'e) \<Rightarrow> ('e \<Rightarrow> string) \<Rightarrow> string \<Rightarrow> 'e option" where
  "parse_enum es raw nm s =
     map_option (enum_of_code es raw) (find (\<lambda>i. nm (enum_of_code es raw i) = s) [0..<256])"

locale named_enum =
  fixes es :: "'e list" and raw :: "8 word \<Rightarrow> 'e" and nm :: "'e \<Rightarrow> string"
  assumes few: "length es < 256"
    and names_distinct: "distinct (map nm es)"
    and names_known: "''UNKNOWN'' \<notin> set (map nm es)"
    and name_raw: "nm (raw w) = ''UNKNOWN''"
begin

lemma name_of_code:
  "nm (enum_of_code es raw i) = (if i < length es then nm (es ! i) else ''UNKNOWN'')"
  by (simp add: enum_of_code_def name_raw)

lemma find_name:
  assumes "k < length es"
  shows "find (\<lambda>i. nm (enum_of_code es raw i) = nm (es ! k)) [0..<256] = Some k"
proof -
  have "nm (enum_of_code es raw i) \<noteq> nm (es ! k)" if "i < k" for i
    using that assms names_distinct by (auto simp: name_of_code distinct_conv_nth)
  moreover have "nm (enum_of_code es raw k) = nm (es ! k)"
    using assms by (simp add: name_of_code)
  ultimately show ?thesis using assms few by (auto simp: find_upt_Some_iff)
qed

text \<open>The name of every enumerator parses back to it.\<close>

lemma parse_name: "e \<in> set es \<Longrightarrow> parse_enum es raw nm (nm e) = Some e"
proof -
  assume "e \<in> set es"
  then obtain k where k: "k < length es" "e = es ! k" by (auto simp: in_set_conv_nth)
  then show ?thesis using find_name [OF k(1)] by (simp add: parse_enum_def enum_of_code_def)
qed

text \<open>A parsed value has the name that was parsed.\<close>

lemma parse_sound: "parse_enum es raw nm s = Some e \<Longrightarrow> nm e = s"
  by (auto simp: parse_enum_def find_upt_Some_iff)

text \<open>
  The fallback name of the \<open>switch\<close> is itself found by the loop: it parses to the first
  byte value that is no enumerator.
\<close>

lemma parse_unknown: "parse_enum es raw nm ''UNKNOWN'' = Some (raw (of_nat (length es)))"
proof -
  have "nm (enum_of_code es raw i) \<noteq> ''UNKNOWN''" if "i < length es" for i
  proof -
    have "nm (es ! i) \<in> set (map nm es)" using that by simp
    then show ?thesis using names_known that by (metis name_of_code)
  qed
  moreover have "nm (enum_of_code es raw (length es)) = ''UNKNOWN''" by (simp add: name_of_code)
  ultimately have "find (\<lambda>i. nm (enum_of_code es raw i) = ''UNKNOWN'') [0..<256] = Some (length es)"
    using few by (auto simp: find_upt_Some_iff)
  then show ?thesis by (simp add: parse_enum_def enum_of_code_def)
qed

lemma parse_None_iff:
  "parse_enum es raw nm s = None \<longleftrightarrow> s \<noteq> ''UNKNOWN'' \<and> s \<notin> nm ` set es"
proof
  assume "parse_enum es raw nm s = None"
  then show "s \<noteq> ''UNKNOWN'' \<and> s \<notin> nm ` set es"
    using parse_unknown parse_name by auto
next
  assume s: "s \<noteq> ''UNKNOWN'' \<and> s \<notin> nm ` set es"
  then have "nm (enum_of_code es raw i) \<noteq> s" for i
    using nth_mem [of i es] by (auto simp: name_of_code)
  then show "parse_enum es raw nm s = None"
    by (simp add: parse_enum_def find_upt_None_iff)
qed

end

section \<open>The enumerations\<close>

datatype quota_type =
    QT_HARD
  | QT_SOFT
  | QT_GUARANTEED
  | QT_BURST
  | QT_BORROWABLE
  | QT_SHARED_POOL
  | QT_raw "8 word"

definition quota_type_list :: "quota_type list" where
  "quota_type_list =
    [QT_HARD,
     QT_SOFT,
     QT_GUARANTEED,
     QT_BURST,
     QT_BORROWABLE,
     QT_SHARED_POOL]"

fun quota_type_name :: "quota_type \<Rightarrow> string" where
  "quota_type_name QT_HARD = ''HARD''"
| "quota_type_name QT_SOFT = ''SOFT''"
| "quota_type_name QT_GUARANTEED = ''GUARANTEED''"
| "quota_type_name QT_BURST = ''BURST''"
| "quota_type_name QT_BORROWABLE = ''BORROWABLE''"
| "quota_type_name QT_SHARED_POOL = ''SHARED_POOL''"
| "quota_type_name (QT_raw _) = ''UNKNOWN''"

datatype overcommit_mode =
    OM_NONE
  | OM_LOGICAL
  | OM_PREDICTION_AWARE
  | OM_raw "8 word"

definition overcommit_mode_list :: "overcommit_mode list" where
  "overcommit_mode_list =
    [OM_NONE,
     OM_LOGICAL,
     OM_PREDICTION_AWARE]"

fun overcommit_mode_name :: "overcommit_mode \<Rightarrow> string" where
  "overcommit_mode_name OM_NONE = ''NONE''"
| "overcommit_mode_name OM_LOGICAL = ''LOGICAL''"
| "overcommit_mode_name OM_PREDICTION_AWARE = ''PREDICTION_AWARE''"
| "overcommit_mode_name (OM_raw _) = ''UNKNOWN''"

datatype decision_code =
    DC_ALLOW
  | DC_ALLOW_GUARANTEED
  | DC_ALLOW_BURST
  | DC_ALLOW_BORROW
  | DC_DEFER
  | DC_DENY_SOFT
  | DC_DENY_HARD
  | DC_DENY_PARENT
  | DC_DENY_PHYSICAL
  | DC_RECALL_REQUIRED
  | DC_RECLAIM_REQUIRED
  | DC_raw "8 word"

definition decision_code_list :: "decision_code list" where
  "decision_code_list =
    [DC_ALLOW,
     DC_ALLOW_GUARANTEED,
     DC_ALLOW_BURST,
     DC_ALLOW_BORROW,
     DC_DEFER,
     DC_DENY_SOFT,
     DC_DENY_HARD,
     DC_DENY_PARENT,
     DC_DENY_PHYSICAL,
     DC_RECALL_REQUIRED,
     DC_RECLAIM_REQUIRED]"

fun decision_code_name :: "decision_code \<Rightarrow> string" where
  "decision_code_name DC_ALLOW = ''ALLOW''"
| "decision_code_name DC_ALLOW_GUARANTEED = ''ALLOW_GUARANTEED''"
| "decision_code_name DC_ALLOW_BURST = ''ALLOW_BURST''"
| "decision_code_name DC_ALLOW_BORROW = ''ALLOW_BORROW''"
| "decision_code_name DC_DEFER = ''DEFER''"
| "decision_code_name DC_DENY_SOFT = ''DENY_SOFT''"
| "decision_code_name DC_DENY_HARD = ''DENY_HARD''"
| "decision_code_name DC_DENY_PARENT = ''DENY_PARENT''"
| "decision_code_name DC_DENY_PHYSICAL = ''DENY_PHYSICAL''"
| "decision_code_name DC_RECALL_REQUIRED = ''RECALL_REQUIRED''"
| "decision_code_name DC_RECLAIM_REQUIRED = ''RECLAIM_REQUIRED''"
| "decision_code_name (DC_raw _) = ''UNKNOWN''"

datatype violation_code =
    VC_NONE
  | VC_SOFT_LIMIT_EXCEEDED
  | VC_HARD_LIMIT_EXCEEDED
  | VC_PARENT_LIMIT_EXCEEDED
  | VC_EXPIRED_BURST
  | VC_EXPIRED_BORROW
  | VC_STALE_RESERVATION
  | VC_INVALID_SHARED_ATTRIBUTION
  | VC_PHYSICAL_CAPACITY_MISMATCH
  | VC_STALE_POLICY
  | VC_STALE_QUOTA_GENERATION
  | VC_STALE_AUTHORITY
  | VC_DUPLICATE_RESERVATION
  | VC_DUPLICATE_RELEASE
  | VC_WRONG_TENANT
  | VC_INVALID_HIERARCHY
  | VC_IMPOSSIBLE_DEBT
  | VC_ATTRIBUTION_MISMATCH
  | VC_RESOURCE_OVERFLOW
  | VC_raw "8 word"

definition violation_code_list :: "violation_code list" where
  "violation_code_list =
    [VC_NONE,
     VC_SOFT_LIMIT_EXCEEDED,
     VC_HARD_LIMIT_EXCEEDED,
     VC_PARENT_LIMIT_EXCEEDED,
     VC_EXPIRED_BURST,
     VC_EXPIRED_BORROW,
     VC_STALE_RESERVATION,
     VC_INVALID_SHARED_ATTRIBUTION,
     VC_PHYSICAL_CAPACITY_MISMATCH,
     VC_STALE_POLICY,
     VC_STALE_QUOTA_GENERATION,
     VC_STALE_AUTHORITY,
     VC_DUPLICATE_RESERVATION,
     VC_DUPLICATE_RELEASE,
     VC_WRONG_TENANT,
     VC_INVALID_HIERARCHY,
     VC_IMPOSSIBLE_DEBT,
     VC_ATTRIBUTION_MISMATCH,
     VC_RESOURCE_OVERFLOW]"

fun violation_code_name :: "violation_code \<Rightarrow> string" where
  "violation_code_name VC_NONE = ''NONE''"
| "violation_code_name VC_SOFT_LIMIT_EXCEEDED = ''SOFT_LIMIT_EXCEEDED''"
| "violation_code_name VC_HARD_LIMIT_EXCEEDED = ''HARD_LIMIT_EXCEEDED''"
| "violation_code_name VC_PARENT_LIMIT_EXCEEDED = ''PARENT_LIMIT_EXCEEDED''"
| "violation_code_name VC_EXPIRED_BURST = ''EXPIRED_BURST''"
| "violation_code_name VC_EXPIRED_BORROW = ''EXPIRED_BORROW''"
| "violation_code_name VC_STALE_RESERVATION = ''STALE_RESERVATION''"
| "violation_code_name VC_INVALID_SHARED_ATTRIBUTION = ''INVALID_SHARED_ATTRIBUTION''"
| "violation_code_name VC_PHYSICAL_CAPACITY_MISMATCH = ''PHYSICAL_CAPACITY_MISMATCH''"
| "violation_code_name VC_STALE_POLICY = ''STALE_POLICY''"
| "violation_code_name VC_STALE_QUOTA_GENERATION = ''STALE_QUOTA_GENERATION''"
| "violation_code_name VC_STALE_AUTHORITY = ''STALE_AUTHORITY''"
| "violation_code_name VC_DUPLICATE_RESERVATION = ''DUPLICATE_RESERVATION''"
| "violation_code_name VC_DUPLICATE_RELEASE = ''DUPLICATE_RELEASE''"
| "violation_code_name VC_WRONG_TENANT = ''WRONG_TENANT''"
| "violation_code_name VC_INVALID_HIERARCHY = ''INVALID_HIERARCHY''"
| "violation_code_name VC_IMPOSSIBLE_DEBT = ''IMPOSSIBLE_DEBT''"
| "violation_code_name VC_ATTRIBUTION_MISMATCH = ''ATTRIBUTION_MISMATCH''"
| "violation_code_name VC_RESOURCE_OVERFLOW = ''RESOURCE_OVERFLOW''"
| "violation_code_name (VC_raw _) = ''UNKNOWN''"

datatype recall_action =
    RA_NO_ACTION
  | RA_STOP_NEW_BORROWING
  | RA_RECALL_BORROWED_CAPACITY
  | RA_REDUCE_BURST
  | RA_REQUEST_RECLAIM
  | RA_REQUEST_DEMOTION
  | RA_REQUEST_PREEMPTION
  | RA_DENY_NEW_RESERVATIONS
  | RA_raw "8 word"

definition recall_action_list :: "recall_action list" where
  "recall_action_list =
    [RA_NO_ACTION,
     RA_STOP_NEW_BORROWING,
     RA_RECALL_BORROWED_CAPACITY,
     RA_REDUCE_BURST,
     RA_REQUEST_RECLAIM,
     RA_REQUEST_DEMOTION,
     RA_REQUEST_PREEMPTION,
     RA_DENY_NEW_RESERVATIONS]"

fun recall_action_name :: "recall_action \<Rightarrow> string" where
  "recall_action_name RA_NO_ACTION = ''NO_ACTION''"
| "recall_action_name RA_STOP_NEW_BORROWING = ''STOP_NEW_BORROWING''"
| "recall_action_name RA_RECALL_BORROWED_CAPACITY = ''RECALL_BORROWED_CAPACITY''"
| "recall_action_name RA_REDUCE_BURST = ''REDUCE_BURST''"
| "recall_action_name RA_REQUEST_RECLAIM = ''REQUEST_RECLAIM''"
| "recall_action_name RA_REQUEST_DEMOTION = ''REQUEST_DEMOTION''"
| "recall_action_name RA_REQUEST_PREEMPTION = ''REQUEST_PREEMPTION''"
| "recall_action_name RA_DENY_NEW_RESERVATIONS = ''DENY_NEW_RESERVATIONS''"
| "recall_action_name (RA_raw _) = ''UNKNOWN''"

datatype attribution_model =
    AM_PHYSICAL_OWNER
  | AM_PROPORTIONAL
  | AM_EQUAL_SHARE
  | AM_LOGICAL_FULL_CHARGE
  | AM_SHARED_SYSTEM_POOL
  | AM_raw "8 word"

definition attribution_model_list :: "attribution_model list" where
  "attribution_model_list =
    [AM_PHYSICAL_OWNER,
     AM_PROPORTIONAL,
     AM_EQUAL_SHARE,
     AM_LOGICAL_FULL_CHARGE,
     AM_SHARED_SYSTEM_POOL]"

fun attribution_model_name :: "attribution_model \<Rightarrow> string" where
  "attribution_model_name AM_PHYSICAL_OWNER = ''PHYSICAL_OWNER''"
| "attribution_model_name AM_PROPORTIONAL = ''PROPORTIONAL''"
| "attribution_model_name AM_EQUAL_SHARE = ''EQUAL_SHARE''"
| "attribution_model_name AM_LOGICAL_FULL_CHARGE = ''LOGICAL_FULL_CHARGE''"
| "attribution_model_name AM_SHARED_SYSTEM_POOL = ''SHARED_SYSTEM_POOL''"
| "attribution_model_name (AM_raw _) = ''UNKNOWN''"

datatype reservation_status =
    RS_PROVISIONAL
  | RS_COMMITTED
  | RS_CONSUMED
  | RS_RELEASED
  | RS_EXPIRED
  | RS_ROLLED_BACK
  | RS_raw "8 word"

definition reservation_status_list :: "reservation_status list" where
  "reservation_status_list =
    [RS_PROVISIONAL,
     RS_COMMITTED,
     RS_CONSUMED,
     RS_RELEASED,
     RS_EXPIRED,
     RS_ROLLED_BACK]"

fun reservation_status_name :: "reservation_status \<Rightarrow> string" where
  "reservation_status_name RS_PROVISIONAL = ''PROVISIONAL''"
| "reservation_status_name RS_COMMITTED = ''COMMITTED''"
| "reservation_status_name RS_CONSUMED = ''CONSUMED''"
| "reservation_status_name RS_RELEASED = ''RELEASED''"
| "reservation_status_name RS_EXPIRED = ''EXPIRED''"
| "reservation_status_name RS_ROLLED_BACK = ''ROLLED_BACK''"
| "reservation_status_name (RS_raw _) = ''UNKNOWN''"

datatype compliance_state =
    CS_COMPLIANT
  | CS_OVER_SOFT
  | CS_OVER_HARD
  | CS_RECALL_REQUIRED
  | CS_RECLAIM_REQUIRED
  | CS_raw "8 word"

definition compliance_state_list :: "compliance_state list" where
  "compliance_state_list =
    [CS_COMPLIANT,
     CS_OVER_SOFT,
     CS_OVER_HARD,
     CS_RECALL_REQUIRED,
     CS_RECLAIM_REQUIRED]"

fun compliance_state_name :: "compliance_state \<Rightarrow> string" where
  "compliance_state_name CS_COMPLIANT = ''COMPLIANT''"
| "compliance_state_name CS_OVER_SOFT = ''OVER_SOFT''"
| "compliance_state_name CS_OVER_HARD = ''OVER_HARD''"
| "compliance_state_name CS_RECALL_REQUIRED = ''RECALL_REQUIRED''"
| "compliance_state_name CS_RECLAIM_REQUIRED = ''RECLAIM_REQUIRED''"
| "compliance_state_name (CS_raw _) = ''UNKNOWN''"

datatype event_type =
    ET_QUOTA_UPDATE
  | ET_RESERVATION
  | ET_RELEASE
  | ET_BURST
  | ET_BORROW
  | ET_LEND
  | ET_RECALL
  | ET_VIOLATION
  | ET_STALE_AUTHORITY_REJECTION
  | ET_NODE_LOSS
  | ET_RECOVERY
  | ET_AGENT_REGISTRATION
  | ET_raw "8 word"

definition event_type_list :: "event_type list" where
  "event_type_list =
    [ET_QUOTA_UPDATE,
     ET_RESERVATION,
     ET_RELEASE,
     ET_BURST,
     ET_BORROW,
     ET_LEND,
     ET_RECALL,
     ET_VIOLATION,
     ET_STALE_AUTHORITY_REJECTION,
     ET_NODE_LOSS,
     ET_RECOVERY,
     ET_AGENT_REGISTRATION]"

fun event_type_name :: "event_type \<Rightarrow> string" where
  "event_type_name ET_QUOTA_UPDATE = ''QUOTA_UPDATE''"
| "event_type_name ET_RESERVATION = ''RESERVATION''"
| "event_type_name ET_RELEASE = ''RELEASE''"
| "event_type_name ET_BURST = ''BURST''"
| "event_type_name ET_BORROW = ''BORROW''"
| "event_type_name ET_LEND = ''LEND''"
| "event_type_name ET_RECALL = ''RECALL''"
| "event_type_name ET_VIOLATION = ''VIOLATION''"
| "event_type_name ET_STALE_AUTHORITY_REJECTION = ''STALE_AUTHORITY_REJECTION''"
| "event_type_name ET_NODE_LOSS = ''NODE_LOSS''"
| "event_type_name ET_RECOVERY = ''RECOVERY''"
| "event_type_name ET_AGENT_REGISTRATION = ''AGENT_REGISTRATION''"
| "event_type_name (ET_raw _) = ''UNKNOWN''"

datatype agent_state =
    AS_REGISTERED
  | AS_ACTIVE
  | AS_LOST
  | AS_raw "8 word"

definition agent_state_list :: "agent_state list" where
  "agent_state_list =
    [AS_REGISTERED,
     AS_ACTIVE,
     AS_LOST]"

fun agent_state_name :: "agent_state \<Rightarrow> string" where
  "agent_state_name AS_REGISTERED = ''REGISTERED''"
| "agent_state_name AS_ACTIVE = ''ACTIVE''"
| "agent_state_name AS_LOST = ''LOST''"
| "agent_state_name (AS_raw _) = ''UNKNOWN''"

datatype tenant_group_kind =
    GK_ORGANIZATION
  | GK_BUSINESS_UNIT
  | GK_TEAM
  | GK_PROJECT
  | GK_ENVIRONMENT
  | GK_SERVICE_CLASS
  | GK_raw "8 word"

definition tenant_group_kind_list :: "tenant_group_kind list" where
  "tenant_group_kind_list =
    [GK_ORGANIZATION,
     GK_BUSINESS_UNIT,
     GK_TEAM,
     GK_PROJECT,
     GK_ENVIRONMENT,
     GK_SERVICE_CLASS]"

fun tenant_group_kind_name :: "tenant_group_kind \<Rightarrow> string" where
  "tenant_group_kind_name GK_ORGANIZATION = ''ORGANIZATION''"
| "tenant_group_kind_name GK_BUSINESS_UNIT = ''BUSINESS_UNIT''"
| "tenant_group_kind_name GK_TEAM = ''TEAM''"
| "tenant_group_kind_name GK_PROJECT = ''PROJECT''"
| "tenant_group_kind_name GK_ENVIRONMENT = ''ENVIRONMENT''"
| "tenant_group_kind_name GK_SERVICE_CLASS = ''SERVICE_CLASS''"
| "tenant_group_kind_name (GK_raw _) = ''UNKNOWN''"

section \<open>Every enumeration meets the contract\<close>

interpretation quota_type_enum: named_enum quota_type_list QT_raw quota_type_name
  by unfold_locales (simp_all add: quota_type_list_def)

interpretation overcommit_mode_enum: named_enum overcommit_mode_list OM_raw overcommit_mode_name
  by unfold_locales (simp_all add: overcommit_mode_list_def)

interpretation decision_code_enum: named_enum decision_code_list DC_raw decision_code_name
  by unfold_locales (simp_all add: decision_code_list_def)

interpretation violation_code_enum: named_enum violation_code_list VC_raw violation_code_name
  by unfold_locales (simp_all add: violation_code_list_def)

interpretation recall_action_enum: named_enum recall_action_list RA_raw recall_action_name
  by unfold_locales (simp_all add: recall_action_list_def)

interpretation attribution_model_enum: named_enum attribution_model_list AM_raw attribution_model_name
  by unfold_locales (simp_all add: attribution_model_list_def)

interpretation reservation_status_enum: named_enum reservation_status_list RS_raw reservation_status_name
  by unfold_locales (simp_all add: reservation_status_list_def)

interpretation compliance_state_enum: named_enum compliance_state_list CS_raw compliance_state_name
  by unfold_locales (simp_all add: compliance_state_list_def)

interpretation event_type_enum: named_enum event_type_list ET_raw event_type_name
  by unfold_locales (simp_all add: event_type_list_def)

interpretation agent_state_enum: named_enum agent_state_list AS_raw agent_state_name
  by unfold_locales (simp_all add: agent_state_list_def)

interpretation tenant_group_kind_enum: named_enum tenant_group_kind_list GK_raw tenant_group_kind_name
  by unfold_locales (simp_all add: tenant_group_kind_list_def)

end
