(* ===== verification/QF_Dimensions.thy ===== *)
theory QF_Dimensions
  imports QF_Prelude
begin

text \<open>
  Resource dimensions and their units: \<open>core/resource_dimension.hpp\<close> and
  \<open>core/resource_dimension.cpp\<close>. A dimension is an array index in the sources; the model
  indexes by the enumerators themselves, so an index outside the seventeen dimensions (which
  the sources only meet after a cast of an unchecked integer) is not a value of the model.
\<close>

section \<open>Dimensions and units\<close>

datatype resource_unit = U_COUNT | U_BYTES | U_MILLISECONDS | U_BYTES_PER_SECOND | U_SLOTS

datatype resource_dimension =
    AcceleratorVRAM
  | PageableHostRAM
  | PinnedHostRAM
  | KVCacheBytes
  | TensorStateBytes
  | PersistentCacheBytes
  | ModelResidencyBytes
  | AdapterResidencyBytes
  | AcceleratorComputeTime
  | AcceleratorExecutionSlots
  | ConcurrentSequences
  | ConcurrentRequests
  | TransferBytes
  | TransferBandwidth
  | StorageBandwidth
  | PersistentStorageBytes
  | CompilationCacheBytes

definition all_resource_dimensions :: "resource_dimension list" where
  "all_resource_dimensions =
    [AcceleratorVRAM, PageableHostRAM,
     PinnedHostRAM, KVCacheBytes,
     TensorStateBytes, PersistentCacheBytes,
     ModelResidencyBytes, AdapterResidencyBytes,
     AcceleratorComputeTime, AcceleratorExecutionSlots,
     ConcurrentSequences, ConcurrentRequests,
     TransferBytes, TransferBandwidth,
     StorageBandwidth, PersistentStorageBytes,
     CompilationCacheBytes]"

fun resource_dimension_name :: "resource_dimension \<Rightarrow> string" where
  "resource_dimension_name AcceleratorVRAM = ''accelerator_vram_bytes''"
| "resource_dimension_name PageableHostRAM = ''pageable_host_ram_bytes''"
| "resource_dimension_name PinnedHostRAM = ''pinned_host_ram_bytes''"
| "resource_dimension_name KVCacheBytes = ''kv_cache_bytes''"
| "resource_dimension_name TensorStateBytes = ''tensor_state_bytes''"
| "resource_dimension_name PersistentCacheBytes = ''persistent_cache_bytes''"
| "resource_dimension_name ModelResidencyBytes = ''model_residency_bytes''"
| "resource_dimension_name AdapterResidencyBytes = ''adapter_residency_bytes''"
| "resource_dimension_name AcceleratorComputeTime = ''accelerator_compute_ms''"
| "resource_dimension_name AcceleratorExecutionSlots = ''accelerator_execution_slots''"
| "resource_dimension_name ConcurrentSequences = ''concurrent_sequences''"
| "resource_dimension_name ConcurrentRequests = ''concurrent_requests''"
| "resource_dimension_name TransferBytes = ''transfer_bytes''"
| "resource_dimension_name TransferBandwidth = ''transfer_bandwidth_bytes_per_sec''"
| "resource_dimension_name StorageBandwidth = ''storage_bandwidth_bytes_per_sec''"
| "resource_dimension_name PersistentStorageBytes = ''persistent_storage_bytes''"
| "resource_dimension_name CompilationCacheBytes = ''compilation_cache_bytes''"

text \<open>The static lookup table of \<open>parse_resource_dimension\<close>.\<close>

definition dimension_table :: "(string, resource_dimension) hmap" where
  "dimension_table =
    [(''accelerator_vram_bytes'', AcceleratorVRAM),
     (''pageable_host_ram_bytes'', PageableHostRAM),
     (''pinned_host_ram_bytes'', PinnedHostRAM),
     (''kv_cache_bytes'', KVCacheBytes),
     (''tensor_state_bytes'', TensorStateBytes),
     (''persistent_cache_bytes'', PersistentCacheBytes),
     (''model_residency_bytes'', ModelResidencyBytes),
     (''adapter_residency_bytes'', AdapterResidencyBytes),
     (''accelerator_compute_ms'', AcceleratorComputeTime),
     (''accelerator_execution_slots'', AcceleratorExecutionSlots),
     (''concurrent_sequences'', ConcurrentSequences),
     (''concurrent_requests'', ConcurrentRequests),
     (''transfer_bytes'', TransferBytes),
     (''transfer_bandwidth_bytes_per_sec'', TransferBandwidth),
     (''storage_bandwidth_bytes_per_sec'', StorageBandwidth),
     (''persistent_storage_bytes'', PersistentStorageBytes),
     (''compilation_cache_bytes'', CompilationCacheBytes)]"

definition parse_resource_dimension :: "string \<Rightarrow> resource_dimension option" where
  "parse_resource_dimension name = map_of dimension_table name"

fun resource_dimension_unit :: "resource_dimension \<Rightarrow> resource_unit" where
  "resource_dimension_unit AcceleratorComputeTime = U_MILLISECONDS"
| "resource_dimension_unit AcceleratorExecutionSlots = U_SLOTS"
| "resource_dimension_unit ConcurrentSequences = U_COUNT"
| "resource_dimension_unit ConcurrentRequests = U_COUNT"
| "resource_dimension_unit TransferBandwidth = U_BYTES_PER_SECOND"
| "resource_dimension_unit StorageBandwidth = U_BYTES_PER_SECOND"
| "resource_dimension_unit _ = U_BYTES"

fun resource_unit_name :: "resource_unit \<Rightarrow> string" where
  "resource_unit_name U_COUNT = ''count''"
| "resource_unit_name U_BYTES = ''bytes''"
| "resource_unit_name U_MILLISECONDS = ''ms''"
| "resource_unit_name U_BYTES_PER_SECOND = ''bytes/sec''"
| "resource_unit_name U_SLOTS = ''slots''"

section \<open>Every dimension is listed once\<close>

lemma all_dimensions_UNIV: "set all_resource_dimensions = UNIV"
proof -
  have "d \<in> set all_resource_dimensions" for d
    by (cases d) (simp_all add: all_resource_dimensions_def)
  then show ?thesis by blast
qed

lemma in_all_dimensions [simp]: "d \<in> set all_resource_dimensions"
  by (simp add: all_dimensions_UNIV)

lemma distinct_all_dimensions [simp]: "distinct all_resource_dimensions"
  by (simp add: all_resource_dimensions_def)

lemma length_all_dimensions: "length all_resource_dimensions = 17"
  by (simp add: all_resource_dimensions_def)

instantiation resource_dimension :: enum
begin

definition enum_resource_dimension :: "resource_dimension list" where
  "enum_resource_dimension = all_resource_dimensions"

definition enum_all_resource_dimension :: "(resource_dimension \<Rightarrow> bool) \<Rightarrow> bool" where
  "enum_all_resource_dimension P \<longleftrightarrow> list_all P all_resource_dimensions"

definition enum_ex_resource_dimension :: "(resource_dimension \<Rightarrow> bool) \<Rightarrow> bool" where
  "enum_ex_resource_dimension P \<longleftrightarrow> list_ex P all_resource_dimensions"

instance
  by standard
    (simp_all add: enum_resource_dimension_def enum_all_resource_dimension_def
      enum_ex_resource_dimension_def list_all_iff list_ex_iff all_dimensions_UNIV)

end

text \<open>The loop \<open>for (const auto d : all_resource_dimensions())\<close> as a conjunction.\<close>

lemma list_all_dimensions [simp]: "list_all P all_resource_dimensions \<longleftrightarrow> (\<forall>d. P d)"
  by (simp add: list_all_iff all_dimensions_UNIV)

lemma list_ex_dimensions [simp]: "list_ex P all_resource_dimensions \<longleftrightarrow> (\<exists>d. P d)"
  by (simp add: list_ex_iff all_dimensions_UNIV)

section \<open>Names\<close>

lemma parse_resource_dimension_name:
  "parse_resource_dimension (resource_dimension_name d) = Some d"
  by (cases d) (simp_all add: parse_resource_dimension_def dimension_table_def)

lemma parse_resource_dimension_sound:
  "parse_resource_dimension s = Some d \<Longrightarrow> resource_dimension_name d = s"
  by (auto simp: parse_resource_dimension_def dimension_table_def split: if_splits)

lemma resource_dimension_name_inj: "inj resource_dimension_name"
  by (rule inj_on_inverseI [of _ "\<lambda>s. the (parse_resource_dimension s)"])
    (simp add: parse_resource_dimension_name)

text \<open>No name holds a separator of the textual form of a vector.\<close>

lemma dimension_name_chars:
  "CHR ''='' \<notin> set (resource_dimension_name d)" "CHR '','' \<notin> set (resource_dimension_name d)"
  by (cases d; simp)+

end
