(* ===== verification/QF_Vector.thy ===== *)
theory QF_Vector
  imports QF_Dimensions "HOL-Library.Multiset"
begin

text \<open>
  The multidimensional amount vectors of \<open>core/resource_vector.hpp\<close>. The two C++ arrays
  \<open>v_\<close> and \<open>present_\<close> are functions from the dimension. Loops over the array are recursive
  functions over the list of dimensions with the same early returns, so that a failing
  \<open>add\<close> or \<open>sub\<close> leaves the dimensions before the failing one changed, as in the
  sources. \<open>rv_ok\<close> is the invariant of the class: amounts are in \<open>[0, INT64_MAX]\<close> and
  an absent dimension holds 0.
\<close>

section \<open>ResourceVector\<close>

datatype arithmetic_status = Arith_Ok | Arith_Overflow | Arith_Underflow | Arith_Negative

record resource_vector =
  rv_val :: "resource_dimension \<Rightarrow> int"
  rv_present :: "resource_dimension \<Rightarrow> bool"

definition rv_empty :: resource_vector where
  "rv_empty = \<lparr>rv_val = (\<lambda>_. 0), rv_present = (\<lambda>_. False)\<rparr>"

definition rv_of_storage :: "(resource_dimension \<Rightarrow> int) \<Rightarrow> resource_vector" where
  "rv_of_storage s = \<lparr>rv_val = s, rv_present = (\<lambda>_. True)\<rparr>"

abbreviation rv_get :: "resource_vector \<Rightarrow> resource_dimension \<Rightarrow> int" where
  "rv_get \<equiv> rv_val"

definition rv_has :: "resource_vector \<Rightarrow> resource_dimension \<Rightarrow> bool" where
  "rv_has r d \<longleftrightarrow> rv_present r d \<and> rv_get r d \<noteq> 0"

text \<open>\<open>v_[i] = x; present_[i] = true;\<close>\<close>

definition rv_store :: "resource_vector \<Rightarrow> resource_dimension \<Rightarrow> int \<Rightarrow> resource_vector" where
  "rv_store r d x = \<lparr>rv_val = (rv_val r)(d := x), rv_present = (rv_present r)(d := True)\<rparr>"

definition rv_set :: "resource_vector \<Rightarrow> resource_dimension \<Rightarrow> int \<Rightarrow> bool \<times> resource_vector" where
  "rv_set r d amount = (if amount < 0 then (False, r) else (True, rv_store r d amount))"

text \<open>A call of \<open>set\<close> whose result is ignored.\<close>

definition rv_put :: "resource_vector \<Rightarrow> resource_dimension \<Rightarrow> int \<Rightarrow> resource_vector" where
  "rv_put r d amount = snd (rv_set r d amount)"

definition rv_from_scalar :: "resource_dimension \<Rightarrow> int \<Rightarrow> resource_vector" where
  "rv_from_scalar d amount = rv_put rv_empty d amount"

definition rv_unset :: "resource_vector \<Rightarrow> resource_dimension \<Rightarrow> resource_vector" where
  "rv_unset r d = \<lparr>rv_val = (rv_val r)(d := 0), rv_present = (rv_present r)(d := False)\<rparr>"

definition rv_clear :: "resource_vector \<Rightarrow> resource_vector" where
  "rv_clear r = rv_empty"

definition rv_is_empty :: "resource_vector \<Rightarrow> bool" where
  "rv_is_empty r \<longleftrightarrow> list_all (\<lambda>d. \<not> rv_present r d) all_resource_dimensions"

definition rv_present_count :: "resource_vector \<Rightarrow> nat" where
  "rv_present_count r = length (filter (rv_present r) all_resource_dimensions)"

fun rv_add_loop ::
  "resource_dimension list \<Rightarrow> bool \<Rightarrow> resource_vector \<Rightarrow> resource_vector
     \<Rightarrow> arithmetic_status \<times> resource_vector" where
  "rv_add_loop [] saturate r x = (Arith_Ok, r)"
| "rv_add_loop (d # ds) saturate r x =
     (let a = rv_val r d; b = rv_val x d; pb = rv_present x d in
      if \<not> pb then rv_add_loop ds saturate r x
      else if b > 0 \<and> a > INT64_MAX - b then
        (if saturate then rv_add_loop ds saturate (rv_store r d INT64_MAX) x
         else (Arith_Overflow, r))
      else rv_add_loop ds saturate (rv_store r d (add64 a b)) x)"

definition rv_add :: "resource_vector \<Rightarrow> resource_vector \<Rightarrow> bool \<Rightarrow> arithmetic_status \<times> resource_vector" where
  "rv_add r x saturate = rv_add_loop all_resource_dimensions saturate r x"

text \<open>A call \<open>r.add(x)\<close> whose status is ignored.\<close>

definition rv_acc :: "resource_vector \<Rightarrow> resource_vector \<Rightarrow> resource_vector" where
  "rv_acc r x = snd (rv_add r x False)"

fun rv_sub_loop ::
  "resource_dimension list \<Rightarrow> bool \<Rightarrow> resource_vector \<Rightarrow> resource_vector
     \<Rightarrow> arithmetic_status \<times> resource_vector" where
  "rv_sub_loop [] saturate r x = (Arith_Ok, r)"
| "rv_sub_loop (d # ds) saturate r x =
     (let a = rv_val r d; b = rv_val x d; pa = rv_present r d; pb = rv_present x d in
      if \<not> pb \<or> \<not> pa then rv_sub_loop ds saturate r x
      else if a < b then
        (if saturate then rv_sub_loop ds saturate (rv_put r d 0) x
         else (Arith_Underflow, r))
      else rv_sub_loop ds saturate (r\<lparr>rv_val := (rv_val r)(d := sub64 a b)\<rparr>) x)"

definition rv_sub :: "resource_vector \<Rightarrow> resource_vector \<Rightarrow> bool \<Rightarrow> arithmetic_status \<times> resource_vector" where
  "rv_sub r x saturate = rv_sub_loop all_resource_dimensions saturate r x"

text \<open>A call \<open>r.sub(x, true)\<close>.\<close>

definition rv_sub_sat :: "resource_vector \<Rightarrow> resource_vector \<Rightarrow> resource_vector" where
  "rv_sub_sat r x = snd (rv_sub r x True)"

text \<open>
  \<open>scale\<close> multiplies in \<open>std::uint64_t\<close> and casts back; the guard compares with
  \<open>UINT64_MAX / factor\<close>.
\<close>

definition scale_amount :: "int \<Rightarrow> 64 word \<Rightarrow> int" where
  "scale_amount v factor =
     (if factor \<noteq> 0 \<and> v > 0 \<and> (of_int v :: 64 word) > (-1) div factor then INT64_MAX
      else sint ((of_int v :: 64 word) * factor))"

definition rv_scale :: "resource_vector \<Rightarrow> 64 word \<Rightarrow> resource_vector" where
  "rv_scale r factor =
     r\<lparr>rv_val := (\<lambda>d. if rv_present r d then scale_amount (rv_val r d) factor else rv_val r d)\<rparr>"

definition rv_covers :: "resource_vector \<Rightarrow> resource_vector \<Rightarrow> bool" where
  "rv_covers r x \<longleftrightarrow>
     list_all (\<lambda>d. \<not> (rv_present x d \<and> (\<not> rv_present r d \<or> rv_val r d < rv_val x d)))
       all_resource_dimensions"

definition rv_min :: "resource_vector \<Rightarrow> resource_vector \<Rightarrow> resource_vector" where
  "rv_min a b =
     fold (\<lambda>d r.
        if \<not> rv_present a d \<and> \<not> rv_present b d then r
        else if \<not> rv_present a d then rv_put r d (rv_val b d)
        else if \<not> rv_present b d then rv_put r d (rv_val a d)
        else rv_put r d (min (rv_val a d) (rv_val b d)))
       all_resource_dimensions rv_empty"

definition rv_max :: "resource_vector \<Rightarrow> resource_vector \<Rightarrow> resource_vector" where
  "rv_max a b =
     fold (\<lambda>d r.
        if \<not> rv_present a d \<and> \<not> rv_present b d then r
        else if \<not> rv_present a d then rv_put r d (rv_val b d)
        else if \<not> rv_present b d then rv_put r d (rv_val a d)
        else rv_put r d (max (rv_val a d) (rv_val b d)))
       all_resource_dimensions rv_empty"

definition rv_sum :: "resource_vector list \<Rightarrow> resource_vector" where
  "rv_sum items = foldl rv_acc rv_empty items"

definition rv_diff_clamp :: "resource_vector \<Rightarrow> resource_vector \<Rightarrow> resource_vector" where
  "rv_diff_clamp a b =
     fold (\<lambda>d r.
        if \<not> rv_present a d \<and> \<not> rv_present b d then r
        else let av = (if rv_present a d then rv_val a d else 0);
                 bv = (if rv_present b d then rv_val b d else 0);
                 x = sub64 av bv
             in rv_put r d (if x > 0 then x else 0))
       all_resource_dimensions rv_empty"

definition rv_eq :: "resource_vector \<Rightarrow> resource_vector \<Rightarrow> bool" where
  "rv_eq a b \<longleftrightarrow>
     list_all (\<lambda>d. rv_val a d = rv_val b d \<and> rv_present a d = rv_present b d) all_resource_dimensions"

section \<open>The class invariant\<close>

definition rv_ok :: "resource_vector \<Rightarrow> bool" where
  "rv_ok r \<longleftrightarrow>
     (\<forall>d. 0 \<le> rv_val r d \<and> rv_val r d \<le> INT64_MAX \<and> (\<not> rv_present r d \<longrightarrow> rv_val r d = 0))"

lemma rv_okD:
  assumes "rv_ok r"
  shows "0 \<le> rv_val r d" "rv_val r d \<le> INT64_MAX" "\<not> rv_present r d \<Longrightarrow> rv_val r d = 0"
  using assms by (auto simp: rv_ok_def)

lemma rv_eqI:
  "(\<And>d. rv_val a d = rv_val b d) \<Longrightarrow> (\<And>d. rv_present a d = rv_present b d) \<Longrightarrow> a = (b :: resource_vector)"
  by (rule resource_vector.equality) auto

lemma rv_eq_iff [simp]: "rv_eq a b \<longleftrightarrow> a = b"
  by (auto simp: rv_eq_def intro: rv_eqI)

lemma rv_empty_simps [simp]:
  "rv_val rv_empty d = 0" "\<not> rv_present rv_empty d"
  by (simp_all add: rv_empty_def)

lemma rv_store_simps [simp]:
  "rv_val (rv_store r d x) e = (if e = d then x else rv_val r e)"
  "rv_present (rv_store r d x) e = (e = d \<or> rv_present r e)"
  by (simp_all add: rv_store_def)

lemma rv_put_simps [simp]:
  "rv_val (rv_put r d x) e = (if e = d \<and> 0 \<le> x then x else rv_val r e)"
  "rv_present (rv_put r d x) e = ((e = d \<and> 0 \<le> x) \<or> rv_present r e)"
  by (auto simp: rv_put_def rv_set_def)

lemma rv_clear_eq [simp]: "rv_clear r = rv_empty"
  by (simp add: rv_clear_def)

lemma rv_is_empty_iff: "rv_is_empty r \<longleftrightarrow> (\<forall>d. \<not> rv_present r d)"
  by (simp add: rv_is_empty_def)

lemma rv_present_count_zero: "rv_present_count r = 0 \<longleftrightarrow> rv_is_empty r"
  by (auto simp: rv_present_count_def rv_is_empty_iff filter_empty_conv)

lemma rv_ok_empty [simp]: "rv_ok rv_empty"
  by (simp add: rv_ok_def)

lemma rv_ok_store: "rv_ok r \<Longrightarrow> 0 \<le> x \<Longrightarrow> x \<le> INT64_MAX \<Longrightarrow> rv_ok (rv_store r d x)"
  by (auto simp: rv_ok_def)

lemma rv_ok_put: "rv_ok r \<Longrightarrow> x \<le> INT64_MAX \<Longrightarrow> rv_ok (rv_put r d x)"
  by (auto simp: rv_ok_def)

lemma rv_ok_from_scalar: "x \<le> INT64_MAX \<Longrightarrow> rv_ok (rv_from_scalar d x)"
  by (simp add: rv_from_scalar_def rv_ok_put)

lemma rv_ok_unset: "rv_ok r \<Longrightarrow> rv_ok (rv_unset r d)"
  by (auto simp: rv_ok_def rv_unset_def)

lemma rv_ok_empty_eq: "rv_ok r \<Longrightarrow> rv_is_empty r \<Longrightarrow> r = rv_empty"
  by (rule rv_eqI) (auto simp: rv_ok_def rv_is_empty_iff)

section \<open>Checked addition\<close>

definition add_overflows :: "resource_vector \<Rightarrow> resource_vector \<Rightarrow> resource_dimension \<Rightarrow> bool" where
  "add_overflows r x d \<longleftrightarrow> rv_present x d \<and> rv_val x d > 0 \<and> rv_val r d > INT64_MAX - rv_val x d"

definition rv_fits :: "resource_vector \<Rightarrow> resource_vector \<Rightarrow> bool" where
  "rv_fits r x \<longleftrightarrow> (\<forall>d. \<not> add_overflows r x d)"

definition rv_plus :: "resource_vector \<Rightarrow> resource_vector \<Rightarrow> resource_vector" where
  "rv_plus r x =
     \<lparr>rv_val = (\<lambda>d. if rv_present x d then rv_val r d + rv_val x d else rv_val r d),
      rv_present = (\<lambda>d. rv_present r d \<or> rv_present x d)\<rparr>"

lemma rv_plus_simps [simp]:
  "rv_val (rv_plus r x) d = (if rv_present x d then rv_val r d + rv_val x d else rv_val r d)"
  "rv_present (rv_plus r x) d = (rv_present r d \<or> rv_present x d)"
  by (simp_all add: rv_plus_def)

lemma rv_fitsI:
  "rv_ok r \<Longrightarrow> (\<And>d. rv_val r d + rv_val x d \<le> INT64_MAX) \<Longrightarrow> rv_fits r x"
  unfolding rv_fits_def add_overflows_def
  by (metis add_le_imp_le_diff not_less)

lemma rv_fits_le:
  assumes "rv_ok r" "rv_ok x" "rv_fits r x"
  shows "rv_val r d + rv_val x d \<le> INT64_MAX"
proof (cases "rv_present x d \<and> rv_val x d > 0")
  case True
  with assms(3) show ?thesis by (auto simp: rv_fits_def add_overflows_def not_less)
next
  case False
  with assms(1,2) have "rv_val x d = 0" by (metis rv_okD(1,3) order_le_less)
  with assms(1) show ?thesis by (simp add: rv_okD)
qed

lemma add_overflows_store_other:
  "e \<noteq> d \<Longrightarrow> add_overflows (rv_store r d y) x e = add_overflows r x e"
  by (simp add: add_overflows_def)

text \<open>What the loop has done after visiting the dimensions \<open>ds\<close> without an early return.\<close>

definition rv_plus_on :: "resource_dimension set \<Rightarrow> bool \<Rightarrow> resource_vector \<Rightarrow> resource_vector \<Rightarrow> resource_vector" where
  "rv_plus_on D saturate r x =
     \<lparr>rv_val = (\<lambda>d. if d \<in> D \<and> rv_present x d
                    then if saturate \<and> add_overflows r x d then INT64_MAX
                         else add64 (rv_val r d) (rv_val x d)
                    else rv_val r d),
      rv_present = (\<lambda>d. rv_present r d \<or> (d \<in> D \<and> rv_present x d))\<rparr>"

lemma rv_plus_on_simps [simp]:
  "rv_val (rv_plus_on D saturate r x) d =
     (if d \<in> D \<and> rv_present x d
      then if saturate \<and> add_overflows r x d then INT64_MAX else add64 (rv_val r d) (rv_val x d)
      else rv_val r d)"
  "rv_present (rv_plus_on D saturate r x) d = (rv_present r d \<or> (d \<in> D \<and> rv_present x d))"
  by (simp_all add: rv_plus_on_def)

lemma rv_add_loop_done:
  assumes "distinct ds" and "saturate \<or> (\<forall>d \<in> set ds. \<not> add_overflows r x d)"
  shows "rv_add_loop ds saturate r x = (Arith_Ok, rv_plus_on (set ds) saturate r x)"
  using assms
proof (induction ds arbitrary: r)
  case Nil
  have "rv_plus_on {} saturate r x = r" by (rule rv_eqI) auto
  then show ?case by simp
next
  case (Cons d ds)
  let ?y = "if saturate \<and> add_overflows r x d then INT64_MAX else add64 (rv_val r d) (rv_val x d)"
  let ?r = "if rv_present x d then rv_store r d ?y else r"
  have ov: "add_overflows ?r x e = add_overflows r x e" if "e \<in> set ds" for e
  proof -
    have "e \<noteq> d" using that Cons.prems(1) by auto
    then show ?thesis by (simp add: add_overflows_store_other)
  qed
  have step: "rv_add_loop (d # ds) saturate r x = rv_add_loop ds saturate ?r x"
    using Cons.prems(2) by (auto simp: Let_def add_overflows_def)
  have "rv_add_loop ds saturate ?r x = (Arith_Ok, rv_plus_on (set ds) saturate ?r x)"
    using Cons.prems ov by (intro Cons.IH) auto
  moreover have "rv_plus_on (set ds) saturate ?r x = rv_plus_on (set (d # ds)) saturate r x"
    using Cons.prems(1) ov by (intro rv_eqI) auto
  ultimately show ?case using step by simp
qed

lemma rv_add_loop_overflow:
  "distinct ds \<Longrightarrow> \<exists>d \<in> set ds. add_overflows r x d \<Longrightarrow>
   fst (rv_add_loop ds False r x) = Arith_Overflow"
proof (induction ds arbitrary: r)
  case (Cons d ds)
  show ?case
  proof (cases "add_overflows r x d")
    case True
    then show ?thesis by (simp add: Let_def add_overflows_def)
  next
    case False
    let ?r = "if rv_present x d then rv_store r d (add64 (rv_val r d) (rv_val x d)) else r"
    have "rv_add_loop (d # ds) False r x = rv_add_loop ds False ?r x"
      using False by (auto simp: Let_def add_overflows_def)
    moreover have "\<exists>e \<in> set ds. add_overflows ?r x e"
    proof -
      obtain e where e: "e \<in> set ds" "add_overflows r x e" "e \<noteq> d"
        using Cons.prems False by auto
      then have "add_overflows ?r x e" by (simp add: add_overflows_store_other)
      with e show ?thesis by blast
    qed
    ultimately show ?thesis using Cons by simp
  qed
qed simp

lemma rv_ok_add_loop: "rv_ok r \<Longrightarrow> rv_ok x \<Longrightarrow> rv_ok (snd (rv_add_loop ds saturate r x))"
proof (induction ds arbitrary: r)
  case (Cons d ds)
  have "rv_ok (rv_store r d (add64 (rv_val r d) (rv_val x d)))"
    if "\<not> (0 < rv_val x d \<and> INT64_MAX - rv_val x d < rv_val r d)"
  proof (rule rv_ok_store)
    from that Cons.prems have "rv_val r d \<le> INT64_MAX - rv_val x d"
      using rv_okD(1,2) [of r d] rv_okD(1) [of x d] by linarith
    then show "0 \<le> add64 (rv_val r d) (rv_val x d)" "add64 (rv_val r d) (rv_val x d) \<le> INT64_MAX"
      using Cons.prems by (auto simp: add64_nonneg rv_okD)
  qed (rule Cons.prems)
  then show ?case
    using Cons by (auto simp: Let_def rv_ok_store)
qed simp

lemma rv_ok_acc: "rv_ok r \<Longrightarrow> rv_ok x \<Longrightarrow> rv_ok (rv_acc r x)"
  by (simp add: rv_acc_def rv_add_def rv_ok_add_loop)

lemma rv_ok_plus: "rv_ok r \<Longrightarrow> rv_ok x \<Longrightarrow> rv_fits r x \<Longrightarrow> rv_ok (rv_plus r x)"
  using rv_fits_le [of r x] by (auto simp: rv_ok_def)

text \<open>Without overflow the addition is the pointwise sum, saturating or not.\<close>

lemma rv_add_fits:
  assumes "rv_ok r" "rv_ok x" "rv_fits r x"
  shows "rv_add r x saturate = (Arith_Ok, rv_plus r x)"
proof -
  have "rv_add r x saturate = (Arith_Ok, rv_plus_on UNIV saturate r x)"
    using assms(3) unfolding rv_add_def
    by (subst rv_add_loop_done) (auto simp: rv_fits_def all_dimensions_UNIV)
  moreover have "rv_plus_on UNIV saturate r x = rv_plus r x"
    using assms rv_fits_le [OF assms]
    by (intro rv_eqI) (auto simp: rv_fits_def add64_nonneg rv_okD add_le_imp_le_diff)
  ultimately show ?thesis by simp
qed

lemma rv_acc_fits: "rv_ok r \<Longrightarrow> rv_ok x \<Longrightarrow> rv_fits r x \<Longrightarrow> rv_acc r x = rv_plus r x"
  by (simp add: rv_acc_def rv_add_fits)

lemma rv_add_status:
  "rv_ok r \<Longrightarrow> rv_ok x \<Longrightarrow> fst (rv_add r x False) = (if rv_fits r x then Arith_Ok else Arith_Overflow)"
proof (cases "rv_fits r x")
  case False
  then have "\<exists>d \<in> set all_resource_dimensions. add_overflows r x d"
    by (simp add: rv_fits_def all_dimensions_UNIV)
  with False show ?thesis by (simp add: rv_add_def rv_add_loop_overflow)
qed (simp add: rv_add_fits)

lemma rv_acc_empty_right [simp]: "rv_acc r rv_empty = r"
proof -
  have "rv_add_loop ds s r rv_empty = (Arith_Ok, r)" for ds s by (induction ds) auto
  then show ?thesis by (simp add: rv_acc_def rv_add_def)
qed

lemma rv_acc_empty_left: "rv_ok x \<Longrightarrow> rv_acc rv_empty x = x"
proof -
  assume x: "rv_ok x"
  have "rv_fits rv_empty x" using x by (intro rv_fitsI) (auto simp: rv_okD)
  then have "rv_acc rv_empty x = rv_plus rv_empty x" using x by (simp add: rv_acc_fits)
  also have "\<dots> = x" using x by (intro rv_eqI) (auto simp: rv_okD)
  finally show ?thesis .
qed

section \<open>Checked subtraction\<close>

text \<open>The saturating subtraction, as a closed form.\<close>

definition rv_minus :: "resource_vector \<Rightarrow> resource_vector \<Rightarrow> resource_vector" where
  "rv_minus r x =
     r\<lparr>rv_val := (\<lambda>d. if rv_present r d \<and> rv_present x d
                    then max 0 (rv_val r d - rv_val x d) else rv_val r d)\<rparr>"

lemma rv_minus_simps [simp]:
  "rv_val (rv_minus r x) d =
     (if rv_present r d \<and> rv_present x d then max 0 (rv_val r d - rv_val x d) else rv_val r d)"
  "rv_present (rv_minus r x) d = rv_present r d"
  by (simp_all add: rv_minus_def)

definition sub_underflows :: "resource_vector \<Rightarrow> resource_vector \<Rightarrow> resource_dimension \<Rightarrow> bool" where
  "sub_underflows r x d \<longleftrightarrow> rv_present r d \<and> rv_present x d \<and> rv_val r d < rv_val x d"

definition rv_minus_on :: "resource_dimension set \<Rightarrow> resource_vector \<Rightarrow> resource_vector \<Rightarrow> resource_vector" where
  "rv_minus_on D r x =
     r\<lparr>rv_val := (\<lambda>d. if d \<in> D \<and> rv_present r d \<and> rv_present x d
                    then max 0 (rv_val r d - rv_val x d) else rv_val r d)\<rparr>"

lemma rv_minus_on_simps [simp]:
  "rv_val (rv_minus_on D r x) d =
     (if d \<in> D \<and> rv_present r d \<and> rv_present x d then max 0 (rv_val r d - rv_val x d) else rv_val r d)"
  "rv_present (rv_minus_on D r x) d = rv_present r d"
  by (simp_all add: rv_minus_on_def)

lemma rv_sub_loop_done:
  assumes "rv_ok r" "rv_ok x" "distinct ds"
    and "saturate \<or> (\<forall>d \<in> set ds. \<not> sub_underflows r x d)"
  shows "rv_sub_loop ds saturate r x = (Arith_Ok, rv_minus_on (set ds) r x)"
  using assms
proof (induction ds arbitrary: r)
  case Nil
  have "rv_minus_on {} r x = r" by (rule rv_eqI) auto
  then show ?case by simp
next
  case (Cons d ds)
  let ?r = "rv_minus_on {d} r x"
  have sub: "sub64 (rv_val r d) (rv_val x d) = rv_val r d - rv_val x d"
    using Cons.prems(1,2) by (simp add: sub64_nonneg rv_okD)
  have step: "rv_sub_loop (d # ds) saturate r x = rv_sub_loop ds saturate ?r x"
  proof -
    have "?r = r" if "\<not> rv_present x d \<or> \<not> rv_present r d"
      using that by (intro rv_eqI) auto
    moreover have "?r = rv_put r d 0"
      if "rv_present x d" "rv_present r d" "rv_val r d < rv_val x d"
      using that by (intro rv_eqI) auto
    moreover have "?r = r\<lparr>rv_val := (rv_val r)(d := sub64 (rv_val r d) (rv_val x d))\<rparr>"
      if "rv_present x d" "rv_present r d" "\<not> rv_val r d < rv_val x d"
      using that by (intro rv_eqI) (auto simp: sub)
    ultimately show ?thesis
      using Cons.prems(4) by (auto simp: Let_def sub_underflows_def)
  qed
  have ok: "rv_ok ?r"
    using Cons.prems(1,2) unfolding rv_ok_def by (auto simp: max_def) (smt (verit))
  have uf: "sub_underflows ?r x e = sub_underflows r x e" if "e \<in> set ds" for e
  proof -
    have "e \<noteq> d" using that Cons.prems(3) by auto
    then show ?thesis by (simp add: sub_underflows_def)
  qed
  have "rv_sub_loop ds saturate ?r x = (Arith_Ok, rv_minus_on (set ds) ?r x)"
    using Cons.prems ok uf by (intro Cons.IH) auto
  moreover have "rv_minus_on (set ds) ?r x = rv_minus_on (set (d # ds)) r x"
    using Cons.prems(3) by (intro rv_eqI) auto
  ultimately show ?case using step by simp
qed

lemma rv_minus_on_UNIV: "rv_minus_on UNIV r x = rv_minus r x"
  by (rule rv_eqI) auto

lemma rv_sub_sat_eq: "rv_ok r \<Longrightarrow> rv_ok x \<Longrightarrow> rv_sub_sat r x = rv_minus r x"
  by (simp add: rv_sub_sat_def rv_sub_def rv_sub_loop_done all_dimensions_UNIV rv_minus_on_UNIV)

lemma rv_sub_ok:
  "rv_ok r \<Longrightarrow> rv_ok x \<Longrightarrow> (\<forall>d. \<not> sub_underflows r x d) \<Longrightarrow> rv_sub r x saturate = (Arith_Ok, rv_minus r x)"
  by (simp add: rv_sub_def rv_sub_loop_done all_dimensions_UNIV rv_minus_on_UNIV)

lemma rv_ok_minus: "rv_ok r \<Longrightarrow> rv_ok x \<Longrightarrow> rv_ok (rv_minus r x)"
  unfolding rv_ok_def by (auto simp: max_def) (smt (verit))

lemma rv_ok_sub_sat: "rv_ok r \<Longrightarrow> rv_ok x \<Longrightarrow> rv_ok (rv_sub_sat r x)"
  by (simp add: rv_sub_sat_eq rv_ok_minus)

section \<open>Pointwise minimum, maximum and difference\<close>

text \<open>The shape of the loops that fill a fresh vector dimension by dimension.\<close>

lemma fold_put:
  "distinct ds \<Longrightarrow>
   rv_val (fold (\<lambda>d r. if c d then rv_put r d (f d) else r) ds r0) e =
     (if e \<in> set ds \<and> c e \<and> 0 \<le> f e then f e else rv_val r0 e) \<and>
   rv_present (fold (\<lambda>d r. if c d then rv_put r d (f d) else r) ds r0) e =
     ((e \<in> set ds \<and> c e \<and> 0 \<le> f e) \<or> rv_present r0 e)"
  by (induction ds arbitrary: r0) auto

lemma rv_min_as_put:
  "rv_min a b = fold (\<lambda>d r. if rv_present a d \<or> rv_present b d
      then rv_put r d (if \<not> rv_present a d then rv_val b d
                       else if \<not> rv_present b d then rv_val a d
                       else min (rv_val a d) (rv_val b d)) else r)
    all_resource_dimensions rv_empty"
  unfolding rv_min_def by (rule arg_cong [where f = "\<lambda>g. fold g _ _"]) (auto simp: fun_eq_iff)

lemma rv_max_as_put:
  "rv_max a b = fold (\<lambda>d r. if rv_present a d \<or> rv_present b d
      then rv_put r d (if \<not> rv_present a d then rv_val b d
                       else if \<not> rv_present b d then rv_val a d
                       else max (rv_val a d) (rv_val b d)) else r)
    all_resource_dimensions rv_empty"
  unfolding rv_max_def by (rule arg_cong [where f = "\<lambda>g. fold g _ _"]) (auto simp: fun_eq_iff)

lemma rv_min_val:
  assumes "rv_ok a" "rv_ok b"
  shows "rv_val (rv_min a b) d =
      (if \<not> rv_present a d then rv_val b d else if \<not> rv_present b d then rv_val a d
       else min (rv_val a d) (rv_val b d))"
    and "rv_present (rv_min a b) d \<longleftrightarrow> rv_present a d \<or> rv_present b d"
  using assms unfolding rv_min_as_put by (auto simp: fold_put rv_okD min_def)

lemma rv_max_val:
  assumes "rv_ok a" "rv_ok b"
  shows "rv_val (rv_max a b) d =
      (if \<not> rv_present a d then rv_val b d else if \<not> rv_present b d then rv_val a d
       else max (rv_val a d) (rv_val b d))"
    and "rv_present (rv_max a b) d \<longleftrightarrow> rv_present a d \<or> rv_present b d"
  using assms unfolding rv_max_as_put by (auto simp: fold_put rv_okD max_def)

lemma rv_ok_min: "rv_ok a \<Longrightarrow> rv_ok b \<Longrightarrow> rv_ok (rv_min a b)"
  unfolding rv_ok_def [of "rv_min a b"] by (auto simp: rv_min_val rv_okD min_def)

lemma rv_ok_max: "rv_ok a \<Longrightarrow> rv_ok b \<Longrightarrow> rv_ok (rv_max a b)"
  unfolding rv_ok_def [of "rv_max a b"] by (auto simp: rv_max_val rv_okD max_def)

lemma rv_diff_clamp_as_put:
  "rv_diff_clamp a b = fold (\<lambda>d r. if rv_present a d \<or> rv_present b d
      then rv_put r d (let x = sub64 (if rv_present a d then rv_val a d else 0)
                                     (if rv_present b d then rv_val b d else 0)
                       in if x > 0 then x else 0) else r)
    all_resource_dimensions rv_empty"
  unfolding rv_diff_clamp_def
  by (rule arg_cong [where f = "\<lambda>g. fold g _ _"]) (auto simp: fun_eq_iff Let_def)

lemma rv_diff_clamp_val:
  assumes "rv_ok a" "rv_ok b"
  shows "rv_val (rv_diff_clamp a b) d = max 0 (rv_val a d - rv_val b d)"
    and "rv_present (rv_diff_clamp a b) d \<longleftrightarrow> rv_present a d \<or> rv_present b d"
proof -
  have "sub64 (if rv_present a d then rv_val a d else 0) (if rv_present b d then rv_val b d else 0)
      = rv_val a d - rv_val b d"
    using assms by (auto simp: sub64_nonneg rv_okD)
  then show "rv_val (rv_diff_clamp a b) d = max 0 (rv_val a d - rv_val b d)"
    and "rv_present (rv_diff_clamp a b) d \<longleftrightarrow> rv_present a d \<or> rv_present b d"
    using assms unfolding rv_diff_clamp_as_put
    by (auto simp: fold_put Let_def rv_okD max_def)
qed

lemma rv_ok_diff_clamp: "rv_ok a \<Longrightarrow> rv_ok b \<Longrightarrow> rv_ok (rv_diff_clamp a b)"
  unfolding rv_ok_def [of "rv_diff_clamp a b"]
  by (auto simp: rv_diff_clamp_val rv_okD max_def) (smt (verit) rv_okD)+

lemma rv_covers_iff:
  "rv_covers r x \<longleftrightarrow> (\<forall>d. rv_present x d \<longrightarrow> rv_present r d \<and> rv_val x d \<le> rv_val r d)"
  by (auto simp: rv_covers_def not_less)

lemma rv_covers_refl [simp]: "rv_covers r r"
  by (simp add: rv_covers_iff)

lemma rv_covers_trans: "rv_covers a b \<Longrightarrow> rv_covers b c \<Longrightarrow> rv_covers a c"
  by (meson rv_covers_iff order_trans)

section \<open>Sums of vectors\<close>

lemma rv_sum_simps [simp]:
  "rv_sum [] = rv_empty" "rv_sum (xs @ [x]) = rv_acc (rv_sum xs) x"
  by (simp_all add: rv_sum_def)

lemma rv_ok_foldl_acc: "rv_ok r \<Longrightarrow> list_all rv_ok xs \<Longrightarrow> rv_ok (foldl rv_acc r xs)"
  by (induction xs arbitrary: r) (auto simp: rv_ok_acc)

lemma rv_ok_sum: "list_all rv_ok xs \<Longrightarrow> rv_ok (rv_sum xs)"
  by (simp add: rv_sum_def rv_ok_foldl_acc)

text \<open>
  As long as no dimension's total exceeds \<open>INT64_MAX\<close>, the sum is the mathematical one and
  so does not depend on the order in which a hash map is iterated.
\<close>

lemma rv_sum_exact_both:
  assumes "list_all rv_ok xs" "\<forall>d. sum_list (map (\<lambda>x. rv_val x d) xs) \<le> INT64_MAX"
  shows "rv_val (rv_sum xs) d = sum_list (map (\<lambda>x. rv_val x d) xs) \<and>
    (rv_present (rv_sum xs) d \<longleftrightarrow> (\<exists>x \<in> set xs. rv_present x d))"
  using assms
proof (induction xs arbitrary: d rule: rev_induct)
  case (snoc x xs)
  have ok: "rv_ok (rv_sum xs)" "rv_ok x" using snoc.prems by (auto intro: rv_ok_sum)
  have le: "sum_list (map (\<lambda>x. rv_val x e) xs) \<le> INT64_MAX" for e
  proof -
    have "sum_list (map (\<lambda>x. rv_val x e) xs) + rv_val x e \<le> INT64_MAX"
      using snoc.prems(2) by simp
    then show ?thesis using rv_okD(1) [OF ok(2), of e] by linarith
  qed
  have IH: "rv_val (rv_sum xs) e = sum_list (map (\<lambda>x. rv_val x e) xs)"
    "rv_present (rv_sum xs) e \<longleftrightarrow> (\<exists>x \<in> set xs. rv_present x e)" for e
    using snoc.IH [of e] snoc.prems(1) le by simp_all
  have "rv_fits (rv_sum xs) x" using snoc.prems IH ok by (intro rv_fitsI) simp_all
  then have eq: "rv_sum (xs @ [x]) = rv_plus (rv_sum xs) x" by (simp add: rv_acc_fits ok)
  show ?case using ok IH unfolding eq by (auto simp: rv_okD)
qed simp

lemmas rv_sum_exact =
  rv_sum_exact_both [THEN conjunct1] rv_sum_exact_both [THEN conjunct2]

lemma rv_sum_perm:
  assumes "list_all rv_ok xs" "\<forall>d. sum_list (map (\<lambda>x. rv_val x d) xs) \<le> INT64_MAX"
    and "mset xs = mset ys"
  shows "rv_sum xs = rv_sum ys"
proof (rule rv_eqI)
  have eq: "sum_list (map (\<lambda>x. rv_val x d) xs) = sum_list (map (\<lambda>x. rv_val x d) ys)" for d
    by (metis assms(3) mset_map sum_mset_sum_list)
  have ys: "list_all rv_ok ys" "set xs = set ys"
    using assms(1,3) mset_eq_setD [OF assms(3)] by (auto simp: list_all_iff)
  fix d
  show "rv_val (rv_sum xs) d = rv_val (rv_sum ys) d"
    using assms(1,2) ys eq by (simp add: rv_sum_exact)
  show "rv_present (rv_sum xs) d = rv_present (rv_sum ys) d"
    using assms(1,2) ys eq by (simp add: rv_sum_exact)
qed

lemmas rv_ok_intros =
  rv_ok_empty rv_ok_acc rv_ok_sub_sat rv_ok_min rv_ok_max rv_ok_diff_clamp rv_ok_sum

end
