(* ===== verification/QF_Text.thy ===== *)
theory QF_Text
  imports QF_Vector
begin

text \<open>
  The textual form of a vector, \<open>ResourceVector::to_string\<close> and \<open>ResourceVector::parse\<close>
  of \<open>core/resource_vector.cpp\<close>, with the two library functions they use: decimal output
  of an integer through \<open>operator<<\<close> and \<open>std::stoll\<close>. \<open>parse\<close> accepts what
  \<open>to_string\<close> prints and gives the same vector back.
\<close>

section \<open>Decimal numbers\<close>

definition digit_char :: "nat \<Rightarrow> char" where
  "digit_char n = char_of (48 + n)"

definition is_digit :: "char \<Rightarrow> bool" where
  "is_digit c \<longleftrightarrow> 48 \<le> (of_char c :: nat) \<and> (of_char c :: nat) \<le> 57"

definition digit_value :: "char \<Rightarrow> nat" where
  "digit_value c = of_char c - 48"

fun show_nat :: "nat \<Rightarrow> string" where
  "show_nat n = (if n < 10 then [digit_char n] else show_nat (n div 10) @ [digit_char (n mod 10)])"

declare show_nat.simps [simp del]

definition show_int :: "int \<Rightarrow> string" where
  "show_int x = (if x < 0 then CHR ''-'' # show_nat (nat (- x)) else show_nat (nat x))"

text \<open>
  \<open>std::stoll\<close> in base 10: white space, an optional sign, then the longest run of
  digits; \<open>None\<close> for \<open>std::invalid_argument\<close> (no digit) and \<open>std::out_of_range\<close>. What
  follows the digits is ignored.
\<close>

definition is_space :: "char \<Rightarrow> bool" where
  "is_space c \<longleftrightarrow> of_char c \<in> {9, 10, 11, 12, 13, 32 :: nat}"

definition digits_value :: "string \<Rightarrow> nat" where
  "digits_value s = foldl (\<lambda>a c. a * 10 + digit_value c) 0 s"

definition stoll :: "string \<Rightarrow> int option" where
  "stoll s =
     (let body = dropWhile is_space s;
          neg = (body \<noteq> [] \<and> hd body = CHR ''-'');
          rest = (if body \<noteq> [] \<and> (hd body = CHR ''-'' \<or> hd body = CHR ''+'') then tl body else body);
          ds = takeWhile is_digit rest;
          x = (if neg then - int (digits_value ds) else int (digits_value ds))
      in if ds = [] then None
         else if x < INT64_MIN \<or> x > INT64_MAX then None
         else Some x)"

lemma digit_char_simps:
  "n < 10 \<Longrightarrow> is_digit (digit_char n)" "n < 10 \<Longrightarrow> digit_value (digit_char n) = n"
  by (simp_all add: is_digit_def digit_value_def digit_char_def)

lemma show_nat_nonempty: "show_nat n \<noteq> []"
  by (subst show_nat.simps) simp

lemma show_nat_digits: "\<forall>c \<in> set (show_nat n). is_digit c"
proof (induction n rule: show_nat.induct)
  case (1 n)
  then show ?case by (subst show_nat.simps) (auto simp: digit_char_simps)
qed

lemma digits_value_show_nat: "digits_value (show_nat n) = n"
proof (induction n rule: show_nat.induct)
  case (1 n)
  show ?case
  proof (cases "n < 10")
    case True
    then show ?thesis by (subst show_nat.simps) (simp add: digits_value_def digit_char_simps)
  next
    case False
    with 1 have "digits_value (show_nat (n div 10)) = n div 10" by simp
    then show ?thesis using False
      by (subst show_nat.simps) (simp add: digits_value_def digit_char_simps)
  qed
qed

lemma digit_not_special:
  "is_digit c \<Longrightarrow> \<not> is_space c \<and> c \<noteq> CHR ''-'' \<and> c \<noteq> CHR ''+'' \<and> c \<noteq> CHR '','' \<and> c \<noteq> CHR ''=''"
  by (auto simp: is_digit_def is_space_def)

lemma stoll_show:
  assumes "0 \<le> x" "x \<le> INT64_MAX"
  shows "stoll (show_int x) = Some x"
proof -
  let ?s = "show_nat (nat x)"
  have s: "show_int x = ?s" using assms by (simp add: show_int_def)
  have hd: "is_digit (hd ?s)" using show_nat_nonempty show_nat_digits by (metis list.set_sel(1))
  have "dropWhile is_space ?s = ?s"
    using hd digit_not_special show_nat_nonempty by (metis dropWhile.simps(2) list.exhaust_sel)
  moreover have tw: "takeWhile is_digit ?s = ?s"
    using show_nat_digits by (simp add: takeWhile_eq_all_conv)
  moreover have "hd ?s \<noteq> CHR ''-''" "hd ?s \<noteq> CHR ''+''" using digit_not_special [OF hd] by auto
  ultimately show ?thesis
    using assms show_nat_nonempty
    unfolding s stoll_def Let_def
    by (simp add: tw digits_value_show_nat i64_bounds del: takeWhile_eq_all_conv)
qed

section \<open>Vectors as text\<close>

fun rv_to_string_loop :: "resource_vector \<Rightarrow> bool \<Rightarrow> resource_dimension list \<Rightarrow> string" where
  "rv_to_string_loop v first [] = ''''"
| "rv_to_string_loop v first (d # ds) =
     (if \<not> rv_present v d then rv_to_string_loop v first ds
      else (if first then '''' else '','') @ resource_dimension_name d @ ''='' @
           show_int (rv_get v d) @ rv_to_string_loop v False ds)"

definition rv_to_string :: "resource_vector \<Rightarrow> string" where
  "rv_to_string v = rv_to_string_loop v True all_resource_dimensions"

text \<open>One token \<open>name=value\<close> of the loop, added to the vector read so far.\<close>

definition rv_parse_token :: "resource_vector \<Rightarrow> string \<Rightarrow> resource_vector option" where
  "rv_parse_token r tok =
     (if CHR ''='' \<notin> set tok then None
      else let name = takeWhile (\<lambda>c. c \<noteq> CHR ''='') tok;
               valstr = tl (dropWhile (\<lambda>c. c \<noteq> CHR ''='') tok)
           in (case parse_resource_dimension name of
                 None \<Rightarrow> None
               | Some d \<Rightarrow>
                   (case stoll valstr of
                      None \<Rightarrow> None
                    | Some val \<Rightarrow>
                        if val < 0 then None
                        else (let (ok, r') = rv_set r d val in if \<not> ok then None else Some r'))))"

function rv_parse_loop :: "resource_vector \<Rightarrow> string \<Rightarrow> resource_vector option" where
  "rv_parse_loop r inp =
     (if inp = [] then Some r
      else let tok = takeWhile (\<lambda>c. c \<noteq> CHR '','') inp;
               rest = dropWhile (\<lambda>c. c \<noteq> CHR '','') inp
           in (case rv_parse_token r tok of
                 None \<Rightarrow> None
               | Some r' \<Rightarrow> if rest = [] then Some r' else rv_parse_loop r' (tl rest)))"
  by pat_completeness auto
termination
proof (relation "measure (\<lambda>(r, inp). length inp)")
  fix r r' :: resource_vector and inp tok rest :: string
  assume "inp \<noteq> []" "rest = dropWhile (\<lambda>c. c \<noteq> CHR '','') inp" "rest \<noteq> []"
  then have "length (tl rest) < length rest" "length rest \<le> length inp"
    by (auto simp: length_dropWhile_le)
  then show "((r', tl rest), (r, inp)) \<in> measure (\<lambda>(r, inp). length inp)" by simp
qed simp

declare rv_parse_loop.simps [simp del]

definition rv_parse :: "string \<Rightarrow> resource_vector option" where
  "rv_parse inp = rv_parse_loop rv_empty inp"

section \<open>Reading back what was printed\<close>

definition token :: "resource_vector \<Rightarrow> resource_dimension \<Rightarrow> string" where
  "token v d = resource_dimension_name d @ ''='' @ show_int (rv_get v d)"

lemma show_int_chars:
  "0 \<le> x \<Longrightarrow> \<forall>c \<in> set (show_int x). c \<noteq> CHR '','' \<and> c \<noteq> CHR ''=''"
  using show_nat_digits digit_not_special by (auto simp: show_int_def)

lemma token_no_comma: "0 \<le> rv_val v d \<Longrightarrow> CHR '','' \<notin> set (token v d)"
  using show_int_chars dimension_name_chars(2) by (auto simp: token_def)

lemma takeWhile_sep: "x \<notin> set xs \<Longrightarrow> takeWhile (\<lambda>c. c \<noteq> x) (xs @ x # ys) = xs"
  by (induction xs) auto

lemma dropWhile_sep: "x \<notin> set xs \<Longrightarrow> dropWhile (\<lambda>c. c \<noteq> x) (xs @ x # ys) = x # ys"
  by (induction xs) auto

lemma rv_parse_token_token:
  assumes "rv_ok v"
  shows "rv_parse_token r (token v d) = Some (rv_put r d (rv_val v d))"
proof -
  have nm: "CHR ''='' \<notin> set (resource_dimension_name d)" by (rule dimension_name_chars)
  have "takeWhile (\<lambda>c. c \<noteq> CHR ''='') (token v d) = resource_dimension_name d"
    "tl (dropWhile (\<lambda>c. c \<noteq> CHR ''='') (token v d)) = show_int (rv_val v d)"
    using takeWhile_sep [OF nm] dropWhile_sep [OF nm] by (simp_all add: token_def)
  moreover have "CHR ''='' \<in> set (token v d)" by (simp add: token_def)
  ultimately show ?thesis
    using assms
    by (simp add: rv_parse_token_def parse_resource_dimension_name stoll_show rv_okD
        rv_put_def rv_set_def not_less)
qed

fun join_tokens :: "resource_vector \<Rightarrow> resource_dimension list \<Rightarrow> string" where
  "join_tokens v [] = ''''"
| "join_tokens v [d] = token v d"
| "join_tokens v (d # e # es) = token v d @ CHR '','' # join_tokens v (e # es)"

lemma to_string_join:
  "rv_to_string_loop v True ds = join_tokens v (filter (rv_present v) ds) \<and>
   rv_to_string_loop v False ds =
     (if filter (rv_present v) ds = [] then '''' else CHR '','' # join_tokens v (filter (rv_present v) ds))"
proof (induction ds)
  case (Cons d ds)
  then show ?case by (cases "filter (rv_present v) ds") (auto simp: token_def)
qed simp

lemma rv_parse_loop_last:
  assumes "CHR '','' \<notin> set tok" "tok \<noteq> []" "rv_parse_token r tok = Some r'"
  shows "rv_parse_loop r tok = Some r'"
proof -
  have "takeWhile (\<lambda>c. c \<noteq> CHR '','') tok = tok" "dropWhile (\<lambda>c. c \<noteq> CHR '','') tok = []"
    using assms(1) by (auto simp: takeWhile_eq_all_conv)
  with assms show ?thesis
    by (simp add: rv_parse_loop.simps [of r tok] del: takeWhile_eq_all_conv dropWhile_eq_Nil_conv)
qed

lemma rv_parse_loop_more:
  assumes "CHR '','' \<notin> set tok" "rv_parse_token r tok = Some r'"
  shows "rv_parse_loop r (tok @ CHR '','' # rest) = rv_parse_loop r' rest"
  using assms takeWhile_sep [OF assms(1)] dropWhile_sep [OF assms(1)]
  by (subst rv_parse_loop.simps) simp

lemma parse_join:
  assumes "rv_ok v"
  shows "rv_parse_loop r (join_tokens v ds) = Some (fold (\<lambda>d r. rv_put r d (rv_val v d)) ds r)"
  using assms
proof (induction v ds arbitrary: r rule: join_tokens.induct)
  case (1 v)
  then show ?case by (simp add: rv_parse_loop.simps)
next
  case (2 v d)
  have "token v d \<noteq> []" by (simp add: token_def)
  with 2 show ?case
    by (simp add: rv_parse_loop_last [OF token_no_comma] rv_parse_token_token rv_okD)
next
  case (3 v d e es)
  then show ?case
    by (simp add: rv_parse_loop_more [OF token_no_comma] rv_parse_token_token rv_okD)
qed

lemma fold_put_present:
  assumes "rv_ok v"
  shows "fold (\<lambda>d r. rv_put r d (rv_val v d)) (filter (rv_present v) all_resource_dimensions) rv_empty = v"
proof -
  have eq: "fold (\<lambda>d r. rv_put r d (rv_val v d)) (filter (rv_present v) ds) r =
      fold (\<lambda>d r. if rv_present v d then rv_put r d (rv_val v d) else r) ds r" for ds r
    by (induction ds arbitrary: r) auto
  show ?thesis unfolding eq using assms by (intro rv_eqI) (auto simp: fold_put rv_okD)
qed

text \<open>
  Parsing the printed form of a vector whose amounts are in range gives the vector back.
\<close>

theorem rv_parse_to_string: "rv_ok v \<Longrightarrow> rv_parse (rv_to_string v) = Some v"
  using to_string_join [of v all_resource_dimensions]
  by (simp add: rv_parse_def rv_to_string_def parse_join fold_put_present)

theorem rv_parse_to_string_witness:
  "rv_ok (rv_put (rv_put rv_empty KVCacheBytes 0) AcceleratorVRAM 4096) \<and>
   rv_parse (rv_to_string (rv_put (rv_put rv_empty KVCacheBytes 0) AcceleratorVRAM 4096)) =
     Some (rv_put (rv_put rv_empty KVCacheBytes 0) AcceleratorVRAM 4096)"
proof -
  have "rv_ok (rv_put (rv_put rv_empty KVCacheBytes 0) AcceleratorVRAM 4096)"
    by (intro rv_ok_put) (simp_all add: i64_bounds)
  then show ?thesis using rv_parse_to_string by blast
qed

end
