(* ===== verification/QF_Signed.thy ===== *)
theory QF_Signed
  imports QF_Vector
begin

text \<open>
  \<open>SignedResourceVector\<close> of \<open>core/resource_vector.hpp\<close>: derived per-dimension quantities
  that may be negative, such as the remaining capacities of an envelope.
\<close>

type_synonym signed_vector = "resource_dimension \<Rightarrow> int"

definition sv_zero :: signed_vector where
  "sv_zero = (\<lambda>_. 0)"

definition sv_set :: "signed_vector \<Rightarrow> resource_dimension \<Rightarrow> int \<Rightarrow> signed_vector" where
  "sv_set v d a = v(d := a)"

definition sv_from :: "resource_vector \<Rightarrow> signed_vector" where
  "sv_from r = (\<lambda>d. if rv_present r d then rv_get r d else 0)"

fun sv_add_loop ::
  "resource_dimension list \<Rightarrow> bool \<Rightarrow> signed_vector \<Rightarrow> signed_vector
     \<Rightarrow> arithmetic_status \<times> signed_vector" where
  "sv_add_loop [] saturate v x = (Arith_Ok, v)"
| "sv_add_loop (d # ds) saturate v x =
     (let a = v d; b = x d in
      if (b > 0 \<and> a > INT64_MAX - b) \<or> (b < 0 \<and> a < INT64_MIN - b) then
        (if saturate then sv_add_loop ds saturate (v(d := (if b > 0 then INT64_MAX else INT64_MIN))) x
         else (Arith_Overflow, v))
      else sv_add_loop ds saturate (v(d := add64 a b)) x)"

definition sv_add :: "signed_vector \<Rightarrow> signed_vector \<Rightarrow> bool \<Rightarrow> arithmetic_status \<times> signed_vector" where
  "sv_add v x saturate = sv_add_loop all_resource_dimensions saturate v x"

fun sv_sub_loop ::
  "resource_dimension list \<Rightarrow> bool \<Rightarrow> signed_vector \<Rightarrow> signed_vector
     \<Rightarrow> arithmetic_status \<times> signed_vector" where
  "sv_sub_loop [] saturate v x = (Arith_Ok, v)"
| "sv_sub_loop (d # ds) saturate v x =
     (let a = v d; b = x d in
      if (b < 0 \<and> a > INT64_MAX + b) \<or> (b > 0 \<and> a < INT64_MIN + b) then
        (if saturate then sv_sub_loop ds saturate (v(d := (if b < 0 then INT64_MAX else INT64_MIN))) x
         else (Arith_Overflow, v))
      else sv_sub_loop ds saturate (v(d := sub64 a b)) x)"

definition sv_sub :: "signed_vector \<Rightarrow> signed_vector \<Rightarrow> bool \<Rightarrow> arithmetic_status \<times> signed_vector" where
  "sv_sub v x saturate = sv_sub_loop all_resource_dimensions saturate v x"

definition sv_clamp_non_negative :: "signed_vector \<Rightarrow> signed_vector" where
  "sv_clamp_non_negative v = (\<lambda>d. if v d < 0 then 0 else v d)"

definition sv_deficit :: "signed_vector \<Rightarrow> resource_vector" where
  "sv_deficit v =
     fold (\<lambda>d r. if v d < 0 then rv_put r d (s64 (- v d)) else r) all_resource_dimensions rv_empty"

definition sv_has_negative :: "signed_vector \<Rightarrow> bool" where
  "sv_has_negative v \<longleftrightarrow> list_ex (\<lambda>d. v d < 0) all_resource_dimensions"

definition sv_is_zero :: "signed_vector \<Rightarrow> bool" where
  "sv_is_zero v \<longleftrightarrow> list_all (\<lambda>d. v d = 0) all_resource_dimensions"

section \<open>Saturation clamps to the mathematical result\<close>

definition clamp_i64 :: "int \<Rightarrow> int" where
  "clamp_i64 x = max INT64_MIN (min INT64_MAX x)"

definition sv_ok :: "signed_vector \<Rightarrow> bool" where
  "sv_ok v \<longleftrightarrow> (\<forall>d. in_i64 (v d))"

lemma sv_add_loop_saturating:
  assumes "sv_ok v" "sv_ok x" "distinct ds"
  shows "sv_add_loop ds True v x =
    (Arith_Ok, \<lambda>d. if d \<in> set ds then clamp_i64 (v d + x d) else v d)"
  using assms
proof (induction ds arbitrary: v)
  case (Cons d ds)
  let ?v = "v(d := clamp_i64 (v d + x d))"
  have r: "INT64_MIN \<le> v d \<and> v d \<le> INT64_MAX" "INT64_MIN \<le> x d \<and> x d \<le> INT64_MAX"
    using Cons.prems by (auto simp: sv_ok_def in_i64_def)
  let ?y = "if (x d > 0 \<and> v d > INT64_MAX - x d) \<or> (x d < 0 \<and> v d < INT64_MIN - x d)
      then if x d > 0 then INT64_MAX else INT64_MIN else add64 (v d) (x d)"
  have "?y = clamp_i64 (v d + x d)"
    using r by (auto simp: clamp_i64_def add64_id i64_bounds max_def min_def)
  moreover have "sv_add_loop (d # ds) True v x = sv_add_loop ds True (v(d := ?y)) x"
    by (simp add: Let_def)
  ultimately have step: "sv_add_loop (d # ds) True v x = sv_add_loop ds True ?v x" by simp
  have "sv_ok ?v"
    using Cons.prems(1) by (auto simp: sv_ok_def in_i64_def clamp_i64_def i64_bounds)
  with Cons have "sv_add_loop ds True ?v x =
      (Arith_Ok, \<lambda>e. if e \<in> set ds then clamp_i64 (?v e + x e) else ?v e)" by simp
  then show ?case unfolding step using Cons.prems(3) by (auto simp: fun_eq_iff)
qed (auto simp: fun_eq_iff)

lemma sv_sub_loop_saturating:
  assumes "sv_ok v" "sv_ok x" "distinct ds"
  shows "sv_sub_loop ds True v x =
    (Arith_Ok, \<lambda>d. if d \<in> set ds then clamp_i64 (v d - x d) else v d)"
  using assms
proof (induction ds arbitrary: v)
  case (Cons d ds)
  let ?v = "v(d := clamp_i64 (v d - x d))"
  have r: "INT64_MIN \<le> v d \<and> v d \<le> INT64_MAX" "INT64_MIN \<le> x d \<and> x d \<le> INT64_MAX"
    using Cons.prems by (auto simp: sv_ok_def in_i64_def)
  let ?y = "if (x d < 0 \<and> v d > INT64_MAX + x d) \<or> (x d > 0 \<and> v d < INT64_MIN + x d)
      then if x d < 0 then INT64_MAX else INT64_MIN else sub64 (v d) (x d)"
  have "?y = clamp_i64 (v d - x d)"
    using r by (auto simp: clamp_i64_def sub64_id i64_bounds max_def min_def)
  moreover have "sv_sub_loop (d # ds) True v x = sv_sub_loop ds True (v(d := ?y)) x"
    by (simp add: Let_def)
  ultimately have step: "sv_sub_loop (d # ds) True v x = sv_sub_loop ds True ?v x" by simp
  have "sv_ok ?v"
    using Cons.prems(1) by (auto simp: sv_ok_def in_i64_def clamp_i64_def i64_bounds)
  with Cons have "sv_sub_loop ds True ?v x =
      (Arith_Ok, \<lambda>e. if e \<in> set ds then clamp_i64 (?v e - x e) else ?v e)" by simp
  then show ?case unfolding step using Cons.prems(3) by (auto simp: fun_eq_iff)
qed (auto simp: fun_eq_iff)

lemma sv_deficit_val:
  assumes "sv_ok v" "v d \<noteq> INT64_MIN"
  shows "rv_val (sv_deficit v) d = max 0 (- v d)" "rv_present (sv_deficit v) d \<longleftrightarrow> v d < 0"
proof -
  have "s64 (- v d) = - v d"
    using assms by (intro s64_id) (auto simp: sv_ok_def in_i64_def i64_bounds dest: spec [of _ d])
  then show "rv_val (sv_deficit v) d = max 0 (- v d)" "rv_present (sv_deficit v) d \<longleftrightarrow> v d < 0"
    by (auto simp: sv_deficit_def fold_put)
qed

end
