(* ===== verification/QF_Double.thy ===== *)
theory QF_Double
  imports QF_Prelude
begin

text \<open>
  The IEEE 754 binary64 arithmetic the sources use: policy weights, the overcommit factor
  and the physical allowance of \<open>physical_allowance\<close> in \<open>accounting/engine.cpp\<close>. A
  \<open>double\<close> is its 64-bit pattern, so that \<open>std::bit_cast\<close> in the codecs is the identity.
  A finite value is \<open>m * 2^e\<close>; conversions from integers and products round to 53
  significant bits, ties to even. A product beyond the largest double stays a finite
  \<open>m * 2^e\<close> here where the hardware gives infinity; it is only compared with \<open>2^63\<close>, and
  both are greater.
\<close>

unbundle bit_operations_syntax

type_synonym double = "64 word"

definition dbl_zero :: double where
  "dbl_zero = 0"

definition dbl_one :: double where
  "dbl_one = 0x3FF0000000000000"

definition dbl_sign :: "double \<Rightarrow> bool" where
  "dbl_sign b = bit b 63"

definition dbl_exponent :: "double \<Rightarrow> nat" where
  "dbl_exponent b = unat (drop_bit 52 b AND 0x7FF)"

definition dbl_mantissa :: "double \<Rightarrow> nat" where
  "dbl_mantissa b = unat (b AND 0xFFFFFFFFFFFFF)"

definition dbl_is_nan :: "double \<Rightarrow> bool" where
  "dbl_is_nan b \<longleftrightarrow> dbl_exponent b = 2047 \<and> dbl_mantissa b \<noteq> 0"

datatype dval = DNaN | DInf bool | DFin int int

definition dbl_decode :: "double \<Rightarrow> dval" where
  "dbl_decode b =
     (let s = (if dbl_sign b then -1 else 1); e = dbl_exponent b; m = dbl_mantissa b
      in if e = 2047 then (if m = 0 then DInf (dbl_sign b) else DNaN)
         else if e = 0 then DFin (s * int m) (- 1074)
         else DFin (s * (int m + 4503599627370496)) (int e - 1075))"

text \<open>The comparisons with the constants 0 and 1 that occur in the sources.\<close>

definition dbl_gt_zero :: "double \<Rightarrow> bool" where
  "dbl_gt_zero b \<longleftrightarrow> \<not> dbl_is_nan b \<and> \<not> dbl_sign b \<and> b \<noteq> 0"

definition dbl_lt_zero :: "double \<Rightarrow> bool" where
  "dbl_lt_zero b \<longleftrightarrow> \<not> dbl_is_nan b \<and> dbl_sign b \<and> b AND 0x7FFFFFFFFFFFFFFF \<noteq> 0"

definition dbl_lt_one :: "double \<Rightarrow> bool" where
  "dbl_lt_one b \<longleftrightarrow> \<not> dbl_is_nan b \<and> (dbl_sign b \<or> b < dbl_one)"

definition dbl_neq_one :: "double \<Rightarrow> bool" where
  "dbl_neq_one b \<longleftrightarrow> b \<noteq> dbl_one"

section \<open>Rounding to 53 bits\<close>

fun bit_length :: "nat \<Rightarrow> nat" where
  "bit_length n = (if n = 0 then 0 else Suc (bit_length (n div 2)))"

declare bit_length.simps [simp del]

definition round53 :: "nat \<Rightarrow> nat" where
  "round53 n =
     (let k = bit_length n - 53; q = n div 2 ^ k; r = n mod 2 ^ k
      in if k = 0 then n
         else if 2 * r > 2 ^ k \<or> (2 * r = 2 ^ k \<and> odd q) then (q + 1) * 2 ^ k
         else q * 2 ^ k)"

definition dbl_of_int :: "int \<Rightarrow> dval" where
  "dbl_of_int x = DFin (sgn x * int (round53 (nat \<bar>x\<bar>))) 0"

fun dbl_mul :: "dval \<Rightarrow> dval \<Rightarrow> dval" where
  "dbl_mul DNaN y = DNaN"
| "dbl_mul x DNaN = DNaN"
| "dbl_mul (DInf s) (DInf t) = DInf (s \<noteq> t)"
| "dbl_mul (DInf s) (DFin m e) = (if m = 0 then DNaN else DInf (s \<noteq> (m < 0)))"
| "dbl_mul (DFin m e) (DInf s) = (if m = 0 then DNaN else DInf (s \<noteq> (m < 0)))"
| "dbl_mul (DFin m e) (DFin m' e') =
     DFin (sgn (m * m') * int (round53 (nat \<bar>m * m'\<bar>))) (e + e')"

text \<open>Truncation towards zero of \<open>m * 2^e\<close>.\<close>

definition dfin_trunc :: "int \<Rightarrow> int \<Rightarrow> int" where
  "dfin_trunc m e = (if 0 \<le> e then m * 2 ^ nat e else sgn m * (\<bar>m\<bar> div 2 ^ nat (- e)))"

text \<open>\<open>cap > static_cast<double>(INT64_MAX)\<close>: the right-hand side rounds to \<open>2^63\<close>.\<close>

fun dbl_gt_int64_max :: "dval \<Rightarrow> bool" where
  "dbl_gt_int64_max DNaN = False"
| "dbl_gt_int64_max (DInf s) = (\<not> s)"
| "dbl_gt_int64_max (DFin m e) =
     (if 0 \<le> e then m * 2 ^ nat e > 9223372036854775808
      else m > 9223372036854775808 * 2 ^ nat (- e))"

text \<open>
  \<open>static_cast<std::int64_t>\<close> of a double. The conversion is undefined when the truncated
  value is not an \<open>int64_t\<close> (or there is none); \<open>oob\<close> is what the target then delivers.
\<close>

fun dbl_to_int64 :: "int \<Rightarrow> dval \<Rightarrow> int" where
  "dbl_to_int64 oob (DFin m e) =
     (let t = dfin_trunc m e in if INT64_MIN \<le> t \<and> t \<le> INT64_MAX then t else oob)"
| "dbl_to_int64 oob _ = oob"

section \<open>Small integers are exact\<close>

lemma bit_length_le: "n < 2 ^ k \<Longrightarrow> bit_length n \<le> k"
proof (induction n arbitrary: k rule: bit_length.induct)
  case (1 n)
  show ?case
  proof (cases "n = 0")
    case False
    then obtain j where j: "k = Suc j" using 1(2) by (cases k) auto
    with 1(2) have "n div 2 < 2 ^ j" by (simp add: less_mult_imp_div_less mult.commute)
    with False 1(1) j show ?thesis by (simp add: bit_length.simps [of n])
  qed (simp add: bit_length.simps)
qed

lemma round53_small: "n \<le> 9007199254740992 \<Longrightarrow> round53 n = n"
proof (cases "n = 9007199254740992")
  case True
  have "bit_length 9007199254740992 = 54" by (simp add: bit_length.simps)
  with True show ?thesis by (simp add: round53_def Let_def)
next
  case False
  assume "n \<le> 9007199254740992"
  with False have "n < 2 ^ 53" by simp
  then have "bit_length n \<le> 53" by (rule bit_length_le)
  then show ?thesis by (simp add: round53_def Let_def)
qed

lemma dbl_of_int_small: "0 \<le> x \<Longrightarrow> x \<le> 9007199254740992 \<Longrightarrow> dbl_of_int x = DFin x 0"
  by (auto simp: dbl_of_int_def round53_small sgn_if)

end
