(* ===== verification/QF_Records.thy ===== *)
theory QF_Records
  imports QF_Ids QF_Enums QF_Text QF_Signed QF_Double
begin

text \<open>
  The plain data of the system, one record per C++ struct of \<open>core/*.hpp\<close> and of
  \<open>accounting/engine.hpp\<close>, with the default member initialisers as \<open>*_default\<close> constants.
  Field names carry a prefix per struct. Times (\<open>Nanos\<close>) are \<open>int\<close> in the range of
  \<open>std::int64_t\<close>; \<open>std::uint32_t\<close> and \<open>std::uint64_t\<close> fields are words.
\<close>

section \<open>Quotas\<close>

record burst_rule =
  bu_percent_above_soft :: double
  bu_absolute_burst :: resource_vector
  bu_window :: int
  bu_max_simultaneous :: "32 word"
  bu_cooldown :: int
  bu_allow_debt :: bool

definition burst_rule_default :: burst_rule where
  "burst_rule_default =
     \<lparr>bu_percent_above_soft = dbl_zero, bu_absolute_burst = rv_empty, bu_window = 0,
      bu_max_simultaneous = 0, bu_cooldown = 0, bu_allow_debt = False\<rparr>"

record borrow_rule =
  bw_borrow_enabled :: bool
  bw_lend_enabled :: bool
  bw_recall_before_new_lend :: bool
  bw_max_borrow_duration :: int
  bw_preserves_guarantee :: bool
  bw_max_borrows :: "32 word"

definition borrow_rule_default :: borrow_rule where
  "borrow_rule_default =
     \<lparr>bw_borrow_enabled = False, bw_lend_enabled = False, bw_recall_before_new_lend = True,
      bw_max_borrow_duration = 0, bw_preserves_guarantee = True, bw_max_borrows = 0\<rparr>"

record resource_quota =
  q_tenant :: tenant_id
  q_resource_class :: resource_class_id
  q_guaranteed :: resource_vector
  q_soft_limit :: resource_vector
  q_hard_limit :: resource_vector
  q_burst_limit :: resource_vector
  q_borrowable :: resource_vector
  q_physical_capacity :: resource_vector
  q_burst_rule :: burst_rule
  q_borrow_rule :: borrow_rule
  q_overcommit :: overcommit_mode
  q_overcommit_factor :: double
  q_shared_pool :: resource_vector
  q_generation :: quota_generation
  q_policy_generation :: policy_generation

definition resource_quota_default :: resource_quota where
  "resource_quota_default =
     \<lparr>q_tenant = null_id, q_resource_class = null_id, q_guaranteed = rv_empty,
      q_soft_limit = rv_empty, q_hard_limit = rv_empty, q_burst_limit = rv_empty,
      q_borrowable = rv_empty, q_physical_capacity = rv_empty,
      q_burst_rule = burst_rule_default, q_borrow_rule = borrow_rule_default,
      q_overcommit = OM_NONE, q_overcommit_factor = dbl_one, q_shared_pool = rv_empty,
      q_generation = gen_zero, q_policy_generation = gen_zero\<rparr>"

definition quota_ok :: "resource_quota \<Rightarrow> bool" where
  "quota_ok q \<longleftrightarrow>
     rv_ok (q_guaranteed q) \<and> rv_ok (q_soft_limit q) \<and> rv_ok (q_hard_limit q) \<and>
     rv_ok (q_burst_limit q) \<and> rv_ok (q_borrowable q) \<and> rv_ok (q_physical_capacity q)"

lemma quota_ok_default [simp]: "quota_ok resource_quota_default"
  by (simp add: quota_ok_def resource_quota_default_def)

section \<open>Hierarchy\<close>

record tenant_group =
  grp_id :: tenant_group_id
  grp_kind :: tenant_group_kind
  grp_parent :: "tenant_group_id option"
  grp_name :: string
  grp_quota :: resource_quota
  grp_policy_generation :: policy_generation

record tenant =
  ten_id :: tenant_id
  ten_group :: "tenant_group_id option"
  ten_name :: string
  ten_priority :: "32 word"
  ten_service_class :: string

section \<open>Reservations, allocations, borrow and lending records\<close>

record reservation =
  res_id :: reservation_id
  res_tenant :: tenant_id
  res_resource_class :: resource_class_id
  res_resources :: resource_vector
  res_consumed :: resource_vector
  res_status :: reservation_status
  res_created_at :: int
  res_expires_at :: int
  res_quota_generation :: quota_generation
  res_policy_generation :: policy_generation
  res_epoch :: coordinator_epoch
  res_owner_agent :: agent_id
  res_owner_boot :: agent_boot_id
  res_label :: string
  res_resource_generation :: resource_generation

record allocation =
  al_id :: allocation_id
  al_tenant :: tenant_id
  al_reservation :: reservation_id
  al_resource_class :: resource_class_id
  al_resources :: resource_vector
  al_used :: resource_vector
  al_started_at :: int
  al_ended_at :: int
  al_active :: bool
  al_quota_generation :: quota_generation
  al_policy_generation :: policy_generation
  al_epoch :: coordinator_epoch
  al_owner_agent :: agent_id
  al_owner_boot :: agent_boot_id
  al_label :: string

record borrow_record =
  br_id :: borrow_id
  br_borrower :: tenant_id
  br_lender :: tenant_id
  br_lending :: lending_id
  br_reservation :: "reservation_id option"
  br_resource_class :: resource_class_id
  br_amount :: resource_vector
  br_consumed :: resource_vector
  br_started_at :: int
  br_expires_at :: int
  br_recall_priority :: "32 word"
  br_debt :: resource_vector
  br_policy_generation :: policy_generation
  br_quota_generation :: quota_generation
  br_epoch :: coordinator_epoch
  br_recalled :: bool

record lending_record =
  ln_id :: lending_id
  ln_lender :: tenant_id
  ln_borrower :: tenant_id
  ln_resource_class :: resource_class_id
  ln_amount :: resource_vector
  ln_outstanding :: resource_vector
  ln_started_at :: int
  ln_expires_at :: int
  ln_recall_priority :: "32 word"
  ln_revocable :: bool
  ln_policy_generation :: policy_generation
  ln_quota_generation :: quota_generation
  ln_epoch :: coordinator_epoch

section \<open>Explanations, decisions, envelopes, events, statuses\<close>

type_synonym explanation = "(violation_code \<times> string) list"

definition explanation_add :: "explanation \<Rightarrow> violation_code \<Rightarrow> string \<Rightarrow> explanation" where
  "explanation_add e code detail = e @ [(code, detail)]"

definition explanation_add_none :: "explanation \<Rightarrow> string \<Rightarrow> explanation" where
  "explanation_add_none e detail = e @ [(VC_NONE, detail)]"

definition explanation_human :: "explanation \<Rightarrow> string" where
  "explanation_human e =
     concat (map (\<lambda>(code, detail). ''  * '' @ violation_code_name code @
        (if detail = '''' then '''' else '': '' @ detail) @ [CHR 0x0A]) e)"

record quota_decision =
  dec_code :: decision_code
  dec_tenant :: tenant_id
  dec_resource_class :: resource_class_id
  dec_requested :: resource_vector
  dec_current_usage :: resource_vector
  dec_reserved_usage :: resource_vector
  dec_guarantee :: resource_vector
  dec_soft_limit :: resource_vector
  dec_hard_limit :: resource_vector
  dec_burst :: resource_vector
  dec_borrowed :: resource_vector
  dec_debt :: resource_vector
  dec_parent_available :: resource_vector
  dec_limiting_dimension :: "resource_dimension option"
  dec_compliance :: compliance_state
  dec_recall_action :: recall_action
  dec_generation :: quota_generation
  dec_policy_generation :: policy_generation
  dec_epoch :: coordinator_epoch
  dec_explanation :: explanation

definition quota_decision_default :: quota_decision where
  "quota_decision_default =
     \<lparr>dec_code = DC_ALLOW, dec_tenant = null_id, dec_resource_class = null_id,
      dec_requested = rv_empty, dec_current_usage = rv_empty, dec_reserved_usage = rv_empty,
      dec_guarantee = rv_empty, dec_soft_limit = rv_empty, dec_hard_limit = rv_empty,
      dec_burst = rv_empty, dec_borrowed = rv_empty, dec_debt = rv_empty,
      dec_parent_available = rv_empty, dec_limiting_dimension = None,
      dec_compliance = CS_COMPLIANT, dec_recall_action = RA_NO_ACTION,
      dec_generation = gen_zero, dec_policy_generation = gen_zero, dec_epoch = gen_zero,
      dec_explanation = []\<rparr>"

definition code_allowed :: "decision_code \<Rightarrow> bool" where
  "code_allowed c \<longleftrightarrow> c = DC_ALLOW \<or> c = DC_ALLOW_GUARANTEED \<or> c = DC_ALLOW_BURST \<or> c = DC_ALLOW_BORROW"

definition dec_allowed :: "quota_decision \<Rightarrow> bool" where
  "dec_allowed d \<longleftrightarrow> code_allowed (dec_code d)"

record quota_envelope =
  env_tenant :: tenant_id
  env_resource_class :: resource_class_id
  env_guaranteed :: resource_vector
  env_soft_limit :: resource_vector
  env_hard_limit :: resource_vector
  env_burst_limit :: resource_vector
  env_current_consumption :: resource_vector
  env_reserved :: resource_vector
  env_committed_usage :: resource_vector
  env_borrowed :: resource_vector
  env_burst_usage :: resource_vector
  env_lent :: resource_vector
  env_debt :: resource_vector
  env_available_guaranteed :: signed_vector
  env_available_soft :: signed_vector
  env_available_burst :: signed_vector
  env_compliance :: compliance_state
  env_primary_violation :: "violation_code option"
  env_generation :: quota_generation
  env_policy_generation :: policy_generation
  env_epoch :: coordinator_epoch
  env_burst_expires_at :: int
  env_burst_active :: bool

record quota_event =
  ev_type :: event_type
  ev_at :: int
  ev_tenant :: tenant_id
  ev_group :: "tenant_group_id option"
  ev_reservation :: "reservation_id option"
  ev_allocation :: "allocation_id option"
  ev_borrow :: "borrow_id option"
  ev_lend :: "lending_id option"
  ev_dimension :: "resource_dimension option"
  ev_amount :: int
  ev_quota_generation :: quota_generation
  ev_policy_generation :: policy_generation
  ev_epoch :: coordinator_epoch
  ev_violation :: "violation_code option"
  ev_detail :: string

record quota_status =
  st_ok :: bool
  st_code :: violation_code
  st_message :: string

definition status_success :: quota_status where
  "status_success = \<lparr>st_ok = True, st_code = VC_NONE, st_message = ''''\<rparr>"

definition status_failure :: "violation_code \<Rightarrow> string \<Rightarrow> quota_status" where
  "status_failure c msg = \<lparr>st_ok = False, st_code = c, st_message = msg\<rparr>"

lemma status_simps [simp]:
  "st_ok status_success" "\<not> st_ok (status_failure c m)" "st_code (status_failure c m) = c"
  "status_success \<noteq> status_failure c m" "status_failure c m \<noteq> status_success"
  by (simp_all add: status_success_def status_failure_def)

text \<open>\<open>QuotaResult<T>\<close>: the value, or the failing status.\<close>

type_synonym 'a quota_result = "quota_status + 'a"

section \<open>Authority, observations, settings\<close>

record authority =
  au_epoch :: coordinator_epoch
  au_agent :: agent_id
  au_boot :: agent_boot_id
  au_quota_generation :: quota_generation
  au_policy_generation :: policy_generation
  au_resource_generation :: resource_generation

datatype observation_kind =
    OK_USAGE_DELTA | OK_COMPUTE_INTERVAL | OK_TRANSFER_CONSUMED | OK_MODEL_RESIDENCY_ADDED
  | OK_MODEL_RESIDENCY_REMOVED | OK_KV_USAGE_CHANGE | OK_TENSOR_USAGE_CHANGE
  | OK_ALLOCATION_START | OK_ALLOCATION_RESIZE | OK_ALLOCATION_RELEASE
  | OK_RESERVATION_COMMITTED
  | OK_raw "8 word"

record observation =
  ob_tenant :: tenant_id
  ob_allocation :: allocation_id
  ob_dimension :: resource_dimension
  ob_amount :: int
  ob_kind :: observation_kind
  ob_at :: int
  ob_resource_generation :: resource_generation
  ob_agent :: agent_id
  ob_boot :: agent_boot_id
  ob_source :: string

record engine_settings =
  se_max_hierarchy_depth :: "32 word"
  se_max_tenants :: "32 word"
  se_max_groups :: "32 word"
  se_max_reservations :: "32 word"
  se_max_event_retention :: "32 word"
  se_max_window_samples :: "32 word"
  se_max_borrows :: "32 word"
  se_max_protocol_oversized_frame :: "32 word"
  se_enable_failure_injection :: bool

definition engine_settings_default :: engine_settings where
  "engine_settings_default =
     \<lparr>se_max_hierarchy_depth = 32, se_max_tenants = 1000000, se_max_groups = 100000,
      se_max_reservations = 1000000, se_max_event_retention = 4096,
      se_max_window_samples = 4096, se_max_borrows = 100000,
      se_max_protocol_oversized_frame = 16777216, se_enable_failure_injection = False\<rparr>"

end
