(* ===== verification/QF_Policy.thy ===== *)
theory QF_Policy
  imports QF_Records
begin

text \<open>
  The policy document of \<open>policy/policy.hpp\<close> and its validation in \<open>policy/policy.cpp\<close>.
\<close>

section \<open>The document\<close>

record fairness_policy =
  fp_starvation_weight :: double
  fp_debt_weight :: double
  fp_use_weight :: double
  fp_priority_weight :: double

record overcommit_policy =
  op_mode :: overcommit_mode
  op_factor :: double
  op_affected_resources :: "resource_dimension list"
  op_allow_if_guarantees_covered :: bool

record attribution_policy =
  ap_model :: attribution_model
  ap_per_class :: "(resource_class_id \<times> attribution_model) list"
  ap_allow_proportional_dedup :: bool

record recall_policy =
  rp_recall_grace_nanos :: "32 word"
  rp_max_recalled_before_demand :: "32 word"
  rp_auto_emit_recall :: bool

record hierarchy_policy =
  hp_inherit_parent :: bool
  hp_allow_child_override :: bool
  hp_enforce_parent_ceiling :: bool
  hp_allow_sibling_borrowing :: bool

record quota_policy =
  pol_generation :: policy_generation
  pol_name :: string
  pol_description :: string
  pol_created_at :: "64 word"
  pol_fairness :: fairness_policy
  pol_overcommit :: overcommit_policy
  pol_attribution :: attribution_policy
  pol_recall :: recall_policy
  pol_hierarchy :: hierarchy_policy
  pol_default_burst :: burst_rule
  pol_default_borrow :: borrow_rule
  pol_tenant_overrides :: "(tenant_id, resource_quota) hmap"
  pol_group_overrides :: "(tenant_group_id, resource_quota) hmap"
  pol_resource_specific_rules :: "resource_class_id list"
  pol_max_hierarchy_depth :: "32 word"
  pol_max_tenants :: "32 word"
  pol_max_reservations :: "32 word"
  pol_max_windows_sample :: "64 word"

definition fairness_policy_default :: fairness_policy where
  "fairness_policy_default =
     \<lparr>fp_starvation_weight = dbl_one, fp_debt_weight = dbl_one, fp_use_weight = dbl_one,
      fp_priority_weight = dbl_one\<rparr>"

definition overcommit_policy_default :: overcommit_policy where
  "overcommit_policy_default =
     \<lparr>op_mode = OM_NONE, op_factor = dbl_one, op_affected_resources = [],
      op_allow_if_guarantees_covered = True\<rparr>"

definition quota_policy_default :: quota_policy where
  "quota_policy_default =
     \<lparr>pol_generation = gen_zero, pol_name = '''', pol_description = '''', pol_created_at = 0,
      pol_fairness = fairness_policy_default, pol_overcommit = overcommit_policy_default,
      pol_attribution = \<lparr>ap_model = AM_SHARED_SYSTEM_POOL, ap_per_class = [],
        ap_allow_proportional_dedup = True\<rparr>,
      pol_recall = \<lparr>rp_recall_grace_nanos = 0, rp_max_recalled_before_demand = 0,
        rp_auto_emit_recall = True\<rparr>,
      pol_hierarchy = \<lparr>hp_inherit_parent = True, hp_allow_child_override = True,
        hp_enforce_parent_ceiling = True, hp_allow_sibling_borrowing = False\<rparr>,
      pol_default_burst = burst_rule_default, pol_default_borrow = borrow_rule_default,
      pol_tenant_overrides = [], pol_group_overrides = [], pol_resource_specific_rules = [],
      pol_max_hierarchy_depth = 32, pol_max_tenants = 1000000,
      pol_max_reservations = 1000000, pol_max_windows_sample = 4096\<rparr>"

section \<open>Validation\<close>

text \<open>The double loop over the tenant overrides: the first complaint, if any.\<close>

fun override_dims_error :: "resource_quota \<Rightarrow> resource_dimension list \<Rightarrow> string option" where
  "override_dims_error q [] = None"
| "override_dims_error q (d # ds) =
     (if rv_present (q_guaranteed q) d \<and> rv_present (q_hard_limit q) d
         \<and> rv_get (q_guaranteed q) d > rv_get (q_hard_limit q) d
      then Some ''tenant override guarantee > hard''
      else if rv_present (q_soft_limit q) d \<and> rv_present (q_hard_limit q) d
         \<and> rv_get (q_soft_limit q) d > rv_get (q_hard_limit q) d
      then Some ''tenant override soft > hard''
      else override_dims_error q ds)"

fun overrides_error :: "(tenant_id, resource_quota) hmap \<Rightarrow> string option" where
  "overrides_error [] = None"
| "overrides_error ((tid, q) # rest) =
     (case override_dims_error q all_resource_dimensions of
        Some m \<Rightarrow> Some m
      | None \<Rightarrow> overrides_error rest)"

text \<open>
  \<open>QuotaPolicy::validate\<close>: \<open>None\<close> is the result \<open>true\<close>, \<open>Some m\<close> is \<open>false\<close> with the
  message \<open>m\<close>. \<open>recall_grace_nanos\<close> is unsigned, so its test for a negative value never
  fires.
\<close>

definition policy_validate :: "quota_policy \<Rightarrow> string option" where
  "policy_validate p =
     (if pol_name p = '''' then Some ''policy must have a name''
      else if pol_max_hierarchy_depth p < 1 \<or> pol_max_hierarchy_depth p > 4096
        then Some ''max_hierarchy_depth out of range''
      else if pol_max_tenants p = 0 \<or> pol_max_tenants p > 100000000
        then Some ''max_tenants out of range''
      else if pol_max_reservations p = 0 then Some ''max_reservations must be positive''
      else if pol_max_windows_sample p = 0 then Some ''max_windows_sample must be positive''
      else if op_mode (pol_overcommit p) \<noteq> OM_NONE \<and> dbl_lt_one (op_factor (pol_overcommit p))
        then Some ''overcommit factor must be >= 1''
      else if op_mode (pol_overcommit p) = OM_NONE \<and> dbl_neq_one (op_factor (pol_overcommit p))
        then Some ''overcommit factor must be 1.0 when mode is NONE''
      else if dbl_lt_zero (fp_starvation_weight (pol_fairness p))
          \<or> dbl_lt_zero (fp_debt_weight (pol_fairness p)) \<or> dbl_lt_zero (fp_use_weight (pol_fairness p))
        then Some ''fairness weights must be non-negative''
      else if uint (rp_recall_grace_nanos (pol_recall p)) < 0
        then Some ''recall grace must be non-negative''
      else if bu_window (pol_default_burst p) < 0 \<or> bu_cooldown (pol_default_burst p) < 0
        then Some ''burst window/cooldown must be non-negative''
      else if dbl_lt_zero (bu_percent_above_soft (pol_default_burst p))
        then Some ''burst percent must be non-negative''
      else overrides_error (pol_tenant_overrides p))"

section \<open>What validation guarantees\<close>

lemma override_dims_error_None:
  "override_dims_error q ds = None \<longleftrightarrow>
     (\<forall>d \<in> set ds.
        (rv_present (q_guaranteed q) d \<and> rv_present (q_hard_limit q) d
           \<longrightarrow> rv_get (q_guaranteed q) d \<le> rv_get (q_hard_limit q) d) \<and>
        (rv_present (q_soft_limit q) d \<and> rv_present (q_hard_limit q) d
           \<longrightarrow> rv_get (q_soft_limit q) d \<le> rv_get (q_hard_limit q) d))"
  by (induction ds) auto

lemma overrides_error_None:
  "overrides_error m = None \<longleftrightarrow>
     (\<forall>(t, q) \<in> set m. override_dims_error q all_resource_dimensions = None)"
  by (induction m) (auto split: option.splits)

text \<open>
  A policy that validate accepts has a name, limits in their ranges, an overcommit factor of
  1 when the mode is NONE and not below 1 otherwise, and only tenant overrides whose
  guarantee and soft limit are within their hard limit.
\<close>

theorem policy_validate_sound:
  assumes "policy_validate p = None"
  shows "pol_name p \<noteq> [] \<and> pol_max_hierarchy_depth p \<noteq> 0 \<and> pol_max_hierarchy_depth p \<le> 4096 \<and>
    pol_max_tenants p \<noteq> 0 \<and> pol_max_tenants p \<le> 100000000 \<and>
    (op_mode (pol_overcommit p) = OM_NONE \<longrightarrow> op_factor (pol_overcommit p) = dbl_one) \<and>
    (op_mode (pol_overcommit p) \<noteq> OM_NONE \<longrightarrow> \<not> dbl_lt_one (op_factor (pol_overcommit p))) \<and>
    (\<forall>(t, q) \<in> set (pol_tenant_overrides p). \<forall>d. rv_present (q_hard_limit q) d \<longrightarrow>
      (rv_present (q_guaranteed q) d \<longrightarrow> rv_get (q_guaranteed q) d \<le> rv_get (q_hard_limit q) d) \<and>
      (rv_present (q_soft_limit q) d \<longrightarrow> rv_get (q_soft_limit q) d \<le> rv_get (q_hard_limit q) d))"
proof -
  have "overrides_error (pol_tenant_overrides p) = None"
    using assms by (auto simp: policy_validate_def split: if_splits)
  then have "\<forall>(t, q) \<in> set (pol_tenant_overrides p). \<forall>d. rv_present (q_hard_limit q) d \<longrightarrow>
      (rv_present (q_guaranteed q) d \<longrightarrow> rv_get (q_guaranteed q) d \<le> rv_get (q_hard_limit q) d) \<and>
      (rv_present (q_soft_limit q) d \<longrightarrow> rv_get (q_soft_limit q) d \<le> rv_get (q_hard_limit q) d)"
    by (fastforce simp: overrides_error_None override_dims_error_None)
  then show ?thesis
    using assms by (auto simp: policy_validate_def dbl_neq_one_def not_less split: if_splits)
qed

theorem policy_validate_sound_witness:
  "policy_validate (quota_policy_default\<lparr>pol_name := ''p''\<rparr>) = None \<and>
   pol_max_tenants (quota_policy_default\<lparr>pol_name := ''p''\<rparr>) \<noteq> 0"
proof -
  have "policy_validate (quota_policy_default\<lparr>pol_name := ''p''\<rparr>) = None" by code_simp
  then show ?thesis using policy_validate_sound by blast
qed

end
