(* ===== verification/QF_Window.thy ===== *)
theory QF_Window
  imports QF_Prelude
begin

text \<open>
  \<open>RollingWindow\<close> of \<open>accounting/engine.hpp\<close> and \<open>accounting/engine.cpp\<close>: the
  per-dimension budget of consumable resources. The deque of samples is a list, oldest
  first. As long as the total does not saturate and time stamps do not go backwards, the
  total is the sum of the samples younger than the window.
\<close>

section \<open>The window and its operations\<close>

record rolling_window =
  rw_window_ns :: int
  rw_samples :: "(int \<times> int) list"
  rw_total :: int

definition rw_initial :: rolling_window where
  "rw_initial = \<lparr>rw_window_ns = 0, rw_samples = [], rw_total = 0\<rparr>"

text \<open>The \<open>while\<close> loop of \<open>expire\<close>.\<close>

fun rw_expire_loop :: "int \<Rightarrow> (int \<times> int) list \<Rightarrow> int \<Rightarrow> (int \<times> int) list \<times> int" where
  "rw_expire_loop cutoff [] tot = ([], tot)"
| "rw_expire_loop cutoff ((at, amount) # samples) tot =
     (if at \<le> cutoff then rw_expire_loop cutoff samples (sub64 tot amount)
      else ((at, amount) # samples, tot))"

definition rw_expire :: "rolling_window \<Rightarrow> int \<Rightarrow> rolling_window" where
  "rw_expire w now =
     (let cutoff = sub64 now (rw_window_ns w);
          (samples, tot) = rw_expire_loop cutoff (rw_samples w) (rw_total w)
      in w\<lparr>rw_samples := samples, rw_total := tot\<rparr>)"

definition rw_add :: "rolling_window \<Rightarrow> int \<Rightarrow> int \<Rightarrow> rolling_window" where
  "rw_add w at amount =
     (if amount < 0 then w
      else rw_expire (w\<lparr>rw_samples := rw_samples w @ [(at, amount)],
                       rw_total := sat_add (rw_total w) amount\<rparr>) at)"

definition rw_usage :: "rolling_window \<Rightarrow> int \<Rightarrow> int" where
  "rw_usage w now = rw_total w"

definition rw_reset :: "rolling_window \<Rightarrow> rolling_window" where
  "rw_reset w = w\<lparr>rw_samples := [], rw_total := 0\<rparr>"

section \<open>The total is the sum of the samples\<close>

definition rw_ok :: "rolling_window \<Rightarrow> bool" where
  "rw_ok w \<longleftrightarrow>
     (\<forall>(at, a) \<in> set (rw_samples w). 0 \<le> a) \<and>
     rw_total w = sum_list (map snd (rw_samples w)) \<and> rw_total w \<le> INT64_MAX"

lemma rw_ok_initial: "rw_ok rw_initial"
  by (simp add: rw_ok_def rw_initial_def)

lemma samples_nonneg: "\<forall>(at, a) \<in> set xs. 0 \<le> a \<Longrightarrow> (0 :: int) \<le> sum_list (map snd xs)"
  by (intro sum_list_nonneg) auto

lemma samples_dropWhile_le:
  "\<forall>(at, a) \<in> set xs. 0 \<le> a \<Longrightarrow> sum_list (map snd (dropWhile P xs)) \<le> (sum_list (map snd xs) :: int)"
  by (induction xs) auto

lemma rw_expire_loop_eq:
  assumes "\<forall>(at, a) \<in> set xs. 0 \<le> a" "t = sum_list (map snd xs)" "t \<le> INT64_MAX"
  shows "rw_expire_loop c xs t =
    (dropWhile (\<lambda>(at, a). at \<le> c) xs, sum_list (map snd (dropWhile (\<lambda>(at, a). at \<le> c) xs)))"
  using assms
proof (induction c xs t rule: rw_expire_loop.induct)
  case (2 c at a xs t)
  have s: "0 \<le> sum_list (map snd xs)" using 2(2) by (intro samples_nonneg) auto
  then have "sub64 t a = sum_list (map snd xs)"
    using 2(2-4) by (simp add: sub64_nonneg)
  then show ?case using 2 s by auto
qed simp

lemma rw_ok_expire: "rw_ok w \<Longrightarrow> rw_ok (rw_expire w now)"
proof -
  assume ok: "rw_ok w"
  let ?c = "sub64 now (rw_window_ns w)"
  let ?xs = "dropWhile (\<lambda>(at, a). at \<le> ?c) (rw_samples w)"
  have nn: "\<forall>(at, a) \<in> set (rw_samples w). 0 \<le> a" using ok by (simp add: rw_ok_def)
  have "sum_list (map snd ?xs) \<le> INT64_MAX"
    using ok by (intro order_trans [OF samples_dropWhile_le [OF nn]]) (simp add: rw_ok_def)
  moreover have "\<forall>(at, a) \<in> set ?xs. 0 \<le> a" using nn by (auto dest: set_dropWhileD)
  ultimately show ?thesis
    using ok nn by (simp add: rw_expire_def rw_ok_def rw_expire_loop_eq Let_def)
qed

lemma rw_ok_add: "rw_ok w \<Longrightarrow> rw_total w + amount \<le> INT64_MAX \<Longrightarrow> rw_ok (rw_add w at amount)"
proof -
  assume ok: "rw_ok w" and le: "rw_total w + amount \<le> INT64_MAX"
  have "0 \<le> rw_total w" using ok samples_nonneg by (auto simp: rw_ok_def)
  then show ?thesis
    using ok le by (auto simp: rw_add_def rw_ok_def sat_add_exact intro!: rw_ok_expire [unfolded rw_ok_def])
qed

lemma rw_ok_usage: "rw_ok w \<Longrightarrow> 0 \<le> rw_usage w now \<and> rw_usage w now \<le> INT64_MAX"
  using samples_nonneg by (auto simp: rw_ok_def rw_usage_def)

text \<open>With time stamps in order, the loop drops exactly the samples outside the window.\<close>

lemma dropWhile_sorted_filter:
  "sorted (map fst xs) \<Longrightarrow> dropWhile (\<lambda>(at, a). at \<le> c) xs = filter (\<lambda>(at, a). c < at) (xs :: (int \<times> int) list)"
proof (induction xs)
  case (Cons x xs)
  show ?case
  proof (cases "fst x \<le> c")
    case True
    with Cons show ?thesis by (cases x) auto
  next
    case False
    then have "\<forall>y \<in> set (x # xs). c < fst y" using Cons.prems by auto
    then have "filter (\<lambda>(at, a). c < at) (x # xs) = x # xs"
      by (intro filter_True) (auto simp: case_prod_unfold)
    with False show ?thesis by (cases x) auto
  qed
qed simp

text \<open>
  Adding a sample in time order makes the window's usage the sum of exactly those samples
  that are younger than the window, the new one included, as long as the total stays in the
  int64 range.
\<close>

theorem rw_add_total:
  assumes "rw_ok w" and "sorted (map fst (rw_samples w))" and "\<forall>(t, a) \<in> set (rw_samples w). t \<le> at"
    and "0 \<le> amount" and "rw_total w + amount \<le> INT64_MAX"
    and "0 \<le> rw_window_ns w" and "0 \<le> at" and "at \<le> INT64_MAX" and "rw_window_ns w \<le> INT64_MAX"
  shows "rw_usage (rw_add w at amount) now =
    (\<Sum>(t, a) \<leftarrow> rw_samples w @ [(at, amount)]. if at - rw_window_ns w < t then a else 0)"
proof -
  let ?xs = "rw_samples w @ [(at, amount)]" and ?c = "at - rw_window_ns w"
  have c: "sub64 at (rw_window_ns w) = ?c" using assms by (simp add: sub64_nonneg)
  have nn: "0 \<le> rw_total w" using assms(1) samples_nonneg by (auto simp: rw_ok_def)
  have "rw_usage (rw_add w at amount) now = sum_list (map snd (dropWhile (\<lambda>(t, a). t \<le> ?c) ?xs))"
    using assms nn
    by (simp add: rw_usage_def rw_add_def rw_expire_def Let_def c sat_add_exact)
      (subst rw_expire_loop_eq, auto simp: rw_ok_def)
  also have "dropWhile (\<lambda>(t, a). t \<le> ?c) ?xs = filter (\<lambda>(t, a). ?c < t) ?xs"
    using assms(2,3) by (intro dropWhile_sorted_filter) (auto simp: sorted_append)
  also have "sum_list (map snd (filter (\<lambda>(t, a). ?c < t) ?xs)) =
      (\<Sum>(t, a) \<leftarrow> ?xs. if ?c < t then a else 0)"
    by (subst sum_list_map_filter') (simp add: case_prod_unfold)
  finally show ?thesis .
qed

definition rw_example :: rolling_window where
  "rw_example = \<lparr>rw_window_ns = 100, rw_samples = [(10, 5), (60, 7)], rw_total = 12\<rparr>"

theorem rw_add_total_witness:
  "rw_ok rw_example \<and> rw_usage (rw_add rw_example 120 9) 0 = 16"
proof -
  have ok: "rw_ok rw_example" by (simp add: rw_ok_def rw_example_def i64_bounds)
  have "rw_usage (rw_add rw_example 120 9) 0 =
    (\<Sum>(t, a) \<leftarrow> rw_samples rw_example @ [(120, 9)]. if 120 - rw_window_ns rw_example < t then a else 0)"
    using ok by (intro rw_add_total) (simp_all add: rw_example_def i64_bounds)
  with ok show ?thesis by (simp add: rw_example_def)
qed

section \<open>What saturation does to the total\<close>

text \<open>
  \<open>add\<close> saturates the total but keeps the full sample, so expiring the samples subtracts more
  than was added: two samples of \<open>INT64_MAX\<close> that have left the window leave a total of
  \<open>- INT64_MAX\<close> after a sample of 1.
\<close>

definition rw_saturated :: rolling_window where
  "rw_saturated =
     rw_add (rw_add \<lparr>rw_window_ns = 10, rw_samples = [], rw_total = 0\<rparr> 1 INT64_MAX) 2 INT64_MAX"

text \<open>
  After the window's total has saturated at INT64_MAX, expiring the samples subtracts their
  true amounts and leaves a negative usage.
\<close>

theorem rw_saturation_underflow:
  "rw_usage rw_saturated 2 = INT64_MAX \<and> rw_usage (rw_add rw_saturated 100 1) 100 = - INT64_MAX"
  by (simp add: rw_saturated_def rw_usage_def rw_add_def rw_expire_def sat_add_def add64_def
      sub64_def s64_def i64_bounds Let_def)

end
