(* ===== verification/QF_Engine_State.thy ===== *)
theory QF_Engine_State
  imports QF_Policy QF_Window
begin

text \<open>
  The state of \<open>QuotaFabric::Impl\<close> (\<open>accounting/engine.cpp\<close>), one field per member, and
  its read-only helpers up to the quota lattice of a tenant: the walk up the group
  hierarchy, the pointwise minimum over the chain of quotas, the aggregates over a
  subtree, the physical allowance, and the bounded event log.

  The walks up the hierarchy are \<open>while\<close> loops that only stop at a root or at a missing
  group. \<open>ancestor_loop\<close> and \<open>has_ancestor_loop\<close> are those loops with non-termination as
  \<open>None\<close>; the rest of the development uses versions bounded by the number of groups, which
  agree with the loops whenever the hierarchy has no cycle.
\<close>

section \<open>The state\<close>

record usage =
  us_consumption :: resource_vector
  us_reserved :: resource_vector
  us_borrowed_consumed :: resource_vector
  us_burst :: resource_vector
  us_lent :: resource_vector
  us_debt :: resource_vector
  us_windows :: "resource_dimension \<Rightarrow> rolling_window"
  us_burst_started :: int
  us_burst_expires :: int
  us_cooldown_until :: int
  us_burst_active :: bool
  us_burst_peak :: resource_vector

definition empty_usage :: usage where
  "empty_usage =
     \<lparr>us_consumption = rv_empty, us_reserved = rv_empty, us_borrowed_consumed = rv_empty,
      us_burst = rv_empty, us_lent = rv_empty, us_debt = rv_empty,
      us_windows = (\<lambda>_. rw_initial), us_burst_started = 0, us_burst_expires = 0,
      us_cooldown_until = 0, us_burst_active = False, us_burst_peak = rv_empty\<rparr>"

record funding =
  fu_burst :: resource_vector
  fu_borrows :: "borrow_id list"

text \<open>The generators behind \<open>StrongId<Tag>::make\<close> for the tags the engine creates.\<close>

record id_gens =
  ig_group :: id_gen
  ig_tenant :: id_gen
  ig_reservation :: id_gen
  ig_allocation :: id_gen
  ig_lending :: id_gen
  ig_borrow :: id_gen

text \<open>
  \<open>im_cast_oob\<close> is not a member: it is what the platform delivers for a cast of an
  out-of-range \<open>double\<close> to \<open>std::int64_t\<close>, constant over all operations. \<open>im_ids\<close> holds
  the static generators of \<open>make\<close>. The members \<open>agents_\<close> and \<open>agent_boot_\<close> are never
  used by the sources.
\<close>

record impl =
  im_settings :: engine_settings
  im_policy :: quota_policy
  im_epoch :: coordinator_epoch
  im_quota_generation :: quota_generation
  im_sequence :: "64 word"
  im_persist_path :: string
  im_loaded :: bool
  im_groups :: "(tenant_group_id, tenant_group) hmap"
  im_tenants :: "(tenant_id, tenant) hmap"
  im_local_quota :: "(tenant_id, resource_quota) hmap"
  im_group_quota :: "(tenant_group_id, resource_quota) hmap"
  im_usage :: "(tenant_id, usage) hmap"
  im_reservations :: "(reservation_id, reservation) hmap"
  im_funding :: "(reservation_id, funding) hmap"
  im_allocations :: "(allocation_id, allocation) hmap"
  im_borrows :: "(borrow_id, borrow_record) hmap"
  im_lends :: "(lending_id, lending_record) hmap"
  im_events :: "quota_event list"
  im_violations_log :: "string list"
  im_ids :: id_gens
  im_cast_oob :: int

text \<open>The constructor \<open>QuotaFabric(settings)\<close>.\<close>

definition impl_initial :: "engine_settings \<Rightarrow> id_gens \<Rightarrow> int \<Rightarrow> impl" where
  "impl_initial settings ids oob =
     \<lparr>im_settings = settings, im_policy = quota_policy_default, im_epoch = gen_initial,
      im_quota_generation = gen_initial, im_sequence = 0, im_persist_path = '''',
      im_loaded = False, im_groups = [], im_tenants = [],
      im_local_quota = [], im_group_quota = [], im_usage = [], im_reservations = [],
      im_funding = [], im_allocations = [], im_borrows = [], im_lends = [], im_events = [],
      im_violations_log = [], im_ids = ids, im_cast_oob = oob\<rparr>"

section \<open>Small helpers\<close>

definition usage_of :: "impl \<Rightarrow> tenant_id \<Rightarrow> usage" where
  "usage_of im t = (case map_of (im_usage im) t of None \<Rightarrow> empty_usage | Some u \<Rightarrow> u)"

text \<open>\<open>usage_mut(t)\<close> followed by an assignment to members of the reference.\<close>

definition usage_mut :: "tenant_id \<Rightarrow> (usage \<Rightarrow> usage) \<Rightarrow> impl \<Rightarrow> impl" where
  "usage_mut t f im = im\<lparr>im_usage := AList.update t (f (usage_of im t)) (im_usage im)\<rparr>"

definition active_res :: "reservation \<Rightarrow> bool" where
  "active_res r \<longleftrightarrow>
     res_status r = RS_PROVISIONAL \<or> res_status r = RS_COMMITTED \<or> res_status r = RS_CONSUMED"

definition tenant_exists :: "impl \<Rightarrow> tenant_id \<Rightarrow> bool" where
  "tenant_exists im t \<longleftrightarrow> contains_key (im_tenants im) t"

definition group_exists :: "impl \<Rightarrow> tenant_group_id \<Rightarrow> bool" where
  "group_exists im g \<longleftrightarrow> contains_key (im_groups im) g"

definition valid_authority :: "impl \<Rightarrow> authority \<Rightarrow> bool" where
  "valid_authority im a \<longleftrightarrow>
     au_epoch a = im_epoch im \<and> au_quota_generation a = im_quota_generation im \<and>
     au_policy_generation a = pol_generation (im_policy im)"

definition stale_epoch :: "impl \<Rightarrow> authority \<Rightarrow> bool" where
  "stale_epoch im a \<longleftrightarrow> au_epoch a \<noteq> im_epoch im"

definition stale_quota_gen :: "impl \<Rightarrow> authority \<Rightarrow> bool" where
  "stale_quota_gen im a \<longleftrightarrow> au_quota_generation a \<noteq> im_quota_generation im"

section \<open>Walking up the hierarchy\<close>

type_synonym group_map = "(tenant_group_id, tenant_group) hmap"

partial_function (option) ancestor_loop ::
  "group_map \<Rightarrow> tenant_group_id option \<Rightarrow> tenant_group_id list \<Rightarrow> tenant_group_id list option" where
  "ancestor_loop gs cur chain =
     (case cur of
        None \<Rightarrow> Some chain
      | Some g \<Rightarrow>
          (case map_of gs g of
             None \<Rightarrow> Some chain
           | Some G \<Rightarrow> ancestor_loop gs (grp_parent G) (chain @ [g])))"

partial_function (option) has_ancestor_loop ::
  "group_map \<Rightarrow> tenant_group_id option \<Rightarrow> tenant_group_id \<Rightarrow> bool option" where
  "has_ancestor_loop gs cur a =
     (case cur of
        None \<Rightarrow> Some False
      | Some g \<Rightarrow>
          if g = a then Some True
          else (case map_of gs g of
             None \<Rightarrow> Some False
           | Some G \<Rightarrow> has_ancestor_loop gs (grp_parent G) a))"

fun up_chain :: "nat \<Rightarrow> group_map \<Rightarrow> tenant_group_id option \<Rightarrow> tenant_group_id list" where
  "up_chain (Suc n) gs (Some g) =
     (case map_of gs g of None \<Rightarrow> [] | Some G \<Rightarrow> g # up_chain n gs (grp_parent G))"
| "up_chain _ gs _ = []"

fun up_reaches :: "nat \<Rightarrow> group_map \<Rightarrow> tenant_group_id option \<Rightarrow> tenant_group_id \<Rightarrow> bool" where
  "up_reaches (Suc n) gs (Some g) a =
     (if g = a then True
      else (case map_of gs g of None \<Rightarrow> False | Some G \<Rightarrow> up_reaches n gs (grp_parent G) a))"
| "up_reaches _ gs _ a = False"

definition ancestor_groups :: "impl \<Rightarrow> tenant_id \<Rightarrow> tenant_group_id list" where
  "ancestor_groups im t =
     (case map_of (im_tenants im) t of
        None \<Rightarrow> []
      | Some tn \<Rightarrow> rev (up_chain (Suc (length (im_groups im))) (im_groups im) (ten_group tn)))"

definition has_ancestor :: "impl \<Rightarrow> tenant \<Rightarrow> tenant_group_id \<Rightarrow> bool" where
  "has_ancestor im tn g =
     up_reaches (Suc (length (im_groups im))) (im_groups im) (ten_group tn) g"

section \<open>The quota lattice of a tenant\<close>

definition merge_min_step ::
  "resource_vector \<Rightarrow> resource_dimension \<Rightarrow> resource_vector \<times> (resource_dimension \<Rightarrow> bool)
     \<Rightarrow> resource_vector \<times> (resource_dimension \<Rightarrow> bool)" where
  "merge_min_step v d s =
     (case s of (out, seen) \<Rightarrow>
        if rv_present v d \<and> (\<not> seen d \<or> rv_get v d < rv_get out d)
        then (rv_put out d (rv_get v d), seen(d := True)) else (out, seen))"

definition merge_min ::
  "resource_vector \<Rightarrow> resource_quota list \<Rightarrow> (resource_quota \<Rightarrow> resource_vector) \<Rightarrow> resource_vector" where
  "merge_min out chain g =
     fst (fold (\<lambda>q. fold (merge_min_step (g q)) all_resource_dimensions) chain (out, \<lambda>_. False))"

definition quota_chain :: "impl \<Rightarrow> tenant_id \<Rightarrow> resource_quota list" where
  "quota_chain im t =
     List.map_filter (map_of (im_group_quota im)) (ancestor_groups im t) @
     (case map_of (im_local_quota im) t of None \<Rightarrow> [] | Some q \<Rightarrow> [q])"

definition effective_lattice :: "impl \<Rightarrow> tenant_id \<Rightarrow> resource_quota" where
  "effective_lattice im t =
     (let chain = quota_chain im t;
          eff = resource_quota_default\<lparr>
            q_tenant := t,
            q_guaranteed := merge_min rv_empty chain q_guaranteed,
            q_soft_limit := merge_min rv_empty chain q_soft_limit,
            q_hard_limit := merge_min rv_empty chain q_hard_limit,
            q_burst_limit := merge_min rv_empty chain q_burst_limit,
            q_borrowable := merge_min rv_empty chain q_borrowable,
            q_physical_capacity := merge_min rv_empty chain q_physical_capacity,
            q_generation := im_quota_generation im,
            q_policy_generation := pol_generation (im_policy im)\<rparr>
      in if chain = [] then eff
         else eff\<lparr>q_burst_rule := q_burst_rule (last chain),
                  q_borrow_rule := q_borrow_rule (last chain),
                  q_overcommit := q_overcommit (last chain),
                  q_overcommit_factor := q_overcommit_factor (last chain)\<rparr>)"

definition has_entitlement :: "resource_quota \<Rightarrow> bool" where
  "has_entitlement eff \<longleftrightarrow>
     rv_present_count (q_guaranteed eff) \<noteq> 0 \<or> rv_present_count (q_soft_limit eff) \<noteq> 0 \<or>
     rv_present_count (q_hard_limit eff) \<noteq> 0 \<or> rv_present_count (q_burst_limit eff) \<noteq> 0 \<or>
     rv_present_count (q_borrowable eff) \<noteq> 0"

definition lattice_coherent :: "resource_quota \<Rightarrow> bool" where
  "lattice_coherent q \<longleftrightarrow>
     list_all (\<lambda>d.
        \<not> (rv_present (q_guaranteed q) d \<and> rv_present (q_hard_limit q) d
             \<and> rv_get (q_guaranteed q) d > rv_get (q_hard_limit q) d) \<and>
        \<not> (rv_present (q_soft_limit q) d \<and> rv_present (q_hard_limit q) d
             \<and> rv_get (q_soft_limit q) d > rv_get (q_hard_limit q) d) \<and>
        \<not> (rv_present (q_guaranteed q) d \<and> rv_present (q_soft_limit q) d
             \<and> rv_get (q_guaranteed q) d > rv_get (q_soft_limit q) d))
       all_resource_dimensions"

text \<open>
  The three defaults the engine uses for an absent limit, spelled out at every use in the
  sources: no guarantee is 0, no soft limit is the guarantee or else unlimited, no hard
  limit is unlimited.
\<close>

definition guarantee_at :: "resource_quota \<Rightarrow> resource_dimension \<Rightarrow> int" where
  "guarantee_at eff d = (if rv_present (q_guaranteed eff) d then rv_get (q_guaranteed eff) d else 0)"

definition soft_at :: "resource_quota \<Rightarrow> resource_dimension \<Rightarrow> int" where
  "soft_at eff d =
     (if rv_present (q_soft_limit eff) d then rv_get (q_soft_limit eff) d
      else if rv_present (q_guaranteed eff) d then rv_get (q_guaranteed eff) d else INT64_MAX)"

definition hard_at :: "resource_quota \<Rightarrow> resource_dimension \<Rightarrow> int" where
  "hard_at eff d = (if rv_present (q_hard_limit eff) d then rv_get (q_hard_limit eff) d else INT64_MAX)"

section \<open>Aggregates\<close>

definition committed_of :: "usage \<Rightarrow> resource_vector" where
  "committed_of u = rv_acc (us_consumption u) (us_reserved u)"

definition subtree_committed :: "impl \<Rightarrow> tenant_group_id \<Rightarrow> resource_vector" where
  "subtree_committed im g =
     fold (\<lambda>(tid, tn) sum.
        if has_ancestor im tn g
        then let u = usage_of im tid in rv_acc (rv_acc sum (us_consumption u)) (us_reserved u)
        else sum) (im_tenants im) rv_empty"

definition pool_used_of :: "resource_quota \<Rightarrow> resource_vector \<Rightarrow> resource_vector \<Rightarrow> resource_vector" where
  "pool_used_of eff committed total_used =
     fold (\<lambda>d sum.
        if \<not> rv_present (q_guaranteed eff) d then sum
        else let amount = min (rv_get committed d) (rv_get (q_guaranteed eff) d)
          in if amount > 0 then rv_acc sum (rv_from_scalar d amount) else sum)
       all_resource_dimensions total_used"

definition pool_used :: "impl \<Rightarrow> tenant_group_id \<Rightarrow> resource_vector" where
  "pool_used im g =
     fold (\<lambda>(tid, tn) sum.
        if \<not> has_ancestor im tn g then sum
        else pool_used_of (effective_lattice im tid) (committed_of (usage_of im tid)) sum)
       (im_tenants im) rv_empty"

definition is_consumable :: "resource_dimension \<Rightarrow> bool" where
  "is_consumable d \<longleftrightarrow>
     d = AcceleratorComputeTime \<or> d = TransferBytes \<or> d = StorageBandwidth \<or> d = TransferBandwidth"

definition current_committed_scalar ::
  "impl \<Rightarrow> int \<Rightarrow> tenant_id \<Rightarrow> resource_dimension \<Rightarrow> resource_vector \<Rightarrow> int" where
  "current_committed_scalar im now t d committed =
     (if is_consumable d then rw_usage (us_windows (usage_of im t) d) now else rv_get committed d)"

text \<open>\<open>std::max(1.0, f > 0 ? f : 1.0)\<close>\<close>

definition overcommit_scale :: "double \<Rightarrow> double" where
  "overcommit_scale f =
     (let g = (if dbl_gt_zero f then f else dbl_one)
      in if \<not> dbl_lt_one g \<and> dbl_neq_one g then g else dbl_one)"

definition physical_allowance :: "impl \<Rightarrow> resource_dimension \<Rightarrow> resource_quota \<Rightarrow> int" where
  "physical_allowance im d eff =
     (if \<not> rv_present (q_physical_capacity eff) d then INT64_MAX
      else let cap0 = dbl_of_int (rv_get (q_physical_capacity eff) d);
               cap = (if q_overcommit eff = OM_LOGICAL \<or> q_overcommit eff = OM_PREDICTION_AWARE
                      then dbl_mul cap0 (dbl_decode (overcommit_scale (q_overcommit_factor eff)))
                      else cap0)
           in if dbl_gt_int64_max cap then INT64_MAX else dbl_to_int64 (im_cast_oob im) cap)"

section \<open>Events\<close>

definition quota_event_of :: "impl \<Rightarrow> int \<Rightarrow> event_type \<Rightarrow> tenant_id \<Rightarrow> string \<Rightarrow> quota_event" where
  "quota_event_of im now et t detail =
     \<lparr>ev_type = et, ev_at = now, ev_tenant = t, ev_group = None, ev_reservation = None,
      ev_allocation = None, ev_borrow = None, ev_lend = None, ev_dimension = None,
      ev_amount = 0, ev_quota_generation = im_quota_generation im,
      ev_policy_generation = pol_generation (im_policy im), ev_epoch = im_epoch im,
      ev_violation = None, ev_detail = detail\<rparr>"

text \<open>\<open>while (size > bound) pop_front()\<close>\<close>

fun pop_to :: "nat \<Rightarrow> 'a list \<Rightarrow> 'a list" where
  "pop_to n [] = []"
| "pop_to n (x # xs) = (if length (x # xs) > n then pop_to n xs else x # xs)"

definition emit_event :: "int \<Rightarrow> event_type \<Rightarrow> tenant_id \<Rightarrow> string \<Rightarrow> impl \<Rightarrow> impl" where
  "emit_event now et t detail im =
     im\<lparr>im_events := pop_to (unat (se_max_event_retention (im_settings im)))
                       (im_events im @ [quota_event_of im now et t detail])\<rparr>"

section \<open>A concrete engine\<close>

text \<open>The freshly constructed engine, with fixed generator seeds, that concrete runs start from.\<close>

definition sample_gen :: "64 word \<Rightarrow> id_gen" where
  "sample_gen k = \<lparr>ig_rng = rng_system k 2 3 4, ig_counter = 0\<rparr>"

definition sample_ids :: id_gens where
  "sample_ids = \<lparr>ig_group = sample_gen 1, ig_tenant = sample_gen 2, ig_reservation = sample_gen 3,
     ig_allocation = sample_gen 4, ig_lending = sample_gen 5, ig_borrow = sample_gen 6\<rparr>"

definition sample_engine :: impl where
  "sample_engine = impl_initial engine_settings_default sample_ids 0"

end
