(* ===== verification/QF_Lattice.thy ===== *)
theory QF_Lattice
  imports QF_Engine_State
begin

text \<open>
  What the read-only helpers of the engine state compute: the hierarchy walks return on
  every acyclic hierarchy and diverge on a cycle, the effective lattice of a tenant is the
  pointwise minimum over its quota chain, subtree aggregates are sums, the physical
  allowance is the capacity as long as a double can hold it, and the event log is bounded.
\<close>

section \<open>Hierarchies without cycles\<close>

definition hier_ok :: "group_map \<Rightarrow> bool" where
  "hier_ok gs \<longleftrightarrow>
     (\<exists>rank :: tenant_group_id \<Rightarrow> nat. \<forall>(g, G) \<in> set gs. \<forall>p. grp_parent G = Some p \<longrightarrow>
        p \<in> fst ` set gs \<longrightarrow> rank p < rank g)"

definition hier_height :: "(tenant_group_id \<Rightarrow> nat) \<Rightarrow> group_map \<Rightarrow> tenant_group_id \<Rightarrow> nat" where
  "hier_height rank gs g = card {x \<in> fst ` set gs. rank x \<le> rank g}"

lemma hier_height_le: "hier_height rank gs g \<le> length gs"
proof -
  have "hier_height rank gs g \<le> card (fst ` set gs)"
    unfolding hier_height_def by (rule card_mono) auto
  also have "\<dots> \<le> length gs"
    by (metis card_length length_map list.set_map)
  finally show ?thesis .
qed

lemma card_below_less:
  fixes rank :: "'a \<Rightarrow> nat"
  assumes "finite K" "g \<in> K" "rank p < rank g"
  shows "card {x \<in> K. rank x \<le> rank p} < card {x \<in> K. rank x \<le> rank g}"
proof (rule psubset_card_mono)
  show "finite {x \<in> K. rank x \<le> rank g}" using assms(1) by simp
  have "{x \<in> K. rank x \<le> rank p} \<subseteq> {x \<in> K. rank x \<le> rank g}" using assms(3) by auto
  moreover have "g \<in> {x \<in> K. rank x \<le> rank g}" "g \<notin> {x \<in> K. rank x \<le> rank p}" using assms by auto
  ultimately show "{x \<in> K. rank x \<le> rank p} \<subset> {x \<in> K. rank x \<le> rank g}" by (metis psubsetI)
qed

lemma hier_height_parent:
  "g \<in> fst ` set gs \<Longrightarrow> rank p < rank g \<Longrightarrow> hier_height rank gs p < hier_height rank gs g"
  unfolding hier_height_def by (rule card_below_less) simp_all

lemma hier_height_pos: "g \<in> fst ` set gs \<Longrightarrow> 0 < hier_height rank gs g"
  unfolding hier_height_def by (auto simp: card_gt_0_iff)

definition enough_fuel :: "(tenant_group_id \<Rightarrow> nat) \<Rightarrow> group_map \<Rightarrow> nat \<Rightarrow> tenant_group_id option \<Rightarrow> bool" where
  "enough_fuel rank gs n cur \<longleftrightarrow>
     0 < n \<and> (case cur of None \<Rightarrow> True | Some g \<Rightarrow> g \<in> fst ` set gs \<longrightarrow> hier_height rank gs g < n)"

lemma enough_fuel_parent:
  assumes rank: "\<forall>(g, G) \<in> set gs. \<forall>p. grp_parent G = Some p \<longrightarrow> p \<in> fst ` set gs \<longrightarrow> rank p < rank g"
    and "enough_fuel rank gs (Suc n) (Some g)" "map_of gs g = Some G"
  shows "enough_fuel rank gs n (grp_parent G)"
proof -
  have mem: "(g, G) \<in> set gs" using assms(3) by (rule map_of_SomeD)
  then have key: "g \<in> fst ` set gs" by (force simp: image_iff)
  with assms(2) have n: "hier_height rank gs g \<le> n" by (simp add: enough_fuel_def)
  show ?thesis
  proof (cases "grp_parent G")
    case (Some p)
    have "hier_height rank gs p < n" if "p \<in> fst ` set gs"
      using hier_height_parent [OF key, of rank p] rank mem Some that n by fastforce
    with Some n hier_height_pos [OF key, of rank] show ?thesis by (auto simp: enough_fuel_def)
  qed (use n hier_height_pos [OF key, of rank] in \<open>auto simp: enough_fuel_def\<close>)
qed

lemma ancestor_loop_fuel:
  assumes "\<forall>(g, G) \<in> set gs. \<forall>p. grp_parent G = Some p \<longrightarrow> p \<in> fst ` set gs \<longrightarrow> rank p < rank g"
    and "enough_fuel rank gs n cur"
  shows "ancestor_loop gs cur chain = Some (chain @ up_chain n gs cur)"
  using assms(2)
proof (induction n arbitrary: cur chain)
  case (Suc n)
  show ?case
  proof (cases cur)
    case (Some g)
    show ?thesis
    proof (cases "map_of gs g")
      case (Some G)
      have "enough_fuel rank gs n (grp_parent G)"
        using enough_fuel_parent [OF assms(1)] Suc.prems \<open>cur = Some g\<close> Some by blast
      then show ?thesis using Some \<open>cur = Some g\<close> by (subst ancestor_loop.simps) (simp add: Suc.IH)
    qed (subst ancestor_loop.simps, simp add: \<open>cur = Some g\<close>)
  qed (subst ancestor_loop.simps, simp)
qed (simp add: enough_fuel_def)

lemma has_ancestor_loop_fuel:
  assumes "\<forall>(g, G) \<in> set gs. \<forall>p. grp_parent G = Some p \<longrightarrow> p \<in> fst ` set gs \<longrightarrow> rank p < rank g"
    and "enough_fuel rank gs n cur"
  shows "has_ancestor_loop gs cur a = Some (up_reaches n gs cur a)"
  using assms(2)
proof (induction n arbitrary: cur)
  case (Suc n)
  show ?case
  proof (cases cur)
    case (Some g)
    show ?thesis
    proof (cases "map_of gs g")
      case (Some G)
      have "enough_fuel rank gs n (grp_parent G)"
        using enough_fuel_parent [OF assms(1)] Suc.prems \<open>cur = Some g\<close> Some by blast
      then show ?thesis using Some \<open>cur = Some g\<close> by (subst has_ancestor_loop.simps) (simp add: Suc.IH)
    qed (subst has_ancestor_loop.simps, simp add: \<open>cur = Some g\<close>)
  qed (subst has_ancestor_loop.simps, simp)
qed (simp add: enough_fuel_def)

lemma enough_fuel_length: "enough_fuel rank gs (Suc (length gs)) cur"
  using hier_height_le [of rank gs] by (auto simp: enough_fuel_def less_Suc_eq_le split: option.split)

text \<open>
  On an acyclic hierarchy both unbounded loops, the ancestor walk and has_ancestor, return,
  and their results are those of the walks bounded by the number of groups that the rest of
  the model uses.
\<close>

theorem hierarchy_walk_returns:
  assumes "hier_ok (im_groups im)"
  shows "ancestor_loop (im_groups im) (ten_group tn) [] =
           Some (up_chain (Suc (length (im_groups im))) (im_groups im) (ten_group tn)) \<and>
         has_ancestor_loop (im_groups im) (ten_group tn) g = Some (has_ancestor im tn g)"
proof -
  obtain rank :: "tenant_group_id \<Rightarrow> nat" where
    rank: "\<forall>(g, G) \<in> set (im_groups im). \<forall>p. grp_parent G = Some p \<longrightarrow>
      p \<in> fst ` set (im_groups im) \<longrightarrow> rank p < rank g"
    using assms unfolding hier_ok_def by blast
  show ?thesis
    using ancestor_loop_fuel [OF rank enough_fuel_length] has_ancestor_loop_fuel [OF rank enough_fuel_length]
    by (simp add: has_ancestor_def)
qed

text \<open>A closed set of groups that all have their parent in the set: the walk never returns.\<close>

definition parent_cycle :: "group_map \<Rightarrow> tenant_group_id set \<Rightarrow> bool" where
  "parent_cycle gs C \<longleftrightarrow>
     (\<forall>g \<in> C. \<exists>G p. map_of gs g = Some G \<and> grp_parent G = Some p \<and> p \<in> C)"

lemma ancestor_loop_cycle:
  assumes "parent_cycle gs C" "g \<in> C"
  shows "ancestor_loop gs (Some g) chain = None"
proof -
  have "gs = gs \<longrightarrow> \<not> (\<exists>h \<in> C. cur = Some h)" if "ancestor_loop gs cur ch = Some y" for cur ch y
  proof (rule ancestor_loop.raw_induct
      [where P = "\<lambda>gs' cur ch y. gs' = gs \<longrightarrow> \<not> (\<exists>h \<in> C. cur = Some h)", OF _ that])
    fix loop gs' cur ch y
    assume IH: "\<And>gs' cur ch y. loop gs' cur ch = Some y \<Longrightarrow> gs' = gs \<longrightarrow> \<not> (\<exists>h \<in> C. cur = Some h)"
      and body: "(case cur of None \<Rightarrow> Some ch | Some g \<Rightarrow>
          (case map_of gs' g of None \<Rightarrow> Some ch | Some G \<Rightarrow> loop gs' (grp_parent G) (ch @ [g]))) = Some y"
    show "gs' = gs \<longrightarrow> \<not> (\<exists>h \<in> C. cur = Some h)"
    proof (intro impI notI)
      assume gs: "gs' = gs" and "\<exists>h \<in> C. cur = Some h"
      then obtain h G p where h: "h \<in> C" "cur = Some h" "map_of gs h = Some G" "grp_parent G = Some p" "p \<in> C"
        using assms(1) unfolding parent_cycle_def by metis
      then have "loop gs' (grp_parent G) (ch @ [h]) = Some y" using body gs by simp
      from IH [OF this] gs h show False by blast
    qed
  qed
  with assms(2) show ?thesis by (metis not_None_eq)
qed

section \<open>The effective lattice is a minimum\<close>

lemma merge_min_inner:
  assumes "distinct ds" "rv_ok v"
  shows "rv_val (fst (fold (merge_min_step v) ds (out, seen))) e =
      (if e \<in> set ds \<and> rv_present v e \<and> (\<not> seen e \<or> rv_val v e < rv_val out e)
       then rv_val v e else rv_val out e)"
    and "rv_present (fst (fold (merge_min_step v) ds (out, seen))) e \<longleftrightarrow>
      rv_present out e \<or> (e \<in> set ds \<and> rv_present v e \<and> (\<not> seen e \<or> rv_val v e < rv_val out e))"
    and "snd (fold (merge_min_step v) ds (out, seen)) e \<longleftrightarrow>
      seen e \<or> (e \<in> set ds \<and> rv_present v e)"
  using assms(1)
proof (induction ds arbitrary: out seen)
  case (Cons d ds)
  {
    case 1
    then show ?case using Cons.IH(1) by (auto simp: merge_min_step_def rv_okD assms(2))
  next
    case 2
    then show ?case using Cons.IH(2) by (auto simp: merge_min_step_def rv_okD assms(2))
  next
    case 3
    then show ?case using Cons.IH(3) by (auto simp: merge_min_step_def rv_okD assms(2))
  }
qed auto

definition chain_limits ::
  "(resource_quota \<Rightarrow> resource_vector) \<Rightarrow> resource_quota list \<Rightarrow> resource_dimension \<Rightarrow> int list" where
  "chain_limits g chain d = map (\<lambda>q. rv_val (g q) d) (filter (\<lambda>q. rv_present (g q) d) chain)"

lemma chain_limits_Nil: "chain_limits g chain d = [] \<longleftrightarrow> (\<forall>q \<in> set chain. \<not> rv_present (g q) d)"
  by (auto simp: chain_limits_def filter_empty_conv)

lemma chain_limits_snoc [simp]:
  "chain_limits g (chain @ [q]) d =
     chain_limits g chain d @ (if rv_present (g q) d then [rv_val (g q) d] else [])"
  by (simp add: chain_limits_def)

lemma merge_min_outer:
  assumes "\<forall>q \<in> set chain. rv_ok (g q)"
  defines "s \<equiv> fold (\<lambda>q. fold (merge_min_step (g q)) all_resource_dimensions) chain (rv_empty, \<lambda>_. False)"
  shows "rv_val (fst s) d = (if chain_limits g chain d = [] then 0 else Min (set (chain_limits g chain d))) \<and>
    (rv_present (fst s) d \<longleftrightarrow> chain_limits g chain d \<noteq> []) \<and>
    (snd s d \<longleftrightarrow> chain_limits g chain d \<noteq> [])"
  using assms(1) unfolding s_def
proof (induction chain rule: rev_induct)
  case Nil
  then show ?case by (simp add: chain_limits_def)
next
  case (snoc q chain)
  let ?s = "fold (\<lambda>q. fold (merge_min_step (g q)) all_resource_dimensions) chain (rv_empty, \<lambda>_. False)"
  let ?L = "chain_limits g chain d"
  have IH: "rv_val (fst ?s) d = (if ?L = [] then 0 else Min (set ?L))"
    "rv_present (fst ?s) d \<longleftrightarrow> ?L \<noteq> []" "snd ?s d \<longleftrightarrow> ?L \<noteq> []"
    using snoc by auto
  have ok: "rv_ok (g q)" using snoc.prems by simp
  obtain out seen where s: "?s = (out, seen)" by (cases ?s)
  note inner = merge_min_inner [OF distinct_all_dimensions ok, where out = out and seen = seen and e = d]
  have Min: "Min (set (?L @ [x])) = min x (Min (set ?L))" if "?L \<noteq> []" for x
    using that by simp
  show ?case
  proof (cases "rv_present (g q) d \<and> ?L \<noteq> []")
    case True
    then show ?thesis
      using IH inner unfolding fold_append comp_def fold_simps s chain_limits_snoc
      by (simp add: Min min_def all_dimensions_UNIV del: set_append Min_less_iff Min_gr_iff Min_le_iff Min_ge_iff)
  next
    case False
    then show ?thesis
      using IH inner unfolding fold_append comp_def fold_simps s chain_limits_snoc
      by (auto simp: all_dimensions_UNIV)
  qed
qed

lemma merge_min_val:
  assumes "\<forall>q \<in> set chain. rv_ok (g q)"
  shows "rv_val (merge_min rv_empty chain g) d =
      (if chain_limits g chain d = [] then 0 else Min (set (chain_limits g chain d)))"
    and "rv_present (merge_min rv_empty chain g) d \<longleftrightarrow> (\<exists>q \<in> set chain. rv_present (g q) d)"
  using merge_min_outer [OF assms, of d] by (auto simp: merge_min_def chain_limits_Nil)

lemma rv_ok_merge_min:
  assumes "\<forall>q \<in> set chain. rv_ok (g q)"
  shows "rv_ok (merge_min rv_empty chain g)"
  unfolding rv_ok_def
proof (intro allI conjI impI)
  fix d
  let ?v = "rv_val (merge_min rv_empty chain g) d"
  have "?v = 0 \<or> (\<exists>q \<in> set chain. ?v = rv_val (g q) d)"
  proof (cases "chain_limits g chain d = []")
    case False
    then have "Min (set (chain_limits g chain d)) \<in> set (chain_limits g chain d)" by simp
    then show ?thesis using False assms by (auto simp: merge_min_val chain_limits_def)
  qed (simp add: merge_min_val assms)
  then show "0 \<le> ?v" "?v \<le> INT64_MAX" using assms by (auto simp: rv_okD)
  show "?v = 0" if "\<not> rv_present (merge_min rv_empty chain g) d"
    using that assms by (simp add: merge_min_val chain_limits_Nil)
qed

text \<open>Every limit of the chain bounds the merged one, and the merged one is one of them.\<close>

lemma merge_min_le:
  assumes "\<forall>q \<in> set chain. rv_ok (g q)" "q \<in> set chain" "rv_present (g q) d"
  shows "rv_present (merge_min rv_empty chain g) d" "rv_val (merge_min rv_empty chain g) d \<le> rv_val (g q) d"
proof -
  have "rv_val (g q) d \<in> set (chain_limits g chain d)" using assms by (auto simp: chain_limits_def)
  then show "rv_val (merge_min rv_empty chain g) d \<le> rv_val (g q) d"
    using assms(1) by (auto simp: merge_min_val)
  show "rv_present (merge_min rv_empty chain g) d" using assms by (auto simp: merge_min_val)
qed

lemma merge_min_attained:
  assumes "\<forall>q \<in> set chain. rv_ok (g q)" "rv_present (merge_min rv_empty chain g) d"
  shows "\<exists>q \<in> set chain. rv_present (g q) d \<and> rv_val (merge_min rv_empty chain g) d = rv_val (g q) d"
proof -
  have ne: "chain_limits g chain d \<noteq> []" using assms by (auto simp: merge_min_val chain_limits_Nil)
  then have "Min (set (chain_limits g chain d)) \<in> set (chain_limits g chain d)" by simp
  with ne assms(1) show ?thesis by (auto simp: merge_min_val chain_limits_def)
qed

lemma merge_min_single: "rv_ok (g q) \<Longrightarrow> merge_min rv_empty [q] g = g q"
  by (rule rv_eqI) (auto simp: merge_min_val chain_limits_def rv_okD)

definition quotas_ok :: "impl \<Rightarrow> bool" where
  "quotas_ok im \<longleftrightarrow>
     (\<forall>(t, q) \<in> set (im_local_quota im). quota_ok q) \<and> (\<forall>(g, q) \<in> set (im_group_quota im). quota_ok q)"

lemma set_map_filter: "set (List.map_filter f xs) = {y. \<exists>x \<in> set xs. f x = Some y}"
  by (induction xs) (auto simp: List.map_filter_simps split: option.splits)

lemma quota_chain_ok: "quotas_ok im \<Longrightarrow> q \<in> set (quota_chain im t) \<Longrightarrow> quota_ok q"
proof -
  assume ok: "quotas_ok im" and "q \<in> set (quota_chain im t)"
  then consider g where "map_of (im_group_quota im) g = Some q" | "map_of (im_local_quota im) t = Some q"
    by (auto simp: quota_chain_def set_map_filter split: option.splits)
  then show "quota_ok q"
  proof cases
    case 1
    then show ?thesis using ok map_of_SomeD [OF 1] by (auto simp: quotas_ok_def)
  next
    case 2
    then show ?thesis using ok map_of_SomeD [OF 2] by (auto simp: quotas_ok_def)
  qed
qed

lemma effective_lattice_simps [simp]:
  "q_guaranteed (effective_lattice im t) = merge_min rv_empty (quota_chain im t) q_guaranteed"
  "q_soft_limit (effective_lattice im t) = merge_min rv_empty (quota_chain im t) q_soft_limit"
  "q_hard_limit (effective_lattice im t) = merge_min rv_empty (quota_chain im t) q_hard_limit"
  "q_burst_limit (effective_lattice im t) = merge_min rv_empty (quota_chain im t) q_burst_limit"
  "q_borrowable (effective_lattice im t) = merge_min rv_empty (quota_chain im t) q_borrowable"
  "q_physical_capacity (effective_lattice im t) = merge_min rv_empty (quota_chain im t) q_physical_capacity"
  by (simp_all add: effective_lattice_def Let_def)

lemma quota_ok_effective: "quotas_ok im \<Longrightarrow> quota_ok (effective_lattice im t)"
  using quota_chain_ok [of im _ t] unfolding quota_ok_def
  by (auto intro!: rv_ok_merge_min)

text \<open>
  C20. The effective quota is the pointwise minimum over the chain of group and tenant
  quotas: each of its six limit vectors constrains a dimension exactly when some quota of
  the chain does, is at most every constraint of the chain, and is attained by one.
\<close>

theorem effective_lattice_min:
  assumes "quotas_ok im"
    and "get \<in> {q_guaranteed, q_soft_limit, q_hard_limit, q_burst_limit, q_borrowable, q_physical_capacity}"
  shows "(rv_present (get (effective_lattice im t)) d \<longleftrightarrow>
            (\<exists>q \<in> set (quota_chain im t). rv_present (get q) d)) \<and>
         (\<forall>q \<in> set (quota_chain im t). rv_present (get q) d \<longrightarrow>
            rv_get (get (effective_lattice im t)) d \<le> rv_get (get q) d) \<and>
         (rv_present (get (effective_lattice im t)) d \<longrightarrow>
            (\<exists>q \<in> set (quota_chain im t). rv_present (get q) d \<and>
               rv_get (get (effective_lattice im t)) d = rv_get (get q) d))"
proof -
  have ok: "\<forall>q \<in> set (quota_chain im t). rv_ok (get q)"
    using quota_chain_ok [OF assms(1), of _ t] assms(2) by (auto simp: quota_ok_def)
  have get: "get (effective_lattice im t) = merge_min rv_empty (quota_chain im t) get"
    using assms(2) by auto
  show ?thesis
    unfolding get using merge_min_le [OF ok] merge_min_attained [OF ok]
    by (auto simp: merge_min_val(2) [OF ok])
qed

section \<open>Adding a group\<close>

lemma hier_ok_Nil [simp]: "hier_ok []"
  by (simp add: hier_ok_def)

lemma hier_ok_emplace:
  assumes "hier_ok gs" and fresh: "\<forall>(h, H) \<in> set gs. grp_parent H \<noteq> Some g" "grp_parent G \<noteq> Some g"
  shows "hier_ok (emplace g G gs)"
proof (cases "map_of gs g")
  case None
  obtain rank where rank: "\<forall>(h, H) \<in> set gs. \<forall>p. grp_parent H = Some p \<longrightarrow> p \<in> fst ` set gs \<longrightarrow> rank p < (rank h :: nat)"
    using assms(1) unfolding hier_ok_def by blast
  define m where "m = Suc (Max (rank ` fst ` set gs))"
  have m: "rank p < m" if "p \<in> fst ` set gs" for p
    unfolding m_def less_Suc_eq_le using that by (intro Max_ge) auto
  have new: "g \<notin> fst ` set gs" using None by (simp add: map_of_eq_None_iff)
  have key: "(rank(g := m)) p < (rank(g := m)) h"
    if hH: "(h, H) \<in> set (gs @ [(g, G)])" "grp_parent H = Some p" "p \<in> fst ` set (gs @ [(g, G)])" for h H p
  proof -
    have pg: "p \<noteq> g" using hH(1,2) fresh by auto
    then have p: "p \<in> fst ` set gs" using hH(3) by auto
    show ?thesis
    proof (cases "h = g")
      case False
      then have "rank p < rank h" using hH(1,2) p rank by fastforce
      then show ?thesis using pg False by simp
    qed (use m [OF p] pg in simp)
  qed
  show ?thesis
    unfolding hier_ok_def emplace_new [OF None]
    by (rule exI [of _ "rank(g := m)"], intro ballI, clarify, rule key, assumption+, rule imageI)
qed (use assms in \<open>simp add: emplace_def\<close>)

section \<open>Subtree aggregates are sums\<close>

definition usages_ok :: "impl \<Rightarrow> bool" where
  "usages_ok im \<longleftrightarrow>
     (\<forall>(t, u) \<in> set (im_usage im).
        rv_ok (us_consumption u) \<and> rv_ok (us_reserved u) \<and> rv_ok (us_borrowed_consumed u) \<and>
        rv_ok (us_burst u) \<and> rv_ok (us_lent u) \<and> rv_ok (us_debt u))"

lemma empty_usage_simps [simp]:
  "us_consumption empty_usage = rv_empty" "us_reserved empty_usage = rv_empty"
  "us_borrowed_consumed empty_usage = rv_empty" "us_burst empty_usage = rv_empty"
  "us_lent empty_usage = rv_empty" "us_debt empty_usage = rv_empty"
  "\<not> us_burst_active empty_usage" "us_cooldown_until empty_usage = 0"
  "us_windows empty_usage d = rw_initial"
  by (simp_all add: empty_usage_def)

lemma usages_okD:
  assumes "usages_ok im"
  shows "rv_ok (us_consumption (usage_of im t))" "rv_ok (us_reserved (usage_of im t))"
    "rv_ok (us_borrowed_consumed (usage_of im t))" "rv_ok (us_burst (usage_of im t))"
    "rv_ok (us_lent (usage_of im t))" "rv_ok (us_debt (usage_of im t))"
  using assms unfolding usages_ok_def usage_of_def
  by (auto split: option.splits dest!: map_of_SomeD)

lemma rv_ok_committed_of: "usages_ok im \<Longrightarrow> rv_ok (committed_of (usage_of im t))"
  by (simp add: committed_of_def rv_ok_acc usages_okD)

definition subtree_vectors :: "impl \<Rightarrow> tenant_group_id \<Rightarrow> resource_vector list" where
  "subtree_vectors im g =
     concat (map (\<lambda>(tid, tn). if has_ancestor im tn g
        then [us_consumption (usage_of im tid), us_reserved (usage_of im tid)] else []) (im_tenants im))"

lemma subtree_committed_sum: "subtree_committed im g = rv_sum (subtree_vectors im g)"
proof -
  let ?f = "\<lambda>(tid, tn) sum.
        if has_ancestor im tn g
        then let u = usage_of im tid in rv_acc (rv_acc sum (us_consumption u)) (us_reserved u) else sum"
  have "fold ?f ts r = foldl rv_acc r (concat (map (\<lambda>(tid, tn). if has_ancestor im tn g
        then [us_consumption (usage_of im tid), us_reserved (usage_of im tid)] else []) ts))" for ts r
    by (induction ts arbitrary: r) (auto simp: Let_def)
  then show ?thesis by (simp add: subtree_committed_def subtree_vectors_def rv_sum_def)
qed

lemma subtree_vectors_ok: "usages_ok im \<Longrightarrow> list_all rv_ok (subtree_vectors im g)"
  by (auto simp: subtree_vectors_def list_all_iff usages_okD split: if_splits)

lemma rv_ok_subtree: "usages_ok im \<Longrightarrow> rv_ok (subtree_committed im g)"
  by (simp add: subtree_committed_sum rv_ok_sum subtree_vectors_ok)

lemma rv_ok_pool_used_of:
  assumes "rv_ok s" "rv_ok c"
  shows "rv_ok (pool_used_of eff c s)"
proof -
  have "rv_ok (fold (\<lambda>d sum. if \<not> rv_present (q_guaranteed eff) d then sum
       else let amount = min (rv_get c d) (rv_get (q_guaranteed eff) d)
         in if amount > 0 then rv_acc sum (rv_from_scalar d amount) else sum) ds s)" for ds
    using assms(1)
  proof (induction ds arbitrary: s)
    case (Cons d ds)
    have "rv_ok (rv_from_scalar d (min (rv_get c d) (rv_get (q_guaranteed eff) d)))"
      using rv_okD(2) [OF assms(2), of d] by (intro rv_ok_from_scalar) linarith
    then show ?case using Cons by (simp add: Let_def rv_ok_acc)
  qed simp
  then show ?thesis by (simp add: pool_used_of_def)
qed

lemma rv_ok_pool_used: "usages_ok im \<Longrightarrow> rv_ok (pool_used im g)"
proof -
  assume ok: "usages_ok im"
  have "rv_ok (fold (\<lambda>(tid, tn) sum. if \<not> has_ancestor im tn g then sum
        else pool_used_of (effective_lattice im tid) (committed_of (usage_of im tid)) sum) ts s)"
    if "rv_ok s" for ts s
    using that by (induction ts arbitrary: s) (auto simp: rv_ok_pool_used_of rv_ok_committed_of ok)
  then show ?thesis by (simp add: pool_used_def)
qed

section \<open>The physical allowance\<close>

text \<open>
  Without overcommit a physical capacity of at most 2^53 passes through the double
  arithmetic of physical_allowance unchanged.
\<close>

theorem physical_allowance_exact:
  assumes "rv_present (q_physical_capacity eff) d"
    and "0 \<le> rv_get (q_physical_capacity eff) d" "rv_get (q_physical_capacity eff) d \<le> 2 ^ 53"
    and "q_overcommit eff \<noteq> OM_LOGICAL" "q_overcommit eff \<noteq> OM_PREDICTION_AWARE"
  shows "physical_allowance im d eff = rv_get (q_physical_capacity eff) d"
  using assms by (simp add: physical_allowance_def dbl_of_int_small Let_def dfin_trunc_def i64_bounds)

theorem physical_allowance_exact_witness:
  "physical_allowance sample_engine AcceleratorVRAM
     (resource_quota_default\<lparr>q_physical_capacity := rv_from_scalar AcceleratorVRAM 80\<rparr>) = 80"
  by (subst physical_allowance_exact)
     (simp_all add: resource_quota_default_def rv_from_scalar_def)

text \<open>Above \<open>2 ^ 53\<close> the conversion to double can round a capacity up.\<close>

theorem physical_allowance_rounds_up:
  "physical_allowance im AcceleratorVRAM
     (resource_quota_default\<lparr>q_physical_capacity := rv_from_scalar AcceleratorVRAM 9007199254740995\<rparr>)
   = 9007199254740996"
proof -
  have "bit_length 9007199254740995 = 54" by (simp add: bit_length.simps)
  then have "round53 9007199254740995 = 9007199254740996" by (simp add: round53_def Let_def)
  then show ?thesis
    by (simp add: physical_allowance_def resource_quota_default_def rv_from_scalar_def Let_def
        dbl_of_int_def dfin_trunc_def i64_bounds)
qed

section \<open>The event log is bounded\<close>

lemma pop_to_drop: "pop_to n xs = drop (length xs - n) xs"
  by (induction xs) (auto simp: Suc_diff_le not_le)

lemma length_pop_to: "length (pop_to n xs) \<le> n"
  by (simp add: pop_to_drop)

definition events_bounded :: "impl \<Rightarrow> bool" where
  "events_bounded im \<longleftrightarrow> length (im_events im) \<le> unat (se_max_event_retention (im_settings im))"

lemma events_bounded_emit [simp]: "events_bounded (emit_event now et t det im)"
  by (simp add: events_bounded_def emit_event_def length_pop_to)

lemma emit_event_simps [simp]:
  "im_settings (emit_event now et t det im) = im_settings im"
  "im_policy (emit_event now et t det im) = im_policy im"
  "im_epoch (emit_event now et t det im) = im_epoch im"
  "im_quota_generation (emit_event now et t det im) = im_quota_generation im"
  "im_sequence (emit_event now et t det im) = im_sequence im"
  "im_groups (emit_event now et t det im) = im_groups im"
  "im_tenants (emit_event now et t det im) = im_tenants im"
  "im_local_quota (emit_event now et t det im) = im_local_quota im"
  "im_group_quota (emit_event now et t det im) = im_group_quota im"
  "im_usage (emit_event now et t det im) = im_usage im"
  "im_reservations (emit_event now et t det im) = im_reservations im"
  "im_funding (emit_event now et t det im) = im_funding im"
  "im_allocations (emit_event now et t det im) = im_allocations im"
  "im_borrows (emit_event now et t det im) = im_borrows im"
  "im_lends (emit_event now et t det im) = im_lends im"
  "im_ids (emit_event now et t det im) = im_ids im"
  "im_cast_oob (emit_event now et t det im) = im_cast_oob im"
  by (simp_all add: emit_event_def)

end
