(* ===== verification/QF_Classify.thy ===== *)
theory QF_Classify
  imports QF_Lattice
begin

text \<open>
  The decision procedure of the engine (\<open>accounting/engine.cpp\<close>): \<open>classify\<close> with its
  per-dimension verdict, the burst and borrow tests it consults, the compliance state and
  the envelope of a tenant, and the read-only entry points built from them. The clock
  reading of \<open>mono_now_nanos\<close> is the argument \<open>now\<close>. The verdict of one dimension is
  \<open>dim_code\<close>; the loop over the dimensions keeps the verdict of the highest rank.
\<close>

section \<open>Ranks\<close>

definition rank_of :: "decision_code \<Rightarrow> int" where
  "rank_of c =
     (case c of
        DC_DENY_PHYSICAL \<Rightarrow> 21
      | DC_DENY_PARENT \<Rightarrow> 20
      | DC_DENY_HARD \<Rightarrow> 19
      | DC_DENY_SOFT \<Rightarrow> 18
      | DC_DEFER \<Rightarrow> 17
      | DC_ALLOW_BORROW \<Rightarrow> 16
      | DC_ALLOW_BURST \<Rightarrow> 15
      | DC_ALLOW \<Rightarrow> 14
      | DC_ALLOW_GUARANTEED \<Rightarrow> 13
      | DC_RECALL_REQUIRED \<Rightarrow> 22
      | DC_RECLAIM_REQUIRED \<Rightarrow> 23
      | _ \<Rightarrow> 0)"

section \<open>Burst and borrow tests\<close>

definition first_present :: "resource_vector \<Rightarrow> resource_dimension option" where
  "first_present v = find (rv_present v) all_resource_dimensions"

text \<open>The arguments \<open>new_committed\<close> and \<open>soft\<close> are ignored by the sources.\<close>

definition burst_ok ::
  "impl \<Rightarrow> int \<Rightarrow> resource_dimension \<Rightarrow> tenant_id \<Rightarrow> resource_quota \<Rightarrow> int \<Rightarrow> int \<Rightarrow> bool" where
  "burst_ok im now d t eff new_committed soft =
     (let u = usage_of im t;
          burst_limit = (if rv_present (q_burst_limit eff) d then rv_get (q_burst_limit eff) d else 0)
      in if us_burst_active u
         then (if now \<ge> us_burst_expires u then False else rv_get (us_burst u) d < burst_limit)
         else if now < us_cooldown_until u then False
         else if burst_limit \<le> 0 then False
         else if bu_window (q_burst_rule eff) \<le> 0 then False
         else True)"

definition borrower_can_borrow_from :: "lending_record \<Rightarrow> resource_dimension \<Rightarrow> bool" where
  "borrower_can_borrow_from rec d \<longleftrightarrow>
     ln_revocable rec \<and> rv_get (ln_outstanding rec) d < rv_get (ln_amount rec) d"

definition available_to_lend :: "impl \<Rightarrow> tenant_id \<Rightarrow> resource_dimension \<Rightarrow> int" where
  "available_to_lend im lender d =
     (let eff = effective_lattice im lender;
          u = usage_of im lender;
          committed = committed_of u;
          guarantee = (if rv_present (q_borrowable eff) d
                       then min (rv_get (q_borrowable eff) d) (guarantee_at eff d) else 0);
          headroom = max 0 (sub64 guarantee (rv_get committed d));
          already_lent = rv_get (us_lent u) d
      in max 0 (sub64 headroom already_lent))"

text \<open>The result and the out-parameter \<open>candidate_borrow\<close>.\<close>

fun borrow_available_loop ::
  "impl \<Rightarrow> resource_dimension \<Rightarrow> (lending_id, lending_record) hmap \<Rightarrow> resource_vector
     \<Rightarrow> bool \<times> resource_vector" where
  "borrow_available_loop im d [] cand = (False, cand)"
| "borrow_available_loop im d ((lid, rec) # rest) cand =
     (if borrower_can_borrow_from rec d \<and> available_to_lend im (ln_lender rec) d > 0
      then (True, rv_put cand d (available_to_lend im (ln_lender rec) d))
      else borrow_available_loop im d rest cand)"

definition borrow_available ::
  "impl \<Rightarrow> resource_dimension \<Rightarrow> tenant_id \<Rightarrow> resource_vector \<Rightarrow> bool \<times> resource_vector" where
  "borrow_available im d t cand = borrow_available_loop im d (im_lends im) cand"

section \<open>The verdict of one dimension\<close>

definition parent_hard_ok :: "impl \<Rightarrow> tenant_group_id list \<Rightarrow> resource_dimension \<Rightarrow> int \<Rightarrow> bool" where
  "parent_hard_ok im anc d amt =
     list_all (\<lambda>g. case map_of (im_group_quota im) g of
          None \<Rightarrow> True
        | Some q \<Rightarrow> \<not> (rv_present (q_hard_limit q) d \<and>
             sat_add (rv_get (subtree_committed im g) d) amt > rv_get (q_hard_limit q) d)) anc"

definition pool_ok :: "impl \<Rightarrow> tenant_group_id list \<Rightarrow> resource_dimension \<Rightarrow> int \<Rightarrow> int \<Rightarrow> bool" where
  "pool_ok im anc d new_committed guarantee =
     list_all (\<lambda>g. case map_of (im_group_quota im) g of
          None \<Rightarrow> True
        | Some q \<Rightarrow> \<not> (rv_present (q_guaranteed q) d \<and>
             sat_add (rv_get (pool_used im g) d) (min new_committed guarantee) > rv_get (q_guaranteed q) d)) anc"

definition requested_amount :: "resource_vector \<Rightarrow> resource_dimension \<Rightarrow> int" where
  "requested_amount req d = (if rv_present req d then rv_get req d else 0)"

definition consumable_code :: "resource_quota \<Rightarrow> resource_dimension \<Rightarrow> int \<Rightarrow> decision_code" where
  "consumable_code eff d new_use =
     (if new_use \<le> guarantee_at eff d then DC_ALLOW_GUARANTEED
      else if new_use \<le> soft_at eff d then DC_ALLOW
      else if new_use \<le> hard_at eff d then DC_ALLOW
      else DC_DENY_HARD)"

definition dim_code :: "impl \<Rightarrow> int \<Rightarrow> tenant_id \<Rightarrow> resource_vector \<Rightarrow> resource_dimension \<Rightarrow> decision_code" where
  "dim_code im now t req d =
     (let eff = effective_lattice im t;
          u = usage_of im t;
          anc = ancestor_groups im t;
          amt = requested_amount req d;
          base = current_committed_scalar im now t d (committed_of u);
          new_committed = sat_add base amt;
          guarantee = guarantee_at eff d;
          soft = soft_at eff d;
          hard = hard_at eff d
      in if is_consumable d then consumable_code eff d new_committed
         else if \<not> parent_hard_ok im anc d amt then DC_DENY_PARENT
         else if sat_add (sat_add new_committed (rv_get (us_borrowed_consumed u) d)) (rv_get (us_burst u) d)
                > physical_allowance im d eff
           then DC_DENY_PHYSICAL
         else if new_committed \<le> guarantee \<and> pool_ok im anc d new_committed guarantee
           then DC_ALLOW_GUARANTEED
         else if new_committed \<le> soft then DC_ALLOW
         else if new_committed \<le> hard
           then (if burst_ok im now d t eff new_committed soft then DC_ALLOW_BURST else DC_DENY_SOFT)
         else if fst (borrow_available im d t (rv_from_scalar d 0)) then DC_ALLOW_BORROW
         else DC_DENY_HARD)"

section \<open>classify\<close>

text \<open>The loop state: \<open>best_rank\<close>, \<open>best_code\<close>, \<open>limit_dim\<close> and the explanation so far.\<close>

type_synonym verdict = "int \<times> decision_code \<times> resource_dimension option \<times> explanation"

definition dim_note ::
  "impl \<Rightarrow> int \<Rightarrow> tenant_id \<Rightarrow> resource_vector \<Rightarrow> resource_dimension \<Rightarrow> bool \<Rightarrow> explanation \<Rightarrow> explanation" where
  "dim_note im now t req d wins ex =
     (if is_consumable d then
        (let new_use = sat_add (current_committed_scalar im now t d (committed_of (usage_of im t)))
                         (requested_amount req d)
         in if new_use > soft_at (effective_lattice im t) d
            then explanation_add ex VC_SOFT_LIMIT_EXCEEDED
                   (''rolling '' @ resource_dimension_name d @ '' budget over soft'')
            else ex)
      else if wins \<and> dim_code im now t req d = DC_DENY_PARENT
        then explanation_add ex VC_PARENT_LIMIT_EXCEEDED
               (''parent quota hard limit would be exceeded on '' @ resource_dimension_name d)
      else if wins \<and> dim_code im now t req d = DC_DENY_PHYSICAL
        then explanation_add ex VC_PHYSICAL_CAPACITY_MISMATCH
               (''physical governed capacity would be exceeded on '' @ resource_dimension_name d)
      else ex)"

definition classify_step ::
  "impl \<Rightarrow> int \<Rightarrow> tenant_id \<Rightarrow> resource_vector \<Rightarrow> resource_dimension \<Rightarrow> verdict \<Rightarrow> verdict" where
  "classify_step im now t req d s =
     (case s of (best_rank, best_code, limit_dim, ex) \<Rightarrow>
        if requested_amount req d = 0 \<and> \<not> rv_present req d then s
        else let c = dim_code im now t req d;
                 wins = rank_of c > best_rank;
                 ex' = dim_note im now t req d wins ex
             in if wins then (rank_of c, c, Some d, ex') else (best_rank, best_code, limit_dim, ex'))"

definition classify_loop :: "impl \<Rightarrow> int \<Rightarrow> tenant_id \<Rightarrow> resource_vector \<Rightarrow> verdict" where
  "classify_loop im now t req =
     fold (classify_step im now t req) all_resource_dimensions
       (rank_of DC_ALLOW_GUARANTEED, DC_ALLOW_GUARANTEED, None, [])"

text \<open>The snapshot of the parents' soft headroom: the pair \<open>(parent_soft, parent_used)\<close>.\<close>

definition parent_window :: "impl \<Rightarrow> tenant_group_id list \<Rightarrow> resource_vector \<times> resource_vector" where
  "parent_window im anc =
     fold (\<lambda>g (parent_soft, parent_used).
        case map_of (im_group_quota im) g of
          None \<Rightarrow> (parent_soft, parent_used)
        | Some q \<Rightarrow>
            (rv_min (if rv_is_empty parent_soft then q_soft_limit q else parent_soft) (q_soft_limit q),
             rv_acc parent_used (subtree_committed im g)))
       anc (rv_empty, rv_empty)"

definition final_note :: "decision_code \<Rightarrow> explanation \<Rightarrow> explanation" where
  "final_note c ex =
     (if c = DC_DENY_SOFT
        then explanation_add ex VC_SOFT_LIMIT_EXCEEDED ''request would exceed soft quota without burst allowance''
      else if c = DC_DENY_HARD
        then explanation_add ex VC_HARD_LIMIT_EXCEEDED ''request would exceed hard quota without borrowable capacity''
      else if c = DC_ALLOW_BURST then explanation_add_none ex ''allowed via bounded burst''
      else if c = DC_ALLOW_BORROW then explanation_add_none ex ''allowed via borrowing from available guarantee''
      else ex)"

definition classify :: "impl \<Rightarrow> int \<Rightarrow> tenant_id \<Rightarrow> resource_vector \<Rightarrow> quota_decision" where
  "classify im now t req =
     (let eff = effective_lattice im t;
          u = usage_of im t;
          dec = quota_decision_default\<lparr>
            dec_tenant := t, dec_requested := req,
            dec_generation := im_quota_generation im,
            dec_policy_generation := pol_generation (im_policy im), dec_epoch := im_epoch im,
            dec_guarantee := q_guaranteed eff, dec_soft_limit := q_soft_limit eff,
            dec_hard_limit := q_hard_limit eff, dec_burst := q_burst_limit eff,
            dec_current_usage := us_consumption u, dec_reserved_usage := us_reserved u,
            dec_borrowed := us_borrowed_consumed u, dec_debt := us_debt u\<rparr>
      in if rv_is_empty req then dec\<lparr>dec_code := DC_ALLOW\<rparr>
         else if \<not> has_entitlement eff then
           dec\<lparr>dec_code := DC_DENY_HARD,
               dec_limiting_dimension := (if rv_present_count req \<noteq> 0 then first_present req else None),
               dec_explanation := explanation_add [] VC_HARD_LIMIT_EXCEEDED
                 ''tenant has no configured quota entitlement''\<rparr>
         else
           (let (parent_soft, parent_used) = parent_window im (ancestor_groups im t);
                (best_rank, best_code, limit_dim, ex) = classify_loop im now t req
            in dec\<lparr>dec_parent_available := rv_diff_clamp parent_soft parent_used,
                   dec_code := best_code, dec_limiting_dimension := limit_dim,
                   dec_explanation := final_note best_code ex\<rparr>))"

section \<open>Compliance and envelope\<close>

text \<open>The loop over the dimensions with its early return: \<open>None\<close> is \<open>RECALL_REQUIRED\<close>.\<close>

fun compliance_loop ::
  "impl \<Rightarrow> int \<Rightarrow> tenant_id \<Rightarrow> resource_quota \<Rightarrow> resource_vector \<Rightarrow> resource_dimension list
     \<Rightarrow> bool \<Rightarrow> bool \<Rightarrow> (bool \<times> bool) option" where
  "compliance_loop im now t eff committed [] over_soft over_hard = Some (over_soft, over_hard)"
| "compliance_loop im now t eff committed (d # ds) over_soft over_hard =
     (let u = usage_of im t;
          c = current_committed_scalar im now t d committed;
          soft = soft_at eff d;
          hard = hard_at eff d;
          over_hard' = (over_hard \<or> c > hard);
          over_soft' = (over_soft \<or> (\<not> c > hard \<and> c > soft))
      in if rv_present (q_guaranteed eff) d \<and> rv_get (us_lent u) d > 0 \<and>
            sat_add c (rv_get (us_lent u) d) > rv_get (q_guaranteed eff) d
         then None
         else compliance_loop im now t eff committed ds over_soft' over_hard')"

definition compute_compliance ::
  "impl \<Rightarrow> int \<Rightarrow> tenant_id \<Rightarrow> resource_quota \<Rightarrow> resource_vector \<Rightarrow> compliance_state" where
  "compute_compliance im now t eff committed =
     (case compliance_loop im now t eff committed all_resource_dimensions False False of
        None \<Rightarrow> CS_RECALL_REQUIRED
      | Some (over_soft, over_hard) \<Rightarrow>
          if over_hard then CS_OVER_HARD else if over_soft then CS_OVER_SOFT else CS_COMPLIANT)"

definition compute_envelope :: "impl \<Rightarrow> int \<Rightarrow> tenant_id \<Rightarrow> quota_envelope" where
  "compute_envelope im now t =
     (let eff = effective_lattice im t;
          u = usage_of im t;
          committed = committed_of u;
          use = (\<lambda>d. current_committed_scalar im now t d committed);
          soft = (\<lambda>d. if rv_present (q_soft_limit eff) d then rv_get (q_soft_limit eff) d
                      else guarantee_at eff d);
          burst = (\<lambda>d. if rv_present (q_burst_limit eff) d then rv_get (q_burst_limit eff) d else 0)
      in \<lparr>env_tenant = t, env_resource_class = null_id,
          env_guaranteed = q_guaranteed eff, env_soft_limit = q_soft_limit eff,
          env_hard_limit = q_hard_limit eff, env_burst_limit = q_burst_limit eff,
          env_current_consumption = us_consumption u, env_reserved = us_reserved u,
          env_committed_usage = committed, env_borrowed = us_borrowed_consumed u,
          env_burst_usage = us_burst u, env_lent = us_lent u, env_debt = us_debt u,
          env_available_guaranteed =
            fold (\<lambda>d v. sv_set v d (sub64 (sub64 (guarantee_at eff d) (use d)) (rv_get (us_lent u) d)))
              all_resource_dimensions sv_zero,
          env_available_soft =
            fold (\<lambda>d v. sv_set v d (sub64 (soft d) (use d))) all_resource_dimensions sv_zero,
          env_available_burst =
            fold (\<lambda>d v. sv_set v d (sub64 (burst d) (rv_get (us_burst u) d))) all_resource_dimensions sv_zero,
          env_compliance = compute_compliance im now t eff committed,
          env_primary_violation = None,
          env_generation = im_quota_generation im,
          env_policy_generation = pol_generation (im_policy im), env_epoch = im_epoch im,
          env_burst_expires_at = us_burst_expires u, env_burst_active = us_burst_active u\<rparr>)"

section \<open>The read-only entry points\<close>

definition evaluate_reservation :: "impl \<Rightarrow> int \<Rightarrow> tenant_id \<Rightarrow> resource_vector \<Rightarrow> quota_decision" where
  "evaluate_reservation im now t req = classify im now t req"

definition envelope :: "impl \<Rightarrow> int \<Rightarrow> tenant_id \<Rightarrow> quota_envelope" where
  "envelope im now t = compute_envelope im now t"

definition compliance_after_lowering :: "impl \<Rightarrow> int \<Rightarrow> tenant_id \<Rightarrow> compliance_state" where
  "compliance_after_lowering im now t =
     compute_compliance im now t (effective_lattice im t) (env_committed_usage (compute_envelope im now t))"

definition explain :: "impl \<Rightarrow> int \<Rightarrow> tenant_id \<Rightarrow> resource_vector \<Rightarrow> explanation" where
  "explain im now t req = dec_explanation (classify im now t req)"

definition recall_decision :: "impl \<Rightarrow> int \<Rightarrow> tenant_id \<Rightarrow> recall_action list" where
  "recall_decision im now lender =
     (if \<not> tenant_exists im lender then []
      else let eff = effective_lattice im lender;
               com = compute_compliance im now lender eff (committed_of (usage_of im lender))
           in (if com = CS_RECALL_REQUIRED then [RA_RECALL_BORROWED_CAPACITY, RA_STOP_NEW_BORROWING]
               else [RA_NO_ACTION]) @
              (if list_ex (\<lambda>(bid, b). br_lender b = lender \<and> \<not> br_recalled b) (im_borrows im)
               then [RA_REQUEST_RECLAIM] else []))"

end
