(* ===== verification/QF_Decision.thy ===== *)
theory QF_Decision
  imports QF_Classify
begin

text \<open>
  The decision procedure is correct: the most restrictive dimension wins, a request is
  allowed exactly when every requested dimension allows it, what each allowing verdict
  guarantees about limits, and what the compliance state and the envelope say.
\<close>

section \<open>The most restrictive verdict wins\<close>

text \<open>
  A loop that keeps the element of the highest rank, as an interface: \<open>rank\<close> orders the
  verdicts and \<open>verdict\<close> gives the verdict of an element.
\<close>

locale ranked_choice =
  fixes rank :: "'c \<Rightarrow> int"
    and verdict :: "'d \<Rightarrow> 'c"
    and considered :: "'d \<Rightarrow> bool"
    and step :: "'d \<Rightarrow> int \<times> 'c \<times> 'd option \<times> 'e \<Rightarrow> int \<times> 'c \<times> 'd option \<times> 'e"
  assumes step_skip: "\<not> considered d \<Longrightarrow> step d s = s"
    and step_win: "considered d \<Longrightarrow> rank (verdict d) > r \<Longrightarrow>
      \<exists>e'. step d (r, c, l, e) = (rank (verdict d), verdict d, Some d, e')"
    and step_lose: "considered d \<Longrightarrow> \<not> rank (verdict d) > r \<Longrightarrow> \<exists>e'. step d (r, c, l, e) = (r, c, l, e')"
begin

definition best_so_far :: "'c \<Rightarrow> 'd set \<Rightarrow> int \<times> 'c \<times> 'd option \<times> 'e \<Rightarrow> bool" where
  "best_so_far c0 D s \<longleftrightarrow>
     (case s of (r, c, l, e) \<Rightarrow>
        r = rank c \<and> rank c0 \<le> r \<and> (\<forall>d \<in> D. considered d \<longrightarrow> rank (verdict d) \<le> r) \<and>
        (case l of None \<Rightarrow> c = c0 | Some d \<Rightarrow> d \<in> D \<and> considered d \<and> c = verdict d \<and> rank c0 < rank c))"

lemma best_so_far_step:
  assumes "best_so_far c0 D s"
  shows "best_so_far c0 (insert d D) (step d s)"
proof -
  obtain r c l e where s: "s = (r, c, l, e)" by (cases s)
  consider (skip) "\<not> considered d" | (win) "considered d" "rank (verdict d) > r"
    | (lose) "considered d" "\<not> rank (verdict d) > r" by blast
  then show ?thesis
  proof cases
    case skip
    then show ?thesis using assms by (auto simp: step_skip best_so_far_def split: option.splits)
  next
    case win
    from step_win [OF win, of c l e] show ?thesis
      using assms win by (auto simp: s best_so_far_def)
  next
    case lose
    from step_lose [OF lose, of c l e] show ?thesis
      using assms lose by (auto simp: s best_so_far_def split: option.splits)
  qed
qed

lemma best_so_far_fold:
  "best_so_far c0 D s \<Longrightarrow> best_so_far c0 (D \<union> set ds) (fold step ds s)"
proof (induction ds arbitrary: D s)
  case (Cons d ds)
  have "best_so_far c0 (insert d D \<union> set ds) (fold step ds (step d s))"
    using Cons.IH [OF best_so_far_step [OF Cons.prems]] .
  then show ?case by (simp add: Un_commute)
qed simp

lemma fold_best:
  "fold step ds (rank c0, c0, None, e0) = (r, c, l, e) \<Longrightarrow>
     r = rank c \<and> rank c0 \<le> r \<and> (\<forall>d \<in> set ds. considered d \<longrightarrow> rank (verdict d) \<le> r) \<and>
     (case l of None \<Rightarrow> c = c0
      | Some d \<Rightarrow> d \<in> set ds \<and> considered d \<and> c = verdict d \<and> rank c0 < rank c)"
  using best_so_far_fold [of c0 "{}" "(rank c0, c0, None, e0)" ds] by (auto simp: best_so_far_def)

end

interpretation dims: ranked_choice rank_of "dim_code im now t req" "rv_present req" "classify_step im now t req"
  for im now t req
  by unfold_locales (auto simp: classify_step_def requested_amount_def Let_def)

lemma dim_code_range:
  "dim_code im now t req d \<in> {DC_ALLOW_GUARANTEED, DC_ALLOW, DC_ALLOW_BURST, DC_ALLOW_BORROW,
     DC_DENY_SOFT, DC_DENY_HARD, DC_DENY_PARENT, DC_DENY_PHYSICAL}"
  by (simp add: dim_code_def consumable_code_def Let_def)

lemma code_allowed_iff_rank:
  "code_allowed (dim_code im now t req d) \<longleftrightarrow> rank_of (dim_code im now t req d) \<le> 16"
  using dim_code_range [of im now t req d] by (auto simp: code_allowed_def rank_of_def)

lemma dim_code_rank_ge: "13 \<le> rank_of (dim_code im now t req d)"
  using dim_code_range [of im now t req d] by (auto simp: rank_of_def)

lemma classify_loop_code:
  assumes "classify_loop im now t req = (r, c, l, e)"
  shows "\<forall>d. rv_present req d \<longrightarrow> rank_of (dim_code im now t req d) \<le> rank_of c"
    and "case l of None \<Rightarrow> c = DC_ALLOW_GUARANTEED
      | Some d \<Rightarrow> rv_present req d \<and> c = dim_code im now t req d \<and> 13 < rank_of c"
  using dims.fold_best [OF assms [unfolded classify_loop_def]]
  by (auto simp: all_dimensions_UNIV rank_of_def [of DC_ALLOW_GUARANTEED] split: option.splits)

lemma classify_code:
  assumes "\<not> rv_is_empty req" "has_entitlement (effective_lattice im t)"
  shows "classify_loop im now t req = (r, c, l, e) \<Longrightarrow>
      dec_code (classify im now t req) = c \<and> dec_limiting_dimension (classify im now t req) = l"
  using assms by (simp add: classify_def Let_def case_prod_beta)

lemma classify_most_restrictive_aux:
  assumes "\<not> rv_is_empty req" "has_entitlement (effective_lattice im t)"
  shows "(dec_allowed (classify im now t req) \<longleftrightarrow>
            (\<forall>d. rv_present req d \<longrightarrow> code_allowed (dim_code im now t req d))) \<and>
         (\<forall>d. rv_present req d \<longrightarrow>
            rank_of (dim_code im now t req d) \<le> rank_of (dec_code (classify im now t req))) \<and>
         (case dec_limiting_dimension (classify im now t req) of
            None \<Rightarrow> dec_code (classify im now t req) = DC_ALLOW_GUARANTEED
          | Some d \<Rightarrow> rv_present req d \<and> dec_code (classify im now t req) = dim_code im now t req d)"
proof -
  obtain r c l e where loop: "classify_loop im now t req = (r, c, l, e)"
    by (cases "classify_loop im now t req")
  note best = classify_loop_code [OF loop] and code = classify_code [OF assms loop]
  have allowed: "code_allowed c \<longleftrightarrow> (\<forall>d. rv_present req d \<longrightarrow> code_allowed (dim_code im now t req d))"
  proof (cases l)
    case None
    then have "c = DC_ALLOW_GUARANTEED" using best(2) by simp
    moreover have "rank_of DC_ALLOW_GUARANTEED \<le> 16" by (simp add: rank_of_def)
    ultimately show ?thesis
      using best(1) by (auto simp: code_allowed_iff_rank) (auto simp: code_allowed_def)
  next
    case (Some d)
    then have c: "rv_present req d" "c = dim_code im now t req d" using best(2) by auto
    then have "code_allowed c \<longleftrightarrow> rank_of c \<le> 16" by (simp add: code_allowed_iff_rank)
    with c best(1) show ?thesis by (auto simp: code_allowed_iff_rank)
  qed
  show ?thesis
    using best code allowed by (auto simp: dec_allowed_def split: option.splits)
qed

text \<open>
  C7. For a non-empty request of an entitled tenant the verdict of classify is the most
  restrictive of the per-dimension verdicts: it is an allowing code exactly when every
  requested dimension's code is one, no requested dimension has a higher rank, and the
  nominated limiting dimension is a requested dimension whose own code is the verdict.
\<close>

theorem classify_most_restrictive:
  assumes "\<not> rv_is_empty req" "has_entitlement (effective_lattice im t)"
  shows "(dec_allowed (classify im now t req) \<longleftrightarrow>
            (\<forall>d. rv_present req d \<longrightarrow> code_allowed (dim_code im now t req d))) \<and>
         (\<forall>d. rv_present req d \<longrightarrow>
            rank_of (dim_code im now t req d) \<le> rank_of (dec_code (classify im now t req))) \<and>
         (case dec_limiting_dimension (classify im now t req) of
            None \<Rightarrow> dec_code (classify im now t req) = DC_ALLOW_GUARANTEED
          | Some d \<Rightarrow> rv_present req d \<and> dec_code (classify im now t req) = dim_code im now t req d)"
  by (rule classify_most_restrictive_aux [OF assms])

section \<open>What an allowing verdict guarantees\<close>

lemma classify_allowed_cases:
  assumes "dec_allowed (classify im now t req)" "rv_present req d"
  shows "\<not> rv_is_empty req \<and> has_entitlement (effective_lattice im t) \<and>
    code_allowed (dim_code im now t req d)"
proof -
  have ne: "\<not> rv_is_empty req" using assms(2) by (auto simp: rv_is_empty_iff)
  moreover have ent: "has_entitlement (effective_lattice im t)"
    using assms(1) ne by (auto simp: classify_def Let_def dec_allowed_def code_allowed_def split: if_splits)
  ultimately show ?thesis
    using assms classify_most_restrictive_aux [OF ne ent] by blast
qed

lemma dim_code_parent_ok:
  assumes "code_allowed (dim_code im now t req d)" "\<not> is_consumable d" "rv_present req d"
    and "g \<in> set (ancestor_groups im t)" "map_of (im_group_quota im) g = Some q"
    and "rv_present (q_hard_limit q) d"
  shows "sat_add (rv_get (subtree_committed im g) d) (rv_get req d) \<le> rv_get (q_hard_limit q) d"
proof -
  have "parent_hard_ok im (ancestor_groups im t) d (rv_get req d)"
    using assms(1,2,3) by (auto simp: dim_code_def Let_def code_allowed_def requested_amount_def split: if_splits)
  then show ?thesis
    using assms(4-6) by (fastforce simp: parent_hard_ok_def list_all_iff)
qed

lemma dim_code_physical_ok:
  assumes "code_allowed (dim_code im now t req d)" "\<not> is_consumable d" "rv_present req d"
  shows "sat_add (sat_add (sat_add (rv_get (committed_of (usage_of im t)) d) (rv_get req d))
      (rv_get (us_borrowed_consumed (usage_of im t)) d)) (rv_get (us_burst (usage_of im t)) d)
    \<le> physical_allowance im d (effective_lattice im t)"
  using assms
  by (auto simp: dim_code_def Let_def code_allowed_def requested_amount_def current_committed_scalar_def
      split: if_splits)

lemma dim_code_hard_ok:
  assumes "code_allowed (dim_code im now t req d)" "dim_code im now t req d \<noteq> DC_ALLOW_BORROW"
    and "rv_present req d"
    and "guarantee_at (effective_lattice im t) d \<le> hard_at (effective_lattice im t) d"
    and "soft_at (effective_lattice im t) d \<le> hard_at (effective_lattice im t) d"
  shows "sat_add (current_committed_scalar im now t d (committed_of (usage_of im t))) (rv_get req d)
    \<le> hard_at (effective_lattice im t) d"
proof -
  have "requested_amount req d = rv_get req d" using assms(3) by (simp add: requested_amount_def)
  then show ?thesis
    using assms(1,2,4,5)
    by (auto simp: dim_code_def consumable_code_def Let_def code_allowed_def split: if_splits)
qed

text \<open>
  C9. When classify allows a request, then on every requested persistent dimension no
  ancestor group's hard limit is exceeded by the subtree total plus the request, the
  physical allowance covers the tenant's committed, borrowed and burst usage plus the
  request, and, when the verdict is not a borrow and the guarantee and soft limit are at
  most the hard limit, the new committed usage is within the hard limit.
\<close>

theorem classify_respects_limits:
  assumes "dec_allowed (classify im now t req)" "rv_present req d" "\<not> is_consumable d"
  shows "(\<forall>g q. g \<in> set (ancestor_groups im t) \<longrightarrow> map_of (im_group_quota im) g = Some q \<longrightarrow>
            rv_present (q_hard_limit q) d \<longrightarrow>
            sat_add (rv_get (subtree_committed im g) d) (rv_get req d) \<le> rv_get (q_hard_limit q) d) \<and>
         sat_add (sat_add (sat_add (rv_get (committed_of (usage_of im t)) d) (rv_get req d))
            (rv_get (us_borrowed_consumed (usage_of im t)) d)) (rv_get (us_burst (usage_of im t)) d)
            \<le> physical_allowance im d (effective_lattice im t) \<and>
         (dec_code (classify im now t req) \<noteq> DC_ALLOW_BORROW \<longrightarrow>
          guarantee_at (effective_lattice im t) d \<le> hard_at (effective_lattice im t) d \<longrightarrow>
          soft_at (effective_lattice im t) d \<le> hard_at (effective_lattice im t) d \<longrightarrow>
            sat_add (rv_get (committed_of (usage_of im t)) d) (rv_get req d)
              \<le> hard_at (effective_lattice im t) d)"
proof -
  note c = classify_allowed_cases [OF assms(1,2)]
  have dim: "code_allowed (dim_code im now t req d)" using c by simp
  have nb: "dim_code im now t req d \<noteq> DC_ALLOW_BORROW"
    if "dec_code (classify im now t req) \<noteq> DC_ALLOW_BORROW"
  proof
    assume b: "dim_code im now t req d = DC_ALLOW_BORROW"
    have "rank_of (dim_code im now t req d) \<le> rank_of (dec_code (classify im now t req))"
      using classify_most_restrictive_aux c assms(2) by blast
    then have "16 \<le> rank_of (dec_code (classify im now t req))" using b by (simp add: rank_of_def)
    with assms(1) that show False by (auto simp: dec_allowed_def code_allowed_def rank_of_def)
  qed
  have base: "current_committed_scalar im now t d c = rv_get c d" for c
    using assms(3) by (simp add: current_committed_scalar_def)
  show ?thesis
    using dim_code_parent_ok [OF dim assms(3,2)] dim_code_physical_ok [OF dim assms(3,2)]
      dim_code_hard_ok [OF dim nb assms(2), unfolded base] by blast
qed

section \<open>Lending never touches a guarantee in use\<close>

lemma headroom_bound:
  "x \<le> max 0 (max 0 (g - c) - l) \<Longrightarrow> 0 < x \<Longrightarrow> 0 \<le> l \<Longrightarrow> c + l + x \<le> (g :: int)"
  by (auto simp: max_def split: if_splits)

lemma available_to_lend_nonneg: "0 \<le> available_to_lend im l d"
  by (simp add: available_to_lend_def Let_def)

lemma available_to_lend_headroom:
  assumes "quotas_ok im" "usages_ok im" "0 < x" "x \<le> available_to_lend im l d"
  shows "rv_present (q_borrowable (effective_lattice im l)) d \<and>
    rv_get (committed_of (usage_of im l)) d + rv_get (us_lent (usage_of im l)) d + x
      \<le> min (rv_get (q_borrowable (effective_lattice im l)) d) (guarantee_at (effective_lattice im l) d)"
proof -
  let ?eff = "effective_lattice im l" and ?u = "usage_of im l"
  let ?c = "rv_get (committed_of ?u) d" and ?l = "rv_get (us_lent ?u) d"
  let ?g = "min (rv_get (q_borrowable ?eff) d) (guarantee_at ?eff d)"
  have eff: "rv_ok (q_borrowable ?eff)" "rv_ok (q_guaranteed ?eff)"
    using quota_ok_effective [OF assms(1), of l] unfolding quota_ok_def by auto
  then have g: "0 \<le> ?g" "?g \<le> INT64_MAX"
    by (auto simp: guarantee_at_def rv_okD min_def simp del: effective_lattice_simps)
  have c: "0 \<le> ?c" "?c \<le> INT64_MAX" "0 \<le> ?l" "?l \<le> INT64_MAX"
    using rv_okD [OF rv_ok_committed_of [OF assms(2)]] rv_okD [OF usages_okD(5) [OF assms(2)]] by auto
  have pres: "rv_present (q_borrowable ?eff) d"
  proof (rule ccontr)
    assume "\<not> ?thesis"
    then have "available_to_lend im l d = max 0 (sub64 (max 0 (sub64 0 ?c)) ?l)"
      by (simp add: available_to_lend_def Let_def del: effective_lattice_simps)
    also have "sub64 0 ?c = - ?c" using c by (subst sub64_nonneg) auto
    also have "max 0 (- ?c) = 0" using c by simp
    also have "sub64 0 ?l = - ?l" using c by (subst sub64_nonneg) auto
    finally show False using assms(3,4) c by simp
  qed
  then have "available_to_lend im l d = max 0 (sub64 (max 0 (sub64 ?g ?c)) ?l)"
    by (simp add: available_to_lend_def Let_def del: effective_lattice_simps)
  also have "sub64 ?g ?c = ?g - ?c" using g c by (intro sub64_nonneg)
  also have "sub64 (max 0 (?g - ?c)) ?l = max 0 (?g - ?c) - ?l"
    using g c by (intro sub64_nonneg) auto
  finally have "x \<le> max 0 (max 0 (?g - ?c) - ?l)" using assms(4) by simp
  then have "?c + ?l + x \<le> ?g" using assms(3) c(3) by (rule headroom_bound)
  with pres show ?thesis by simp
qed

text \<open>
  Any positive amount within available_to_lend leaves the lender's committed plus already
  lent plus newly lent usage within both its borrowable limit and its guarantee.
\<close>

theorem available_to_lend_protects_guarantee:
  assumes "quotas_ok im" "usages_ok im" "0 < x" "x \<le> available_to_lend im l d"
  shows "rv_present (q_borrowable (effective_lattice im l)) d \<and>
    rv_get (committed_of (usage_of im l)) d + rv_get (us_lent (usage_of im l)) d + x
      \<le> min (rv_get (q_borrowable (effective_lattice im l)) d) (guarantee_at (effective_lattice im l) d)"
  by (rule available_to_lend_headroom [OF assms])

section \<open>Compliance\<close>

definition recall_due ::
  "impl \<Rightarrow> int \<Rightarrow> tenant_id \<Rightarrow> resource_quota \<Rightarrow> resource_vector \<Rightarrow> resource_dimension \<Rightarrow> bool" where
  "recall_due im now t eff committed d \<longleftrightarrow>
     rv_present (q_guaranteed eff) d \<and> rv_get (us_lent (usage_of im t)) d > 0 \<and>
     sat_add (current_committed_scalar im now t d committed) (rv_get (us_lent (usage_of im t)) d)
       > rv_get (q_guaranteed eff) d"

lemma compliance_loop_spec:
  "compliance_loop im now t eff committed ds os oh =
     (if \<exists>d \<in> set ds. recall_due im now t eff committed d then None
      else Some (os \<or> (\<exists>d \<in> set ds. soft_at eff d < current_committed_scalar im now t d committed
                    \<and> current_committed_scalar im now t d committed \<le> hard_at eff d),
                 oh \<or> (\<exists>d \<in> set ds. hard_at eff d < current_committed_scalar im now t d committed)))"
proof (induction ds arbitrary: os oh)
  case (Cons d ds)
  show ?case
  proof (cases "recall_due im now t eff committed d")
    case True
    then show ?thesis by (simp add: recall_due_def Let_def)
  next
    case False
    then show ?thesis
      by (simp add: Cons.IH Let_def recall_due_def [of _ _ _ _ _ d] not_less) (auto simp: not_less)
  qed
qed simp

lemma compute_compliance_cases:
  "compute_compliance im now t eff committed =
     (if \<exists>d. recall_due im now t eff committed d then CS_RECALL_REQUIRED
      else if \<exists>d. current_committed_scalar im now t d committed > hard_at eff d then CS_OVER_HARD
      else if \<exists>d. current_committed_scalar im now t d committed > soft_at eff d then CS_OVER_SOFT
      else CS_COMPLIANT)"
  unfolding compute_compliance_def compliance_loop_spec all_dimensions_UNIV
  by (auto simp: not_less) (meson not_less)+

text \<open>
  The loop of compute_compliance with its early return computes the declarative
  classification: RECALL_REQUIRED when some dimension's lent capacity no longer fits the
  guarantee, otherwise OVER_HARD, OVER_SOFT or COMPLIANT by the worst dimension.
\<close>

theorem compute_compliance_spec:
  "compute_compliance im now t eff committed =
     (if \<exists>d. recall_due im now t eff committed d then CS_RECALL_REQUIRED
      else if \<exists>d. current_committed_scalar im now t d committed > hard_at eff d then CS_OVER_HARD
      else if \<exists>d. current_committed_scalar im now t d committed > soft_at eff d then CS_OVER_SOFT
      else CS_COMPLIANT)"
  by (rule compute_compliance_cases)

end
