(* ===== verification/QF_Accounting.thy ===== *)
theory QF_Accounting
  imports QF_Decision
begin

text \<open>
  Usage accounting of the engine (\<open>accounting/engine.cpp\<close>): the recomputed aggregates, the
  resynchronisation \<open>sync_usage\<close> of a tenant's counters from the records, and the runtime
  check \<open>invariants_ok\<close>. The lemmas show that \<open>sync_usage\<close> leaves exactly the counters the
  check recomputes and touches nothing else.
\<close>

section \<open>Recomputed aggregates\<close>

definition computed_reserved :: "impl \<Rightarrow> tenant_id \<Rightarrow> resource_vector" where
  "computed_reserved im t =
     fold (\<lambda>(rid, r) acc.
        if res_tenant r = t \<and> (res_status r = RS_PROVISIONAL \<or> res_status r = RS_COMMITTED \<or> res_status r = RS_CONSUMED)
        then rv_acc acc (res_resources r) else acc) (im_reservations im) rv_empty"

definition computed_consumed :: "impl \<Rightarrow> tenant_id \<Rightarrow> resource_vector" where
  "computed_consumed im t =
     fold (\<lambda>(aid, a) acc. if al_tenant a = t \<and> al_active a then rv_acc acc (al_used a) else acc)
       (im_allocations im) rv_empty"

definition computed_borrowed :: "impl \<Rightarrow> tenant_id \<Rightarrow> resource_vector" where
  "computed_borrowed im t =
     fold (\<lambda>(bid, b) acc. if br_borrower b = t \<and> \<not> br_recalled b then rv_acc acc (br_consumed b) else acc)
       (im_borrows im) rv_empty"

definition computed_lent :: "impl \<Rightarrow> tenant_id \<Rightarrow> resource_vector" where
  "computed_lent im t =
     fold (\<lambda>(lid, l) acc.
        if ln_lender l = t \<and> rv_present_count (ln_outstanding l) \<noteq> 0 then rv_acc acc (ln_outstanding l) else acc)
       (im_lends im) rv_empty"

section \<open>sync_usage\<close>

text \<open>\<open>alloc_used[k].add(v)\<close>\<close>

definition map_add_vector ::
  "'k \<Rightarrow> resource_vector \<Rightarrow> ('k, resource_vector) hmap \<Rightarrow> ('k, resource_vector) hmap" where
  "map_add_vector k v m =
     AList.update k (rv_acc (case map_of m k of None \<Rightarrow> rv_empty | Some x \<Rightarrow> x) v) m"

definition alloc_used_by :: "impl \<Rightarrow> tenant_id \<Rightarrow> (reservation_id, resource_vector) hmap" where
  "alloc_used_by im t =
     fold (\<lambda>(aid, a) m. if al_active a \<and> al_tenant a = t then map_add_vector (al_reservation a) (al_used a) m else m)
       (im_allocations im) []"

text \<open>What is left of a reservation after the usage of its allocations.\<close>

definition remaining_of :: "(reservation_id, resource_vector) hmap \<Rightarrow> reservation \<Rightarrow> resource_vector" where
  "remaining_of m r =
     (case map_of m (res_id r) of
        None \<Rightarrow> res_resources r
      | Some x \<Rightarrow> rv_sub_sat (res_resources r) (rv_min x (res_resources r)))"

definition reserved_remaining :: "impl \<Rightarrow> tenant_id \<Rightarrow> resource_vector" where
  "reserved_remaining im t =
     fold (\<lambda>(rid, r) acc.
        if res_tenant r \<noteq> t \<or> \<not> active_res r then acc
        else rv_acc acc (remaining_of (alloc_used_by im t) r)) (im_reservations im) rv_empty"

definition funded_burst :: "impl \<Rightarrow> tenant_id \<Rightarrow> resource_vector" where
  "funded_burst im t =
     fold (\<lambda>(rid, fund) acc.
        case map_of (im_reservations im) rid of
          None \<Rightarrow> acc
        | Some r \<Rightarrow> if res_tenant r \<noteq> t \<or> \<not> active_res r then acc else rv_acc acc (fu_burst fund))
       (im_funding im) rv_empty"

definition outstanding_debt :: "impl \<Rightarrow> tenant_id \<Rightarrow> resource_vector" where
  "outstanding_debt im t =
     fold (\<lambda>(bid, b) acc. if br_borrower b = t \<and> \<not> br_recalled b then rv_acc acc (br_debt b) else acc)
       (im_borrows im) rv_empty"

definition synced :: "impl \<Rightarrow> int \<Rightarrow> tenant_id \<Rightarrow> usage \<Rightarrow> usage" where
  "synced im now t u =
     (let u1 = u\<lparr>us_consumption := computed_consumed im t,
                 us_reserved := reserved_remaining im t,
                 us_borrowed_consumed := computed_borrowed im t,
                 us_lent := computed_lent im t,
                 us_burst := funded_burst im t,
                 us_debt := outstanding_debt im t\<rparr>
      in if us_burst_active u1 \<and> now \<ge> us_burst_expires u1
         then u1\<lparr>us_burst_active := False, us_burst := rv_empty\<rparr> else u1)"

definition sync_usage :: "int \<Rightarrow> tenant_id \<Rightarrow> impl \<Rightarrow> impl" where
  "sync_usage now t im = usage_mut t (synced im now t) im"

section \<open>invariants_ok\<close>

text \<open>The first complaint of a loop over a map.\<close>

fun first_error :: "('a \<Rightarrow> string option) \<Rightarrow> 'a list \<Rightarrow> string option" where
  "first_error f [] = None"
| "first_error f (x # xs) = (case f x of None \<Rightarrow> first_error f xs | Some m \<Rightarrow> Some m)"

text \<open>The walk with the set of visited groups; it ends because that set grows.\<close>

function cycle_found :: "group_map \<Rightarrow> tenant_group_id list \<Rightarrow> tenant_group_id option \<Rightarrow> bool" where
  "cycle_found gs seen cur =
     (case cur of
        None \<Rightarrow> False
      | Some g \<Rightarrow>
          if g \<in> set seen then True
          else (case map_of gs g of
                  None \<Rightarrow> False
                | Some G \<Rightarrow> cycle_found gs (g # seen) (grp_parent G)))"
  by pat_completeness auto
termination
proof (relation "measure (\<lambda>(gs, seen, cur). card (fst ` set gs - set seen))")
  fix gs seen and cur :: "tenant_group_id option" and g and G :: tenant_group
  assume "cur = Some g" "g \<notin> set seen" "map_of gs g = Some G"
  then have "g \<in> fst ` set gs - set seen" by (force dest: map_of_SomeD simp: image_iff)
  then have "fst ` set gs - set (g # seen) \<subset> fst ` set gs - set seen" by auto
  then show "((gs, g # seen, grp_parent G), (gs, seen, cur)) \<in> measure (\<lambda>(gs, seen, cur). card (fst ` set gs - set seen))"
    by (simp add: psubset_card_mono)
qed simp

definition neg_vector :: "resource_vector \<Rightarrow> bool" where
  "neg_vector v \<longleftrightarrow>
     rv_get v AcceleratorVRAM < 0 \<or> rv_get v TransferBytes < 0 \<or> rv_get v ConcurrentRequests < 0"

text \<open>The lambda \<open>recompute\<close>: the four vectors it fills.\<close>

definition recompute ::
  "impl \<Rightarrow> tenant_id \<Rightarrow> resource_vector \<times> resource_vector \<times> resource_vector \<times> resource_vector" where
  "recompute im t =
     (reserved_remaining im t,
      fold (\<lambda>(aid, a) acc. if al_active a \<and> al_tenant a = t then rv_acc acc (al_used a) else acc)
        (im_allocations im) rv_empty,
      fold (\<lambda>(bid, b) acc. if br_borrower b = t \<and> \<not> br_recalled b then rv_acc acc (br_consumed b) else acc)
        (im_borrows im) rv_empty,
      fold (\<lambda>(lid, l) acc. if ln_lender l = t then rv_acc acc (ln_outstanding l) else acc)
        (im_lends im) rv_empty)"

definition counter_error :: "impl \<Rightarrow> tenant_id \<Rightarrow> usage \<Rightarrow> string option" where
  "counter_error im tid u =
     (let (res, cons, borr, lent) = recompute im tid
      in if \<not> rv_eq res (us_reserved u) then Some (''reserved counter mismatch for tenant '' @ to_hex tid)
         else if \<not> rv_eq cons (us_consumption u) then Some (''consumption counter mismatch for tenant '' @ to_hex tid)
         else if \<not> rv_eq borr (us_borrowed_consumed u) then Some (''borrowed counter mismatch for tenant '' @ to_hex tid)
         else if \<not> rv_eq lent (us_lent u) then Some (''lent counter mismatch for tenant '' @ to_hex tid)
         else None)"

definition error_if :: "bool \<Rightarrow> string \<Rightarrow> string option" where
  "error_if b m = (if b then Some m else None)"

text \<open>\<open>None\<close> is the result \<open>true\<close>; \<open>Some m\<close> is \<open>false\<close> with the message \<open>m\<close>.\<close>

definition invariants_ok :: "impl \<Rightarrow> string option" where
  "invariants_ok im =
     first_error (\<lambda>f. f ())
      [\<lambda>_. first_error (\<lambda>(gid, g). error_if (cycle_found (im_groups im) [gid] (grp_parent g))
              ''hierarchy cycle detected'') (im_groups im),
       \<lambda>_. first_error (\<lambda>(tid, q). error_if (neg_vector (q_guaranteed q) \<or> neg_vector (q_soft_limit q) \<or>
              neg_vector (q_hard_limit q) \<or> neg_vector (q_burst_limit q) \<or> neg_vector (q_borrowable q))
              ''negative quota value'') (im_local_quota im),
       \<lambda>_. first_error (\<lambda>(tid, u). counter_error im tid u) (im_usage im),
       \<lambda>_. first_error (\<lambda>(bid, b). case map_of (im_lends im) (br_lending b) of None \<Rightarrow> None
              | Some l \<Rightarrow> error_if (\<not> rv_covers (ln_amount l) (br_amount b)) ''borrow exceeds lending offer'')
              (im_borrows im),
       \<lambda>_. first_error (\<lambda>(bid, b). error_if (neg_vector (br_consumed b)) ''negative borrow consumed'') (im_borrows im),
       \<lambda>_. first_error (\<lambda>(rid, r). error_if (neg_vector (res_resources r)) ''negative reservation'') (im_reservations im),
       \<lambda>_. first_error (\<lambda>(aid, a). error_if (\<not> rv_eq (rv_min (al_used a) (al_resources a)) (al_used a))
              ''allocation exceeds reservation'') (im_allocations im),
       \<lambda>_. first_error (\<lambda>(tid, u). error_if
              (rv_is_empty (us_consumption u) \<and> rv_is_empty (us_reserved u) \<and> rv_is_empty (us_borrowed_consumed u) \<and>
               rv_is_empty (us_lent u) \<and> rv_is_empty (us_debt u) \<and> \<not> rv_is_empty (us_burst u))
              ''burst leak after zero state'') (im_usage im)]"

section \<open>Counters after a synchronisation\<close>

lemma usage_mut_simps [simp]:
  "im_settings (usage_mut t f im) = im_settings im"
  "im_policy (usage_mut t f im) = im_policy im"
  "im_epoch (usage_mut t f im) = im_epoch im"
  "im_quota_generation (usage_mut t f im) = im_quota_generation im"
  "im_groups (usage_mut t f im) = im_groups im"
  "im_tenants (usage_mut t f im) = im_tenants im"
  "im_local_quota (usage_mut t f im) = im_local_quota im"
  "im_group_quota (usage_mut t f im) = im_group_quota im"
  "im_reservations (usage_mut t f im) = im_reservations im"
  "im_funding (usage_mut t f im) = im_funding im"
  "im_allocations (usage_mut t f im) = im_allocations im"
  "im_borrows (usage_mut t f im) = im_borrows im"
  "im_lends (usage_mut t f im) = im_lends im"
  "im_events (usage_mut t f im) = im_events im"
  "im_ids (usage_mut t f im) = im_ids im"
  "im_cast_oob (usage_mut t f im) = im_cast_oob im"
  by (simp_all add: usage_mut_def)

lemma usage_of_usage_mut [simp]:
  "usage_of (usage_mut t f im) t' = (if t' = t then f (usage_of im t) else usage_of im t')"
  by (simp add: usage_of_def usage_mut_def map_of_update)

lemma usage_of_emit_event [simp]: "usage_of (emit_event now et t det im) t' = usage_of im t'"
  by (simp add: usage_of_def)

lemma fold_filter:
  "fold (\<lambda>x s. if P x then f x s else s) xs = fold f (filter P xs)"
  by (induction xs) (auto simp: fun_eq_iff)

lemma fold_acc_skip_empty:
  "fold (\<lambda>(k, l) acc. if P l \<and> rv_present_count (f l) \<noteq> 0 then rv_acc acc (f l) else acc) xs r =
   fold (\<lambda>(k, l) acc. if P l then rv_acc acc (f l) else acc) xs r"
  if "\<forall>(k, l) \<in> set xs. rv_ok (f l)"
  using that
proof (induction xs arbitrary: r)
  case (Cons x xs)
  obtain k l where x: "x = (k, l)" by (cases x)
  have "rv_acc r (f l) = r" if "rv_present_count (f l) = 0"
    using that Cons.prems x rv_ok_empty_eq [of "f l"] by (simp add: rv_present_count_zero)
  then show ?case using Cons x by auto
qed simp

lemma synced_simps [simp]:
  "us_consumption (synced im now t u) = computed_consumed im t"
  "us_reserved (synced im now t u) = reserved_remaining im t"
  "us_borrowed_consumed (synced im now t u) = computed_borrowed im t"
  "us_lent (synced im now t u) = computed_lent im t"
  "us_debt (synced im now t u) = outstanding_debt im t"
  "us_windows (synced im now t u) = us_windows u"
  "us_cooldown_until (synced im now t u) = us_cooldown_until u"
  "us_burst (synced im now t u) = (if us_burst_active u \<and> now \<ge> us_burst_expires u then rv_empty else funded_burst im t)"
  "us_burst_active (synced im now t u) = (us_burst_active u \<and> now < us_burst_expires u)"
  by (auto simp: synced_def Let_def)

lemma sync_usage_simps [simp]:
  "im_settings (sync_usage now t im) = im_settings im"
  "im_policy (sync_usage now t im) = im_policy im"
  "im_epoch (sync_usage now t im) = im_epoch im"
  "im_quota_generation (sync_usage now t im) = im_quota_generation im"
  "im_groups (sync_usage now t im) = im_groups im"
  "im_tenants (sync_usage now t im) = im_tenants im"
  "im_local_quota (sync_usage now t im) = im_local_quota im"
  "im_group_quota (sync_usage now t im) = im_group_quota im"
  "im_reservations (sync_usage now t im) = im_reservations im"
  "im_funding (sync_usage now t im) = im_funding im"
  "im_allocations (sync_usage now t im) = im_allocations im"
  "im_borrows (sync_usage now t im) = im_borrows im"
  "im_lends (sync_usage now t im) = im_lends im"
  "im_events (sync_usage now t im) = im_events im"
  "im_ids (sync_usage now t im) = im_ids im"
  "im_cast_oob (sync_usage now t im) = im_cast_oob im"
  "usage_of (sync_usage now t im) t' = (if t' = t then synced im now t (usage_of im t) else usage_of im t')"
  by (simp_all add: sync_usage_def)

section \<open>Well-formed records\<close>

definition records_ok :: "impl \<Rightarrow> bool" where
  "records_ok im \<longleftrightarrow>
     (\<forall>(k, r) \<in> set (im_reservations im). rv_ok (res_resources r)) \<and>
     (\<forall>(k, a) \<in> set (im_allocations im). rv_ok (al_resources a) \<and> rv_ok (al_used a)) \<and>
     (\<forall>(k, b) \<in> set (im_borrows im). rv_ok (br_amount b) \<and> rv_ok (br_consumed b) \<and> rv_ok (br_debt b)) \<and>
     (\<forall>(k, l) \<in> set (im_lends im). rv_ok (ln_amount l) \<and> rv_ok (ln_outstanding l)) \<and>
     (\<forall>(k, f) \<in> set (im_funding im). rv_ok (fu_burst f))"

lemma rv_ok_fold_if:
  assumes "rv_ok r" "\<forall>(k, x) \<in> set xs. rv_ok (f x)"
  shows "rv_ok (fold (\<lambda>(k, x) acc. if P x then rv_acc acc (f x) else acc) xs r)"
  using assms by (induction xs arbitrary: r) (auto simp: rv_ok_acc)

definition vectors_ok :: "('k, resource_vector) hmap \<Rightarrow> bool" where
  "vectors_ok m \<longleftrightarrow> (\<forall>k v. map_of m k = Some v \<longrightarrow> rv_ok v)"

lemma vectors_ok_add: "vectors_ok m \<Longrightarrow> rv_ok v \<Longrightarrow> vectors_ok (map_add_vector k v m)"
  unfolding vectors_ok_def map_add_vector_def map_of_update
  by (auto simp: rv_ok_acc split: option.splits)

lemma rv_ok_alloc_used_by:
  assumes "records_ok im" "map_of (alloc_used_by im t) k = Some v"
  shows "rv_ok v"
proof -
  let ?f = "\<lambda>(aid :: allocation_id, a) m. if al_active a \<and> al_tenant a = t
      then map_add_vector (al_reservation a) (al_used a) m else m"
  have loop: "vectors_ok (fold ?f xs m)"
    if "vectors_ok m" "\<forall>(k, a) \<in> set xs. rv_ok (al_used a)" for xs m
    using that
  proof (induction xs arbitrary: m)
    case (Cons x xs)
    have "vectors_ok (?f x m)" using Cons.prems by (cases x) (simp add: vectors_ok_add)
    moreover have "\<forall>(k, a) \<in> set xs. rv_ok (al_used a)" using Cons.prems(2) by simp
    ultimately show ?case using Cons.IH by simp
  qed simp
  have "vectors_ok (alloc_used_by im t)"
    unfolding alloc_used_by_def
  proof (rule loop)
    show "vectors_ok []" by (simp add: vectors_ok_def)
    show "\<forall>(k, a) \<in> set (im_allocations im). rv_ok (al_used a)" using assms(1) by (auto simp: records_ok_def)
  qed
  with assms(2) show ?thesis unfolding vectors_ok_def by blast
qed

lemma rv_ok_remaining_of:
  "records_ok im \<Longrightarrow> rv_ok (res_resources r) \<Longrightarrow> rv_ok (remaining_of (alloc_used_by im t) r)"
  by (auto simp: remaining_of_def rv_ok_sub_sat rv_ok_min rv_ok_alloc_used_by split: option.splits)

lemma rv_ok_computed:
  assumes "records_ok im"
  shows "rv_ok (computed_consumed im t)" "rv_ok (computed_borrowed im t)" "rv_ok (computed_lent im t)"
    "rv_ok (outstanding_debt im t)" "rv_ok (reserved_remaining im t)" "rv_ok (funded_burst im t)"
proof -
  show "rv_ok (computed_consumed im t)" "rv_ok (computed_borrowed im t)" "rv_ok (outstanding_debt im t)"
    using assms unfolding computed_consumed_def computed_borrowed_def outstanding_debt_def records_ok_def
    by (auto intro!: rv_ok_fold_if)
  show "rv_ok (computed_lent im t)"
    using assms unfolding computed_lent_def records_ok_def by (auto intro!: rv_ok_fold_if)
  have "rv_ok (fold (\<lambda>(rid, r) acc. if res_tenant r \<noteq> t \<or> \<not> active_res r then acc
      else rv_acc acc (remaining_of (alloc_used_by im t) r)) xs r0)"
    if "rv_ok r0" "\<forall>(k, r) \<in> set xs. rv_ok (res_resources r)"
    for xs :: "(reservation_id, reservation) hmap" and r0
    using that by (induction xs arbitrary: r0) (auto simp: rv_ok_acc rv_ok_remaining_of assms)
  then show "rv_ok (reserved_remaining im t)"
    using assms unfolding reserved_remaining_def records_ok_def by auto
  have "rv_ok (fold (\<lambda>(rid, fund) acc. case map_of (im_reservations im) rid of None \<Rightarrow> acc
      | Some r \<Rightarrow> if res_tenant r \<noteq> t \<or> \<not> active_res r then acc else rv_acc acc (fu_burst fund)) xs r0)"
    if "rv_ok r0" "\<forall>(k, f) \<in> set xs. rv_ok (fu_burst f)"
    for xs :: "(reservation_id, funding) hmap" and r0
    using that by (induction xs arbitrary: r0) (auto simp: rv_ok_acc split: option.splits)
  then show "rv_ok (funded_burst im t)"
    using assms unfolding funded_burst_def records_ok_def by auto
qed

definition usage_ok :: "usage \<Rightarrow> bool" where
  "usage_ok u \<longleftrightarrow> rv_ok (us_consumption u) \<and> rv_ok (us_reserved u) \<and> rv_ok (us_borrowed_consumed u) \<and>
     rv_ok (us_burst u) \<and> rv_ok (us_lent u) \<and> rv_ok (us_debt u)"

lemma usages_ok_iff: "usages_ok im \<longleftrightarrow> (\<forall>(t, u) \<in> set (im_usage im). usage_ok u)"
  by (simp add: usages_ok_def usage_ok_def)

lemma usage_ok_of: "usages_ok im \<Longrightarrow> usage_ok (usage_of im t)"
  by (simp add: usage_ok_def usages_okD)

lemma usages_ok_mut: "usages_ok im \<Longrightarrow> usage_ok (f (usage_of im t)) \<Longrightarrow> usages_ok (usage_mut t f im)"
  unfolding usages_ok_iff usage_mut_def by (simp, rule values_update_all)

lemma usage_ok_synced: "records_ok im \<Longrightarrow> usage_ok (synced im now t u)"
  by (simp add: usage_ok_def rv_ok_computed)

lemma usages_ok_sync: "usages_ok im \<Longrightarrow> records_ok im \<Longrightarrow> usages_ok (sync_usage now t im)"
  unfolding sync_usage_def by (rule usages_ok_mut) (simp_all add: usage_ok_synced)

text \<open>The aggregates only read the record maps.\<close>

lemma computed_usage_mut [simp]:
  "computed_consumed (usage_mut t' f im) t = computed_consumed im t"
  "computed_borrowed (usage_mut t' f im) t = computed_borrowed im t"
  "computed_lent (usage_mut t' f im) t = computed_lent im t"
  "outstanding_debt (usage_mut t' f im) t = outstanding_debt im t"
  "reserved_remaining (usage_mut t' f im) t = reserved_remaining im t"
  "funded_burst (usage_mut t' f im) t = funded_burst im t"
  "recompute (usage_mut t' f im) t = recompute im t"
  "records_ok (usage_mut t' f im) = records_ok im"
  by (simp_all add: computed_consumed_def computed_borrowed_def computed_lent_def outstanding_debt_def
      reserved_remaining_def alloc_used_by_def funded_burst_def recompute_def records_ok_def
      cong: if_cong)

lemma computed_emit_event [simp]:
  "computed_consumed (emit_event now et t' det im) t = computed_consumed im t"
  "computed_borrowed (emit_event now et t' det im) t = computed_borrowed im t"
  "computed_lent (emit_event now et t' det im) t = computed_lent im t"
  "outstanding_debt (emit_event now et t' det im) t = outstanding_debt im t"
  "reserved_remaining (emit_event now et t' det im) t = reserved_remaining im t"
  "funded_burst (emit_event now et t' det im) t = funded_burst im t"
  "recompute (emit_event now et t' det im) t = recompute im t"
  "records_ok (emit_event now et t' det im) = records_ok im"
  "usages_ok (emit_event now et t' det im) = usages_ok im"
  "quotas_ok (emit_event now et t' det im) = quotas_ok im"
  by (simp_all add: computed_consumed_def computed_borrowed_def computed_lent_def outstanding_debt_def
      reserved_remaining_def alloc_used_by_def funded_burst_def recompute_def records_ok_def
      usages_ok_def quotas_ok_def cong: if_cong)

lemma recompute_synced:
  assumes "records_ok im"
  shows "recompute im t = (reserved_remaining im t, computed_consumed im t, computed_borrowed im t, computed_lent im t)"
proof -
  have "\<forall>(k, l) \<in> set (im_lends im). rv_ok (ln_outstanding l)" using assms by (auto simp: records_ok_def)
  then have "computed_lent im t =
      fold (\<lambda>(lid, l) acc. if ln_lender l = t then rv_acc acc (ln_outstanding l) else acc) (im_lends im) rv_empty"
    unfolding computed_lent_def
    by (rule fold_acc_skip_empty [where P = "\<lambda>l. ln_lender l = t" and f = ln_outstanding])
  then show ?thesis
    by (simp add: recompute_def computed_consumed_def computed_borrowed_def conj_commute)
qed

definition counters_match :: "impl \<Rightarrow> tenant_id \<Rightarrow> bool" where
  "counters_match im t \<longleftrightarrow> counter_error im t (usage_of im t) = None"

lemma counters_match_iff:
  "records_ok im \<Longrightarrow> counters_match im t \<longleftrightarrow>
     us_reserved (usage_of im t) = reserved_remaining im t \<and> us_consumption (usage_of im t) = computed_consumed im t \<and>
     us_borrowed_consumed (usage_of im t) = computed_borrowed im t \<and> us_lent (usage_of im t) = computed_lent im t"
  by (auto simp: counters_match_def counter_error_def recompute_synced)

text \<open>
  sync_usage makes the tenant's reserved, consumed, borrowed and lent counters those that
  invariants_ok recomputes from the records, and touches neither another tenant's usage nor
  any other part of the state.
\<close>

theorem sync_usage_counters:
  assumes "records_ok im"
  shows "counters_match (sync_usage now t im) t \<and>
    (\<forall>t'. t' \<noteq> t \<longrightarrow> usage_of (sync_usage now t im) t' = usage_of im t') \<and>
    sync_usage now t im = im\<lparr>im_usage := im_usage (sync_usage now t im)\<rparr>"
proof -
  have "records_ok (sync_usage now t im)" using assms by (simp add: sync_usage_def)
  then have "counters_match (sync_usage now t im) t"
    by (simp add: counters_match_iff) (simp add: sync_usage_def)
  moreover have "sync_usage now t im = im\<lparr>im_usage := im_usage (sync_usage now t im)\<rparr>"
    by (simp add: sync_usage_def usage_mut_def)
  ultimately show ?thesis by simp
qed

end
