(* ===== verification/QF_Borrow.thy ===== *)
theory QF_Borrow
  imports QF_Accounting
begin

text \<open>
  Borrowing, lending and recall (\<open>accounting/engine.cpp\<close>). An operation takes the state and
  the clock reading and returns the new state with its result; a \<open>QuotaResult\<close> is the
  failing status or the value.
\<close>

section \<open>Operations\<close>

definition borrower_priority :: "impl \<Rightarrow> tenant_id \<Rightarrow> 32 word" where
  "borrower_priority im t =
     (case map_of (im_tenants im) t of None \<Rightarrow> 100 | Some tn \<Rightarrow> ten_priority tn)"

text \<open>The inner loop of \<open>borrow_impl\<close>: enough borrowable headroom on every requested dimension.\<close>

definition lender_covers :: "impl \<Rightarrow> tenant_id \<Rightarrow> resource_vector \<Rightarrow> bool" where
  "lender_covers im lender amount =
     list_all (\<lambda>d. \<not> rv_present amount d \<or>
         (rv_present (q_borrowable (effective_lattice im lender)) d \<and>
          \<not> available_to_lend im lender d < rv_get amount d)) all_resource_dimensions"

definition find_lender :: "impl \<Rightarrow> tenant_id \<Rightarrow> resource_vector \<Rightarrow> tenant_id option" where
  "find_lender im borrower amount =
     map_option fst (find (\<lambda>(lender, tn). lender \<noteq> borrower \<and> lender_covers im lender amount) (im_tenants im))"

definition new_lending :: "impl \<Rightarrow> int \<Rightarrow> lending_id \<Rightarrow> tenant_id \<Rightarrow> tenant_id \<Rightarrow> resource_vector \<Rightarrow> lending_record" where
  "new_lending im now lid lender borrower amount =
     \<lparr>ln_id = lid, ln_lender = lender, ln_borrower = borrower, ln_resource_class = null_id,
      ln_amount = amount, ln_outstanding = amount, ln_started_at = now, ln_expires_at = 0,
      ln_recall_priority = 0, ln_revocable = True,
      ln_policy_generation = pol_generation (im_policy im),
      ln_quota_generation = im_quota_generation im, ln_epoch = im_epoch im\<rparr>"

definition new_borrow ::
  "impl \<Rightarrow> int \<Rightarrow> borrow_id \<Rightarrow> lending_id \<Rightarrow> tenant_id \<Rightarrow> tenant_id \<Rightarrow> resource_vector
     \<Rightarrow> reservation_id option \<Rightarrow> borrow_record" where
  "new_borrow im now bid lid lender borrower amount reservation =
     \<lparr>br_id = bid, br_borrower = borrower, br_lender = lender, br_lending = lid,
      br_reservation = reservation, br_resource_class = null_id, br_amount = amount,
      br_consumed = amount, br_started_at = now, br_expires_at = 0,
      br_recall_priority = borrower_priority im borrower, br_debt = amount,
      br_policy_generation = pol_generation (im_policy im),
      br_quota_generation = im_quota_generation im, br_epoch = im_epoch im, br_recalled = False\<rparr>"

definition draw_from ::
  "impl \<Rightarrow> int \<Rightarrow> tenant_id \<Rightarrow> tenant_id \<Rightarrow> resource_vector \<Rightarrow> reservation_id option \<Rightarrow> impl \<times> borrow_record" where
  "draw_from im now lender borrower amount reservation =
     (let (lid, glend) = make_id (ig_lending (im_ids im));
          (bid, gborr) = make_id (ig_borrow (im_ids im));
          l = new_lending im now lid lender borrower amount;
          b = new_borrow im now bid lid lender borrower amount reservation;
          im1 = im\<lparr>im_ids := (im_ids im)\<lparr>ig_lending := glend, ig_borrow := gborr\<rparr>,
                   im_lends := emplace lid l (im_lends im),
                   im_borrows := emplace bid b (im_borrows im)\<rparr>;
          im2 = usage_mut lender (\<lambda>u. u\<lparr>us_lent := rv_acc (us_lent u) amount\<rparr>) im1;
          im3 = usage_mut borrower (\<lambda>u. u\<lparr>us_borrowed_consumed := rv_acc (us_borrowed_consumed u) amount\<rparr>) im2;
          im4 = usage_mut borrower (\<lambda>u. u\<lparr>us_debt := rv_acc (us_debt u) amount\<rparr>) im3;
          im5 = emit_event now ET_BORROW borrower (''borrowed '' @ rv_to_string amount @ '' from lender'') im4;
          im6 = emit_event now ET_LEND lender (''lent '' @ rv_to_string amount @ '' to borrower'') im5
      in (im6, b))"

definition borrow_impl ::
  "impl \<Rightarrow> int \<Rightarrow> tenant_id \<Rightarrow> resource_vector \<Rightarrow> authority \<Rightarrow> reservation_id option
     \<Rightarrow> impl \<times> borrow_record quota_result" where
  "borrow_impl im now borrower amount auth reservation =
     (case find_lender im borrower amount of
        None \<Rightarrow> (im, Inl (status_failure VC_HARD_LIMIT_EXCEEDED ''no lender with borrowable capacity''))
      | Some lender \<Rightarrow>
          (case draw_from im now lender borrower amount reservation of (im', b) \<Rightarrow> (im', Inr b)))"

text \<open>The update of the lending offer in \<open>return_borrow\<close>.\<close>

definition return_to_lender :: "lending_id \<Rightarrow> resource_vector \<Rightarrow> impl \<Rightarrow> impl" where
  "return_to_lender lid ret im =
     (case map_of (im_lends im) lid of
        None \<Rightarrow> im
      | Some l \<Rightarrow>
          (let l' = l\<lparr>ln_outstanding := rv_sub_sat (ln_outstanding l) ret\<rparr>;
               im1 = im\<lparr>im_lends := AList.update lid l' (im_lends im)\<rparr>
           in if rv_is_empty (ln_outstanding l') \<and> rv_present_count (ln_amount l') \<noteq> 0
              then usage_mut (ln_lender l') (\<lambda>u. u\<lparr>us_lent := rv_sub_sat (us_lent u) (ln_amount l')\<rparr>) im1
              else im1))"

definition return_borrow :: "impl \<Rightarrow> int \<Rightarrow> borrow_id \<Rightarrow> resource_vector \<Rightarrow> impl \<times> quota_status" where
  "return_borrow im now bid amount =
     (case map_of (im_borrows im) bid of
        None \<Rightarrow> (im, status_failure VC_STALE_RESERVATION ''unknown borrow'')
      | Some b \<Rightarrow>
          if br_recalled b then (im, status_failure VC_DUPLICATE_RELEASE ''borrow already returned'')
          else
            (let ret = rv_min amount (br_consumed b);
                 b' = b\<lparr>br_consumed := rv_sub_sat (br_consumed b) ret, br_recalled := True\<rparr>;
                 im1 = im\<lparr>im_borrows := AList.update bid b' (im_borrows im)\<rparr>;
                 im2 = usage_mut (br_borrower b)
                   (\<lambda>u. u\<lparr>us_borrowed_consumed := rv_sub_sat (us_borrowed_consumed u) ret\<rparr>) im1;
                 im3 = usage_mut (br_borrower b) (\<lambda>u. u\<lparr>us_debt := rv_sub_sat (us_debt u) ret\<rparr>) im2;
                 im4 = return_to_lender (br_lending b) ret im3
             in (emit_event now ET_RECALL (br_borrower b) ''borrow returned'' im4, status_success)))"

text \<open>
  \<open>for (auto bid : ids) return_borrow(bid, borrows_[bid].consumed)\<close>: the subscript inserts a
  default record when there is none.
\<close>

definition borrow_record_default :: borrow_record where
  "borrow_record_default =
     \<lparr>br_id = null_id, br_borrower = null_id, br_lender = null_id, br_lending = null_id,
      br_reservation = None, br_resource_class = null_id, br_amount = rv_empty,
      br_consumed = rv_empty, br_started_at = 0, br_expires_at = 0, br_recall_priority = 0,
      br_debt = rv_empty, br_policy_generation = gen_zero, br_quota_generation = gen_zero,
      br_epoch = gen_zero, br_recalled = False\<rparr>"

definition return_indexed :: "int \<Rightarrow> borrow_id \<Rightarrow> impl \<Rightarrow> impl" where
  "return_indexed now bid im =
     (let im1 = im\<lparr>im_borrows := emplace bid borrow_record_default (im_borrows im)\<rparr>
      in case map_of (im_borrows im1) bid of
           None \<Rightarrow> im1
         | Some b \<Rightarrow> fst (return_borrow im1 now bid (br_consumed b)))"

definition return_all :: "int \<Rightarrow> borrow_id list \<Rightarrow> impl \<Rightarrow> impl" where
  "return_all now ids im = fold (return_indexed now) ids im"

definition borrow ::
  "impl \<Rightarrow> int \<Rightarrow> tenant_id \<Rightarrow> resource_vector \<Rightarrow> authority \<Rightarrow> impl \<times> borrow_record quota_result" where
  "borrow im now borrower amount auth =
     (if stale_epoch im auth \<or> \<not> valid_authority im auth
        then (im, Inl (status_failure VC_STALE_AUTHORITY ''stale authority''))
      else if \<not> tenant_exists im borrower
        then (im, Inl (status_failure VC_WRONG_TENANT ''unknown borrower''))
      else case borrow_impl im now borrower amount auth None of
             (im1, Inl st) \<Rightarrow> (im1, Inl st)
           | (im1, Inr b) \<Rightarrow> (sync_usage now borrower im1, Inr b))"

definition lend ::
  "impl \<Rightarrow> int \<Rightarrow> tenant_id \<Rightarrow> tenant_id \<Rightarrow> resource_vector \<Rightarrow> authority \<Rightarrow> impl \<times> lending_record quota_result" where
  "lend im now lender borrower amount auth =
     (if \<not> valid_authority im auth \<or> stale_epoch im auth
        then (im, Inl (status_failure VC_STALE_AUTHORITY ''stale authority''))
      else if \<not> tenant_exists im lender
        then (im, Inl (status_failure VC_WRONG_TENANT ''unknown lender''))
      else if \<not> lender_covers im lender amount
        then (im, Inl (status_failure VC_HARD_LIMIT_EXCEEDED ''lender lacks borrowable headroom''))
      else case borrow_impl im now borrower amount auth None of
             (im1, Inl st) \<Rightarrow> (im1, Inl (status_failure (st_code st) (st_message st)))
           | (im1, Inr b) \<Rightarrow>
               (let im2 = sync_usage now borrower (sync_usage now lender im1)
                in case map_of (im_lends im2) (br_lending b) of
                     None \<Rightarrow> (im2, Inl (status_failure VC_INVALID_HIERARCHY ''lend record missing''))
                   | Some l \<Rightarrow> (im2, Inr l)))"

definition recall_borrow :: "impl \<Rightarrow> int \<Rightarrow> borrow_id \<Rightarrow> authority \<Rightarrow> impl \<times> quota_status" where
  "recall_borrow im now bid auth =
     (if stale_epoch im auth then (im, status_failure VC_STALE_AUTHORITY ''stale epoch'')
      else case map_of (im_borrows im) bid of
             None \<Rightarrow> (im, status_failure VC_STALE_RESERVATION ''unknown borrow'')
           | Some b \<Rightarrow>
               (case return_borrow im now bid (br_consumed b) of
                  (im1, st) \<Rightarrow>
                    if st_ok st
                    then (emit_event now ET_RECALL (br_borrower b) ''borrow recalled''
                            (sync_usage now (br_lender b) (sync_usage now (br_borrower b) im1)), st)
                    else (im1, st)))"

end
