(* ===== verification/QF_Lifecycle.thy ===== *)
theory QF_Lifecycle
  imports QF_Borrow
begin

text \<open>
  The public operations of \<open>QuotaFabric\<close> (\<open>accounting/engine.cpp\<close>) that configure the engine
  and drive reservations and allocations through their life cycle. Every guard and early
  return of the sources is a branch here, in the same order. The observations of agents
  and the snapshot complete the list.
\<close>

section \<open>Configuration\<close>

definition set_policy :: "impl \<Rightarrow> int \<Rightarrow> quota_policy \<Rightarrow> impl \<times> quota_status" where
  "set_policy im now policy =
     (case policy_validate policy of
        Some err \<Rightarrow> (im, status_failure VC_INVALID_HIERARCHY (''invalid policy: '' @ err))
      | None \<Rightarrow>
          (emit_event now ET_QUOTA_UPDATE null_id ''policy replaced'' (im\<lparr>im_policy := policy\<rparr>), status_success))"

definition advance_epoch :: "impl \<Rightarrow> int \<Rightarrow> impl \<times> quota_status" where
  "advance_epoch im now =
     (emit_event now ET_QUOTA_UPDATE null_id ''coordinator epoch advanced''
        (im\<lparr>im_epoch := gen_next (im_epoch im)\<rparr>), status_success)"

definition new_group ::
  "impl \<Rightarrow> string \<Rightarrow> tenant_group_kind \<Rightarrow> tenant_group_id option \<Rightarrow> impl \<times> tenant_group_id" where
  "new_group im name kind parent =
     (let (gid, gen) = make_id (ig_group (im_ids im));
          g = \<lparr>grp_id = gid, grp_kind = kind, grp_parent = parent, grp_name = name,
               grp_quota = resource_quota_default, grp_policy_generation = pol_generation (im_policy im)\<rparr>
      in (im\<lparr>im_ids := (im_ids im)\<lparr>ig_group := gen\<rparr>, im_groups := emplace gid g (im_groups im)\<rparr>, gid))"

definition create_group ::
  "impl \<Rightarrow> int \<Rightarrow> string \<Rightarrow> tenant_group_kind \<Rightarrow> tenant_group_id option \<Rightarrow> impl \<times> quota_status" where
  "create_group im now name kind parent =
     (if (case parent of None \<Rightarrow> False | Some p \<Rightarrow> \<not> group_exists im p)
      then (im, status_failure VC_INVALID_HIERARCHY ''parent group missing'')
      else (emit_event now ET_QUOTA_UPDATE null_id ''group created'' (fst (new_group im name kind parent)),
            status_success))"

definition create_group_autoid ::
  "impl \<Rightarrow> string \<Rightarrow> tenant_group_kind \<Rightarrow> tenant_group_id option \<Rightarrow> impl \<times> tenant_group_id" where
  "create_group_autoid im name kind parent = new_group im name kind parent"

definition create_tenant ::
  "impl \<Rightarrow> int \<Rightarrow> tenant_id \<Rightarrow> string \<Rightarrow> tenant_group_id option \<Rightarrow> 32 word \<Rightarrow> impl \<times> quota_status" where
  "create_tenant im now i name grp priority =
     (if length (im_tenants im) \<ge> unat (se_max_tenants (im_settings im))
        then (im, status_failure VC_RESOURCE_OVERFLOW ''tenant limit reached'')
      else if tenant_exists im i
        then (im, status_failure VC_DUPLICATE_RESERVATION ''tenant id already exists'')
      else if (case grp of None \<Rightarrow> False | Some g \<Rightarrow> \<not> group_exists im g)
        then (im, status_failure VC_INVALID_HIERARCHY ''group missing'')
      else (emit_event now ET_QUOTA_UPDATE i ''tenant created''
              (im\<lparr>im_tenants := emplace i \<lparr>ten_id = i, ten_group = grp, ten_name = name,
                   ten_priority = priority, ten_service_class = ''''\<rparr> (im_tenants im)\<rparr>), status_success))"

text \<open>The overload that makes the id: the status and, on success, the id.\<close>

definition create_tenant_auto ::
  "impl \<Rightarrow> int \<Rightarrow> string \<Rightarrow> tenant_group_id option \<Rightarrow> 32 word \<Rightarrow> impl \<times> quota_status \<times> tenant_id option" where
  "create_tenant_auto im now name grp priority =
     (let (i, gen) = make_id (ig_tenant (im_ids im));
          (im', st) = create_tenant (im\<lparr>im_ids := (im_ids im)\<lparr>ig_tenant := gen\<rparr>\<rparr>) now i name grp priority
      in (im', st, if st_ok st then Some i else None))"

definition set_tenant_quota :: "impl \<Rightarrow> int \<Rightarrow> tenant_id \<Rightarrow> resource_quota \<Rightarrow> impl \<times> quota_status" where
  "set_tenant_quota im now t q =
     (if \<not> tenant_exists im t then (im, status_failure VC_WRONG_TENANT ''tenant missing'')
      else if contains_key (im_local_quota im) t \<and> \<not> lattice_coherent q
        then (im, status_failure VC_INVALID_HIERARCHY ''incoherent lattice (guarantee>soft>hard)'')
      else (emit_event now ET_QUOTA_UPDATE t ''tenant quota updated''
              (im\<lparr>im_local_quota := AList.update t
                    (q\<lparr>q_tenant := t, q_generation := im_quota_generation im,
                       q_policy_generation := pol_generation (im_policy im)\<rparr>) (im_local_quota im),
                  im_quota_generation := gen_next (im_quota_generation im)\<rparr>), status_success))"

definition set_group_quota :: "impl \<Rightarrow> int \<Rightarrow> tenant_group_id \<Rightarrow> resource_quota \<Rightarrow> impl \<times> quota_status" where
  "set_group_quota im now g q =
     (if \<not> group_exists im g then (im, status_failure VC_INVALID_HIERARCHY ''group missing'')
      else (emit_event now ET_QUOTA_UPDATE null_id ''group quota updated''
              (im\<lparr>im_group_quota := AList.update g
                    (q\<lparr>q_tenant := null_id, q_generation := im_quota_generation im,
                       q_policy_generation := pol_generation (im_policy im)\<rparr>) (im_group_quota im),
                  im_quota_generation := gen_next (im_quota_generation im)\<rparr>), status_success))"

section \<open>Reservations\<close>

text \<open>\<open>std::clamp\<close>\<close>

definition clamp64 :: "int \<Rightarrow> int \<Rightarrow> int \<Rightarrow> int" where
  "clamp64 v lo hi = (if v < lo then lo else if hi < v then hi else v)"

definition burst_part :: "int \<Rightarrow> int \<Rightarrow> int \<Rightarrow> int \<Rightarrow> int" where
  "burst_part base nc soft hard =
     (let before_burst = clamp64 (sub64 base soft) 0 (sub64 hard soft);
          after_burst = clamp64 (sub64 nc soft) 0 (sub64 hard soft)
      in max 0 (sub64 after_burst before_burst))"

definition borrow_part :: "int \<Rightarrow> int \<Rightarrow> int \<Rightarrow> int" where
  "borrow_part base nc hard =
     (let before_borr = max 0 (sub64 base hard);
          after_borr = max 0 (sub64 nc hard)
      in max 0 (sub64 after_borr before_borr))"

text \<open>
  The funding loop of \<open>reserve\<close>: the burst amounts and the borrows made so far, or the
  failing status after the earlier borrows have been returned.
\<close>

fun reserve_loop ::
  "int \<Rightarrow> tenant_id \<Rightarrow> resource_vector \<Rightarrow> authority \<Rightarrow> resource_quota \<Rightarrow> resource_vector
     \<Rightarrow> resource_dimension list \<Rightarrow> impl \<Rightarrow> resource_vector \<Rightarrow> borrow_id list
     \<Rightarrow> impl \<times> (resource_vector \<times> borrow_id list) quota_result" where
  "reserve_loop now t req auth eff cb [] im burst ids = (im, Inr (burst, ids))"
| "reserve_loop now t req auth eff cb (d # ds) im burst ids =
     (if \<not> rv_present req d \<or> is_consumable d then reserve_loop now t req auth eff cb ds im burst ids
      else
        (let base = rv_get cb d;
             nc = sat_add base (rv_get req d);
             bp = burst_part base nc (soft_at eff d) (hard_at eff d);
             burst' = (if bp > 0 then rv_put burst d bp else burst);
             borr = borrow_part base nc (hard_at eff d)
         in if borr > 0
            then (case borrow_impl im now t (rv_from_scalar d borr) auth None of
                    (im1, Inl st) \<Rightarrow>
                      (return_all now ids im1,
                       Inl (status_failure (st_code st) (''borrow failed: '' @ st_message st)))
                  | (im1, Inr b) \<Rightarrow> reserve_loop now t req auth eff cb ds im1 burst' (ids @ [br_id b]))
            else reserve_loop now t req auth eff cb ds im burst' ids))"

definition deny_status :: "quota_decision \<Rightarrow> quota_status" where
  "deny_status dec =
     status_failure
       (if dec_code dec = DC_DENY_HARD then VC_HARD_LIMIT_EXCEEDED
        else if dec_code dec = DC_DENY_SOFT then VC_SOFT_LIMIT_EXCEEDED
        else if dec_code dec = DC_DENY_PARENT then VC_PARENT_LIMIT_EXCEEDED
        else VC_PHYSICAL_CAPACITY_MISMATCH)
       (explanation_human (dec_explanation dec))"

definition activate_burst :: "int \<Rightarrow> tenant_id \<Rightarrow> resource_quota \<Rightarrow> resource_vector \<Rightarrow> impl \<Rightarrow> impl" where
  "activate_burst now t eff burst im =
     (if rv_is_empty burst then im
      else usage_mut t (\<lambda>u. u\<lparr>us_burst_active := True, us_burst_started := now,
             us_burst_expires := add64 now (bu_window (q_burst_rule eff)), us_cooldown_until := 0\<rparr>) im)"

definition new_reservation ::
  "impl \<Rightarrow> int \<Rightarrow> reservation_id \<Rightarrow> tenant_id \<Rightarrow> resource_vector \<Rightarrow> authority \<Rightarrow> reservation" where
  "new_reservation im now rid t req auth =
     \<lparr>res_id = rid, res_tenant = t, res_resource_class = null_id, res_resources = req,
      res_consumed = rv_empty, res_status = RS_COMMITTED, res_created_at = now, res_expires_at = 0,
      res_quota_generation = im_quota_generation im,
      res_policy_generation = pol_generation (im_policy im), res_epoch = im_epoch im,
      res_owner_agent = au_agent auth, res_owner_boot = au_boot auth, res_label = '''',
      res_resource_generation = au_resource_generation auth\<rparr>"

definition record_reservation ::
  "int \<Rightarrow> tenant_id \<Rightarrow> resource_vector \<Rightarrow> authority \<Rightarrow> resource_vector \<Rightarrow> borrow_id list \<Rightarrow> impl
     \<Rightarrow> impl \<times> reservation" where
  "record_reservation now t req auth burst ids im =
     (let (rid, gen) = make_id (ig_reservation (im_ids im));
          res = new_reservation im now rid t req auth;
          im1 = im\<lparr>im_ids := (im_ids im)\<lparr>ig_reservation := gen\<rparr>,
                   im_funding := AList.update rid \<lparr>fu_burst = burst, fu_borrows = ids\<rparr> (im_funding im),
                   im_reservations := emplace rid res (im_reservations im)\<rparr>
      in (emit_event now ET_RESERVATION t (''reservation committed ('' @ rv_to_string req @ '')'')
            (sync_usage now t im1), res))"

definition reserve ::
  "impl \<Rightarrow> int \<Rightarrow> tenant_id \<Rightarrow> resource_vector \<Rightarrow> authority \<Rightarrow> impl \<times> reservation quota_result" where
  "reserve im now t req auth =
     (if stale_epoch im auth
        then (im, Inl (status_failure VC_STALE_AUTHORITY ''stale coordinator epoch''))
      else if stale_quota_gen im auth
        then (im, Inl (status_failure VC_STALE_QUOTA_GENERATION ''stale quota generation''))
      else if \<not> valid_authority im auth
        then (im, Inl (status_failure VC_STALE_AUTHORITY ''stale authority''))
      else if \<not> tenant_exists im t
        then (im, Inl (status_failure VC_WRONG_TENANT ''unknown tenant''))
      else
        (let dec = classify im now t req
         in if \<not> dec_allowed dec then (im, Inl (deny_status dec))
            else
              (let eff = effective_lattice im t;
                   im1 = usage_mut t (\<lambda>u. u) im;
                   cb = committed_of (usage_of im1 t)
               in case reserve_loop now t req auth eff cb all_resource_dimensions im1 rv_empty [] of
                    (im2, Inl st) \<Rightarrow> (im2, Inl st)
                  | (im2, Inr (burst, ids)) \<Rightarrow>
                      (case record_reservation now t req auth burst ids (activate_burst now t eff burst im2) of
                         (im3, res) \<Rightarrow> (im3, Inr res)))))"

definition commit_reservation :: "impl \<Rightarrow> int \<Rightarrow> reservation_id \<Rightarrow> authority \<Rightarrow> impl \<times> quota_status" where
  "commit_reservation im now rid auth =
     (if stale_epoch im auth then (im, status_failure VC_STALE_AUTHORITY ''stale epoch'')
      else if stale_quota_gen im auth
        then (im, status_failure VC_STALE_QUOTA_GENERATION ''stale quota generation'')
      else case map_of (im_reservations im) rid of
             None \<Rightarrow> (im, status_failure VC_STALE_RESERVATION ''unknown reservation'')
           | Some r \<Rightarrow>
               if res_status r = RS_COMMITTED then (im, status_success)
               else if res_status r \<noteq> RS_PROVISIONAL
                 then (im, status_failure VC_STALE_RESERVATION ''reservation not provisional'')
               else
                 (let r' = r\<lparr>res_status := RS_COMMITTED, res_quota_generation := im_quota_generation im\<rparr>;
                      im1 = im\<lparr>im_reservations := AList.update rid r' (im_reservations im)\<rparr>
                  in (emit_event now ET_RESERVATION (res_tenant r) ''reservation committed''
                        (sync_usage now (res_tenant r) im1), status_success)))"

definition release :: "impl \<Rightarrow> int \<Rightarrow> reservation_id \<Rightarrow> authority \<Rightarrow> impl \<times> quota_status" where
  "release im now rid auth =
     (if stale_epoch im auth then (im, status_failure VC_STALE_AUTHORITY ''stale epoch'')
      else case map_of (im_reservations im) rid of
             None \<Rightarrow> (im, status_failure VC_STALE_RESERVATION ''unknown reservation'')
           | Some r \<Rightarrow>
               if \<not> active_res r
                 then (im, status_failure VC_DUPLICATE_RELEASE ''reservation already released'')
               else
                 (let im1 = im\<lparr>im_reservations := AList.update rid (r\<lparr>res_status := RS_RELEASED\<rparr>) (im_reservations im)\<rparr>;
                      im2 = (case map_of (im_funding im1) rid of
                               None \<Rightarrow> im1
                             | Some f \<Rightarrow> return_all now (fu_borrows f) im1);
                      im3 = im2\<lparr>im_allocations :=
                              map (\<lambda>(aid, a). (aid, if al_reservation a = rid then a\<lparr>al_active := False\<rparr> else a))
                                (im_allocations im2)\<rparr>;
                      im4 = im3\<lparr>im_reservations := AList.delete rid (im_reservations im3),
                                im_funding := AList.delete rid (im_funding im3)\<rparr>
                  in (emit_event now ET_RELEASE (res_tenant r) ''reservation released''
                        (sync_usage now (res_tenant r) im4), status_success)))"

section \<open>Allocations\<close>

definition new_allocation ::
  "impl \<Rightarrow> int \<Rightarrow> allocation_id \<Rightarrow> reservation_id \<Rightarrow> reservation \<Rightarrow> resource_vector \<Rightarrow> authority \<Rightarrow> allocation" where
  "new_allocation im now aid rid r req auth =
     \<lparr>al_id = aid, al_tenant = res_tenant r, al_reservation = rid, al_resource_class = null_id,
      al_resources = req, al_used = rv_empty, al_started_at = now, al_ended_at = 0, al_active = True,
      al_quota_generation = im_quota_generation im,
      al_policy_generation = pol_generation (im_policy im), al_epoch = im_epoch im,
      al_owner_agent = au_agent auth, al_owner_boot = au_boot auth, al_label = ''''\<rparr>"

definition start_allocation ::
  "impl \<Rightarrow> int \<Rightarrow> reservation_id \<Rightarrow> resource_vector \<Rightarrow> authority \<Rightarrow> impl \<times> allocation quota_result" where
  "start_allocation im now rid req auth =
     (if \<not> valid_authority im auth then (im, Inl (status_failure VC_STALE_AUTHORITY ''stale authority''))
      else case map_of (im_reservations im) rid of
             None \<Rightarrow> (im, Inl (status_failure VC_STALE_RESERVATION ''unknown reservation''))
           | Some r \<Rightarrow>
               if \<not> active_res r
                 then (im, Inl (status_failure VC_STALE_RESERVATION ''reservation not active''))
               else
                 (let (aid, gen) = make_id (ig_allocation (im_ids im));
                      al = new_allocation im now aid rid r req auth;
                      im1 = im\<lparr>im_ids := (im_ids im)\<lparr>ig_allocation := gen\<rparr>,
                               im_allocations := emplace aid al (im_allocations im),
                               im_reservations := AList.update rid (r\<lparr>res_status := RS_CONSUMED\<rparr>) (im_reservations im)\<rparr>
                  in (emit_event now ET_RESERVATION (res_tenant r) ''allocation started''
                        (sync_usage now (res_tenant r) im1), Inr al)))"

definition resize_allocation ::
  "impl \<Rightarrow> int \<Rightarrow> allocation_id \<Rightarrow> resource_vector \<Rightarrow> authority \<Rightarrow> impl \<times> quota_status" where
  "resize_allocation im now aid delta auth =
     (if stale_quota_gen im auth
        then (im, status_failure VC_STALE_QUOTA_GENERATION ''stale quota generation'')
      else case map_of (im_allocations im) aid of
             None \<Rightarrow> (im, status_failure VC_STALE_RESERVATION ''unknown allocation'')
           | Some a \<Rightarrow>
               if \<not> al_active a
                 then (im, status_failure VC_STALE_RESERVATION ''allocation not active'')
               else
                 (let newused = snd (rv_add (al_used a) delta True);
                      a' = a\<lparr>al_used := rv_min newused (al_resources a)\<rparr>;
                      im1 = im\<lparr>im_allocations := AList.update aid a' (im_allocations im)\<rparr>;
                      dec = classify im1 now (al_tenant a) (al_resources a)
                  in if dec_code dec = DC_DENY_HARD \<or> dec_code dec = DC_DENY_PARENT \<or> dec_code dec = DC_DENY_PHYSICAL
                     then (emit_event now ET_VIOLATION (al_tenant a) ''allocation resize would violate quota'' im1,
                           status_failure
                             (if dec_code dec = DC_DENY_PARENT then VC_PARENT_LIMIT_EXCEEDED else VC_HARD_LIMIT_EXCEEDED)
                             (explanation_human (dec_explanation dec)))
                     else (emit_event now ET_RESERVATION (al_tenant a) ''allocation resized''
                             (sync_usage now (al_tenant a) im1), status_success)))"

definition release_allocation :: "impl \<Rightarrow> int \<Rightarrow> allocation_id \<Rightarrow> authority \<Rightarrow> impl \<times> quota_status" where
  "release_allocation im now aid auth =
     (if stale_quota_gen im auth
        then (im, status_failure VC_STALE_QUOTA_GENERATION ''stale quota generation'')
      else case map_of (im_allocations im) aid of
             None \<Rightarrow> (im, status_failure VC_STALE_RESERVATION ''unknown allocation'')
           | Some a \<Rightarrow>
               if \<not> al_active a
                 then (im, status_failure VC_DUPLICATE_RELEASE ''allocation already released'')
               else
                 (let a' = a\<lparr>al_active := False, al_ended_at := now\<rparr>;
                      im1 = im\<lparr>im_allocations := AList.update aid a' (im_allocations im)\<rparr>
                  in (emit_event now ET_RELEASE (al_tenant a) ''allocation released''
                        (sync_usage now (al_tenant a) im1), status_success)))"

end
