(* ===== verification/QF_Observe.thy ===== *)
theory QF_Observe
  imports QF_Lifecycle
begin

text \<open>
  Observations reported by agents, the snapshot of the engine and the accessors
  (\<open>accounting/engine.cpp\<close>). An observation of a consumable resource feeds a rolling window;
  the others write the tenant's consumption counter directly.
\<close>

section \<open>Observations\<close>

definition default_window_ns :: int where
  "default_window_ns = 3600000000000"

definition window_add :: "resource_dimension \<Rightarrow> int \<Rightarrow> int \<Rightarrow> usage \<Rightarrow> usage" where
  "window_add d now amount u =
     (let w = us_windows u d;
          w1 = (if rw_window_ns w \<le> 0 then w\<lparr>rw_window_ns := default_window_ns\<rparr> else w)
      in u\<lparr>us_windows := (us_windows u)(d := rw_add w1 now amount)\<rparr>)"

definition consumption_set :: "resource_dimension \<Rightarrow> int \<Rightarrow> usage \<Rightarrow> usage" where
  "consumption_set d x u = u\<lparr>us_consumption := rv_put (us_consumption u) d x\<rparr>"

text \<open>The \<open>switch\<close> over the kind: the new state, or the failing status of an early return.\<close>

definition observe_kind :: "impl \<Rightarrow> int \<Rightarrow> observation \<Rightarrow> quota_status + impl" where
  "observe_kind im now obs =
     (let t = ob_tenant obs;
          d = ob_dimension obs;
          amount = ob_amount obs;
          cons = (\<lambda>e. rv_get (us_consumption (usage_of im t)) e)
      in case ob_kind obs of
        OK_COMPUTE_INTERVAL \<Rightarrow>
          if d \<noteq> AcceleratorComputeTime
          then Inl (status_failure VC_INVALID_SHARED_ATTRIBUTION ''compute interval on wrong dimension'')
          else Inr (usage_mut t (window_add d now amount) im)
      | OK_TRANSFER_CONSUMED \<Rightarrow>
          if d \<noteq> TransferBytes
          then Inl (status_failure VC_INVALID_SHARED_ATTRIBUTION ''transfer consumed on wrong dimension'')
          else Inr (usage_mut t (window_add TransferBytes now amount) im)
      | OK_MODEL_RESIDENCY_ADDED \<Rightarrow>
          (let x = add64 (cons ModelResidencyBytes) amount;
               im1 = (case map_of (im_allocations im) (ob_allocation obs) of
                        None \<Rightarrow> im
                      | Some a \<Rightarrow> im\<lparr>im_allocations := AList.update (ob_allocation obs)
                          (a\<lparr>al_used := rv_put (al_used a) ModelResidencyBytes x\<rparr>) (im_allocations im)\<rparr>)
           in Inr (usage_mut t (consumption_set ModelResidencyBytes x) im1))
      | OK_MODEL_RESIDENCY_REMOVED \<Rightarrow>
          Inr (usage_mut t (consumption_set ModelResidencyBytes (max 0 (sub64 (cons ModelResidencyBytes) amount))) im)
      | OK_KV_USAGE_CHANGE \<Rightarrow> Inr (usage_mut t (consumption_set d (add64 (cons d) amount)) im)
      | OK_TENSOR_USAGE_CHANGE \<Rightarrow> Inr (usage_mut t (consumption_set d (add64 (cons d) amount)) im)
      | OK_USAGE_DELTA \<Rightarrow> Inr (usage_mut t (consumption_set d (add64 (cons d) amount)) im)
      | _ \<Rightarrow> Inr im)"

definition apply_observation :: "impl \<Rightarrow> int \<Rightarrow> observation \<Rightarrow> impl \<times> quota_status" where
  "apply_observation im clock obs =
     (if \<not> tenant_exists im (ob_tenant obs)
        then (im, status_failure VC_WRONG_TENANT ''unknown tenant for observation'')
      else
        (let im0 = usage_mut (ob_tenant obs) (\<lambda>u. u) im;
             now = (if ob_at obs > 0 then ob_at obs else clock)
         in case observe_kind im0 now obs of
              Inl st \<Rightarrow> (im0, st)
            | Inr im1 \<Rightarrow>
                (emit_event clock ET_VIOLATION (ob_tenant obs)
                   (''observation '' @ resource_dimension_name (ob_dimension obs)) im1, status_success)))"

section \<open>Snapshot and accessors\<close>

record quota_snapshot =
  sn_epoch :: coordinator_epoch
  sn_quota_generation :: quota_generation
  sn_policy_generation :: policy_generation
  sn_sequence :: "64 word"
  sn_groups :: "tenant_group list"
  sn_tenants :: "tenant list"
  sn_quotas :: "resource_quota list"
  sn_envelopes :: "quota_envelope list"
  sn_reservations :: "reservation list"
  sn_allocations :: "allocation list"
  sn_borrow_records :: "borrow_record list"
  sn_lending_records :: "lending_record list"
  sn_recent_events :: "quota_event list"
  sn_debts :: "(tenant_id \<times> resource_vector) list"
  sn_violations :: "string list"

definition snapshot :: "impl \<Rightarrow> int \<Rightarrow> impl \<times> quota_snapshot" where
  "snapshot im now =
     (im\<lparr>im_sequence := im_sequence im + 1\<rparr>,
      \<lparr>sn_epoch = im_epoch im, sn_quota_generation = im_quota_generation im,
       sn_policy_generation = pol_generation (im_policy im), sn_sequence = im_sequence im,
       sn_groups = map snd (im_groups im), sn_tenants = map snd (im_tenants im),
       sn_quotas = map snd (im_local_quota im) @ map snd (im_group_quota im),
       sn_envelopes = map (\<lambda>(tid, tn). compute_envelope im now tid) (im_tenants im),
       sn_reservations = map snd (im_reservations im), sn_allocations = map snd (im_allocations im),
       sn_borrow_records = map snd (im_borrows im), sn_lending_records = map snd (im_lends im),
       sn_recent_events = im_events im,
       sn_debts = map (\<lambda>(tid, u). (tid, us_debt u)) (filter (\<lambda>(tid, u). \<not> rv_is_empty (us_debt u)) (im_usage im)),
       sn_violations = im_violations_log im\<rparr>)"

text \<open>What a successful \<open>save_to\<close> changes in the engine: the path and the event log.\<close>

definition persisted :: "impl \<Rightarrow> int \<Rightarrow> string \<Rightarrow> impl" where
  "persisted im now path = emit_event now ET_RECOVERY null_id ''state persisted'' (im\<lparr>im_persist_path := path\<rparr>)"

definition reservations_for :: "impl \<Rightarrow> tenant_id \<Rightarrow> reservation list" where
  "reservations_for im t = map snd (filter (\<lambda>(rid, r). res_tenant r = t) (im_reservations im))"

definition borrows_for :: "impl \<Rightarrow> tenant_id \<Rightarrow> borrow_record list" where
  "borrows_for im t = map snd (filter (\<lambda>(bid, b). br_borrower b = t \<or> br_lender b = t) (im_borrows im))"

definition lends_for :: "impl \<Rightarrow> tenant_id \<Rightarrow> lending_record list" where
  "lends_for im t = map snd (filter (\<lambda>(lid, l). ln_lender l = t) (im_lends im))"

definition reservation_exists :: "impl \<Rightarrow> reservation_id \<Rightarrow> bool" where
  "reservation_exists im r \<longleftrightarrow> contains_key (im_reservations im) r"

definition reservation_count :: "impl \<Rightarrow> nat" where
  "reservation_count im = length (im_reservations im)"

end
