(* ===== verification/QF_Invariants.thy ===== *)
theory QF_Invariants
  imports QF_Observe
begin

text \<open>
  The well-formedness invariant of the engine state and that every operation preserves it,
  on success and on every error path: vectors hold amounts in range, keys are distinct, the
  hierarchy has no cycle, the event log is bounded.
\<close>

section \<open>The invariant\<close>

definition keys_ok :: "impl \<Rightarrow> bool" where
  "keys_ok im \<longleftrightarrow>
     distinct_keys (im_groups im) \<and> distinct_keys (im_tenants im) \<and> distinct_keys (im_local_quota im) \<and>
     distinct_keys (im_group_quota im) \<and> distinct_keys (im_usage im) \<and> distinct_keys (im_reservations im) \<and>
     distinct_keys (im_funding im) \<and> distinct_keys (im_allocations im) \<and> distinct_keys (im_borrows im) \<and>
     distinct_keys (im_lends im)"

definition no_cooldown :: "impl \<Rightarrow> bool" where
  "no_cooldown im \<longleftrightarrow> (\<forall>(t, u) \<in> set (im_usage im). us_cooldown_until u = 0)"

definition wf_state :: "impl \<Rightarrow> bool" where
  "wf_state im \<longleftrightarrow>
     quotas_ok im \<and> usages_ok im \<and> records_ok im \<and> keys_ok im \<and> hier_ok (im_groups im) \<and>
     events_bounded im \<and> no_cooldown im"

lemma wf_initial: "wf_state (impl_initial settings ids oob)"
  by (simp add: wf_state_def impl_initial_def quotas_ok_def usages_ok_def records_ok_def keys_ok_def
      events_bounded_def no_cooldown_def)

lemma wf_stateD:
  assumes "wf_state im"
  shows "quotas_ok im" "usages_ok im" "records_ok im" "keys_ok im" "hier_ok (im_groups im)" "no_cooldown im"
  using assms by (simp_all add: wf_state_def)

lemma no_cooldownD: "no_cooldown im \<Longrightarrow> us_cooldown_until (usage_of im t) = 0"
  by (auto simp: no_cooldown_def usage_of_def split: option.splits dest!: map_of_SomeD)

section \<open>The building blocks\<close>

lemma wf_emit_event: "wf_state im \<Longrightarrow> wf_state (emit_event now et t det im)"
  by (simp add: wf_state_def keys_ok_def no_cooldown_def)

lemma wf_usage_mut:
  assumes "wf_state im" "usage_ok (f (usage_of im t))" "us_cooldown_until (f (usage_of im t)) = 0"
  shows "wf_state (usage_mut t f im)"
proof -
  have "no_cooldown (usage_mut t f im)"
    using assms(1,3) values_update_all [of "im_usage im" "\<lambda>k u. us_cooldown_until u = 0" t "f (usage_of im t)"]
    by (simp add: wf_state_def no_cooldown_def usage_mut_def)
  moreover have "usages_ok (usage_mut t f im)"
    using assms(1,2) by (intro usages_ok_mut) (simp_all add: wf_state_def)
  moreover have "keys_ok (usage_mut t f im)"
    using assms(1) by (simp add: wf_state_def keys_ok_def usage_mut_def)
  ultimately show ?thesis
    using assms(1) by (simp add: wf_state_def events_bounded_def quotas_ok_def)
qed

lemma wf_usage_touch: "wf_state im \<Longrightarrow> wf_state (usage_mut t (\<lambda>u. u) im)"
  by (rule wf_usage_mut) (simp_all add: usage_ok_of wf_stateD no_cooldownD)

lemma wf_sync_usage: "wf_state im \<Longrightarrow> wf_state (sync_usage now t im)"
  unfolding sync_usage_def
  by (rule wf_usage_mut) (simp_all add: usage_ok_synced wf_stateD no_cooldownD)

text \<open>
  Changes of one record map. An update keeps the invariant when the new map does: these
  rules reduce a state update to the map it replaces.
\<close>

lemma wf_reservations:
  "wf_state im \<Longrightarrow> distinct_keys m \<Longrightarrow> \<forall>(k, r) \<in> set m. rv_ok (res_resources r) \<Longrightarrow>
   wf_state (im\<lparr>im_reservations := m\<rparr>)"
  by (simp add: wf_state_def keys_ok_def records_ok_def quotas_ok_def usages_ok_def events_bounded_def no_cooldown_def)

lemma wf_allocations:
  "wf_state im \<Longrightarrow> distinct_keys m \<Longrightarrow> \<forall>(k, a) \<in> set m. rv_ok (al_resources a) \<and> rv_ok (al_used a) \<Longrightarrow>
   wf_state (im\<lparr>im_allocations := m\<rparr>)"
  by (simp add: wf_state_def keys_ok_def records_ok_def quotas_ok_def usages_ok_def events_bounded_def no_cooldown_def)

lemma wf_borrows:
  "wf_state im \<Longrightarrow> distinct_keys m \<Longrightarrow>
   \<forall>(k, b) \<in> set m. rv_ok (br_amount b) \<and> rv_ok (br_consumed b) \<and> rv_ok (br_debt b) \<Longrightarrow>
   wf_state (im\<lparr>im_borrows := m\<rparr>)"
  by (simp add: wf_state_def keys_ok_def records_ok_def quotas_ok_def usages_ok_def events_bounded_def no_cooldown_def)

lemma wf_lends:
  "wf_state im \<Longrightarrow> distinct_keys m \<Longrightarrow>
   \<forall>(k, l) \<in> set m. rv_ok (ln_amount l) \<and> rv_ok (ln_outstanding l) \<Longrightarrow>
   wf_state (im\<lparr>im_lends := m\<rparr>)"
  by (simp add: wf_state_def keys_ok_def records_ok_def quotas_ok_def usages_ok_def events_bounded_def no_cooldown_def)

lemma wf_funding:
  "wf_state im \<Longrightarrow> distinct_keys m \<Longrightarrow> \<forall>(k, f) \<in> set m. rv_ok (fu_burst f) \<Longrightarrow>
   wf_state (im\<lparr>im_funding := m\<rparr>)"
  by (simp add: wf_state_def keys_ok_def records_ok_def quotas_ok_def usages_ok_def events_bounded_def no_cooldown_def)

lemma wf_ids: "wf_state im \<Longrightarrow> wf_state (im\<lparr>im_ids := g\<rparr>)"
  by (simp add: wf_state_def keys_ok_def records_ok_def quotas_ok_def usages_ok_def events_bounded_def no_cooldown_def)

lemma wf_generations:
  "wf_state im \<Longrightarrow> wf_state (im\<lparr>im_epoch := e\<rparr>)"
  "wf_state im \<Longrightarrow> wf_state (im\<lparr>im_quota_generation := g\<rparr>)"
  "wf_state im \<Longrightarrow> wf_state (im\<lparr>im_policy := p\<rparr>)"
  "wf_state im \<Longrightarrow> wf_state (im\<lparr>im_sequence := n\<rparr>)"
  by (simp_all add: wf_state_def keys_ok_def records_ok_def quotas_ok_def usages_ok_def events_bounded_def no_cooldown_def)

lemma wf_quotas:
  "wf_state im \<Longrightarrow> distinct_keys m \<Longrightarrow> \<forall>(k, q) \<in> set m. quota_ok q \<Longrightarrow> wf_state (im\<lparr>im_local_quota := m\<rparr>)"
  "wf_state im \<Longrightarrow> distinct_keys m' \<Longrightarrow> \<forall>(k, q) \<in> set m'. quota_ok q \<Longrightarrow> wf_state (im\<lparr>im_group_quota := m'\<rparr>)"
  by (simp_all add: wf_state_def keys_ok_def records_ok_def quotas_ok_def usages_ok_def events_bounded_def no_cooldown_def)

lemma wf_tenants: "wf_state im \<Longrightarrow> distinct_keys m \<Longrightarrow> wf_state (im\<lparr>im_tenants := m\<rparr>)"
  by (simp add: wf_state_def keys_ok_def records_ok_def quotas_ok_def usages_ok_def events_bounded_def no_cooldown_def)

lemma wf_groups: "wf_state im \<Longrightarrow> distinct_keys m \<Longrightarrow> hier_ok m \<Longrightarrow> wf_state (im\<lparr>im_groups := m\<rparr>)"
  by (simp add: wf_state_def keys_ok_def records_ok_def quotas_ok_def usages_ok_def events_bounded_def no_cooldown_def)

lemma wf_keys:
  assumes "wf_state im"
  shows "distinct_keys (im_groups im)" "distinct_keys (im_tenants im)" "distinct_keys (im_local_quota im)"
    "distinct_keys (im_group_quota im)" "distinct_keys (im_usage im)" "distinct_keys (im_reservations im)"
    "distinct_keys (im_funding im)" "distinct_keys (im_allocations im)" "distinct_keys (im_borrows im)"
    "distinct_keys (im_lends im)"
  using assms by (simp_all add: wf_state_def keys_ok_def)

lemma wf_recordsD:
  assumes "wf_state im"
  shows "\<forall>(k, r) \<in> set (im_reservations im). rv_ok (res_resources r)"
    "\<forall>(k, a) \<in> set (im_allocations im). rv_ok (al_resources a) \<and> rv_ok (al_used a)"
    "\<forall>(k, b) \<in> set (im_borrows im). rv_ok (br_amount b) \<and> rv_ok (br_consumed b) \<and> rv_ok (br_debt b)"
    "\<forall>(k, l) \<in> set (im_lends im). rv_ok (ln_amount l) \<and> rv_ok (ln_outstanding l)"
    "\<forall>(k, f) \<in> set (im_funding im). rv_ok (fu_burst f)"
    "\<forall>(k, q) \<in> set (im_local_quota im). quota_ok q"
    "\<forall>(k, q) \<in> set (im_group_quota im). quota_ok q"
  using assms by (simp_all add: wf_state_def records_ok_def quotas_ok_def)

lemma wf_lookup:
  assumes "wf_state im"
  shows "map_of (im_reservations im) k = Some r \<Longrightarrow> rv_ok (res_resources r)"
    and "map_of (im_allocations im) k' = Some a \<Longrightarrow> rv_ok (al_resources a) \<and> rv_ok (al_used a)"
    and "map_of (im_borrows im) bk = Some b \<Longrightarrow> rv_ok (br_amount b) \<and> rv_ok (br_consumed b) \<and> rv_ok (br_debt b)"
    and "map_of (im_lends im) lk = Some l \<Longrightarrow> rv_ok (ln_amount l) \<and> rv_ok (ln_outstanding l)"
    and "map_of (im_funding im) k'' = Some f \<Longrightarrow> rv_ok (fu_burst f)"
  using wf_recordsD [OF assms] by (auto dest!: map_of_SomeD)

section \<open>Borrowing\<close>

lemma wf_draw_from:
  assumes wf: "wf_state im" and ok: "rv_ok amount"
  shows "wf_state (fst (draw_from im now lender borrower amount reservation))"
proof -
  obtain lid :: lending_id and glend where l: "make_id (ig_lending (im_ids im)) = (lid, glend)"
    by (cases "make_id (ig_lending (im_ids im)) :: lending_id \<times> id_gen")
  obtain bid :: borrow_id and gborr where b: "make_id (ig_borrow (im_ids im)) = (bid, gborr)"
    by (cases "make_id (ig_borrow (im_ids im)) :: borrow_id \<times> id_gen")
  let ?l = "new_lending im now lid lender borrower amount"
  let ?b = "new_borrow im now bid lid lender borrower amount reservation"
  define im1 where "im1 = im\<lparr>im_ids := (im_ids im)\<lparr>ig_lending := glend, ig_borrow := gborr\<rparr>,
      im_lends := emplace lid ?l (im_lends im), im_borrows := emplace bid ?b (im_borrows im)\<rparr>"
  have wf1: "wf_state im1"
    unfolding im1_def using wf_recordsD [OF wf] ok
    by (intro wf_borrows wf_lends wf_ids wf distinct_keys_emplace wf_keys values_emplace_all)
       (simp_all add: new_lending_def new_borrow_def)
  define im2 where "im2 = usage_mut lender (\<lambda>u. u\<lparr>us_lent := rv_acc (us_lent u) amount\<rparr>) im1"
  have wf2: "wf_state im2"
    unfolding im2_def using usage_ok_of [OF wf_stateD(2) [OF wf1], of lender] ok
    by (intro wf_usage_mut wf1) (simp_all add: usage_ok_def rv_ok_acc no_cooldownD wf_stateD [OF wf1])
  define im3 where "im3 = usage_mut borrower (\<lambda>u. u\<lparr>us_borrowed_consumed := rv_acc (us_borrowed_consumed u) amount\<rparr>) im2"
  have wf3: "wf_state im3"
    unfolding im3_def using usage_ok_of [OF wf_stateD(2) [OF wf2], of borrower] ok
    by (intro wf_usage_mut wf2) (simp_all add: usage_ok_def rv_ok_acc no_cooldownD wf_stateD [OF wf2])
  define im4 where "im4 = usage_mut borrower (\<lambda>u. u\<lparr>us_debt := rv_acc (us_debt u) amount\<rparr>) im3"
  have wf4: "wf_state im4"
    unfolding im4_def using usage_ok_of [OF wf_stateD(2) [OF wf3], of borrower] ok
    by (intro wf_usage_mut wf3) (simp_all add: usage_ok_def rv_ok_acc no_cooldownD wf_stateD [OF wf3])
  have "fst (draw_from im now lender borrower amount reservation) =
      emit_event now ET_LEND lender (''lent '' @ rv_to_string amount @ '' to borrower'')
        (emit_event now ET_BORROW borrower (''borrowed '' @ rv_to_string amount @ '' from lender'') im4)"
    by (simp add: draw_from_def l b im1_def im2_def im3_def im4_def Let_def)
  then show ?thesis using wf4 by (simp add: wf_emit_event)
qed

lemma wf_borrow_impl:
  "wf_state im \<Longrightarrow> rv_ok amount \<Longrightarrow> wf_state (fst (borrow_impl im now borrower amount auth reservation))"
  using wf_draw_from [of im amount now _ borrower reservation]
  by (simp add: borrow_impl_def case_prod_beta split: option.splits)

lemma wf_return_to_lender:
  assumes wf: "wf_state im" and ok: "rv_ok ret"
  shows "wf_state (return_to_lender lid ret im)"
proof (cases "map_of (im_lends im) lid")
  case (Some l)
  let ?l = "l\<lparr>ln_outstanding := rv_sub_sat (ln_outstanding l) ret\<rparr>"
  define im1 where "im1 = im\<lparr>im_lends := AList.update lid ?l (im_lends im)\<rparr>"
  have l: "rv_ok (ln_amount l)" "rv_ok (ln_outstanding l)" using wf_lookup(4) [OF wf Some] by auto
  have wf1: "wf_state im1"
    unfolding im1_def using wf_recordsD [OF wf] ok l
    by (intro wf_lends wf distinct_keys_update wf_keys values_update_all) (simp_all add: rv_ok_sub_sat)
  have "wf_state (usage_mut (ln_lender l) (\<lambda>u. u\<lparr>us_lent := rv_sub_sat (us_lent u) (ln_amount l)\<rparr>) im1)"
    using usage_ok_of [OF wf_stateD(2) [OF wf1], of "ln_lender l"] l
    by (intro wf_usage_mut wf1) (simp_all add: usage_ok_def rv_ok_sub_sat no_cooldownD wf_stateD [OF wf1])
  with wf1 show ?thesis by (simp add: return_to_lender_def Some im1_def Let_def)
qed (simp add: return_to_lender_def wf)

lemma wf_return_borrow:
  assumes wf: "wf_state im" and ok: "rv_ok amount"
  shows "wf_state (fst (return_borrow im now bid amount))"
proof (cases "map_of (im_borrows im) bid")
  case (Some b)
  have b: "rv_ok (br_amount b)" "rv_ok (br_consumed b)" "rv_ok (br_debt b)"
    using wf_lookup(3) [OF wf Some] by auto
  define ret where "ret = rv_min amount (br_consumed b)"
  have ret: "rv_ok ret" by (simp add: ret_def rv_ok_min ok b)
  let ?b = "b\<lparr>br_consumed := rv_sub_sat (br_consumed b) ret, br_recalled := True\<rparr>"
  define im1 where "im1 = im\<lparr>im_borrows := AList.update bid ?b (im_borrows im)\<rparr>"
  have wf1: "wf_state im1"
    unfolding im1_def using wf_recordsD [OF wf] b ret
    by (intro wf_borrows wf distinct_keys_update wf_keys values_update_all) (simp_all add: rv_ok_sub_sat)
  define im2 where "im2 = usage_mut (br_borrower b)
      (\<lambda>u. u\<lparr>us_borrowed_consumed := rv_sub_sat (us_borrowed_consumed u) ret\<rparr>) im1"
  have wf2: "wf_state im2"
    unfolding im2_def using usage_ok_of [OF wf_stateD(2) [OF wf1], of "br_borrower b"] ret
    by (intro wf_usage_mut wf1) (simp_all add: usage_ok_def rv_ok_sub_sat no_cooldownD wf_stateD [OF wf1])
  define im3 where "im3 = usage_mut (br_borrower b) (\<lambda>u. u\<lparr>us_debt := rv_sub_sat (us_debt u) ret\<rparr>) im2"
  have wf3: "wf_state im3"
    unfolding im3_def using usage_ok_of [OF wf_stateD(2) [OF wf2], of "br_borrower b"] ret
    by (intro wf_usage_mut wf2) (simp_all add: usage_ok_def rv_ok_sub_sat no_cooldownD wf_stateD [OF wf2])
  have "wf_state (emit_event now ET_RECALL (br_borrower b) ''borrow returned''
      (return_to_lender (br_lending b) ret im3))"
    by (intro wf_emit_event wf_return_to_lender wf3 ret)
  with wf show ?thesis by (simp add: return_borrow_def Some ret_def im1_def im2_def im3_def Let_def)
qed (simp add: return_borrow_def wf)

lemma wf_return_indexed: "wf_state im \<Longrightarrow> wf_state (return_indexed now bid im)"
proof -
  assume wf: "wf_state im"
  define im1 where "im1 = im\<lparr>im_borrows := emplace bid borrow_record_default (im_borrows im)\<rparr>"
  have wf1: "wf_state im1"
    unfolding im1_def using wf_recordsD [OF wf]
    by (intro wf_borrows wf distinct_keys_emplace wf_keys values_emplace_all) (simp_all add: borrow_record_default_def)
  have "wf_state (fst (return_borrow im1 now bid (br_consumed b)))" if "map_of (im_borrows im1) bid = Some b" for b
    using wf_lookup(3) [OF wf1 that] by (intro wf_return_borrow wf1) simp
  with wf1 show ?thesis
    unfolding return_indexed_def Let_def im1_def [symmetric] by (simp split: option.split)
qed

lemma wf_return_all: "wf_state im \<Longrightarrow> wf_state (return_all now ids im)"
  unfolding return_all_def by (induction ids arbitrary: im) (simp_all add: wf_return_indexed)

lemma wf_borrow: "wf_state im \<Longrightarrow> rv_ok amount \<Longrightarrow> wf_state (fst (borrow im now borrower amount auth))"
  using wf_borrow_impl [of im amount now borrower auth None]
  by (auto simp: borrow_def wf_sync_usage split: prod.splits sum.splits)

lemma wf_lend: "wf_state im \<Longrightarrow> rv_ok amount \<Longrightarrow> wf_state (fst (lend im now lender borrower amount auth))"
  using wf_borrow_impl [of im amount now borrower auth None]
  by (auto simp: lend_def wf_sync_usage Let_def split: prod.splits sum.splits option.splits)

lemma wf_recall_borrow: "wf_state im \<Longrightarrow> wf_state (fst (recall_borrow im now bid auth))"
  using wf_return_borrow [of im _ now bid] wf_lookup(3) [of im bid]
  by (fastforce simp: recall_borrow_def wf_sync_usage wf_emit_event split: prod.splits option.splits)

section \<open>Configuration\<close>

lemma wf_set_policy: "wf_state im \<Longrightarrow> wf_state (fst (set_policy im now p))"
  by (simp add: set_policy_def wf_emit_event wf_generations split: option.split)

lemma wf_advance_epoch: "wf_state im \<Longrightarrow> wf_state (fst (advance_epoch im now))"
  by (simp add: advance_epoch_def wf_emit_event wf_generations)

text \<open>The id a new group gets is not the parent of a group and not its own parent.\<close>

definition next_group_id :: "impl \<Rightarrow> tenant_group_id" where
  "next_group_id im = fst (make_id (ig_group (im_ids im)))"

definition fresh_group :: "impl \<Rightarrow> tenant_group_id option \<Rightarrow> bool" where
  "fresh_group im parent \<longleftrightarrow>
     list_all (\<lambda>(h, H). grp_parent H \<noteq> Some (next_group_id im)) (im_groups im) \<and>
     parent \<noteq> Some (next_group_id im)"

lemma wf_new_group:
  assumes wf: "wf_state im" and fresh: "fresh_group im parent"
  shows "wf_state (fst (new_group im name kind parent))"
proof -
  obtain gid :: tenant_group_id and gen where g: "make_id (ig_group (im_ids im)) = (gid, gen)"
    by (cases "make_id (ig_group (im_ids im)) :: tenant_group_id \<times> id_gen")
  have fr: "\<forall>(h, H) \<in> set (im_groups im). grp_parent H \<noteq> Some gid" "parent \<noteq> Some gid"
    using fresh g by (auto simp: fresh_group_def next_group_id_def list_all_iff)
  show ?thesis
    unfolding new_group_def g Let_def using fr
    by simp (intro wf_groups wf_ids wf distinct_keys_emplace hier_ok_emplace wf_keys wf_stateD; simp)
qed

lemma wf_create_group: "wf_state im \<Longrightarrow> fresh_group im parent \<Longrightarrow> wf_state (fst (create_group im now name kind parent))"
  by (simp add: create_group_def wf_emit_event wf_new_group)

lemma wf_create_tenant: "wf_state im \<Longrightarrow> wf_state (fst (create_tenant im now i name grp prio))"
  by (simp add: create_tenant_def wf_emit_event wf_tenants wf_keys)

lemma wf_create_tenant_auto: "wf_state im \<Longrightarrow> wf_state (fst (create_tenant_auto im now name grp prio))"
  by (simp add: create_tenant_auto_def case_prod_beta Let_def wf_create_tenant wf_ids)

lemma wf_set_tenant_quota:
  assumes "wf_state im" "quota_ok q"
  shows "wf_state (fst (set_tenant_quota im now t q))"
proof -
  have "wf_state (im\<lparr>im_local_quota := AList.update t (q\<lparr>q_tenant := t, q_generation := im_quota_generation im,
      q_policy_generation := pol_generation (im_policy im)\<rparr>) (im_local_quota im)\<rparr>)"
    using assms wf_recordsD [OF assms(1)]
    by (intro wf_quotas distinct_keys_update wf_keys values_update_all) (simp_all add: quota_ok_def)
  with assms(1) show ?thesis
    by (simp add: set_tenant_quota_def wf_emit_event wf_generations)
qed

lemma wf_set_group_quota:
  assumes "wf_state im" "quota_ok q"
  shows "wf_state (fst (set_group_quota im now g q))"
proof -
  have "wf_state (im\<lparr>im_group_quota := AList.update g (q\<lparr>q_tenant := null_id, q_generation := im_quota_generation im,
      q_policy_generation := pol_generation (im_policy im)\<rparr>) (im_group_quota im)\<rparr>)"
    using assms wf_recordsD [OF assms(1)]
    by (intro wf_quotas distinct_keys_update wf_keys values_update_all) (simp_all add: quota_ok_def)
  with assms(1) show ?thesis
    by (simp add: set_group_quota_def wf_emit_event wf_generations)
qed

section \<open>Reservations and allocations\<close>

lemma sub64_le: "sub64 a b \<le> INT64_MAX"
  by (simp add: sub64_def s64_range)

lemma borrow_part_bounds: "0 \<le> borrow_part base nc hard" "borrow_part base nc hard \<le> INT64_MAX"
  by (simp_all add: borrow_part_def Let_def sub64_le)

lemma burst_part_bounds: "0 \<le> burst_part base nc soft hard" "burst_part base nc soft hard \<le> INT64_MAX"
  by (simp_all add: burst_part_def Let_def sub64_le)

lemma wf_reserve_loop:
  "wf_state im \<Longrightarrow> rv_ok burst \<Longrightarrow>
   wf_state (fst (reserve_loop now t req auth eff cb ds im burst ids)) \<and>
   (case snd (reserve_loop now t req auth eff cb ds im burst ids) of Inl st \<Rightarrow> True | Inr (b, l) \<Rightarrow> rv_ok b)"
proof (induction ds arbitrary: im burst ids)
  case (Cons d ds)
  show ?case
  proof (cases "\<not> rv_present req d \<or> is_consumable d")
    case True
    then show ?thesis using Cons by simp
  next
    case False
    let ?nc = "sat_add (rv_get cb d) (rv_get req d)"
    let ?bp = "burst_part (rv_get cb d) ?nc (soft_at eff d) (hard_at eff d)"
    let ?burst = "if ?bp > 0 then rv_put burst d ?bp else burst"
    let ?borr = "borrow_part (rv_get cb d) ?nc (hard_at eff d)"
    have burst: "rv_ok ?burst" using Cons.prems(2) by (simp add: rv_ok_put burst_part_bounds)
    have imp: "wf_state (fst (borrow_impl im now t (rv_from_scalar d ?borr) auth None))"
      by (intro wf_borrow_impl Cons.prems rv_ok_from_scalar borrow_part_bounds)
    show ?thesis
    proof (cases "borrow_impl im now t (rv_from_scalar d ?borr) auth None")
      case (Pair im1 r)
      have wf1: "wf_state im1" using imp Pair by simp
      show ?thesis
        using False Cons.IH [OF Cons.prems(1) burst] Cons.IH [OF wf1 burst] Pair wf_return_all [OF wf1]
        by (cases r) (simp_all add: Let_def)
    qed
  qed
qed simp

lemma wf_activate_burst: "wf_state im \<Longrightarrow> wf_state (activate_burst now t eff burst im)"
  using usage_ok_of [of im t]
  by (auto simp: activate_burst_def wf_stateD usage_ok_def intro!: wf_usage_mut)

lemma wf_record_reservation:
  assumes wf: "wf_state im" and ok: "rv_ok req" "rv_ok burst"
  shows "wf_state (fst (record_reservation now t req auth burst ids im))"
proof -
  obtain rid :: reservation_id and gen where r: "make_id (ig_reservation (im_ids im)) = (rid, gen)"
    by (cases "make_id (ig_reservation (im_ids im)) :: reservation_id \<times> id_gen")
  have "wf_state (im\<lparr>im_ids := (im_ids im)\<lparr>ig_reservation := gen\<rparr>,
      im_funding := AList.update rid \<lparr>fu_burst = burst, fu_borrows = ids\<rparr> (im_funding im),
      im_reservations := emplace rid (new_reservation im now rid t req auth) (im_reservations im)\<rparr>)"
    using wf_recordsD [OF wf] ok
    by (intro wf_reservations wf_funding wf_ids wf distinct_keys_emplace distinct_keys_update wf_keys
        values_emplace_all values_update_all) (simp_all add: new_reservation_def)
  then show ?thesis
    by (simp add: record_reservation_def r Let_def wf_emit_event wf_sync_usage)
qed

lemma wf_reserve:
  assumes wf: "wf_state im" and ok: "rv_ok req"
  shows "wf_state (fst (reserve im now t req auth))"
proof -
  let ?eff = "effective_lattice im t" and ?im1 = "usage_mut t (\<lambda>u. u) im"
  let ?loop = "reserve_loop now t req auth ?eff (committed_of (usage_of ?im1 t)) all_resource_dimensions ?im1 rv_empty []"
  have loop: "wf_state (fst ?loop)" "case snd ?loop of Inl st \<Rightarrow> True | Inr (b, l) \<Rightarrow> rv_ok b"
    using wf_reserve_loop [OF wf_usage_touch [OF wf] rv_ok_empty] by blast+
  obtain im2 r where l: "?loop = (im2, r)" by (cases ?loop)
  have "wf_state (fst (record_reservation now t req auth burst ids (activate_burst now t ?eff burst im2)))"
    if "r = Inr (burst, ids)" for burst ids
    using loop l that by (intro wf_record_reservation wf_activate_burst ok) auto
  then show ?thesis
    using wf loop(1) l by (cases r) (auto simp: reserve_def Let_def case_prod_beta)
qed

lemma wf_commit_reservation: "wf_state im \<Longrightarrow> wf_state (fst (commit_reservation im now rid auth))"
proof -
  assume wf: "wf_state im"
  have "wf_state (im\<lparr>im_reservations := AList.update rid (r\<lparr>res_status := s, res_quota_generation := g\<rparr>) (im_reservations im)\<rparr>)"
    if "map_of (im_reservations im) rid = Some r" for r s g
    using wf_recordsD [OF wf] wf_lookup(1) [OF wf that]
    by (intro wf_reservations wf distinct_keys_update wf_keys values_update_all) simp_all
  with wf show ?thesis
    by (simp add: commit_reservation_def wf_emit_event wf_sync_usage Let_def split: option.splits)
qed

lemma wf_release: "wf_state im \<Longrightarrow> wf_state (fst (release im now rid auth))"
proof -
  assume wf: "wf_state im"
  have upd: "wf_state (im\<lparr>im_reservations := AList.update rid (r\<lparr>res_status := RS_RELEASED\<rparr>) (im_reservations im)\<rparr>)"
    if "map_of (im_reservations im) rid = Some r" for r
    using wf_recordsD [OF wf] wf_lookup(1) [OF wf that]
    by (intro wf_reservations wf distinct_keys_update wf_keys values_update_all) simp_all
  have fin: "wf_state (im2\<lparr>im_allocations := map (\<lambda>(aid, a). (aid, if al_reservation a = rid then a\<lparr>al_active := False\<rparr> else a))
        (im_allocations im2),
      im_reservations := AList.delete rid (im_reservations im2), im_funding := AList.delete rid (im_funding im2)\<rparr>)"
    if "wf_state im2" for im2
  proof -
    have d: "distinct_keys (map (\<lambda>(aid, a). (aid, if al_reservation a = rid then a\<lparr>al_active := False\<rparr> else a)) (im_allocations im2))"
      using wf_keys(8) [OF that] by (simp add: comp_def case_prod_beta)
    show ?thesis
      using wf_recordsD [OF that] d
      by (intro wf_funding wf_reservations wf_allocations that distinct_keys_delete wf_keys values_delete_all) auto
  qed
  show ?thesis
    using wf upd fin wf_return_all
    by (simp add: release_def Let_def wf_emit_event wf_sync_usage split: option.split)
qed

lemma wf_start_allocation:
  assumes wf: "wf_state im" and ok: "rv_ok req"
  shows "wf_state (fst (start_allocation im now rid req auth))"
proof -
  have "wf_state (im\<lparr>im_ids := g, im_allocations := emplace aid (new_allocation im now aid rid r req auth) (im_allocations im),
      im_reservations := AList.update rid (r\<lparr>res_status := RS_CONSUMED\<rparr>) (im_reservations im)\<rparr>)"
    if "map_of (im_reservations im) rid = Some r" for r g aid
    using wf_recordsD [OF wf] wf_lookup(1) [OF wf that] ok
    by (intro wf_reservations wf_allocations wf_ids wf distinct_keys_emplace distinct_keys_update wf_keys
        values_emplace_all values_update_all) (simp_all add: new_allocation_def)
  with wf show ?thesis
    by (simp add: start_allocation_def Let_def case_prod_beta wf_emit_event wf_sync_usage split: option.split)
qed

lemma wf_alloc_update:
  "wf_state im \<Longrightarrow> rv_ok (al_resources a) \<Longrightarrow> rv_ok (al_used a) \<Longrightarrow>
   wf_state (im\<lparr>im_allocations := AList.update aid a (im_allocations im)\<rparr>)"
  using wf_recordsD [of im]
  by (intro wf_allocations distinct_keys_update wf_keys values_update_all) simp_all

lemma wf_resize_allocation:
  assumes wf: "wf_state im" and ok: "rv_ok delta"
  shows "wf_state (fst (resize_allocation im now aid delta auth))"
proof -
  have "wf_state (im\<lparr>im_allocations := AList.update aid (a\<lparr>al_used := rv_min (snd (rv_add (al_used a) delta True)) (al_resources a)\<rparr>)
      (im_allocations im)\<rparr>)" if "map_of (im_allocations im) aid = Some a" for a
    using wf_lookup(2) [OF wf that] ok
    by (intro wf_alloc_update wf) (simp_all add: rv_ok_min rv_add_def rv_ok_add_loop)
  with wf show ?thesis
    by (simp add: resize_allocation_def Let_def wf_emit_event wf_sync_usage split: option.split)
qed

lemma wf_release_allocation: "wf_state im \<Longrightarrow> wf_state (fst (release_allocation im now aid auth))"
  using wf_lookup(2) [of im aid]
  by (auto simp: release_allocation_def Let_def wf_emit_event wf_sync_usage wf_alloc_update split: option.split)

section \<open>Observations\<close>

lemma add64_le: "add64 a b \<le> INT64_MAX"
  by (simp add: add64_def s64_range)

lemma wf_consumption_set:
  "wf_state im \<Longrightarrow> x \<le> INT64_MAX \<Longrightarrow> wf_state (usage_mut t (consumption_set d x) im)"
  using usage_ok_of [of im t]
  by (intro wf_usage_mut) (simp_all add: consumption_set_def usage_ok_def rv_ok_put wf_stateD no_cooldownD)

lemma wf_window_add: "wf_state im \<Longrightarrow> wf_state (usage_mut t (window_add d now amount) im)"
  using usage_ok_of [of im t]
  by (intro wf_usage_mut) (simp_all add: window_add_def Let_def usage_ok_def wf_stateD no_cooldownD)

lemma wf_observe_kind:
  assumes wf: "wf_state im" and r: "observe_kind im now obs = Inr im'"
  shows "wf_state im'"
proof -
  have al: "wf_state (im\<lparr>im_allocations := AList.update k (a\<lparr>al_used := rv_put (al_used a) d (add64 x y)\<rparr>) (im_allocations im)\<rparr>)"
    if "map_of (im_allocations im) k = Some a" for k a d x y
    using wf_lookup(2) [OF wf that] by (intro wf_alloc_update wf) (simp_all add: rv_ok_put add64_le)
  show ?thesis
    using r wf unfolding observe_kind_def Let_def
    by (cases "ob_kind obs")
       (auto simp: wf_consumption_set wf_window_add add64_le sub64_le al split: if_splits option.splits)
qed

lemma wf_apply_observation: "wf_state im \<Longrightarrow> wf_state (fst (apply_observation im now obs))"
  using wf_observe_kind [OF wf_usage_touch [of im "ob_tenant obs"]]
  by (auto simp: apply_observation_def Let_def wf_usage_touch wf_emit_event split: sum.splits)

lemma wf_snapshot: "wf_state im \<Longrightarrow> wf_state (fst (snapshot im now))"
  by (simp add: snapshot_def wf_generations)

lemma wf_persisted: "wf_state im \<Longrightarrow> wf_state (persisted im now path)"
  unfolding persisted_def
  by (rule wf_emit_event)
     (simp add: wf_state_def keys_ok_def records_ok_def quotas_ok_def usages_ok_def events_bounded_def no_cooldown_def)

end
