(* ===== verification/QF_Machine.thy ===== *)
theory QF_Machine
  imports QF_Invariants
begin

text \<open>
  The engine as a state machine: every public operation that changes state, except
  \<open>load_from\<close>, is an \<open>engine_op\<close> (\<open>Op_persisted\<close> is what a \<open>save_to\<close> that succeeds leaves in the engine;
  \<open>QF_Restart\<close> adds loading), \<open>apply_op\<close> runs it, and \<open>reachable\<close> is the set of states a sequence of operations leads
  to from a freshly constructed engine. The master lock of the sources makes each operation
  one atomic step, so a concurrent run is one of these sequences. The lemmas are the
  invariants of all reachable states, by rule induction.
\<close>

section \<open>Operations as data\<close>

datatype engine_op =
    Op_set_policy quota_policy
  | Op_advance_epoch
  | Op_create_group string tenant_group_kind "tenant_group_id option"
  | Op_create_group_autoid string tenant_group_kind "tenant_group_id option"
  | Op_create_tenant tenant_id string "tenant_group_id option" "32 word"
  | Op_create_tenant_auto string "tenant_group_id option" "32 word"
  | Op_set_tenant_quota tenant_id resource_quota
  | Op_set_group_quota tenant_group_id resource_quota
  | Op_reserve tenant_id resource_vector authority
  | Op_commit_reservation reservation_id authority
  | Op_start_allocation reservation_id resource_vector authority
  | Op_resize_allocation allocation_id resource_vector authority
  | Op_release reservation_id authority
  | Op_release_allocation allocation_id authority
  | Op_borrow tenant_id resource_vector authority
  | Op_lend tenant_id tenant_id resource_vector authority
  | Op_recall_borrow borrow_id authority
  | Op_apply_observation observation
  | Op_snapshot
  | Op_persisted string

fun apply_op :: "int \<Rightarrow> engine_op \<Rightarrow> impl \<Rightarrow> impl" where
  "apply_op now (Op_set_policy p) im = fst (set_policy im now p)"
| "apply_op now Op_advance_epoch im = fst (advance_epoch im now)"
| "apply_op now (Op_create_group n k p) im = fst (create_group im now n k p)"
| "apply_op now (Op_create_group_autoid n k p) im = fst (create_group_autoid im n k p)"
| "apply_op now (Op_create_tenant t n g p) im = fst (create_tenant im now t n g p)"
| "apply_op now (Op_create_tenant_auto n g p) im = fst (create_tenant_auto im now n g p)"
| "apply_op now (Op_set_tenant_quota t q) im = fst (set_tenant_quota im now t q)"
| "apply_op now (Op_set_group_quota g q) im = fst (set_group_quota im now g q)"
| "apply_op now (Op_reserve t req a) im = fst (reserve im now t req a)"
| "apply_op now (Op_commit_reservation r a) im = fst (commit_reservation im now r a)"
| "apply_op now (Op_start_allocation r req a) im = fst (start_allocation im now r req a)"
| "apply_op now (Op_resize_allocation i delta a) im = fst (resize_allocation im now i delta a)"
| "apply_op now (Op_release r a) im = fst (release im now r a)"
| "apply_op now (Op_release_allocation i a) im = fst (release_allocation im now i a)"
| "apply_op now (Op_borrow t amount a) im = fst (borrow im now t amount a)"
| "apply_op now (Op_lend l b amount a) im = fst (lend im now l b amount a)"
| "apply_op now (Op_recall_borrow b a) im = fst (recall_borrow im now b a)"
| "apply_op now (Op_apply_observation obs) im = fst (apply_observation im now obs)"
| "apply_op now Op_snapshot im = fst (snapshot im now)"
| "apply_op now (Op_persisted path) im = persisted im now path"

text \<open>
  What the types of the sources ensure about the arguments (vectors satisfy the class
  invariant), and for a new group that the id drawn from the generator is not yet in use
  as a parent.
\<close>

fun op_ok :: "impl \<Rightarrow> engine_op \<Rightarrow> bool" where
  "op_ok im (Op_create_group n k p) = fresh_group im p"
| "op_ok im (Op_create_group_autoid n k p) = fresh_group im p"
| "op_ok im (Op_set_tenant_quota t q) = quota_ok q"
| "op_ok im (Op_set_group_quota g q) = quota_ok q"
| "op_ok im (Op_reserve t req a) = rv_ok req"
| "op_ok im (Op_start_allocation r req a) = rv_ok req"
| "op_ok im (Op_resize_allocation i delta a) = rv_ok delta"
| "op_ok im (Op_borrow t amount a) = rv_ok amount"
| "op_ok im (Op_lend l b amount a) = rv_ok amount"
| "op_ok im _ = True"

inductive engine_step :: "impl \<Rightarrow> impl \<Rightarrow> bool" where
  engine_stepI: "op_ok im op \<Longrightarrow> engine_step im (apply_op now op im)"

inductive reachable :: "impl \<Rightarrow> bool" where
  reachable_initial: "reachable (impl_initial settings ids oob)"
| reachable_step: "reachable im \<Longrightarrow> engine_step im im' \<Longrightarrow> reachable im'"

inductive_cases engine_stepE: "engine_step im im'"
inductive_simps engine_step_iff: "engine_step im im'"

section \<open>Invariants of the reachable states\<close>

lemma wf_apply_op: "wf_state im \<Longrightarrow> op_ok im op \<Longrightarrow> wf_state (apply_op now op im)"
  by (cases op)
     (simp_all add: wf_set_policy wf_advance_epoch wf_create_group wf_new_group create_group_autoid_def
       wf_create_tenant wf_create_tenant_auto wf_set_tenant_quota wf_set_group_quota wf_reserve
       wf_commit_reservation wf_start_allocation wf_resize_allocation wf_release wf_release_allocation
       wf_borrow wf_lend wf_recall_borrow wf_apply_observation wf_snapshot wf_persisted)

lemma engine_step_wf: "engine_step im im' \<Longrightarrow> wf_state im \<Longrightarrow> wf_state im'"
  by (auto elim!: engine_stepE simp: wf_apply_op)

lemma reachable_wf_state: "reachable im \<Longrightarrow> wf_state im"
  by (induction rule: reachable.induct) (auto simp: wf_initial intro: engine_step_wf)

lemma reachable_sample: "reachable sample_engine"
  unfolding sample_engine_def by (rule reachable_initial)

lemma reachable_apply: "reachable im \<Longrightarrow> op_ok im op \<Longrightarrow> reachable (apply_op now op im)"
  by (blast intro: reachable_step engine_stepI)

text \<open>
  In every reachable state the event log holds at most max_event_retention events.
\<close>

theorem reachable_events_bounded:
  assumes "reachable im"
  shows "length (im_events im) \<le> unat (se_max_event_retention (im_settings im))"
  using reachable_wf_state [OF assms] by (simp add: wf_state_def events_bounded_def)

theorem reachable_events_bounded_witness:
  "length (im_events (apply_op 5 Op_advance_epoch sample_engine)) \<le> 4096"
proof -
  have "reachable (apply_op 5 Op_advance_epoch sample_engine)"
    by (rule reachable_apply) (simp_all add: reachable_sample)
  moreover have "unat (se_max_event_retention (im_settings (apply_op 5 Op_advance_epoch sample_engine))) = 4096"
    by (simp add: advance_epoch_def sample_engine_def impl_initial_def engine_settings_default_def)
  ultimately show ?thesis using reachable_events_bounded by metis
qed

text \<open>
  In every reachable state a tenant without an active burst may burst whenever its effective
  quota has a positive burst limit and a positive window: no operation ever sets a cooldown,
  whatever the burst rule's cooldown says.
\<close>

theorem reachable_no_cooldown:
  assumes "reachable im" "\<not> us_burst_active (usage_of im t)" "0 \<le> now"
  shows "burst_ok im now d t eff nc soft \<longleftrightarrow>
    rv_present (q_burst_limit eff) d \<and> 0 < rv_get (q_burst_limit eff) d \<and> 0 < bu_window (q_burst_rule eff)"
proof -
  have "us_cooldown_until (usage_of im t) = 0"
    by (intro no_cooldownD wf_stateD(6) reachable_wf_state assms(1))
  then show ?thesis using assms(2,3) by (auto simp: burst_ok_def Let_def)
qed

theorem reachable_no_cooldown_witness:
  "\<not> burst_ok sample_engine 7 AcceleratorVRAM null_id resource_quota_default 20 10"
proof -
  have "\<not> us_burst_active (usage_of sample_engine null_id)"
    by (simp add: usage_of_def sample_engine_def impl_initial_def)
  from reachable_no_cooldown [OF reachable_sample this, of 7] show ?thesis
    by (simp add: resource_quota_default_def)
qed

end
