(* ===== verification/QF_Fencing.thy ===== *)
theory QF_Fencing
  imports QF_Machine
begin

text \<open>
  Authority fencing. An operation that carries an \<open>Authority\<close> of an older coordinator
  epoch is rejected and leaves the state untouched; advancing the epoch or changing a quota
  therefore invalidates every authority handed out before.
\<close>

section \<open>The contract of a fenced operation\<close>

locale fenced_operation =
  fixes run :: "impl \<Rightarrow> int \<Rightarrow> authority \<Rightarrow> impl \<times> 'r"
    and rejected :: "'r \<Rightarrow> bool"
  assumes fence: "stale_epoch im auth \<Longrightarrow> fst (run im now auth) = im \<and> rejected (snd (run im now auth))"
begin

lemma fenced_after_advance:
  "au_epoch auth = im_epoch im \<Longrightarrow> im' = fst (advance_epoch im n) \<Longrightarrow>
   fst (run im' now auth) = im' \<and> rejected (snd (run im' now auth))"
  by (rule fence) (auto simp: stale_epoch_def advance_epoch_def gen_next_neq [symmetric])

end

locale generation_fenced = fenced_operation +
  assumes gen_fence: "stale_quota_gen im auth \<Longrightarrow> fst (run im now auth) = im \<and> rejected (snd (run im now auth))"
begin

lemma fenced_after_quota_change:
  "au_quota_generation auth = im_quota_generation im \<Longrightarrow> st_ok (snd (set_tenant_quota im n t q)) \<Longrightarrow>
   im' = fst (set_tenant_quota im n t q) \<Longrightarrow>
   fst (run im' now auth) = im' \<and> rejected (snd (run im' now auth))"
  by (rule gen_fence)
     (auto simp: stale_quota_gen_def set_tenant_quota_def gen_next_neq [symmetric] split: if_splits)

lemma fenced_after_group_quota_change:
  "au_quota_generation auth = im_quota_generation im \<Longrightarrow> st_ok (snd (set_group_quota im n g q)) \<Longrightarrow>
   im' = fst (set_group_quota im n g q) \<Longrightarrow>
   fst (run im' now auth) = im' \<and> rejected (snd (run im' now auth))"
  by (rule gen_fence)
     (auto simp: stale_quota_gen_def set_group_quota_def gen_next_neq [symmetric] split: if_splits)

end

definition result_rejected :: "'a quota_result \<Rightarrow> bool" where
  "result_rejected r \<longleftrightarrow> (case r of Inl st \<Rightarrow> \<not> st_ok st | Inr _ \<Rightarrow> False)"

definition status_rejected :: "quota_status \<Rightarrow> bool" where
  "status_rejected st \<longleftrightarrow> \<not> st_ok st"

lemma stale_not_valid:
  "stale_epoch im auth \<Longrightarrow> \<not> valid_authority im auth"
  "stale_quota_gen im auth \<Longrightarrow> \<not> valid_authority im auth"
  by (auto simp: stale_epoch_def stale_quota_gen_def valid_authority_def)

lemmas fence_simps = result_rejected_def status_rejected_def stale_not_valid

interpretation reserve: generation_fenced "\<lambda>im now. reserve im now t req" result_rejected for t req
  by unfold_locales (auto simp: reserve_def fence_simps)

interpretation start_allocation: generation_fenced "\<lambda>im now. start_allocation im now rid req" result_rejected for rid req
  by unfold_locales (auto simp: start_allocation_def fence_simps)

interpretation borrow: generation_fenced "\<lambda>im now. borrow im now t amount" result_rejected for t amount
  by unfold_locales (auto simp: borrow_def fence_simps)

interpretation lend: generation_fenced "\<lambda>im now. lend im now l b amount" result_rejected for l b amount
  by unfold_locales (auto simp: lend_def fence_simps)

interpretation commit_reservation: generation_fenced "\<lambda>im now. commit_reservation im now rid" status_rejected for rid
  by unfold_locales (auto simp: commit_reservation_def fence_simps)

interpretation release: fenced_operation "\<lambda>im now. release im now rid" status_rejected for rid
  by unfold_locales (auto simp: release_def fence_simps)

interpretation recall_borrow: fenced_operation "\<lambda>im now. recall_borrow im now bid" status_rejected for bid
  by unfold_locales (auto simp: recall_borrow_def fence_simps)

section \<open>Properties\<close>

text \<open>
  C10. Once the coordinator epoch has advanced, an authority issued in the epoch before is
  rejected by reserve, start_allocation, borrow, lend, commit_reservation, release and
  recall_borrow: each returns an error and leaves the whole engine state unchanged.
\<close>

theorem advance_epoch_fences:
  assumes "au_epoch auth = im_epoch im" "im' = fst (advance_epoch im n)"
  shows "(fst (reserve im' now t req auth) = im' \<and> result_rejected (snd (reserve im' now t req auth))) \<and>
    (fst (start_allocation im' now rid req auth) = im' \<and> result_rejected (snd (start_allocation im' now rid req auth))) \<and>
    (fst (borrow im' now t req auth) = im' \<and> result_rejected (snd (borrow im' now t req auth))) \<and>
    (fst (lend im' now t b req auth) = im' \<and> result_rejected (snd (lend im' now t b req auth))) \<and>
    (fst (commit_reservation im' now rid auth) = im' \<and> status_rejected (snd (commit_reservation im' now rid auth))) \<and>
    (fst (release im' now rid auth) = im' \<and> status_rejected (snd (release im' now rid auth))) \<and>
    (fst (recall_borrow im' now bid auth) = im' \<and> status_rejected (snd (recall_borrow im' now bid auth)))"
  using reserve.fenced_after_advance [OF assms] start_allocation.fenced_after_advance [OF assms]
    borrow.fenced_after_advance [OF assms] lend.fenced_after_advance [OF assms]
    commit_reservation.fenced_after_advance [OF assms] release.fenced_after_advance [OF assms]
    recall_borrow.fenced_after_advance [OF assms]
  by blast

definition sample_authority :: "impl \<Rightarrow> authority" where
  "sample_authority im =
     \<lparr>au_epoch = im_epoch im, au_agent = null_id, au_boot = null_id,
      au_quota_generation = im_quota_generation im,
      au_policy_generation = pol_generation (im_policy im), au_resource_generation = gen_zero\<rparr>"

theorem advance_epoch_fences_witness:
  "fst (release (fst (advance_epoch sample_engine 1)) 2 null_id (sample_authority sample_engine)) =
     fst (advance_epoch sample_engine 1)"
  using advance_epoch_fences [of "sample_authority sample_engine" sample_engine _ 1 2]
  by (simp add: sample_authority_def)

text \<open>
  C11. After a successful set_tenant_quota an authority that carries the quota generation
  before the change is rejected by reserve, start_allocation, borrow, lend and
  commit_reservation without any change of state.
\<close>

theorem quota_change_fences:
  assumes "au_quota_generation auth = im_quota_generation im"
    and "st_ok (snd (set_tenant_quota im n t0 q))" "im' = fst (set_tenant_quota im n t0 q)"
  shows "(fst (reserve im' now t req auth) = im' \<and> result_rejected (snd (reserve im' now t req auth))) \<and>
    (fst (start_allocation im' now rid req auth) = im' \<and> result_rejected (snd (start_allocation im' now rid req auth))) \<and>
    (fst (borrow im' now t req auth) = im' \<and> result_rejected (snd (borrow im' now t req auth))) \<and>
    (fst (lend im' now t b req auth) = im' \<and> result_rejected (snd (lend im' now t b req auth))) \<and>
    (fst (commit_reservation im' now rid auth) = im' \<and> status_rejected (snd (commit_reservation im' now rid auth)))"
  using reserve.fenced_after_quota_change [OF assms] start_allocation.fenced_after_quota_change [OF assms]
    borrow.fenced_after_quota_change [OF assms] lend.fenced_after_quota_change [OF assms]
    commit_reservation.fenced_after_quota_change [OF assms]
  by blast

theorem quota_change_fences_witness:
  "let im = fst (create_tenant sample_engine 1 null_id ''t'' None 1);
       im' = fst (set_tenant_quota im 1 null_id resource_quota_default)
   in fst (commit_reservation im' 2 null_id (sample_authority im)) = im'"
proof -
  let ?im = "fst (create_tenant sample_engine 1 null_id ''t'' None 1)"
  have "st_ok (snd (set_tenant_quota ?im 1 null_id resource_quota_default))"
    by (simp add: set_tenant_quota_def create_tenant_def tenant_exists_def contains_key_def emplace_def
        sample_engine_def impl_initial_def engine_settings_default_def)
  from quota_change_fences [OF _ this refl, of "sample_authority ?im" 2 _ _ null_id]
  show ?thesis by (simp add: sample_authority_def Let_def)
qed

end
