(* ===== verification/QF_Safety.thy ===== *)
theory QF_Safety
  imports QF_Fencing
begin

text \<open>
  What a successful reservation guarantees: the tenant stays within its hard limit unless
  capacity was borrowed, every ancestor group stays within its hard limit, the counters move
  by exactly the requested amounts, and releasing the reservation restores them.
\<close>

section \<open>The shape of a successful reservation\<close>

definition next_reservation_id :: "impl \<Rightarrow> reservation_id" where
  "next_reservation_id im = fst (make_id (ig_reservation (im_ids im)))"

text \<open>The 128-bit id drawn for a reservation is not in use.\<close>

definition fresh_reservation :: "impl \<Rightarrow> bool" where
  "fresh_reservation im \<longleftrightarrow>
     map_of (im_reservations im) (next_reservation_id im) = None \<and>
     map_of (im_funding im) (next_reservation_id im) = None \<and>
     list_all (\<lambda>(aid, a). al_reservation a \<noteq> next_reservation_id im) (im_allocations im)"

lemma reserve_success:
  assumes "reserve im now t req auth = (im', Inr res)"
  obtains im2 burst ids where
    "valid_authority im auth" "tenant_exists im t" "dec_allowed (classify im now t req)"
    "reserve_loop now t req auth (effective_lattice im t) (committed_of (usage_of im t))
       all_resource_dimensions (usage_mut t (\<lambda>u. u) im) rv_empty [] = (im2, Inr (burst, ids))"
    "record_reservation now t req auth burst ids (activate_burst now t (effective_lattice im t) burst im2) = (im', res)"
  using assms
  by (auto simp: reserve_def Let_def split: if_splits prod.splits sum.splits)

definition dim_borrow :: "resource_vector \<Rightarrow> resource_quota \<Rightarrow> resource_vector \<Rightarrow> resource_dimension \<Rightarrow> int" where
  "dim_borrow cb eff req d = borrow_part (rv_get cb d) (sat_add (rv_get cb d) (rv_get req d)) (hard_at eff d)"

lemma reserve_loop_no_borrow:
  "reserve_loop now t req auth eff cb ds im burst ids = (im2, Inr (burst2, ids2)) \<Longrightarrow>
   (\<exists>new. ids2 = ids @ new \<and>
     (new = [] \<longrightarrow> im2 = im \<and>
        (\<forall>d \<in> set ds. rv_present req d \<longrightarrow> \<not> is_consumable d \<longrightarrow> dim_borrow cb eff req d = 0)))"
proof (induction ds arbitrary: im burst ids)
  case (Cons d ds)
  show ?case
  proof (cases "rv_present req d \<and> \<not> is_consumable d \<and> dim_borrow cb eff req d > 0")
    case True
    let ?imp = "borrow_impl im now t (rv_from_scalar d (dim_borrow cb eff req d)) auth None"
    obtain im1 b where imp: "?imp = (im1, Inr b)"
      using Cons.prems True by (cases ?imp; cases "snd ?imp") (auto simp: Let_def dim_borrow_def)
    obtain burst' where
      "reserve_loop now t req auth eff cb ds im1 burst' (ids @ [br_id b]) = (im2, Inr (burst2, ids2))"
      using Cons.prems True imp by (simp add: Let_def dim_borrow_def)
    from Cons.IH [OF this] show ?thesis by auto
  next
    case False
    obtain burst' where
      loop: "reserve_loop now t req auth eff cb ds im burst' ids = (im2, Inr (burst2, ids2))"
      using Cons.prems False by (auto simp: Let_def dim_borrow_def split: if_splits)
    have "dim_borrow cb eff req d = 0" if "rv_present req d" "\<not> is_consumable d"
      using False that borrow_part_bounds(1) unfolding dim_borrow_def by (metis order_le_less)
    with Cons.IH [OF loop] show ?thesis by auto
  qed
qed simp

lemma borrow_part_zero:
  assumes "borrow_part base nc hard = 0" "0 \<le> base" "base \<le> INT64_MAX" "0 \<le> nc" "nc \<le> INT64_MAX"
    "0 \<le> hard" "hard \<le> INT64_MAX" "base \<le> hard"
  shows "nc \<le> hard"
proof -
  have 1: "sub64 base hard = base - hard" "sub64 nc hard = nc - hard"
    using assms by (auto intro!: sub64_nonneg)
  have "max 0 (base - hard) = 0" using assms(8) by simp
  then have "borrow_part base nc hard = max 0 (sub64 (max 0 (nc - hard)) 0)"
    by (simp add: borrow_part_def Let_def 1)
  also have "sub64 (max 0 (nc - hard)) 0 = max 0 (nc - hard)"
    using assms by (subst sub64_nonneg) auto
  finally show ?thesis using assms(1) by simp
qed

lemma hard_at_bounds: "quota_ok eff \<Longrightarrow> 0 \<le> hard_at eff d \<and> hard_at eff d \<le> INT64_MAX"
  by (simp add: hard_at_def quota_ok_def rv_okD)

lemma record_reservation_simps:
  assumes "record_reservation now t req auth burst ids im = (im', res)"
  shows "res_id res = next_reservation_id im" "res_tenant res = t" "res_resources res = req"
    "res_status res = RS_COMMITTED"
    "im_reservations im' = emplace (res_id res) res (im_reservations im)"
    "im_funding im' = AList.update (res_id res) \<lparr>fu_burst = burst, fu_borrows = ids\<rparr> (im_funding im)"
    "im_allocations im' = im_allocations im" "im_borrows im' = im_borrows im" "im_lends im' = im_lends im"
    "im_tenants im' = im_tenants im" "im_groups im' = im_groups im"
    "im_epoch im' = im_epoch im"
    "t' \<noteq> t \<Longrightarrow> usage_of im' t' = usage_of im t'"
    "us_consumption (usage_of im' t) = computed_consumed im' t"
    "us_reserved (usage_of im' t) = reserved_remaining im' t"
    "us_borrowed_consumed (usage_of im' t) = computed_borrowed im' t"
    "us_lent (usage_of im' t) = computed_lent im' t"
proof -
  obtain rid :: reservation_id and gen where r: "make_id (ig_reservation (im_ids im)) = (rid, gen)"
    by (cases "make_id (ig_reservation (im_ids im)) :: reservation_id \<times> id_gen")
  define im1 where "im1 = im\<lparr>im_ids := (im_ids im)\<lparr>ig_reservation := gen\<rparr>,
      im_funding := AList.update rid \<lparr>fu_burst = burst, fu_borrows = ids\<rparr> (im_funding im),
      im_reservations := emplace rid (new_reservation im now rid t req auth) (im_reservations im)\<rparr>"
  have res: "res = new_reservation im now rid t req auth"
    and im': "im' = emit_event now ET_RESERVATION t (''reservation committed ('' @ rv_to_string req @ '')'') (sync_usage now t im1)"
    using assms by (auto simp: record_reservation_def r Let_def im1_def)
  have u: "usage_of im1 t'' = usage_of im t''" for t'' by (simp add: usage_of_def im1_def)
  show "res_id res = next_reservation_id im" "res_tenant res = t" "res_resources res = req"
    "res_status res = RS_COMMITTED"
    by (simp_all add: res new_reservation_def next_reservation_id_def r)
  show "im_reservations im' = emplace (res_id res) res (im_reservations im)"
    "im_funding im' = AList.update (res_id res) \<lparr>fu_burst = burst, fu_borrows = ids\<rparr> (im_funding im)"
    "im_allocations im' = im_allocations im" "im_borrows im' = im_borrows im" "im_lends im' = im_lends im"
    "im_tenants im' = im_tenants im" "im_groups im' = im_groups im" "im_epoch im' = im_epoch im"
    by (simp_all add: im' im1_def res new_reservation_def)
  show "t' \<noteq> t \<Longrightarrow> usage_of im' t' = usage_of im t'" by (simp add: im' u)
  show "us_consumption (usage_of im' t) = computed_consumed im' t"
    "us_reserved (usage_of im' t) = reserved_remaining im' t"
    "us_borrowed_consumed (usage_of im' t) = computed_borrowed im' t"
    "us_lent (usage_of im' t) = computed_lent im' t"
    unfolding im' sync_usage_def by simp_all
qed

section \<open>Exact movement of the counters\<close>

lemma activate_burst_simps [simp]:
  "im_reservations (activate_burst now t eff b im) = im_reservations im"
  "im_funding (activate_burst now t eff b im) = im_funding im"
  "im_allocations (activate_burst now t eff b im) = im_allocations im"
  "im_borrows (activate_burst now t eff b im) = im_borrows im"
  "im_lends (activate_burst now t eff b im) = im_lends im"
  "im_tenants (activate_burst now t eff b im) = im_tenants im"
  "im_groups (activate_burst now t eff b im) = im_groups im"
  "im_epoch (activate_burst now t eff b im) = im_epoch im"
  "im_ids (activate_burst now t eff b im) = im_ids im"
  "t' \<noteq> t \<Longrightarrow> usage_of (activate_burst now t eff b im) t' = usage_of im t'"
  by (simp_all add: activate_burst_def)

lemma alloc_used_by_key:
  assumes "list_all (\<lambda>(aid, a). al_reservation a \<noteq> k) (im_allocations im)"
  shows "map_of (alloc_used_by im t) k = None"
proof -
  have loop: "map_of (fold (\<lambda>(aid :: allocation_id, a) m. if al_active a \<and> al_tenant a = t
      then map_add_vector (al_reservation a) (al_used a) m else m) xs m) k = None"
    if "map_of m k = None" "list_all (\<lambda>(aid, a). al_reservation a \<noteq> k) xs" for xs m
    using that by (induction xs arbitrary: m) (auto simp: map_add_vector_def map_of_update)
  show ?thesis unfolding alloc_used_by_def by (rule loop) (simp_all add: assms)
qed

text \<open>A new reservation adds its resources to the recomputed reserved total.\<close>

lemma reserved_remaining_new:
  assumes "im_reservations im' = emplace (res_id res) res (im_reservations im)"
    and "map_of (im_reservations im) (res_id res) = None"
    and "im_allocations im' = im_allocations im" "res_status res = RS_COMMITTED"
    and "list_all (\<lambda>(aid, a). al_reservation a \<noteq> res_id res) (im_allocations im)"
  shows "reserved_remaining im' (res_tenant res) = rv_acc (reserved_remaining im (res_tenant res)) (res_resources res)"
proof -
  have al: "alloc_used_by im' t = alloc_used_by im t" for t by (simp add: alloc_used_by_def assms(3))
  have "remaining_of (alloc_used_by im (res_tenant res)) res = res_resources res"
    using alloc_used_by_key [OF assms(5)] by (simp add: remaining_of_def)
  then show ?thesis
    using assms(4) by (simp add: reserved_remaining_def al assms(1) emplace_new [OF assms(2)] active_res_def cong: if_cong)
qed

lemma computed_consumed_cong:
  "im_allocations im' = im_allocations im \<Longrightarrow> computed_consumed im' t = computed_consumed im t"
  by (simp add: computed_consumed_def)

text \<open>The tenant's counters are in step with the records.\<close>

definition in_step :: "impl \<Rightarrow> tenant_id \<Rightarrow> bool" where
  "in_step im t \<longleftrightarrow>
     us_reserved (usage_of im t) = reserved_remaining im t \<and> us_consumption (usage_of im t) = computed_consumed im t"

lemma counters_match_in_step: "records_ok im \<Longrightarrow> counters_match im t \<Longrightarrow> in_step im t"
  by (simp add: counters_match_iff in_step_def)

text \<open>A successful reservation that needed no borrowing, and its effect.\<close>

definition unborrowed :: "impl \<Rightarrow> reservation \<Rightarrow> bool" where
  "unborrowed im res \<longleftrightarrow> (\<exists>f. map_of (im_funding im) (res_id res) = Some f \<and> fu_borrows f = [])"

lemma reserve_unborrowed:
  assumes "reserve im now t req auth = (im', Inr res)" "unborrowed im' res"
  shows "res_id res = next_reservation_id im" "res_tenant res = t" "res_resources res = req"
    "res_status res = RS_COMMITTED" "im_reservations im' = emplace (res_id res) res (im_reservations im)"
    "\<exists>f. im_funding im' = AList.update (res_id res) f (im_funding im) \<and> fu_borrows f = []"
    "im_allocations im' = im_allocations im" "im_borrows im' = im_borrows im" "im_lends im' = im_lends im"
    "im_tenants im' = im_tenants im" "im_groups im' = im_groups im" "im_epoch im' = im_epoch im"
    "t' \<noteq> t \<Longrightarrow> usage_of im' t' = usage_of im t'"
    "us_consumption (usage_of im' t) = computed_consumed im' t"
    "us_reserved (usage_of im' t) = reserved_remaining im' t"
    "dec_allowed (classify im now t req)" "tenant_exists im t"
    "\<forall>d. rv_present req d \<longrightarrow> \<not> is_consumable d \<longrightarrow>
       dim_borrow (committed_of (usage_of im t)) (effective_lattice im t) req d = 0"
proof -
  from reserve_success [OF assms(1)] obtain im2 burst ids where
    ok: "tenant_exists im t" "dec_allowed (classify im now t req)"
    and loop: "reserve_loop now t req auth (effective_lattice im t) (committed_of (usage_of im t))
       all_resource_dimensions (usage_mut t (\<lambda>u. u) im) rv_empty [] = (im2, Inr (burst, ids))"
    and rc: "record_reservation now t req auth burst ids (activate_burst now t (effective_lattice im t) burst im2) = (im', res)"
    by metis
  note R = record_reservation_simps [OF rc]
  have ids: "ids = []" using assms(2) by (simp add: unborrowed_def R(6) map_of_update)
  with reserve_loop_no_borrow [OF loop] have im2: "im2 = usage_mut t (\<lambda>u. u) im"
    and nb: "\<forall>d. rv_present req d \<longrightarrow> \<not> is_consumable d \<longrightarrow>
       dim_borrow (committed_of (usage_of im t)) (effective_lattice im t) req d = 0"
    by (auto simp: all_dimensions_UNIV)
  show "res_id res = next_reservation_id im"
    using R(1) by (simp add: im2 next_reservation_id_def)
  show "res_tenant res = t" "res_resources res = req" "res_status res = RS_COMMITTED"
    "im_reservations im' = emplace (res_id res) res (im_reservations im)"
    "im_allocations im' = im_allocations im" "im_borrows im' = im_borrows im" "im_lends im' = im_lends im"
    "im_tenants im' = im_tenants im" "im_groups im' = im_groups im" "im_epoch im' = im_epoch im"
    "us_consumption (usage_of im' t) = computed_consumed im' t"
    "us_reserved (usage_of im' t) = reserved_remaining im' t"
    using R by (simp_all add: im2)
  show "\<exists>f. im_funding im' = AList.update (res_id res) f (im_funding im) \<and> fu_borrows f = []"
    using R(6) by (auto simp: im2 ids)
  show "t' \<noteq> t \<Longrightarrow> usage_of im' t' = usage_of im t'" using R(13) by (simp add: im2)
  show "dec_allowed (classify im now t req)" "tenant_exists im t" using ok by simp_all
  show "\<forall>d. rv_present req d \<longrightarrow> \<not> is_consumable d \<longrightarrow>
       dim_borrow (committed_of (usage_of im t)) (effective_lattice im t) req d = 0" by (rule nb)
qed

lemma reserve_counters:
  assumes "reserve im now t req auth = (im', Inr res)" "unborrowed im' res"
    and "fresh_reservation im" "in_step im t"
  shows "us_reserved (usage_of im' t) = rv_acc (us_reserved (usage_of im t)) req"
    "us_consumption (usage_of im' t) = us_consumption (usage_of im t)" "in_step im' t"
proof -
  note R = reserve_unborrowed [OF assms(1,2)]
  have fresh: "map_of (im_reservations im) (res_id res) = None"
    "list_all (\<lambda>(aid, a). al_reservation a \<noteq> res_id res) (im_allocations im)"
    using assms(3) by (simp_all add: fresh_reservation_def R(1))
  have "reserved_remaining im' t = rv_acc (reserved_remaining im t) req"
    using reserved_remaining_new [OF R(5) fresh(1) R(7,4) fresh(2)] by (simp add: R(2,3))
  then show "us_reserved (usage_of im' t) = rv_acc (us_reserved (usage_of im t)) req"
    using assms(4) R(15) by (simp add: in_step_def)
  show "us_consumption (usage_of im' t) = us_consumption (usage_of im t)"
    using assms(4) R(14) computed_consumed_cong [OF R(7), of t] by (simp add: in_step_def)
  show "in_step im' t" using R(14,15) by (simp add: in_step_def)
qed

text \<open>The sums that \<open>reserve\<close> forms stay within the range of \<open>std::int64_t\<close>.\<close>

definition request_fits :: "impl \<Rightarrow> tenant_id \<Rightarrow> resource_vector \<Rightarrow> bool" where
  "request_fits im t req \<longleftrightarrow>
     list_all (\<lambda>d. rv_get (us_consumption (usage_of im t)) d + rv_get (us_reserved (usage_of im t)) d
        + rv_get req d \<le> INT64_MAX) all_resource_dimensions"

lemma committed_of_val:
  assumes "rv_ok (us_consumption u)" "rv_ok (us_reserved u)"
    and "\<forall>d. rv_get (us_consumption u) d + rv_get (us_reserved u) d \<le> INT64_MAX"
  shows "rv_get (committed_of u) d = rv_get (us_consumption u) d + rv_get (us_reserved u) d"
proof -
  have "rv_fits (us_consumption u) (us_reserved u)" using assms by (intro rv_fitsI) auto
  then show ?thesis using assms(1,2) by (auto simp: committed_of_def rv_acc_fits rv_okD)
qed

lemma reserve_committed:
  assumes wf: "wf_state im" and ok: "rv_ok req"
    and "reserve im now t req auth = (im', Inr res)" "unborrowed im' res"
    and "fresh_reservation im" "in_step im t" "request_fits im t req"
  shows "rv_get (committed_of (usage_of im' t)) d = rv_get (committed_of (usage_of im t)) d + rv_get req d"
    "rv_get (us_reserved (usage_of im' t)) d = rv_get (us_reserved (usage_of im t)) d + rv_get req d"
proof -
  let ?u = "usage_of im t" and ?u' = "usage_of im' t"
  note u = usages_okD [OF wf_stateD(2) [OF wf], of t]
  note C = reserve_counters [OF assms(3-6)]
  have le: "rv_get (us_consumption ?u) d + rv_get (us_reserved ?u) d + rv_get req d \<le> INT64_MAX" for d
    using assms(7) by (simp add: request_fits_def)
  have sums: "rv_get (us_consumption ?u) d + rv_get (us_reserved ?u) d \<le> INT64_MAX"
    "rv_get (us_reserved ?u) d + rv_get req d \<le> INT64_MAX" for d
    using le [of d] rv_okD(1) [OF ok, of d] rv_okD(1) [OF u(1), of d] by linarith+
  have fits: "rv_fits (us_reserved ?u) req" using u sums by (intro rv_fitsI) auto
  have res': "us_reserved ?u' = rv_plus (us_reserved ?u) req" by (simp add: C(1) rv_acc_fits u ok fits)
  have val': "rv_get (us_reserved ?u') e = rv_get (us_reserved ?u) e + rv_get req e" for e
    using ok by (auto simp: res' rv_okD)
  then show "rv_get (us_reserved ?u') d = rv_get (us_reserved ?u) d + rv_get req d" by simp
  have "rv_get (committed_of ?u') d = rv_get (us_consumption ?u') d + rv_get (us_reserved ?u') d"
    using u ok fits le by (intro committed_of_val) (simp_all add: C(2) val' add.assoc, simp add: res' rv_ok_plus)
  also have "\<dots> = rv_get (us_consumption ?u) d + rv_get (us_reserved ?u) d + rv_get req d"
    by (simp add: C(2) val')
  also have "rv_get (us_consumption ?u) d + rv_get (us_reserved ?u) d = rv_get (committed_of ?u) d"
    using u sums by (intro committed_of_val [symmetric]) auto
  finally show "rv_get (committed_of ?u') d = rv_get (committed_of ?u) d + rv_get req d" .
qed

section \<open>Limits\<close>

lemma reserve_hard_bound:
  assumes "wf_state im" "rv_ok req" "reserve im now t req auth = (im', Inr res)" "unborrowed im' res"
    and "fresh_reservation im" "in_step im t" "request_fits im t req"
    and "rv_present req d" "\<not> is_consumable d"
    and "rv_get (committed_of (usage_of im t)) d \<le> hard_at (effective_lattice im t) d"
  shows "rv_get (committed_of (usage_of im' t)) d = rv_get (committed_of (usage_of im t)) d + rv_get req d \<and>
    rv_get (committed_of (usage_of im' t)) d \<le> hard_at (effective_lattice im t) d"
proof -
  let ?c = "rv_get (committed_of (usage_of im t)) d"
  note R = reserve_unborrowed [OF assms(3,4)]
  have c: "0 \<le> ?c" "?c \<le> INT64_MAX"
    using rv_okD [OF rv_ok_committed_of [OF wf_stateD(2) [OF assms(1)]]] by auto
  have r: "0 \<le> rv_get req d" "rv_get req d \<le> INT64_MAX" using assms(2) by (simp_all add: rv_okD)
  have eq: "rv_get (committed_of (usage_of im' t)) d = ?c + rv_get req d"
    by (rule reserve_committed(1) [OF assms(1-7)])
  have bound: "?c + rv_get req d \<le> INT64_MAX"
  proof -
    have "rv_ok (committed_of (usage_of im' t))"
      using wf_reserve [OF assms(1,2), of now t auth] assms(3)
      by (simp add: rv_ok_committed_of wf_stateD)
    from rv_okD(2) [OF this, of d] eq show ?thesis by simp
  qed
  then have "sat_add ?c (rv_get req d) = ?c + rv_get req d" using c r by (simp add: sat_add_exact)
  then have bp: "borrow_part ?c (?c + rv_get req d) (hard_at (effective_lattice im t) d) = 0"
    using R(18) assms(8,9) by (auto simp: dim_borrow_def)
  have h: "0 \<le> hard_at (effective_lattice im t) d" "hard_at (effective_lattice im t) d \<le> INT64_MAX"
    using hard_at_bounds [OF quota_ok_effective [OF wf_stateD(1) [OF assms(1)]]] by blast+
  have "0 \<le> ?c + rv_get req d" using c r by linarith
  then have "?c + rv_get req d \<le> hard_at (effective_lattice im t) d"
    by (rule borrow_part_zero [OF bp c _ bound h assms(10)])
  with eq show ?thesis by simp
qed

text \<open>
  C5. A successful reserve that borrowed nothing raises the tenant's committed usage of
  every requested persistent dimension by exactly the requested amount, and the new
  committed usage is within the effective hard limit. The hypotheses: the state is well
  formed, the drawn reservation id is not in use, the tenant's counters agree with its
  records, the sums stay in the int64 range, and the tenant was within the limit before.
\<close>

theorem reserve_within_hard_limit:
  assumes "wf_state im" "rv_ok req" "reserve im now t req auth = (im', Inr res)" "unborrowed im' res"
    and "fresh_reservation im" "in_step im t" "request_fits im t req"
    and "rv_present req d" "\<not> is_consumable d"
    and "rv_get (committed_of (usage_of im t)) d \<le> hard_at (effective_lattice im t) d"
  shows "rv_get (committed_of (usage_of im' t)) d = rv_get (committed_of (usage_of im t)) d + rv_get req d \<and>
    rv_get (committed_of (usage_of im' t)) d \<le> hard_at (effective_lattice im t) d"
  using assms by (rule reserve_hard_bound)

lemma up_chain_reaches: "g \<in> set (up_chain n gs cur) \<Longrightarrow> up_reaches n gs cur g"
  by (induction n gs cur rule: up_chain.induct) (auto split: option.splits)

lemma ancestor_has_ancestor:
  "g \<in> set (ancestor_groups im t) \<Longrightarrow> map_of (im_tenants im) t = Some tn \<Longrightarrow> has_ancestor im tn g"
  by (simp add: ancestor_groups_def has_ancestor_def up_chain_reaches)

lemma sum_list_one_changed:
  fixes f f' :: "'k \<times> 'v \<Rightarrow> int"
  assumes "distinct_keys xs" "map_of xs t = Some v"
    and "\<And>k w. k \<noteq> t \<Longrightarrow> f' (k, w) = f (k, w)" "f' (t, v) = f (t, v) + c"
  shows "sum_list (map f' xs) = sum_list (map f xs) + c"
  using assms(1,2)
proof (induction xs)
  case (Cons x xs)
  obtain k w where x: "x = (k, w)" by (cases x)
  show ?case
  proof (cases "k = t")
    case True
    then have "t \<notin> fst ` set xs" "w = v" using Cons.prems x by auto
    then have "sum_list (map f' xs) = sum_list (map f xs)"
      using assms(3) by (intro arg_cong [where f = sum_list] map_cong [OF refl]) (auto simp: image_iff)
    with True x \<open>w = v\<close> assms(4) show ?thesis by simp
  next
    case False
    with Cons x assms(3) show ?thesis by simp
  qed
qed simp

definition subtree_total :: "impl \<Rightarrow> tenant_group_id \<Rightarrow> resource_dimension \<Rightarrow> int" where
  "subtree_total im g d =
     sum_list (map (\<lambda>(tid, tn). if has_ancestor im tn g
        then rv_get (us_consumption (usage_of im tid)) d + rv_get (us_reserved (usage_of im tid)) d else 0)
       (im_tenants im))"

lemma sum_list_concat_int: "sum_list (map f (concat xss)) = sum_list (map (\<lambda>xs. sum_list (map f xs)) xss :: int list)"
  by (induction xss) auto

lemma subtree_vectors_total: "sum_list (map (\<lambda>v. rv_get v d) (subtree_vectors im g)) = subtree_total im g d"
  unfolding subtree_vectors_def subtree_total_def sum_list_concat_int map_map comp_def
  by (rule arg_cong [where f = sum_list], rule map_cong [OF refl]) auto

lemma subtree_committed_total:
  assumes "usages_ok im" "\<forall>d. subtree_total im g d \<le> INT64_MAX"
  shows "rv_get (subtree_committed im g) d = subtree_total im g d"
proof -
  have "\<forall>d. sum_list (map (\<lambda>v. rv_get v d) (subtree_vectors im g)) \<le> INT64_MAX"
    using assms(2) by (simp add: subtree_vectors_total)
  from rv_sum_exact(1) [OF subtree_vectors_ok [OF assms(1)] this]
  show ?thesis by (simp add: subtree_committed_sum subtree_vectors_total)
qed

lemma reserve_subtree_total:
  assumes "wf_state im" "rv_ok req" "reserve im now t req auth = (im', Inr res)" "unborrowed im' res"
    and "fresh_reservation im" "in_step im t" "request_fits im t req" "g \<in> set (ancestor_groups im t)"
  shows "subtree_total im' g e = subtree_total im g e + rv_get req e"
proof -
  note R = reserve_unborrowed [OF assms(3,4)] and C = reserve_counters [OF assms(3-6)]
  obtain tn where tn: "map_of (im_tenants im) t = Some tn"
    using R(17) by (auto simp: tenant_exists_def contains_key_def)
  have anc: "has_ancestor im tn g" by (rule ancestor_has_ancestor [OF assms(8) tn])
  have ha: "has_ancestor im' x g = has_ancestor im x g" for x by (simp add: has_ancestor_def R(11))
  show ?thesis
    unfolding subtree_total_def R(10)
    using wf_keys(2) [OF assms(1)] tn anc reserve_committed(2) [OF assms(1-7), of e]
    by (intro sum_list_one_changed) (auto simp: ha R(13) C(2))
qed

lemma reserve_parent_bound:
  assumes "wf_state im" "rv_ok req" "reserve im now t req auth = (im', Inr res)" "unborrowed im' res"
    and "fresh_reservation im" "in_step im t" "request_fits im t req"
    and "rv_present req d" "\<not> is_consumable d"
    and "g \<in> set (ancestor_groups im t)" "map_of (im_group_quota im) g = Some q" "rv_present (q_hard_limit q) d"
    and "\<forall>e. subtree_total im' g e \<le> INT64_MAX"
  shows "rv_get (subtree_committed im' g) d = rv_get (subtree_committed im g) d + rv_get req d \<and>
    rv_get (subtree_committed im' g) d \<le> rv_get (q_hard_limit q) d"
proof -
  note R = reserve_unborrowed [OF assms(3,4)]
  have tot: "subtree_total im' g e = subtree_total im g e + rv_get req e" for e
    by (rule reserve_subtree_total [OF assms(1-7,10)])
  have tot_le: "subtree_total im g e \<le> INT64_MAX" for e
    using assms(13) tot [of e] rv_okD(1) [OF assms(2), of e] by (metis add_le_same_cancel1 le_add_same_cancel1 order_trans)
  have wf': "wf_state im'" using wf_reserve [OF assms(1,2), of now t auth] assms(3) by simp
  have sub: "rv_get (subtree_committed im g) d = subtree_total im g d"
    by (rule subtree_committed_total) (simp_all add: tot_le wf_stateD [OF assms(1)])
  have sub': "rv_get (subtree_committed im' g) d = subtree_total im' g d"
    by (rule subtree_committed_total) (simp_all add: assms(13) wf_stateD [OF wf'])
  have "code_allowed (dim_code im now t req d)" using classify_allowed_cases [OF R(16) assms(8)] by simp
  from dim_code_parent_ok [OF this assms(9,8,10-12)]
  have "sat_add (rv_get (subtree_committed im g) d) (rv_get req d) \<le> rv_get (q_hard_limit q) d" .
  moreover have "sat_add (rv_get (subtree_committed im g) d) (rv_get req d) = rv_get (subtree_committed im g) d + rv_get req d"
    using rv_okD(1) [OF rv_ok_subtree [OF wf_stateD(2) [OF assms(1)]], of g d] rv_okD(1) [OF assms(2), of d]
      spec [OF assms(13), of d] tot [of d] sub by (intro sat_add_exact) simp_all
  ultimately show ?thesis using sub sub' tot [of d] by simp
qed

text \<open>
  C6. Take a successful reserve that borrowed nothing, and a persistent dimension of the
  request. Then the committed usage of the subtree below every ancestor group that sets a
  hard limit on the dimension has grown by exactly the requested amount and is within the
  group's hard limit. Hypotheses: the state is well formed, the drawn reservation id is not
  in use, the tenant's reserved and consumed counters agree with its records (an observation
  may change that), and the tenant's sums and the subtree totals stay in the int64 range.
\<close>

theorem reserve_within_parent_limit:
  assumes "wf_state im" "rv_ok req" "reserve im now t req auth = (im', Inr res)" "unborrowed im' res"
    and "fresh_reservation im" "in_step im t" "request_fits im t req"
    and "rv_present req d" "\<not> is_consumable d"
    and "g \<in> set (ancestor_groups im t)" "map_of (im_group_quota im) g = Some q" "rv_present (q_hard_limit q) d"
    and "\<forall>e. subtree_total im' g e \<le> INT64_MAX"
  shows "rv_get (subtree_committed im' g) d = rv_get (subtree_committed im g) d + rv_get req d \<and>
    rv_get (subtree_committed im' g) d \<le> rv_get (q_hard_limit q) d"
  using assms by (rule reserve_parent_bound)

section \<open>Releasing\<close>

lemma release_no_borrows:
  assumes "\<not> stale_epoch im auth" "map_of (im_reservations im) rid = Some r" "active_res r"
    and "map_of (im_funding im) rid = Some f" "fu_borrows f = []"
  shows "snd (release im now rid auth) = status_success"
    "im_reservations (fst (release im now rid auth)) = AList.delete rid (im_reservations im)"
    "im_funding (fst (release im now rid auth)) = AList.delete rid (im_funding im)"
    "im_allocations (fst (release im now rid auth)) =
       map (\<lambda>(aid, a). (aid, if al_reservation a = rid then a\<lparr>al_active := False\<rparr> else a)) (im_allocations im)"
    "t' \<noteq> res_tenant r \<Longrightarrow> usage_of (fst (release im now rid auth)) t' = usage_of im t'"
    "us_consumption (usage_of (fst (release im now rid auth)) (res_tenant r)) =
       computed_consumed (fst (release im now rid auth)) (res_tenant r)"
    "us_reserved (usage_of (fst (release im now rid auth)) (res_tenant r)) =
       reserved_remaining (fst (release im now rid auth)) (res_tenant r)"
    "im_epoch (fst (release im now rid auth)) = im_epoch im"
proof -
  have del: "AList.delete rid (AList.update rid x (im_reservations im)) = AList.delete rid (im_reservations im)" for x
    by (rule delete_update_same)
  define im4 where "im4 = im\<lparr>
      im_allocations := map (\<lambda>(aid, a). (aid, if al_reservation a = rid then a\<lparr>al_active := False\<rparr> else a)) (im_allocations im),
      im_reservations := AList.delete rid (im_reservations im), im_funding := AList.delete rid (im_funding im)\<rparr>"
  have eq: "release im now rid auth =
      (emit_event now ET_RELEASE (res_tenant r) ''reservation released'' (sync_usage now (res_tenant r) im4), status_success)"
    using assms by (simp add: release_def Let_def return_all_def im4_def del)
  have u: "usage_of im4 t'' = usage_of im t''" for t'' by (simp add: usage_of_def im4_def)
  show "snd (release im now rid auth) = status_success"
    "im_reservations (fst (release im now rid auth)) = AList.delete rid (im_reservations im)"
    "im_funding (fst (release im now rid auth)) = AList.delete rid (im_funding im)"
    "im_allocations (fst (release im now rid auth)) =
       map (\<lambda>(aid, a). (aid, if al_reservation a = rid then a\<lparr>al_active := False\<rparr> else a)) (im_allocations im)"
    "im_epoch (fst (release im now rid auth)) = im_epoch im"
    by (simp_all add: eq im4_def)
  show "t' \<noteq> res_tenant r \<Longrightarrow> usage_of (fst (release im now rid auth)) t' = usage_of im t'"
    by (simp add: eq u)
  show "us_consumption (usage_of (fst (release im now rid auth)) (res_tenant r)) =
       computed_consumed (fst (release im now rid auth)) (res_tenant r)"
    "us_reserved (usage_of (fst (release im now rid auth)) (res_tenant r)) =
       reserved_remaining (fst (release im now rid auth)) (res_tenant r)"
    unfolding eq sync_usage_def by simp_all
qed

lemma reserved_remaining_cong:
  "im_allocations im' = im_allocations im \<Longrightarrow> im_reservations im' = im_reservations im \<Longrightarrow>
   reserved_remaining im' t = reserved_remaining im t"
  by (simp add: reserved_remaining_def alloc_used_by_def cong: if_cong)

lemma map_inactive_id:
  "list_all (\<lambda>(aid, a). al_reservation a \<noteq> rid) xs \<Longrightarrow>
   map (\<lambda>(aid, a). (aid, if al_reservation a = rid then a\<lparr>al_active := False\<rparr> else a)) xs = xs"
  by (induction xs) auto

text \<open>
  C16. Releasing a reservation that was just made without borrowing succeeds and restores
  the reservations, their funding, the allocations, the tenant's reserved and consumed
  counters and every other tenant's usage to their values before the reserve; releasing it a
  second time is refused as unknown and changes nothing. Hypotheses: the state is well
  formed, the drawn reservation id was not in use, the tenant's reserved and consumed
  counters agreed with its records before (an observation may change that), and the releases
  carry the current epoch.
\<close>

theorem reserve_release_roundtrip:
  assumes "wf_state im" "reserve im now t req auth = (im', Inr res)" "unborrowed im' res"
    and "fresh_reservation im" "in_step im t" "au_epoch auth' = im_epoch im"
  shows "snd (release im' now' (res_id res) auth') = status_success \<and>
    (let im'' = fst (release im' now' (res_id res) auth') in
       im_reservations im'' = im_reservations im \<and> im_funding im'' = im_funding im \<and>
       im_allocations im'' = im_allocations im \<and>
       us_reserved (usage_of im'' t) = us_reserved (usage_of im t) \<and>
       us_consumption (usage_of im'' t) = us_consumption (usage_of im t) \<and>
       (\<forall>t'. t' \<noteq> t \<longrightarrow> usage_of im'' t' = usage_of im t') \<and>
       release im'' now'' (res_id res) auth' =
         (im'', status_failure VC_STALE_RESERVATION ''unknown reservation''))"
proof -
  note R = reserve_unborrowed [OF assms(2,3)]
  let ?rid = "res_id res"
  define im'' where "im'' = fst (release im' now' ?rid auth')"
  have fresh: "map_of (im_reservations im) ?rid = None" "map_of (im_funding im) ?rid = None"
    "list_all (\<lambda>(aid, a). al_reservation a \<noteq> ?rid) (im_allocations im)"
    using assms(4) by (simp_all add: fresh_reservation_def R(1))
  obtain f where f: "im_funding im' = AList.update ?rid f (im_funding im)" "fu_borrows f = []"
    using R(6) by blast
  have rid: "map_of (im_reservations im') ?rid = Some res" "map_of (im_funding im') ?rid = Some f"
    by (simp_all add: R(5) f(1) map_of_emplace fresh map_of_update)
  have epoch: "\<not> stale_epoch im' auth'" using assms(6) R(12) by (simp add: stale_epoch_def)
  have act: "active_res res" by (simp add: active_res_def R(4))
  note L = release_no_borrows [OF epoch rid(1) act rid(2) f(2), where now = now', folded im''_def]
  have res'': "im_reservations im'' = im_reservations im"
    by (simp add: L(2) R(5) delete_emplace_new fresh)
  have fund'': "im_funding im'' = im_funding im"
    by (simp add: L(3) f(1) delete_update_same delete_not_key fresh)
  have al'': "im_allocations im'' = im_allocations im"
    by (simp add: L(4) R(7) map_inactive_id [OF fresh(3)])
  have "us_reserved (usage_of im'' t) = us_reserved (usage_of im t)"
    using L(7) R(2) assms(5) reserved_remaining_cong [OF al'' res'', of t] by (simp add: in_step_def)
  moreover have "us_consumption (usage_of im'' t) = us_consumption (usage_of im t)"
    using L(6) R(2) assms(5) computed_consumed_cong [OF al'', of t] by (simp add: in_step_def)
  moreover have "\<forall>t'. t' \<noteq> t \<longrightarrow> usage_of im'' t' = usage_of im t'"
    using L(5) R(2,13) by simp
  moreover have "release im'' now'' ?rid auth' = (im'', status_failure VC_STALE_RESERVATION ''unknown reservation'')"
    using epoch L(8) by (simp add: release_def res'' fresh stale_epoch_def)
  ultimately show ?thesis
    using L(1) res'' fund'' al'' by (simp add: Let_def im''_def [symmetric])
qed

end
