(* ===== verification/QF_Sample.thy ===== *)
theory QF_Sample
  imports QF_Safety
begin

text \<open>
  A request that is allowed and fits below the hard limit is granted, and a small engine
  with one tenant on which the properties of reservations are exercised.
\<close>

section \<open>Allowed requests are granted\<close>

lemma reserve_loop_no_need:
  "(\<forall>d \<in> set ds. rv_present req d \<longrightarrow> \<not> is_consumable d \<longrightarrow> dim_borrow cb eff req d = 0) \<Longrightarrow>
   \<exists>burst'. reserve_loop now t req auth eff cb ds im burst ids = (im, Inr (burst', ids))"
  by (induction ds arbitrary: burst) (auto simp: Let_def dim_borrow_def)

lemma reserve_grants_aux:
  assumes "valid_authority im auth" "tenant_exists im t" "dec_allowed (classify im now t req)"
    and "\<forall>d. rv_present req d \<longrightarrow> \<not> is_consumable d \<longrightarrow>
       dim_borrow (committed_of (usage_of im t)) (effective_lattice im t) req d = 0"
  shows "\<exists>im' res. reserve im now t req auth = (im', Inr res) \<and> unborrowed im' res"
proof -
  obtain burst where loop: "reserve_loop now t req auth (effective_lattice im t) (committed_of (usage_of im t))
      all_resource_dimensions (usage_mut t (\<lambda>u. u) im) rv_empty [] = (usage_mut t (\<lambda>u. u) im, Inr (burst, []))"
    using reserve_loop_no_need assms(4) by blast
  obtain im' res where rc: "record_reservation now t req auth burst []
      (activate_burst now t (effective_lattice im t) burst (usage_mut t (\<lambda>u. u) im)) = (im', res)"
    by (cases "record_reservation now t req auth burst []
      (activate_burst now t (effective_lattice im t) burst (usage_mut t (\<lambda>u. u) im))")
  have "\<not> stale_epoch im auth" "\<not> stale_quota_gen im auth"
    using assms(1) by (auto simp: valid_authority_def stale_epoch_def stale_quota_gen_def)
  then have "reserve im now t req auth = (im', Inr res)"
    using assms(1-3) loop rc by (simp add: reserve_def Let_def)
  moreover have "unborrowed im' res"
    by (simp add: unborrowed_def record_reservation_simps(6) [OF rc] map_of_update)
  ultimately show ?thesis by blast
qed

text \<open>
  C19. reserve does grant: with a valid authority, an existing tenant, an allowing verdict
  and no dimension in need of a borrow, it returns a reservation for the requested vector
  and tenant, and that reservation exists afterwards.
\<close>

theorem reserve_grants:
  assumes "valid_authority im auth" "tenant_exists im t" "dec_allowed (classify im now t req)"
    and "\<forall>d. rv_present req d \<longrightarrow> \<not> is_consumable d \<longrightarrow>
       dim_borrow (committed_of (usage_of im t)) (effective_lattice im t) req d = 0"
  shows "\<exists>im' res. reserve im now t req auth = (im', Inr res) \<and> res_resources res = req \<and>
    res_tenant res = t \<and> reservation_exists im' (res_id res)"
proof -
  from reserve_grants_aux [OF assms] obtain im' res where
    r: "reserve im now t req auth = (im', Inr res)" "unborrowed im' res" by blast
  note R = reserve_unborrowed [OF r]
  have "reservation_exists im' (res_id res)"
    by (auto simp: reservation_exists_def contains_key_def R(5) map_of_emplace)
  with r R show ?thesis by blast
qed

section \<open>One tenant\<close>

definition solo :: tenant_id where
  "solo = StrongId 1 1"

definition solo_tenant :: "tenant_group_id option \<Rightarrow> tenant" where
  "solo_tenant g = \<lparr>ten_id = solo, ten_group = g, ten_name = ''solo'', ten_priority = 100, ten_service_class = ''''\<rparr>"

definition solo_group :: tenant_group_id where
  "solo_group = StrongId 7 7"

definition vram :: "int \<Rightarrow> resource_vector" where
  "vram x = rv_from_scalar AcceleratorVRAM x"

definition vram_quota :: "int \<Rightarrow> resource_quota" where
  "vram_quota x = resource_quota_default\<lparr>q_guaranteed := vram x, q_soft_limit := vram x, q_hard_limit := vram x\<rparr>"

text \<open>A tenant with a hard limit of 10 below a group with a hard limit of 20.\<close>

definition solo_engine :: impl where
  "solo_engine = sample_engine\<lparr>
     im_groups := [(solo_group, \<lparr>grp_id = solo_group, grp_kind = GK_TEAM, grp_parent = None, grp_name = ''g'',
        grp_quota = resource_quota_default, grp_policy_generation = gen_zero\<rparr>)],
     im_group_quota := [(solo_group, vram_quota 20)],
     im_tenants := [(solo, solo_tenant (Some solo_group))],
     im_local_quota := [(solo, vram_quota 10)]\<rparr>"

lemma vram_simps [simp]:
  "rv_get (vram x) d = (if d = AcceleratorVRAM \<and> 0 \<le> x then x else 0)"
  "rv_present (vram x) d = (d = AcceleratorVRAM \<and> 0 \<le> x)"
  by (simp_all add: vram_def rv_from_scalar_def)

lemma rv_ok_vram: "x \<le> INT64_MAX \<Longrightarrow> rv_ok (vram x)"
  by (simp add: vram_def rv_ok_from_scalar)

lemma vram_quota_simps [simp]:
  "q_guaranteed (vram_quota x) = vram x" "q_soft_limit (vram_quota x) = vram x" "q_hard_limit (vram_quota x) = vram x"
  "q_burst_limit (vram_quota x) = rv_empty" "q_borrowable (vram_quota x) = rv_empty"
  "q_physical_capacity (vram_quota x) = rv_empty"
  by (simp_all add: vram_quota_def resource_quota_default_def)

lemma solo_engine_simps [simp]:
  "im_tenants solo_engine = [(solo, solo_tenant (Some solo_group))]"
  "im_local_quota solo_engine = [(solo, vram_quota 10)]"
  "im_group_quota solo_engine = [(solo_group, vram_quota 20)]"
  "im_groups solo_engine = [(solo_group, \<lparr>grp_id = solo_group, grp_kind = GK_TEAM, grp_parent = None, grp_name = ''g'',
        grp_quota = resource_quota_default, grp_policy_generation = gen_zero\<rparr>)]"
  "im_usage solo_engine = []" "im_reservations solo_engine = []" "im_funding solo_engine = []"
  "im_allocations solo_engine = []" "im_borrows solo_engine = []" "im_lends solo_engine = []"
  "im_events solo_engine = []"
  by (simp_all add: solo_engine_def sample_engine_def impl_initial_def)

lemma solo_usage [simp]: "usage_of solo_engine t = empty_usage"
  by (simp add: usage_of_def)

lemma solo_wf: "wf_state solo_engine"
proof -
  have "hier_ok (im_groups solo_engine)" by (simp add: hier_ok_def)
  then show ?thesis
    by (simp add: wf_state_def quotas_ok_def usages_ok_def records_ok_def keys_ok_def events_bounded_def
        no_cooldown_def quota_ok_def rv_ok_vram i64_bounds)
qed

lemma solo_ancestors [simp]: "ancestor_groups solo_engine solo = [solo_group]"
  by (simp add: ancestor_groups_def solo_tenant_def)

lemma solo_chain: "quota_chain solo_engine solo = [vram_quota 20, vram_quota 10]"
  by (simp add: quota_chain_def List.map_filter_simps)

lemma solo_merge:
  "rv_ok (g (vram_quota 20)) \<Longrightarrow> rv_ok (g (vram_quota 10)) \<Longrightarrow>
   rv_present (merge_min rv_empty (quota_chain solo_engine solo) g) d =
     (rv_present (g (vram_quota 20)) d \<or> rv_present (g (vram_quota 10)) d)"
  by (simp add: merge_min_val solo_chain)

lemma solo_merge_vram:
  assumes "\<And>x. x \<in> {10, 20} \<Longrightarrow> g (vram_quota x) = vram x"
  shows "merge_min rv_empty (quota_chain solo_engine solo) g = vram 10"
  by (rule rv_eqI) (auto simp: merge_min_val solo_chain assms rv_ok_vram i64_bounds chain_limits_def)

lemma solo_lattice [simp]:
  "guarantee_at (effective_lattice solo_engine solo) AcceleratorVRAM = 10"
  "soft_at (effective_lattice solo_engine solo) AcceleratorVRAM = 10"
  "hard_at (effective_lattice solo_engine solo) AcceleratorVRAM = 10"
  "has_entitlement (effective_lattice solo_engine solo)"
proof -
  have m: "merge_min rv_empty (quota_chain solo_engine solo) q_guaranteed = vram 10"
    "merge_min rv_empty (quota_chain solo_engine solo) q_soft_limit = vram 10"
    "merge_min rv_empty (quota_chain solo_engine solo) q_hard_limit = vram 10"
    by (rule solo_merge_vram; simp)+
  then show "guarantee_at (effective_lattice solo_engine solo) AcceleratorVRAM = 10"
    "soft_at (effective_lattice solo_engine solo) AcceleratorVRAM = 10"
    "hard_at (effective_lattice solo_engine solo) AcceleratorVRAM = 10"
    by (simp_all add: guarantee_at_def soft_at_def hard_at_def)
  have "rv_present_count (vram 10) \<noteq> 0" by (simp add: rv_present_count_zero rv_is_empty_iff)
  with m show "has_entitlement (effective_lattice solo_engine solo)" by (simp add: has_entitlement_def)
qed

lemma solo_has_ancestor [simp]: "has_ancestor solo_engine (solo_tenant (Some solo_group)) solo_group"
  by (simp add: has_ancestor_def solo_tenant_def)

lemma committed_of_empty [simp]: "committed_of empty_usage = rv_empty"
  by (simp add: committed_of_def)

lemma solo_subtree: "subtree_committed solo_engine solo_group = rv_empty"
  by (simp add: subtree_committed_def)

lemma solo_physical: "physical_allowance solo_engine d (effective_lattice solo_engine solo) = INT64_MAX"
  by (simp add: physical_allowance_def solo_merge)

lemma solo_pool: "pool_used solo_engine solo_group = rv_empty"
proof -
  have "pool_used_of eff rv_empty rv_empty = rv_empty" if "\<forall>d. 0 \<le> rv_get (q_guaranteed eff) d" for eff
  proof -
    have "fold (\<lambda>d sum. if \<not> rv_present (q_guaranteed eff) d then sum
        else let amount = min (rv_get rv_empty d) (rv_get (q_guaranteed eff) d)
          in if amount > 0 then rv_acc sum (rv_from_scalar d amount) else sum) ds s = s" for ds s
      using that by (induction ds) auto
    then show ?thesis by (simp add: pool_used_of_def)
  qed
  moreover have "\<forall>d. 0 \<le> rv_get (q_guaranteed (effective_lattice solo_engine solo)) d"
    using quota_ok_effective [OF wf_stateD(1) [OF solo_wf], of solo]
    unfolding quota_ok_def by (blast intro: rv_okD)
  ultimately show ?thesis by (simp add: pool_used_def)
qed

lemma solo_dim_code:
  assumes "0 \<le> x" "x \<le> 10"
  shows "dim_code solo_engine now solo (vram x) AcceleratorVRAM = DC_ALLOW_GUARANTEED"
proof -
  have s: "sat_add 0 x = x" "sat_add x 0 = x" using assms by (simp_all add: sat_add_exact i64_bounds)
  show ?thesis
    using assms
    by (simp add: dim_code_def Let_def is_consumable_def current_committed_scalar_def requested_amount_def s
        parent_hard_ok_def solo_subtree solo_physical pool_ok_def solo_pool i64_bounds)
qed

lemma solo_allowed:
  assumes "0 \<le> x" "x \<le> 10"
  shows "dec_allowed (classify solo_engine now solo (vram x))"
proof -
  have "\<not> rv_is_empty (vram x)" using assms by (simp add: rv_is_empty_iff)
  then show ?thesis
    using classify_most_restrictive_aux [of "vram x" solo_engine solo now] solo_dim_code [OF assms]
    by (auto simp: code_allowed_def)
qed

definition solo_authority :: authority where
  "solo_authority = sample_authority solo_engine"

lemma solo_authority_valid: "valid_authority solo_engine solo_authority"
  by (simp add: solo_authority_def sample_authority_def valid_authority_def)

lemma solo_no_borrow:
  assumes "0 \<le> x" "x \<le> 10"
  shows "\<forall>d. rv_present (vram x) d \<longrightarrow> \<not> is_consumable d \<longrightarrow>
    dim_borrow (committed_of (usage_of solo_engine solo)) (effective_lattice solo_engine solo) (vram x) d = 0"
proof -
  have "borrow_part 0 x 10 = 0"
    using assms by (simp add: borrow_part_def sub64_def s64_id i64_bounds Let_def)
  then show ?thesis using assms by (simp add: dim_borrow_def sat_add_exact i64_bounds)
qed

lemma solo_exists: "tenant_exists solo_engine solo"
  by (simp add: tenant_exists_def contains_key_def)

lemma solo_reserve:
  assumes "0 \<le> x" "x \<le> 10"
  obtains im' res where "reserve solo_engine now solo (vram x) solo_authority = (im', Inr res)" "unborrowed im' res"
  using reserve_grants_aux [OF solo_authority_valid solo_exists solo_allowed [OF assms] solo_no_borrow [OF assms]]
  by blast

lemma solo_in_step: "in_step solo_engine t"
  by (simp add: in_step_def reserved_remaining_def computed_consumed_def)

lemma solo_fresh: "fresh_reservation solo_engine"
  by (simp add: fresh_reservation_def)

lemma solo_fits: "0 \<le> x \<Longrightarrow> x \<le> 10 \<Longrightarrow> request_fits solo_engine solo (vram x)"
  by (simp add: request_fits_def i64_bounds)

lemmas solo_facts = solo_wf solo_in_step solo_fresh

section \<open>The properties at work\<close>

theorem reserve_grants_witness:
  "\<exists>im' res. reserve solo_engine 3 solo (vram 7) solo_authority = (im', Inr res) \<and> res_resources res = vram 7 \<and>
    res_tenant res = solo \<and> reservation_exists im' (res_id res)"
  by (rule reserve_grants [OF solo_authority_valid solo_exists solo_allowed solo_no_borrow]) simp_all

theorem reserve_within_hard_limit_witness:
  "\<exists>im' res. reserve solo_engine 3 solo (vram 7) solo_authority = (im', Inr res) \<and>
    rv_get (committed_of (usage_of im' solo)) AcceleratorVRAM = 7 \<and>
    rv_get (committed_of (usage_of im' solo)) AcceleratorVRAM \<le> 10"
proof -
  obtain im' res where r: "reserve solo_engine 3 solo (vram 7) solo_authority = (im', Inr res)" "unborrowed im' res"
    by (rule solo_reserve [of 7 3]) simp_all
  from reserve_within_hard_limit [OF solo_wf rv_ok_vram r solo_fresh solo_in_step solo_fits, of AcceleratorVRAM] r(1)
  show ?thesis by (simp add: i64_bounds is_consumable_def)
qed

theorem reserve_within_parent_limit_witness:
  "\<exists>im' res. reserve solo_engine 3 solo (vram 7) solo_authority = (im', Inr res) \<and>
    rv_get (subtree_committed im' solo_group) AcceleratorVRAM = 7 \<and>
    rv_get (subtree_committed im' solo_group) AcceleratorVRAM \<le> 20"
proof -
  obtain im' res where r: "reserve solo_engine 3 solo (vram 7) solo_authority = (im', Inr res)" "unborrowed im' res"
    by (rule solo_reserve [of 7 3]) simp_all
  note R = reserve_unborrowed [OF r] and C = reserve_counters [OF r solo_fresh solo_in_step]
  have res: "rv_get (us_reserved (usage_of im' solo)) e = rv_get (vram 7) e" for e
    using reserve_committed(2) [OF solo_wf rv_ok_vram r solo_fresh solo_in_step solo_fits, of e] by (simp add: i64_bounds)
  have "\<forall>e. subtree_total im' solo_group e \<le> INT64_MAX"
    by (simp add: subtree_total_def R(10) C(2) res i64_bounds)
  from reserve_within_parent_limit [OF solo_wf rv_ok_vram r solo_fresh solo_in_step solo_fits _ _ _ _ _ this,
      of AcceleratorVRAM "vram_quota 20"] r(1)
  show ?thesis by (simp add: i64_bounds is_consumable_def solo_subtree)
qed

theorem reserve_release_roundtrip_witness:
  "\<exists>im' res. reserve solo_engine 3 solo (vram 7) solo_authority = (im', Inr res) \<and>
    im_reservations im' \<noteq> [] \<and> im_reservations (fst (release im' 4 (res_id res) solo_authority)) = []"
proof -
  obtain im' res where r: "reserve solo_engine 3 solo (vram 7) solo_authority = (im', Inr res)" "unborrowed im' res"
    by (rule solo_reserve [of 7 3]) simp_all
  have "au_epoch solo_authority = im_epoch solo_engine" by (simp add: solo_authority_def sample_authority_def)
  from reserve_release_roundtrip [OF solo_wf r solo_fresh solo_in_step this, of 4]
  have "im_reservations (fst (release im' 4 (res_id res) solo_authority)) = []" by (simp add: Let_def)
  with r(1) reserve_unborrowed(5) [OF r] show ?thesis by (auto simp: emplace_def)
qed

theorem effective_lattice_min_witness:
  "rv_get (q_hard_limit (effective_lattice solo_engine solo)) AcceleratorVRAM \<le> rv_get (q_hard_limit (vram_quota 20)) AcceleratorVRAM"
  using effective_lattice_min [OF wf_stateD(1) [OF solo_wf], of q_hard_limit solo AcceleratorVRAM]
  by (simp add: solo_chain)

theorem classify_most_restrictive_witness:
  "dec_allowed (classify solo_engine 3 solo (vram 7)) \<longleftrightarrow>
     (\<forall>d. rv_present (vram 7) d \<longrightarrow> code_allowed (dim_code solo_engine 3 solo (vram 7) d))"
  using classify_most_restrictive [of "vram 7" solo_engine solo 3] by (simp add: rv_is_empty_iff)

theorem classify_respects_limits_witness:
  "sat_add 0 7 \<le> (10 :: int) \<and> dec_allowed (classify solo_engine 3 solo (vram 7))"
proof -
  have allowed: "dec_allowed (classify solo_engine 3 solo (vram 7))" by (rule solo_allowed) simp_all
  have "dec_code (classify solo_engine 3 solo (vram 7)) \<noteq> DC_ALLOW_BORROW"
    using classify_most_restrictive_aux [of "vram 7" solo_engine solo 3] solo_dim_code [of 7 3]
    by (auto simp: rv_is_empty_iff split: option.splits)
  with classify_respects_limits [OF allowed, of AcceleratorVRAM] allowed
  show ?thesis by (simp add: is_consumable_def)
qed

theorem hierarchy_walk_returns_witness:
  "has_ancestor_loop (im_groups solo_engine) (ten_group (solo_tenant (Some solo_group))) solo_group = Some True"
  using hierarchy_walk_returns [OF wf_stateD(5) [OF solo_wf], of "solo_tenant (Some solo_group)" solo_group] by simp

theorem sync_usage_counters_witness: "counters_match (sync_usage 3 solo solo_engine) solo"
  using sync_usage_counters [OF wf_stateD(3) [OF solo_wf], of 3 solo] by blast

end
