(* ===== verification/QF_Lending.thy ===== *)
theory QF_Lending
  imports QF_Sample
begin

text \<open>
  Borrowing and recall: a borrow takes capacity only from a lender whose guarantee stays
  intact, both sides are recorded, and a recall returns what was borrowed. The last section
  shows that a returned borrow leaves the lender's own counter as it was until that tenant
  is synchronised.
\<close>

section \<open>A borrow draws on free guaranteed capacity\<close>

lemma find_lender_Some:
  assumes "find_lender im borrower amount = Some l"
  shows "l \<noteq> borrower \<and> tenant_exists im l \<and> lender_covers im l amount"
proof -
  obtain tn where f: "find (\<lambda>(lender, tn). lender \<noteq> borrower \<and> lender_covers im lender amount) (im_tenants im) = Some (l, tn)"
    using assms by (auto simp: find_lender_def)
  then have "(l, tn) \<in> set (im_tenants im)" "l \<noteq> borrower \<and> lender_covers im l amount"
    by (auto simp: find_Some_iff in_set_conv_nth)
  moreover from this(1) have "map_of (im_tenants im) l \<noteq> None"
    using weak_map_of_SomeI by fastforce
  ultimately show ?thesis by (simp add: tenant_exists_def contains_key_def)
qed

text \<open>The ids drawn for a lending offer and a borrow are not in use.\<close>

definition next_lending_id :: "impl \<Rightarrow> lending_id" where
  "next_lending_id im = fst (make_id (ig_lending (im_ids im)))"

definition next_borrow_id :: "impl \<Rightarrow> borrow_id" where
  "next_borrow_id im = fst (make_id (ig_borrow (im_ids im)))"

definition fresh_borrow :: "impl \<Rightarrow> bool" where
  "fresh_borrow im \<longleftrightarrow>
     map_of (im_lends im) (next_lending_id im) = None \<and> map_of (im_borrows im) (next_borrow_id im) = None"

lemma draw_from_simps:
  assumes "draw_from im now l b amount r = (im', rec)" "l \<noteq> b"
  shows "br_id rec = next_borrow_id im" "br_lending rec = next_lending_id im" "br_lender rec = l" "br_borrower rec = b"
    "br_amount rec = amount" "br_consumed rec = amount" "br_debt rec = amount" "\<not> br_recalled rec"
    "im_borrows im' = emplace (br_id rec) rec (im_borrows im)"
    "im_lends im' = emplace (br_lending rec) (new_lending im now (br_lending rec) l b amount) (im_lends im)"
    "im_tenants im' = im_tenants im" "im_epoch im' = im_epoch im" "im_reservations im' = im_reservations im"
    "im_allocations im' = im_allocations im"
    "us_lent (usage_of im' l) = rv_acc (us_lent (usage_of im l)) amount"
    "us_consumption (usage_of im' l) = us_consumption (usage_of im l)"
    "us_reserved (usage_of im' l) = us_reserved (usage_of im l)"
    "us_borrowed_consumed (usage_of im' b) = rv_acc (us_borrowed_consumed (usage_of im b)) amount"
    "us_borrowed_consumed (usage_of im' l) = us_borrowed_consumed (usage_of im l)"
    "us_consumption (usage_of im' b) = us_consumption (usage_of im b)"
    "us_reserved (usage_of im' b) = us_reserved (usage_of im b)"
    "us_lent (usage_of im' b) = us_lent (usage_of im b)"
    "t \<noteq> l \<Longrightarrow> t \<noteq> b \<Longrightarrow> usage_of im' t = usage_of im t"
proof -
  obtain lid :: lending_id and glend where gl: "make_id (ig_lending (im_ids im)) = (lid, glend)"
    by (cases "make_id (ig_lending (im_ids im)) :: lending_id \<times> id_gen")
  obtain bid :: borrow_id and gborr where gb: "make_id (ig_borrow (im_ids im)) = (bid, gborr)"
    by (cases "make_id (ig_borrow (im_ids im)) :: borrow_id \<times> id_gen")
  have rec: "rec = new_borrow im now bid lid l b amount r"
    using assms(1) by (auto simp: draw_from_def gl gb Let_def)
  define im1 where "im1 = im\<lparr>im_ids := (im_ids im)\<lparr>ig_lending := glend, ig_borrow := gborr\<rparr>,
      im_lends := emplace lid (new_lending im now lid l b amount) (im_lends im),
      im_borrows := emplace bid rec (im_borrows im)\<rparr>"
  have im': "im' = emit_event now ET_LEND l (''lent '' @ rv_to_string amount @ '' to borrower'')
      (emit_event now ET_BORROW b (''borrowed '' @ rv_to_string amount @ '' from lender'')
        (usage_mut b (\<lambda>u. u\<lparr>us_debt := rv_acc (us_debt u) amount\<rparr>)
          (usage_mut b (\<lambda>u. u\<lparr>us_borrowed_consumed := rv_acc (us_borrowed_consumed u) amount\<rparr>)
            (usage_mut l (\<lambda>u. u\<lparr>us_lent := rv_acc (us_lent u) amount\<rparr>) im1))))"
    using assms(1) by (auto simp: draw_from_def gl gb Let_def im1_def rec)
  have u: "usage_of im1 t = usage_of im t" for t by (simp add: usage_of_def im1_def)
  have ids: "bid = next_borrow_id im" "lid = next_lending_id im"
    by (simp_all add: next_borrow_id_def next_lending_id_def gl gb)
  show "br_id rec = next_borrow_id im" "br_lending rec = next_lending_id im" "br_lender rec = l" "br_borrower rec = b"
    "br_amount rec = amount" "br_consumed rec = amount" "br_debt rec = amount" "\<not> br_recalled rec"
    by (simp_all add: rec new_borrow_def ids)
  show "im_borrows im' = emplace (br_id rec) rec (im_borrows im)"
    "im_lends im' = emplace (br_lending rec) (new_lending im now (br_lending rec) l b amount) (im_lends im)"
    "im_tenants im' = im_tenants im" "im_epoch im' = im_epoch im" "im_reservations im' = im_reservations im"
    "im_allocations im' = im_allocations im"
    by (simp_all add: im' im1_def rec new_borrow_def)
  show "us_lent (usage_of im' l) = rv_acc (us_lent (usage_of im l)) amount"
    "us_consumption (usage_of im' l) = us_consumption (usage_of im l)"
    "us_reserved (usage_of im' l) = us_reserved (usage_of im l)"
    "us_borrowed_consumed (usage_of im' b) = rv_acc (us_borrowed_consumed (usage_of im b)) amount"
    "us_borrowed_consumed (usage_of im' l) = us_borrowed_consumed (usage_of im l)"
    "us_consumption (usage_of im' b) = us_consumption (usage_of im b)"
    "us_reserved (usage_of im' b) = us_reserved (usage_of im b)"
    "us_lent (usage_of im' b) = us_lent (usage_of im b)"
    "t \<noteq> l \<Longrightarrow> t \<noteq> b \<Longrightarrow> usage_of im' t = usage_of im t"
    using assms(2) by (simp_all add: im' u)
qed

lemma borrow_success:
  assumes "borrow im now b amount auth = (im', Inr rec)"
  obtains im1 where "valid_authority im auth" "tenant_exists im b" "find_lender im b amount = Some (br_lender rec)"
    "draw_from im now (br_lender rec) b amount None = (im1, rec)" "im' = sync_usage now b im1"
    "br_lender rec \<noteq> b"
proof -
  obtain l im1 where l: "find_lender im b amount = Some l" "draw_from im now l b amount None = (im1, rec)"
    and r: "valid_authority im auth" "tenant_exists im b" "im' = sync_usage now b im1"
    using assms by (auto simp: borrow_def borrow_impl_def split: if_splits option.splits prod.splits)
  have "l \<noteq> b" using find_lender_Some [OF l(1)] by simp
  with l draw_from_simps(3) [OF l(2)] r show thesis by (intro that) auto
qed

lemma lender_covers_avail: "lender_covers im l amount \<Longrightarrow> rv_present amount d \<Longrightarrow> rv_get amount d \<le> available_to_lend im l d"
  by (simp add: lender_covers_def not_less)

text \<open>
  C17. A successful borrow takes from another, existing tenant: the lender's committed usage
  is unchanged, its lent counter grows by exactly the amount, and committed plus lent stays
  within the lender's guarantee, so the guarantee remains restorable.
\<close>

theorem borrow_preserves_guarantee:
  assumes "wf_state im" "rv_ok amount" "borrow im now b amount auth = (im', Inr rec)"
    and "rv_present amount d" "0 < rv_get amount d" "rv_fits (us_lent (usage_of im (br_lender rec))) amount"
  shows "br_lender rec \<noteq> b \<and> tenant_exists im (br_lender rec) \<and>
    rv_get (committed_of (usage_of im' (br_lender rec))) d = rv_get (committed_of (usage_of im (br_lender rec))) d \<and>
    rv_get (us_lent (usage_of im' (br_lender rec))) d = rv_get (us_lent (usage_of im (br_lender rec))) d + rv_get amount d \<and>
    rv_get (committed_of (usage_of im' (br_lender rec))) d + rv_get (us_lent (usage_of im' (br_lender rec))) d
      \<le> guarantee_at (effective_lattice im (br_lender rec)) d"
proof -
  let ?l = "br_lender rec"
  from borrow_success [OF assms(3)] obtain im1 where
    f: "find_lender im b amount = Some ?l" and dr: "draw_from im now ?l b amount None = (im1, rec)"
    and im': "im' = sync_usage now b im1" and ne: "?l \<noteq> b" by metis
  note D = draw_from_simps [OF dr ne]
  have cov: "tenant_exists im ?l" "lender_covers im ?l amount" using find_lender_Some [OF f] by auto
  have u: "usage_of im' ?l = usage_of im1 ?l" using ne by (simp add: im')
  have lent: "rv_get (us_lent (usage_of im' ?l)) d = rv_get (us_lent (usage_of im ?l)) d + rv_get amount d"
    using assms(4,6) rv_acc_fits [OF usages_okD(5) [OF wf_stateD(2) [OF assms(1)]] assms(2,6)] by (simp add: u D(15))
  have com: "committed_of (usage_of im' ?l) = committed_of (usage_of im ?l)"
    by (simp add: committed_of_def u D(16,17))
  have "rv_get (committed_of (usage_of im ?l)) d + rv_get (us_lent (usage_of im ?l)) d + rv_get amount d
      \<le> guarantee_at (effective_lattice im ?l) d"
    using available_to_lend_headroom [OF wf_stateD(1,2) [OF assms(1)] assms(5)
        lender_covers_avail [OF cov(2) assms(4)]] by simp
  then show ?thesis using ne cov lent com by simp
qed

section \<open>Recall\<close>

lemma rv_min_self: "rv_ok v \<Longrightarrow> rv_min v v = v"
  by (rule rv_eqI) (auto simp: rv_min_val)

lemma rv_minus_self: "rv_ok v \<Longrightarrow> rv_get (rv_minus v v) d = 0"
  by (auto simp: rv_okD)

lemma rv_acc_zero:
  assumes "rv_ok r" "rv_ok z" "\<And>d. rv_get z d = 0"
  shows "rv_get (rv_acc r z) d = rv_get r d"
proof -
  have "rv_fits r z" using assms by (intro rv_fitsI) (auto simp: rv_okD)
  then show ?thesis using assms by (simp add: rv_acc_fits)
qed

lemma update_emplace_new: "map_of m k = None \<Longrightarrow> AList.update k v' (emplace k v m) = m @ [(k, v')]"
proof -
  assume "map_of m k = None"
  moreover have "k \<notin> fst ` set m \<Longrightarrow> AList.update k v' (m @ [(k, v)]) = m @ [(k, v')]" by (induction m) auto
  ultimately show ?thesis by (simp add: emplace_new map_of_eq_None_iff)
qed

text \<open>What \<open>return_borrow\<close> does to the records when the whole borrow is handed back.\<close>

lemma return_borrow_records:
  assumes "map_of (im_borrows im) bid = Some b" "\<not> br_recalled b" "rv_ok (br_consumed b)"
    and "map_of (im_lends im) (br_lending b) = Some l"
  shows "snd (return_borrow im now bid (br_consumed b)) = status_success"
    "im_borrows (fst (return_borrow im now bid (br_consumed b))) =
       AList.update bid (b\<lparr>br_consumed := rv_sub_sat (br_consumed b) (br_consumed b), br_recalled := True\<rparr>) (im_borrows im)"
    "im_lends (fst (return_borrow im now bid (br_consumed b))) =
       AList.update (br_lending b) (l\<lparr>ln_outstanding := rv_sub_sat (ln_outstanding l) (br_consumed b)\<rparr>) (im_lends im)"
    "im_reservations (fst (return_borrow im now bid (br_consumed b))) = im_reservations im"
    "im_allocations (fst (return_borrow im now bid (br_consumed b))) = im_allocations im"
    "im_epoch (fst (return_borrow im now bid (br_consumed b))) = im_epoch im"
  using assms by (simp_all add: return_borrow_def Let_def rv_min_self return_to_lender_def)

lemma computed_lent_append:
  assumes "im_lends im' = im_lends im @ [(k, l)]"
  shows "computed_lent im' t =
    (if ln_lender l = t \<and> rv_present_count (ln_outstanding l) \<noteq> 0 then rv_acc (computed_lent im t) (ln_outstanding l)
     else computed_lent im t)"
  by (simp add: computed_lent_def assms)

lemma computed_borrowed_append:
  assumes "im_borrows im' = im_borrows im @ [(k, b)]"
  shows "computed_borrowed im' t =
    (if br_borrower b = t \<and> \<not> br_recalled b then rv_acc (computed_borrowed im t) (br_consumed b) else computed_borrowed im t)"
  by (simp add: computed_borrowed_def assms)

text \<open>
  C18. Recalling a fresh borrow succeeds and gives the lender's lent amounts and the
  borrower's borrowed counter their values from before the borrow; a second recall of the
  same record is refused as already returned and changes nothing. Hypotheses: the state is
  well formed, the ids drawn for the borrow and its lending record were not in use, the
  recalls carry the current epoch, and before the borrow the lender's lent counter and the
  borrower's borrowed counter agreed with the records; release and the roll-back of reserve
  can leave the lent counter stale.
\<close>

theorem borrow_recall_roundtrip:
  assumes "wf_state im" "rv_ok amount" "borrow im now b amount auth = (im', Inr rec)" "fresh_borrow im"
    and "au_epoch auth' = im_epoch im"
    and "us_lent (usage_of im (br_lender rec)) = computed_lent im (br_lender rec)"
    and "us_borrowed_consumed (usage_of im b) = computed_borrowed im b"
  shows "st_ok (snd (recall_borrow im' now' (br_id rec) auth')) \<and>
    (let im'' = fst (recall_borrow im' now' (br_id rec) auth') in
       rv_get (us_lent (usage_of im'' (br_lender rec))) d = rv_get (us_lent (usage_of im (br_lender rec))) d \<and>
       us_borrowed_consumed (usage_of im'' b) = us_borrowed_consumed (usage_of im b) \<and>
       recall_borrow im'' now'' (br_id rec) auth' =
         (im'', status_failure VC_DUPLICATE_RELEASE ''borrow already returned''))"
proof -
  let ?l = "br_lender rec" and ?bid = "br_id rec" and ?lid = "br_lending rec"
  from borrow_success [OF assms(3)] obtain im1 where dr: "draw_from im now ?l b amount None = (im1, rec)"
    and im': "im' = sync_usage now b im1" and ne: "?l \<noteq> b" by metis
  note D = draw_from_simps [OF dr ne]
  let ?lr = "new_lending im now ?lid ?l b amount"
  let ?rec' = "rec\<lparr>br_consumed := rv_sub_sat amount amount, br_recalled := True\<rparr>"
  let ?lr' = "?lr\<lparr>ln_outstanding := rv_sub_sat amount amount\<rparr>"
  have fresh: "map_of (im_lends im) ?lid = None" "map_of (im_borrows im) ?bid = None"
    using assms(4) by (simp_all add: fresh_borrow_def D(1,2))
  have look: "map_of (im_borrows im') ?bid = Some rec" "map_of (im_lends im') ?lid = Some ?lr"
    using fresh by (simp_all add: im' D(9,10) map_of_emplace)
  have okc: "rv_ok (br_consumed rec)" by (simp add: D(6) assms(2))
  note B = return_borrow_records [OF look(1) D(8) okc look(2), of now']
  let ?im3 = "fst (return_borrow im' now' ?bid (br_consumed rec))"
  have bor: "im_borrows ?im3 = im_borrows im @ [(?bid, ?rec')]"
    using B(2) fresh by (simp add: im' D(9) D(6) update_emplace_new)
  have len: "im_lends ?im3 = im_lends im @ [(?lid, ?lr')]"
    using B(3) fresh by (simp add: im' D(10) D(6) update_emplace_new new_lending_def)
  define im'' where "im'' = fst (recall_borrow im' now' ?bid auth')"
  have ep: "\<not> stale_epoch im' auth'" using assms(5) by (simp add: stale_epoch_def im' D(12))
  have rc: "recall_borrow im' now' ?bid auth' =
      (emit_event now' ET_RECALL b ''borrow recalled'' (sync_usage now' ?l (sync_usage now' b ?im3)), status_success)"
    using ep look(1) B(1) by (simp add: recall_borrow_def case_prod_beta D(4))
  have syn: "usage_of im'' ?l = synced (sync_usage now' b ?im3) now' ?l (usage_of ?im3 ?l)"
    "usage_of im'' b = synced ?im3 now' b (usage_of ?im3 b)"
    using ne by (simp_all add: im''_def rc)
  have "rv_get (computed_lent ?im3 ?l) d = rv_get (computed_lent im ?l) d"
    using rv_acc_zero [OF rv_ok_computed(3) [OF wf_stateD(3) [OF assms(1)]] rv_ok_sub_sat [OF assms(2,2)]] assms(2)
    by (simp add: computed_lent_append [OF len] new_lending_def rv_sub_sat_eq rv_minus_self del: rv_minus_simps)
  then have lent: "rv_get (us_lent (usage_of im'' ?l)) d = rv_get (us_lent (usage_of im ?l)) d"
    by (simp add: syn sync_usage_def assms(6))
  have borr: "us_borrowed_consumed (usage_of im'' b) = us_borrowed_consumed (usage_of im b)"
    by (simp add: syn assms(7) computed_borrowed_append [OF bor])
  have "map_of (im_borrows im'') ?bid = Some ?rec'"
    using fresh(2) by (simp add: im''_def rc bor map_add_def)
  moreover have "\<not> stale_epoch im'' auth'"
    using ep B(6) by (simp add: stale_epoch_def im''_def rc)
  ultimately have again: "recall_borrow im'' now'' ?bid auth' =
      (im'', status_failure VC_DUPLICATE_RELEASE ''borrow already returned'')"
    by (simp add: recall_borrow_def return_borrow_def)
  show ?thesis
    using lent borr again rc by (simp add: Let_def im''_def)
qed

section \<open>What a returned borrow leaves behind\<close>

text \<open>
  return_borrow never lowers a counter of a tenant other than the borrower when the lending
  record had an outstanding dimension: the emptiness test looks at presence bits, which a
  subtraction does not clear, so the lender's lent counter keeps the returned amount until
  the lender is synchronised.
\<close>

theorem return_borrow_keeps_lent:
  assumes "map_of (im_borrows im) bid = Some b" "map_of (im_lends im) (br_lending b) = Some l"
    and "rv_present (ln_outstanding l) d" "rv_ok (ln_outstanding l)" "rv_ok amount" "rv_ok (br_consumed b)"
    and "t \<noteq> br_borrower b"
  shows "usage_of (fst (return_borrow im now bid amount)) t = usage_of im t"
proof -
  have "\<not> rv_is_empty (rv_sub_sat (ln_outstanding l) (rv_min amount (br_consumed b)))"
    using assms(3-6) by (auto simp: rv_is_empty_iff rv_sub_sat_eq rv_ok_min)
  then show ?thesis
    using assms(1,2,7) by (simp add: return_borrow_def Let_def return_to_lender_def usage_of_def usage_mut_def map_of_update)
qed

end
