(* ===== verification/QF_Accounted.thy ===== *)
theory QF_Accounted
  imports QF_Lending
begin

text \<open>
  Accounting closure: the counters of every tenant equal the totals recomputed from the
  records. An operation that changes the records of one tenant and then synchronises that
  tenant keeps this for all tenants, because the totals of the others do not read the
  changed records.
\<close>

section \<open>Totals that do not read a changed record\<close>

lemma fold_update_skip:
  assumes "map_of m k = Some r" "\<not> P r" "\<not> P r'"
  shows "fold (\<lambda>(k, x) acc. if P x then f x acc else acc) (AList.update k r' m) s =
    fold (\<lambda>(k, x) acc. if P x then f x acc else acc) m s"
  using assms(1) by (induction m arbitrary: s) (auto simp: assms(2,3) split: if_splits)

lemma fold_emplace_skip:
  "\<not> P r \<Longrightarrow> fold (\<lambda>(k, x) acc. if P x then f x acc else acc) (emplace k r m) s =
    fold (\<lambda>(k, x) acc. if P x then f x acc else acc) m s"
  by (simp add: emplace_def)

lemma fold_delete_skip:
  assumes "distinct_keys m" "map_of m k = Some r" "\<not> P r"
  shows "fold (\<lambda>(k, x) acc. if P x then f x acc else acc) (AList.delete k m) s =
    fold (\<lambda>(k, x) acc. if P x then f x acc else acc) m s"
  using assms(1,2)
proof (induction m arbitrary: s)
  case (Cons a m)
  obtain k' x where a: "a = (k', x)" by (cases a)
  show ?case
  proof (cases "k' = k")
    case True
    then have "AList.delete k m = m" using Cons.prems(1) a by (auto simp: delete_id)
    with True a Cons.prems(2) assms(3) show ?thesis by simp
  next
    case False
    with a Cons show ?thesis by simp
  qed
qed simp

lemma fold_map_skip:
  assumes "\<And>k x. (k, x) \<in> set m \<Longrightarrow> g x = x \<or> (\<not> P x \<and> \<not> P (g x))"
  shows "fold (\<lambda>(k, x) acc. if P x then f x acc else acc) (map (\<lambda>(k, x). (k, g x)) m) s =
    fold (\<lambda>(k, x) acc. if P x then f x acc else acc) m s"
  using assms
proof (induction m arbitrary: s)
  case (Cons a m)
  obtain k x where a: "a = (k, x)" by (cases a)
  have x: "g x = x \<or> (\<not> P x \<and> \<not> P (g x))" using Cons.prems [of k x] a by simp
  have "fold (\<lambda>(k, x) acc. if P x then f x acc else acc) (map (\<lambda>(k, x). (k, g x)) m) s =
      fold (\<lambda>(k, x) acc. if P x then f x acc else acc) m s" for s
    by (rule Cons.IH) (rule Cons.prems, rule list.set_intros(2))
  with x a show ?case by auto
qed simp

text \<open>The aggregates with their condition in positive form.\<close>

lemma reserved_remaining_if:
  "reserved_remaining im t =
     fold (\<lambda>(rid, r) acc. if res_tenant r = t \<and> active_res r then rv_acc acc (remaining_of (alloc_used_by im t) r) else acc)
       (im_reservations im) rv_empty"
  unfolding reserved_remaining_def
  by (rule arg_cong [where f = "\<lambda>g. fold g _ _"]) (auto simp: fun_eq_iff)

definition aggregates ::
  "impl \<Rightarrow> tenant_id \<Rightarrow> resource_vector \<times> resource_vector \<times> resource_vector \<times> resource_vector" where
  "aggregates im t = (reserved_remaining im t, computed_consumed im t, computed_borrowed im t, computed_lent im t)"

definition accounted :: "impl \<Rightarrow> bool" where
  "accounted im \<longleftrightarrow> (\<forall>t. counters_match im t)"

definition counters :: "usage \<Rightarrow> resource_vector \<times> resource_vector \<times> resource_vector \<times> resource_vector" where
  "counters u = (us_reserved u, us_consumption u, us_borrowed_consumed u, us_lent u)"

lemma accounted_iff: "records_ok im \<Longrightarrow> accounted im \<longleftrightarrow> (\<forall>t. counters (usage_of im t) = aggregates im t)"
  by (simp add: accounted_def counters_match_iff aggregates_def counters_def)

lemma aggregates_simps [simp]:
  "aggregates (usage_mut t' f im) t = aggregates im t"
  "aggregates (emit_event now et t' det im) t = aggregates im t"
  "aggregates (sync_usage now t' im) t = aggregates im t"
  by (simp_all add: aggregates_def sync_usage_def)

lemma counters_synced [simp]: "counters (synced im now t u) = aggregates im t"
  by (simp add: counters_def aggregates_def)

lemma records_ok_sync [simp]: "records_ok (sync_usage now t im) = records_ok im"
  by (simp add: sync_usage_def)

text \<open>The rule for an operation that changes the records of one tenant and synchronises it.\<close>

lemma accounted_sync:
  assumes "records_ok im" "accounted im" "records_ok im1"
    and "\<And>t'. t' \<noteq> t \<Longrightarrow> aggregates im1 t' = aggregates im t'"
    and "\<And>t'. t' \<noteq> t \<Longrightarrow> counters (usage_of im1 t') = counters (usage_of im t')"
  shows "accounted (emit_event now et ev det (sync_usage now t im1))"
  using assms by (auto simp: accounted_iff)

lemma alloc_used_by_cong_if:
  assumes "fold (\<lambda>(k, a) m. if al_active a \<and> al_tenant a = t then map_add_vector (al_reservation a) (al_used a) m else m) xs [] =
      fold (\<lambda>(k, a) m. if al_active a \<and> al_tenant a = t then map_add_vector (al_reservation a) (al_used a) m else m) ys []"
    and "im_allocations im = xs" "im_allocations im' = ys"
  shows "alloc_used_by im t = alloc_used_by im' t"
  using assms by (simp add: alloc_used_by_def)

section \<open>The links between records\<close>

definition links_ok :: "impl \<Rightarrow> bool" where
  "links_ok im \<longleftrightarrow>
     (\<forall>(k, a) \<in> set (im_allocations im). \<forall>r. map_of (im_reservations im) (al_reservation a) = Some r \<longrightarrow>
        res_tenant r = al_tenant a)"

section \<open>Operations\<close>

lemma aggregates_reservations:
  assumes "im_allocations im' = im_allocations im" "im_borrows im' = im_borrows im" "im_lends im' = im_lends im"
    and "\<And>f. fold (\<lambda>(rid, r) acc. if res_tenant r = t \<and> active_res r then f r acc else acc) (im_reservations im') rv_empty =
        fold (\<lambda>(rid, r) acc. if res_tenant r = t \<and> active_res r then f r acc else acc) (im_reservations im) rv_empty"
  shows "aggregates im' t = aggregates im t"
proof -
  have "alloc_used_by im' t = alloc_used_by im t" by (simp add: alloc_used_by_def assms(1))
  then have "reserved_remaining im' t = reserved_remaining im t"
    unfolding reserved_remaining_if by (simp only: assms(4))
  then show ?thesis
    by (simp add: aggregates_def computed_consumed_def computed_borrowed_def computed_lent_def assms(1-3))
qed

lemma aggregates_allocations:
  assumes "im_reservations im' = im_reservations im" "im_borrows im' = im_borrows im" "im_lends im' = im_lends im"
    and "\<And>f s. fold (\<lambda>(aid, a) acc. if al_active a \<and> al_tenant a = t then f a acc else acc) (im_allocations im') s =
        fold (\<lambda>(aid, a) acc. if al_active a \<and> al_tenant a = t then f a acc else acc) (im_allocations im) (s :: resource_vector)"
    and "\<And>f s. fold (\<lambda>(aid, a) acc. if al_active a \<and> al_tenant a = t then f a acc else acc) (im_allocations im') s =
        fold (\<lambda>(aid, a) acc. if al_active a \<and> al_tenant a = t then f a acc else acc) (im_allocations im) (s :: (reservation_id, resource_vector) hmap)"
  shows "aggregates im' t = aggregates im t"
proof -
  have "alloc_used_by im' t = alloc_used_by im t"
    unfolding alloc_used_by_def by (rule assms(5))
  moreover have "computed_consumed im' t = computed_consumed im t"
    using assms(4) [of "\<lambda>a acc. rv_acc acc (al_used a)" rv_empty] by (simp add: computed_consumed_def conj_commute)
  ultimately show ?thesis
    by (simp add: aggregates_def reserved_remaining_if computed_borrowed_def computed_lent_def assms(1-3) cong: if_cong)
qed

lemma aggregates_alloc_update:
  assumes "map_of (im_allocations im) aid = Some a" "al_tenant a \<noteq> t" "al_tenant a' \<noteq> t"
  shows "aggregates (im\<lparr>im_allocations := AList.update aid a' (im_allocations im)\<rparr>) t = aggregates im t"
  by (rule aggregates_allocations) (use assms(2,3) in \<open>auto intro!: fold_update_skip [OF assms(1)]\<close>)

lemma aggregates_res_update:
  assumes "map_of (im_reservations im) rid = Some r" "res_tenant r \<noteq> t" "res_tenant r' \<noteq> t"
  shows "aggregates (im\<lparr>im_reservations := AList.update rid r' (im_reservations im)\<rparr>) t = aggregates im t"
  by (rule aggregates_reservations) (use assms(2,3) in \<open>auto intro!: fold_update_skip [OF assms(1)]\<close>)

lemma counters_record_update [simp]:
  "usage_of (im\<lparr>im_allocations := x\<rparr>) t = usage_of im t"
  "usage_of (im\<lparr>im_reservations := y\<rparr>) t = usage_of im t"
  "usage_of (im\<lparr>im_funding := z\<rparr>) t = usage_of im t"
  "usage_of (im\<lparr>im_ids := w\<rparr>) t = usage_of im t"
  by (simp_all add: usage_of_def)

lemma accounted_release_allocation:
  assumes "wf_state im" "accounted im"
  shows "accounted (fst (release_allocation im now aid auth))"
proof -
  have "accounted (emit_event now ET_RELEASE (al_tenant a) ''allocation released'' (sync_usage now (al_tenant a)
      (im\<lparr>im_allocations := AList.update aid (a\<lparr>al_active := False, al_ended_at := now\<rparr>) (im_allocations im)\<rparr>)))"
    if "map_of (im_allocations im) aid = Some a" for a
  proof (rule accounted_sync [OF wf_stateD(3) [OF assms(1)] assms(2)])
    show "records_ok (im\<lparr>im_allocations := AList.update aid (a\<lparr>al_active := False, al_ended_at := now\<rparr>) (im_allocations im)\<rparr>)"
      using wf_lookup(2) [OF assms(1) that] by (intro wf_stateD(3) wf_alloc_update assms(1)) simp_all
  qed (use that in \<open>simp_all add: aggregates_alloc_update\<close>)
  with assms(2) show ?thesis
    by (simp add: release_allocation_def Let_def split: option.split)
qed

lemma accounted_resize_allocation:
  assumes "wf_state im" "accounted im" "rv_ok delta" "st_ok (snd (resize_allocation im now aid delta auth))"
  shows "accounted (fst (resize_allocation im now aid delta auth))"
proof -
  have "accounted (emit_event now ET_RESERVATION (al_tenant a) ''allocation resized'' (sync_usage now (al_tenant a)
      (im\<lparr>im_allocations := AList.update aid (a\<lparr>al_used := rv_min (snd (rv_add (al_used a) delta True)) (al_resources a)\<rparr>)
        (im_allocations im)\<rparr>)))"
    if "map_of (im_allocations im) aid = Some a" for a
  proof (rule accounted_sync [OF wf_stateD(3) [OF assms(1)] assms(2)])
    show "records_ok (im\<lparr>im_allocations := AList.update aid
        (a\<lparr>al_used := rv_min (snd (rv_add (al_used a) delta True)) (al_resources a)\<rparr>) (im_allocations im)\<rparr>)"
      using wf_lookup(2) [OF assms(1) that] assms(3)
      by (intro wf_stateD(3) wf_alloc_update assms(1)) (simp_all add: rv_ok_min rv_add_def rv_ok_add_loop)
  qed (use that in \<open>simp_all add: aggregates_alloc_update\<close>)
  with assms(2,4) show ?thesis
    by (auto simp: resize_allocation_def Let_def split: option.splits if_splits)
qed

lemma accounted_commit_reservation:
  assumes "wf_state im" "accounted im"
  shows "accounted (fst (commit_reservation im now rid auth))"
proof -
  have "accounted (emit_event now ET_RESERVATION (res_tenant r) ''reservation committed'' (sync_usage now (res_tenant r)
      (im\<lparr>im_reservations := AList.update rid (r\<lparr>res_status := RS_COMMITTED, res_quota_generation := im_quota_generation im\<rparr>)
        (im_reservations im)\<rparr>)))"
    if "map_of (im_reservations im) rid = Some r" for r
  proof (rule accounted_sync [OF wf_stateD(3) [OF assms(1)] assms(2)])
    show "records_ok (im\<lparr>im_reservations := AList.update rid
        (r\<lparr>res_status := RS_COMMITTED, res_quota_generation := im_quota_generation im\<rparr>) (im_reservations im)\<rparr>)"
      using wf_lookup(1) [OF assms(1) that] wf_recordsD [OF assms(1)]
      by (intro wf_stateD(3) wf_reservations assms(1) distinct_keys_update wf_keys values_update_all) simp_all
  qed (use that in \<open>simp_all add: aggregates_res_update\<close>)
  with assms(2) show ?thesis
    by (simp add: commit_reservation_def Let_def split: option.split)
qed

lemma aggregates_ids [simp]: "aggregates (im\<lparr>im_ids := w\<rparr>) t = aggregates im t"
  by (simp add: aggregates_def reserved_remaining_def alloc_used_by_def computed_consumed_def
      computed_borrowed_def computed_lent_def cong: if_cong)

lemma accounted_start_allocation:
  assumes "wf_state im" "accounted im" "rv_ok req"
  shows "accounted (fst (start_allocation im now rid req auth))"
proof -
  have "accounted (emit_event now ET_RESERVATION (res_tenant r) ''allocation started'' (sync_usage now (res_tenant r)
      (im\<lparr>im_ids := g, im_allocations := emplace aid (new_allocation im now aid rid r req auth) (im_allocations im),
         im_reservations := AList.update rid (r\<lparr>res_status := RS_CONSUMED\<rparr>) (im_reservations im)\<rparr>)))"
    if r: "map_of (im_reservations im) rid = Some r" for r g aid
  proof (rule accounted_sync [OF wf_stateD(3) [OF assms(1)] assms(2)])
    let ?al = "new_allocation im now aid rid r req auth" and ?r = "r\<lparr>res_status := RS_CONSUMED\<rparr>"
    let ?im1 = "im\<lparr>im_ids := g, im_allocations := emplace aid ?al (im_allocations im)\<rparr>"
    show "records_ok (im\<lparr>im_ids := g, im_allocations := emplace aid ?al (im_allocations im),
         im_reservations := AList.update rid ?r (im_reservations im)\<rparr>)"
      using wf_recordsD [OF assms(1)] wf_lookup(1) [OF assms(1) r] assms(3)
      by (intro wf_stateD(3) wf_reservations wf_allocations wf_ids assms(1) distinct_keys_emplace distinct_keys_update
          wf_keys values_emplace_all values_update_all) (simp_all add: new_allocation_def)
    fix t' assume t': "t' \<noteq> res_tenant r"
    have "aggregates ?im1 t' = aggregates im t'"
      by (rule aggregates_allocations) (use t' in \<open>auto intro!: fold_emplace_skip simp: new_allocation_def\<close>)
    moreover have "aggregates (?im1\<lparr>im_reservations := AList.update rid ?r (im_reservations ?im1)\<rparr>) t' = aggregates ?im1 t'"
      using r t' by (intro aggregates_res_update) auto
    ultimately show "aggregates (im\<lparr>im_ids := g, im_allocations := emplace aid ?al (im_allocations im),
         im_reservations := AList.update rid ?r (im_reservations im)\<rparr>) t' = aggregates im t'" by simp
  qed simp
  with assms(2) show ?thesis
    by (simp add: start_allocation_def Let_def case_prod_beta split: option.split)
qed

text \<open>A state that agrees with a synchronised one on counters and aggregates.\<close>

lemma accounted_by_counters:
  assumes "records_ok im" "accounted im" "records_ok im'"
    and "\<And>t'. t' \<noteq> t \<Longrightarrow> aggregates im' t' = aggregates im t'"
    and "\<And>t'. t' \<noteq> t \<Longrightarrow> counters (usage_of im' t') = counters (usage_of im t')"
    and "counters (usage_of im' t) = aggregates im' t"
  shows "accounted im'"
  using assms by (auto simp: accounted_iff) (metis)

lemma accounted_reserve:
  assumes "wf_state im" "accounted im" "rv_ok req" "reserve im now t req auth = (im', Inr res)" "unborrowed im' res"
  shows "accounted im'"
proof -
  from reserve_success [OF assms(4)] obtain im2 burst ids where
    loop: "reserve_loop now t req auth (effective_lattice im t) (committed_of (usage_of im t))
       all_resource_dimensions (usage_mut t (\<lambda>u. u) im) rv_empty [] = (im2, Inr (burst, ids))"
    and rc: "record_reservation now t req auth burst ids (activate_burst now t (effective_lattice im t) burst im2) = (im', res)"
    by metis
  note R = reserve_unborrowed [OF assms(4,5)] and S = record_reservation_simps [OF rc]
  show ?thesis
  proof (rule accounted_by_counters [OF wf_stateD(3) [OF assms(1)] assms(2), where t = t])
    show "records_ok im'" using wf_reserve [OF assms(1,3), of now t auth] assms(4) by (simp add: wf_stateD)
    show "aggregates im' t' = aggregates im t'" if "t' \<noteq> t" for t'
      by (rule aggregates_reservations [OF R(7,8,9)])
         (use that R(2) in \<open>auto simp: R(5) intro!: fold_emplace_skip\<close>)
    show "counters (usage_of im' t') = counters (usage_of im t')" if "t' \<noteq> t" for t'
      using R(13) [OF that] by simp
    show "counters (usage_of im' t) = aggregates im' t"
      by (simp add: counters_def aggregates_def S(14-17))
  qed
qed

lemma accounted_release:
  assumes "wf_state im" "accounted im" "links_ok im" "\<not> stale_epoch im auth"
    and "map_of (im_reservations im) rid = Some r" "active_res r"
    and "map_of (im_funding im) rid = Some f" "fu_borrows f = []"
  shows "accounted (fst (release im now rid auth))"
proof -
  note L = release_no_borrows [OF assms(4-8), where now = now]
  let ?im' = "fst (release im now rid auth)"
  let ?off = "\<lambda>a. if al_reservation a = rid then a\<lparr>al_active := False\<rparr> else a"
  have wf': "wf_state ?im'" by (rule wf_release [OF assms(1)])
  have rec: "im_borrows ?im' = im_borrows im" "im_lends ?im' = im_lends im"
    "us_borrowed_consumed (usage_of ?im' (res_tenant r)) = computed_borrowed ?im' (res_tenant r)"
    "us_lent (usage_of ?im' (res_tenant r)) = computed_lent ?im' (res_tenant r)"
    using assms(4-8) by (simp_all add: release_def Let_def return_all_def sync_usage_def)
  show ?thesis
  proof (rule accounted_by_counters [OF wf_stateD(3) [OF assms(1)] assms(2), where t = "res_tenant r"])
    show "records_ok ?im'" using wf' by (rule wf_stateD)
    fix t' assume t': "t' \<noteq> res_tenant r"
    define im1 where "im1 = im\<lparr>im_allocations := map (\<lambda>(aid, a). (aid, ?off a)) (im_allocations im)\<rparr>"
    have own: "al_tenant a = res_tenant r" if "(k, a) \<in> set (im_allocations im)" "al_reservation a = rid" for k a
      using assms(3,5) that by (force simp: links_ok_def)
    have skip: "?off a = a \<or> (\<not> (al_active a \<and> al_tenant a = t') \<and> \<not> (al_active (?off a) \<and> al_tenant (?off a) = t'))"
      if "(k, a) \<in> set (im_allocations im)" for k a
      using own [OF that] t' by auto
    have "aggregates im1 t' = aggregates im t'"
      unfolding im1_def
      by (rule aggregates_allocations) (simp_all, (rule fold_map_skip, rule skip, assumption)+)
    moreover have "aggregates ?im' t' = aggregates im1 t'"
    proof (rule aggregates_reservations)
      show "im_allocations ?im' = im_allocations im1" "im_borrows ?im' = im_borrows im1" "im_lends ?im' = im_lends im1"
        by (simp_all add: L(4) rec im1_def)
    qed (use t' in \<open>auto simp: L(2) im1_def intro!: fold_delete_skip [OF wf_keys(6) [OF assms(1)] assms(5)]\<close>)
    ultimately show "aggregates ?im' t' = aggregates im t'" by simp
    show "counters (usage_of ?im' t') = counters (usage_of im t')" using L(5) [OF t'] by simp
  qed (simp add: counters_def aggregates_def L(6,7) rec)
qed

lemma accounted_cong:
  assumes "accounted im" "im_usage im' = im_usage im" "im_reservations im' = im_reservations im"
    "im_allocations im' = im_allocations im" "im_borrows im' = im_borrows im" "im_lends im' = im_lends im"
  shows "accounted im'"
proof -
  have "recompute im' t = recompute im t" for t
    by (simp add: recompute_def reserved_remaining_def alloc_used_by_def assms(3-6) cong: if_cong)
  then show ?thesis
    using assms(1,2) by (simp add: accounted_def counters_match_def counter_error_def usage_of_def)
qed

lemma accounted_sync_any: "records_ok im \<Longrightarrow> accounted im \<Longrightarrow> accounted (sync_usage now t im)"
  by (simp add: accounted_iff)

lemma accounted_draw_from:
  assumes "wf_state im" "accounted im" "rv_ok amount" "fresh_borrow im" "l \<noteq> b"
    and dr: "draw_from im now l b amount r = (im', rec)"
  shows "accounted im'"
proof -
  note D = draw_from_simps [OF dr assms(5)]
  have wf': "wf_state im'" using wf_draw_from [OF assms(1,3), of now l b r] dr by simp
  have fresh: "map_of (im_lends im) (br_lending rec) = None" "map_of (im_borrows im) (br_id rec) = None"
    using assms(4) by (simp_all add: fresh_borrow_def D(1,2))
  have lends: "im_lends im' = im_lends im @ [(br_lending rec, new_lending im now (br_lending rec) l b amount)]"
    by (simp add: D(10) emplace_new fresh)
  have bors: "im_borrows im' = im_borrows im @ [(br_id rec, rec)]" by (simp add: D(9) emplace_new fresh)
  have lent: "computed_lent im' t = (if t = l then rv_acc (computed_lent im t) amount else computed_lent im t)" for t
    using rv_ok_empty_eq [OF assms(3)]
    by (auto simp: computed_lent_append [OF lends] new_lending_def rv_present_count_zero)
  have borr: "computed_borrowed im' t = (if t = b then rv_acc (computed_borrowed im t) amount else computed_borrowed im t)" for t
    by (auto simp: computed_borrowed_append [OF bors] D(4,6,8))
  have rest: "reserved_remaining im' t = reserved_remaining im t" "computed_consumed im' t = computed_consumed im t" for t
    by (rule reserved_remaining_cong computed_consumed_cong; simp add: D(13,14))+
  have old: "counters (usage_of im t) = aggregates im t" for t
    using assms(2) by (simp add: accounted_iff [OF wf_stateD(3) [OF assms(1)]])
  have "counters (usage_of im' t) = aggregates im' t" for t
  proof -
    consider "t = l" | "t = b" | "t \<noteq> l" "t \<noteq> b" by blast
    then show ?thesis
    proof cases
      case 1
      then show ?thesis using old [of l] assms(5) by (simp add: counters_def aggregates_def lent borr rest D(15-17,19))
    next
      case 2
      then show ?thesis using old [of b] assms(5) by (simp add: counters_def aggregates_def lent borr rest D(18,20-22))
    next
      case 3
      then show ?thesis using old [of t] by (simp add: D(23) aggregates_def lent borr rest)
    qed
  qed
  then show ?thesis by (simp add: accounted_iff [OF wf_stateD(3) [OF wf']])
qed

lemma accounted_borrow_impl:
  assumes "wf_state im" "accounted im" "rv_ok amount" "fresh_borrow im"
  shows "accounted (fst (borrow_impl im now b amount auth r))"
proof (cases "find_lender im b amount")
  case (Some l)
  obtain im1 rec where dr: "draw_from im now l b amount r = (im1, rec)" by (cases "draw_from im now l b amount r")
  show ?thesis
    using accounted_draw_from [OF assms _ dr] find_lender_Some [OF Some] by (simp add: borrow_impl_def Some dr)
qed (simp add: borrow_impl_def assms)

lemma accounted_borrow:
  assumes "wf_state im" "accounted im" "rv_ok amount" "fresh_borrow im"
  shows "accounted (fst (borrow im now b amount auth))"
proof -
  obtain im1 r where imp: "borrow_impl im now b amount auth None = (im1, r)" by (cases "borrow_impl im now b amount auth None")
  have "accounted im1" "records_ok im1"
    using accounted_borrow_impl [OF assms, of now b auth None] wf_borrow_impl [OF assms(1,3), of now b auth None] imp
    by (simp_all add: wf_stateD)
  then show ?thesis using assms(2) imp by (cases r) (simp_all add: borrow_def accounted_sync_any)
qed

lemma accounted_lend:
  assumes "wf_state im" "accounted im" "rv_ok amount" "fresh_borrow im"
  shows "accounted (fst (lend im now l b amount auth))"
proof -
  obtain im1 r where imp: "borrow_impl im now b amount auth None = (im1, r)" by (cases "borrow_impl im now b amount auth None")
  have "accounted im1" "records_ok im1"
    using accounted_borrow_impl [OF assms, of now b auth None] wf_borrow_impl [OF assms(1,3), of now b auth None] imp
    by (simp_all add: wf_stateD)
  then show ?thesis
    using assms(2) imp by (cases r) (simp_all add: lend_def accounted_sync_any Let_def split: option.split)
qed

text \<open>The lending offer behind a borrow names the same lender.\<close>

definition lender_link :: "impl \<Rightarrow> borrow_id \<Rightarrow> bool" where
  "lender_link im bid \<longleftrightarrow>
     (case map_of (im_borrows im) bid of None \<Rightarrow> True
      | Some b \<Rightarrow> (case map_of (im_lends im) (br_lending b) of None \<Rightarrow> True | Some l \<Rightarrow> ln_lender l = br_lender b))"

lemma return_to_lender_simps [simp]:
  "im_reservations (return_to_lender lid ret im) = im_reservations im"
  "im_allocations (return_to_lender lid ret im) = im_allocations im"
  "im_borrows (return_to_lender lid ret im) = im_borrows im"
  by (simp_all add: return_to_lender_def Let_def split: option.split)

lemma return_borrow_maps:
  assumes "map_of (im_borrows im) bid = Some b" "\<not> br_recalled b" "im' = fst (return_borrow im now bid amount)"
  shows "im_borrows im' = AList.update bid
      (b\<lparr>br_consumed := rv_sub_sat (br_consumed b) (rv_min amount (br_consumed b)), br_recalled := True\<rparr>) (im_borrows im)"
    "im_lends im' = (case map_of (im_lends im) (br_lending b) of None \<Rightarrow> im_lends im
      | Some l \<Rightarrow> AList.update (br_lending b)
          (l\<lparr>ln_outstanding := rv_sub_sat (ln_outstanding l) (rv_min amount (br_consumed b))\<rparr>) (im_lends im))"
    "t \<noteq> br_borrower b \<Longrightarrow> (\<And>l. map_of (im_lends im) (br_lending b) = Some l \<Longrightarrow> t \<noteq> ln_lender l) \<Longrightarrow>
      usage_of im' t = usage_of im t"
    "im_reservations im' = im_reservations im" "im_allocations im' = im_allocations im"
proof -
  let ?b = "b\<lparr>br_consumed := rv_sub_sat (br_consumed b) (rv_min amount (br_consumed b)), br_recalled := True\<rparr>"
  let ?ret = "rv_min amount (br_consumed b)"
  define im2 where "im2 = usage_mut (br_borrower b) (\<lambda>u. u\<lparr>us_debt := rv_sub_sat (us_debt u) ?ret\<rparr>)
      (usage_mut (br_borrower b) (\<lambda>u. u\<lparr>us_borrowed_consumed := rv_sub_sat (us_borrowed_consumed u) ?ret\<rparr>)
        (im\<lparr>im_borrows := AList.update bid ?b (im_borrows im)\<rparr>))"
  have im': "im' = emit_event now ET_RECALL (br_borrower b) ''borrow returned'' (return_to_lender (br_lending b) ?ret im2)"
    using assms(1,2) by (simp add: assms(3) return_borrow_def Let_def im2_def)
  have u: "usage_of im2 t = usage_of im t" if "t \<noteq> br_borrower b"
    using that by (simp add: im2_def) (simp add: usage_of_def)
  show "im_borrows im' = AList.update bid ?b (im_borrows im)" "im_reservations im' = im_reservations im"
    "im_allocations im' = im_allocations im"
    by (simp_all add: im') (simp_all add: im2_def)
  show "im_lends im' = (case map_of (im_lends im) (br_lending b) of None \<Rightarrow> im_lends im
      | Some l \<Rightarrow> AList.update (br_lending b) (l\<lparr>ln_outstanding := rv_sub_sat (ln_outstanding l) ?ret\<rparr>) (im_lends im))"
    by (simp add: im' return_to_lender_def Let_def im2_def split: option.split)
  assume "t \<noteq> br_borrower b" and l: "\<And>l. map_of (im_lends im) (br_lending b) = Some l \<Longrightarrow> t \<noteq> ln_lender l"
  then have "usage_of (return_to_lender (br_lending b) ?ret im2) t = usage_of im2 t"
    by (auto simp: return_to_lender_def Let_def im2_def usage_of_def usage_mut_def map_of_update split: option.split)
  then show "usage_of im' t = usage_of im t" using u \<open>t \<noteq> br_borrower b\<close> by (simp add: im')
qed

lemma accounted_recall_borrow:
  assumes "wf_state im" "accounted im" "lender_link im bid"
  shows "accounted (fst (recall_borrow im now bid auth))"
proof (cases "stale_epoch im auth \<or> (\<forall>b. map_of (im_borrows im) bid = Some b \<longrightarrow> br_recalled b)")
  case True
  then show ?thesis using assms(2) by (auto simp: recall_borrow_def return_borrow_def split: option.split)
next
  case False
  then obtain b where b: "\<not> stale_epoch im auth" "map_of (im_borrows im) bid = Some b" "\<not> br_recalled b" by auto
  have okb: "rv_ok (br_consumed b)" using wf_lookup(3) [OF assms(1) b(2)] by simp
  define im3 where "im3 = fst (return_borrow im now bid (br_consumed b))"
  have st: "snd (return_borrow im now bid (br_consumed b)) = status_success"
    using b by (simp add: return_borrow_def Let_def)
  have res: "fst (recall_borrow im now bid auth) = emit_event now ET_RECALL (br_borrower b) ''borrow recalled''
      (sync_usage now (br_lender b) (sync_usage now (br_borrower b) im3))"
    using b st by (simp add: recall_borrow_def case_prod_beta im3_def)
  have wf3: "wf_state im3" unfolding im3_def by (rule wf_return_borrow [OF assms(1) okb])
  note maps = return_borrow_maps [OF b(2,3) im3_def]
  have other: "counters (usage_of im3 t) = aggregates im3 t" if t: "t \<noteq> br_borrower b" "t \<noteq> br_lender b" for t
  proof -
    have "usage_of im3 t = usage_of im t"
      using maps(3) t assms(3) b(2) by (auto simp: lender_link_def split: option.splits)
    moreover have "aggregates im3 t = aggregates im t"
    proof -
      have "im_reservations im3 = im_reservations im" "im_allocations im3 = im_allocations im"
        using maps(4,5) by simp_all
      then have "reserved_remaining im3 t = reserved_remaining im t" "computed_consumed im3 t = computed_consumed im t"
        by (auto intro: reserved_remaining_cong computed_consumed_cong)
      moreover have "computed_borrowed im3 t = computed_borrowed im t"
        unfolding computed_borrowed_def maps(1) by (rule fold_update_skip [OF b(2)]) (use t in auto)
      moreover have "computed_lent im3 t = computed_lent im t"
      proof (cases "map_of (im_lends im) (br_lending b)")
        case (Some l)
        then have "ln_lender l = br_lender b" using assms(3) b(2) by (simp add: lender_link_def)
        then show ?thesis
          unfolding computed_lent_def maps(2) Some option.case by (intro fold_update_skip [OF Some]) (use t in auto)
      qed (simp add: computed_lent_def maps(2))
      ultimately show ?thesis by (simp add: aggregates_def)
    qed
    ultimately show ?thesis using assms(2) by (simp add: accounted_iff [OF wf_stateD(3) [OF assms(1)]])
  qed
  show ?thesis
    unfolding res using other wf_stateD(3) [OF wf3] by (simp add: accounted_iff)
qed

section \<open>Accounting closure\<close>

text \<open>
  The operations that keep the books closed, when the id generators hand out unused ids. Left
  out are an observation, which writes counters directly, a refused resize (it keeps the new
  usage), and everything that borrows or returns inside \<open>reserve\<close> and \<open>release\<close>: a reservation that
  borrowed, one that is rolled back because a borrow failed, and the release of one that
  borrowed do not synchronise the lender.
\<close>

fun closing_op :: "impl \<Rightarrow> int \<Rightarrow> engine_op \<Rightarrow> bool" where
  "closing_op im now (Op_reserve t req a) =
     (case reserve im now t req a of (im', Inr res) \<Rightarrow> unborrowed im' res \<and> fresh_reservation im
      | (im', Inl st) \<Rightarrow> \<not> (valid_authority im a \<and> tenant_exists im t \<and> dec_allowed (classify im now t req)))"
| "closing_op im now (Op_resize_allocation i delta a) = st_ok (snd (resize_allocation im now i delta a))"
| "closing_op im now (Op_release r a) =
     (case map_of (im_funding im) r of None \<Rightarrow> map_of (im_reservations im) r = None | Some f \<Rightarrow> fu_borrows f = [])"
| "closing_op im now (Op_borrow t amount a) = fresh_borrow im"
| "closing_op im now (Op_lend l b amount a) = fresh_borrow im"
| "closing_op im now (Op_apply_observation obs) = False"
| "closing_op im now _ = True"

lemma reserve_refused:
  assumes "reserve im now t req a = (im', Inl st)" "\<not> (valid_authority im a \<and> tenant_exists im t \<and> dec_allowed (classify im now t req))"
  shows "im' = im"
  using assms by (auto simp: reserve_def Let_def split: if_splits)

lemma accounted_reserve_op:
  assumes "wf_state im" "accounted im" "rv_ok req" "closing_op im now (Op_reserve t req a)"
  shows "accounted (fst (reserve im now t req a))"
proof (cases "reserve im now t req a")
  case (Pair im' r)
  show ?thesis
  proof (cases r)
    case (Inl st)
    then have "im' = im" using reserve_refused [of im now t req a im' st] assms(4) Pair by simp
    with Pair assms(2) show ?thesis by simp
  next
    case (Inr res)
    then show ?thesis using accounted_reserve [OF assms(1-3)] assms(4) Pair by simp
  qed
qed

lemma accounted_release_op:
  assumes "wf_state im" "accounted im" "links_ok im" "closing_op im now (Op_release rid a)"
  shows "accounted (fst (release im now rid a))"
proof (cases "\<exists>r. \<not> stale_epoch im a \<and> map_of (im_reservations im) rid = Some r \<and> active_res r")
  case True
  then show ?thesis
    using accounted_release [OF assms(1-3)] assms(4) by (fastforce split: option.splits)
next
  case False
  then have "fst (release im now rid a) = im" by (auto simp: release_def split: option.split)
  with assms(2) show ?thesis by simp
qed

lemma accounted_config:
  assumes "accounted im"
  shows "accounted (fst (set_policy im now p))" "accounted (fst (advance_epoch im now))"
    "accounted (fst (create_group im now n k par))" "accounted (fst (create_group_autoid im n k par))"
    "accounted (fst (create_tenant im now t n g pr))" "accounted (fst (create_tenant_auto im now n g pr))"
    "accounted (fst (set_tenant_quota im now t q))" "accounted (fst (set_group_quota im now gid q))"
    "accounted (fst (snapshot im now))" "accounted (persisted im now path)"
  by (rule accounted_cong [OF assms];
      simp add: set_policy_def advance_epoch_def create_group_def create_group_autoid_def new_group_def create_tenant_def
        create_tenant_auto_def set_tenant_quota_def set_group_quota_def snapshot_def persisted_def Let_def case_prod_beta
        split: option.split)+

subsection \<open>The links are kept\<close>

text \<open>
  Every borrow has its lending offer, which names the same lender, and every allocation belongs
  to the tenant of its reservation.
\<close>

definition linked :: "impl \<Rightarrow> bool" where
  "linked im \<longleftrightarrow> links_ok im \<and>
     (\<forall>bid b. map_of (im_borrows im) bid = Some b \<longrightarrow>
        (\<exists>l. map_of (im_lends im) (br_lending b) = Some l \<and> ln_lender l = br_lender b))"

lemma linked_lender: "linked im \<Longrightarrow> lender_link im bid"
  by (fastforce simp: linked_def lender_link_def split: option.split)

lemma links_ok_kept:
  assumes "links_ok im"
    and "\<And>k a. (k, a) \<in> set (im_allocations im') \<Longrightarrow>
      \<exists>k a0. (k, a0) \<in> set (im_allocations im) \<and> al_reservation a = al_reservation a0 \<and> al_tenant a = al_tenant a0"
    and "\<And>rid r'. map_of (im_reservations im') rid = Some r' \<Longrightarrow>
      \<exists>r. map_of (im_reservations im) rid = Some r \<and> res_tenant r = res_tenant r'"
  shows "links_ok im'"
  using assms unfolding links_ok_def by (fastforce split: prod.splits)

lemma linked_records:
  assumes "linked im" "im_allocations im' = im_allocations im" "im_reservations im' = im_reservations im"
    "im_borrows im' = im_borrows im" "im_lends im' = im_lends im"
  shows "linked im'"
  using assms by (simp add: linked_def links_ok_def)

lemma linked_allocations:
  assumes "linked im" "im_borrows im' = im_borrows im" "im_lends im' = im_lends im" "links_ok im'"
  shows "linked im'"
  using assms by (simp add: linked_def)

lemma linked_reserve:
  assumes "linked im" "closing_op im now (Op_reserve t req a)"
  shows "linked (fst (reserve im now t req a))"
proof (cases "reserve im now t req a")
  case (Pair im' r)
  show ?thesis
  proof (cases r)
    case (Inl st)
    then show ?thesis using reserve_refused [of im now t req a im' st] assms Pair by simp
  next
    case (Inr res)
    with assms(2) Pair have ok: "reserve im now t req a = (im', Inr res)" "unborrowed im' res" "fresh_reservation im" by simp_all
    note R = reserve_unborrowed [OF ok(1,2)]
    have "links_ok im'"
      using assms(1) ok(3) unfolding linked_def links_ok_def R(5,7)
      by (auto simp: map_of_emplace fresh_reservation_def R(1) list_all_iff split: if_splits)
    then show ?thesis using linked_allocations [OF assms(1) R(8,9)] Pair by simp
  qed
qed

lemma linked_release:
  assumes "linked im" "closing_op im now (Op_release rid a)"
  shows "linked (fst (release im now rid a))"
proof (cases "\<exists>r. \<not> stale_epoch im a \<and> map_of (im_reservations im) rid = Some r \<and> active_res r")
  case True
  then obtain r f where rf: "\<not> stale_epoch im a" "map_of (im_reservations im) rid = Some r" "active_res r"
    "map_of (im_funding im) rid = Some f" "fu_borrows f = []"
    using assms(2) by (auto split: option.splits)
  note L = release_no_borrows [OF rf, where now = now]
  have "links_ok (fst (release im now rid a))"
    by (rule links_ok_kept [of im]) (use assms(1) in \<open>auto simp: L(2,4) linked_def map_of_delete split: if_splits\<close>, blast+)
  moreover have "im_borrows (fst (release im now rid a)) = im_borrows im" "im_lends (fst (release im now rid a)) = im_lends im"
    using rf by (simp_all add: release_def Let_def return_all_def)
  ultimately show ?thesis by (rule linked_allocations [OF assms(1), rotated 2])
next
  case False
  then have "fst (release im now rid a) = im" by (auto simp: release_def split: option.split)
  with assms(1) show ?thesis by simp
qed

lemma linked_alloc_update:
  assumes "linked im" "map_of (im_allocations im) aid = Some a" "al_reservation a' = al_reservation a" "al_tenant a' = al_tenant a"
  shows "linked (im\<lparr>im_allocations := AList.update aid a' (im_allocations im)\<rparr>)"
proof (rule linked_allocations [OF assms(1)])
  show "links_ok (im\<lparr>im_allocations := AList.update aid a' (im_allocations im)\<rparr>)"
    by (rule links_ok_kept [of im])
       (use assms in \<open>auto simp: linked_def dest!: set_update_subset [THEN subsetD] map_of_SomeD\<close>)
qed simp_all

lemma linked_res_update:
  assumes "linked im" "map_of (im_reservations im) rid = Some r" "res_tenant r' = res_tenant r"
  shows "linked (im\<lparr>im_reservations := AList.update rid r' (im_reservations im)\<rparr>)"
proof (rule linked_allocations [OF assms(1)])
  show "links_ok (im\<lparr>im_reservations := AList.update rid r' (im_reservations im)\<rparr>)"
    by (rule links_ok_kept [of im]) (use assms in \<open>auto simp: linked_def map_of_update split: if_splits\<close>)
qed simp_all

lemma linked_new_allocation:
  assumes "linked im" "map_of (im_reservations im) (al_reservation a) = Some r" "al_tenant a = res_tenant r"
  shows "linked (im\<lparr>im_allocations := emplace aid a (im_allocations im)\<rparr>)"
  using assms by (auto simp: linked_def links_ok_def dest!: set_emplace_subset [THEN subsetD])

lemma linked_sync [simp]:
  "linked (sync_usage now t im) = linked im" "linked (emit_event now et t det im) = linked im"
  "linked (im\<lparr>im_ids := g\<rparr>) = linked im"
  by (simp_all add: linked_def links_ok_def)

lemma linked_lifecycle:
  assumes "linked im"
  shows "linked (fst (commit_reservation im now rid auth))" "linked (fst (start_allocation im now rid req auth))"
    "linked (fst (resize_allocation im now aid delta auth))" "linked (fst (release_allocation im now aid auth))"
proof -
  show "linked (fst (commit_reservation im now rid auth))"
    using assms by (simp add: commit_reservation_def Let_def linked_res_update split: option.split)
  show "linked (fst (resize_allocation im now aid delta auth))" "linked (fst (release_allocation im now aid auth))"
    using assms by (simp_all add: resize_allocation_def release_allocation_def Let_def linked_alloc_update split: option.split)
  have "linked (im\<lparr>im_ids := g, im_allocations := emplace x (new_allocation im now x rid r req auth) (im_allocations im),
      im_reservations := AList.update rid (r\<lparr>res_status := RS_CONSUMED\<rparr>) (im_reservations im)\<rparr>)"
    if "map_of (im_reservations im) rid = Some r" for r x g
  proof -
    have "linked (im\<lparr>im_ids := g, im_allocations := emplace x (new_allocation im now x rid r req auth) (im_allocations im)\<rparr>)"
      using linked_new_allocation [of "im\<lparr>im_ids := g\<rparr>" "new_allocation im now x rid r req auth" r x] assms that
      by (simp add: new_allocation_def)
    from linked_res_update [OF this, of rid r "r\<lparr>res_status := RS_CONSUMED\<rparr>"] that show ?thesis by simp
  qed
  with assms show "linked (fst (start_allocation im now rid req auth))"
    by (simp add: start_allocation_def Let_def case_prod_beta split: option.split)
qed

lemma linked_borrow_impl:
  assumes "linked im" "fresh_borrow im"
  shows "linked (fst (borrow_impl im now b amount auth r))"
proof (cases "find_lender im b amount")
  case (Some l)
  obtain im1 rec where dr: "draw_from im now l b amount r = (im1, rec)" by (cases "draw_from im now l b amount r")
  note D = draw_from_simps [OF dr]
  have lb: "l \<noteq> b" using find_lender_Some [OF Some] by simp
  have fresh: "map_of (im_lends im) (br_lending rec) = None" "map_of (im_borrows im) (br_id rec) = None"
    using assms(2) by (simp_all add: fresh_borrow_def D(1,2) [OF lb])
  have "links_ok im1" using assms(1) by (simp add: linked_def links_ok_def D(13,14) [OF lb])
  moreover have "\<exists>l'. map_of (im_lends im1) (br_lending x) = Some l' \<and> ln_lender l' = br_lender x"
    if "map_of (im_borrows im1) k = Some x" for k x
  proof (cases "k = br_id rec")
    case True
    then show ?thesis using that fresh D(3) [OF lb] by (simp add: D(9,10) [OF lb] map_of_emplace) (auto simp: new_lending_def)
  next
    case False
    then have "map_of (im_borrows im) k = Some x" using that by (simp add: D(9) [OF lb] map_of_emplace)
    then obtain l' where "map_of (im_lends im) (br_lending x) = Some l'" "ln_lender l' = br_lender x"
      using assms(1) by (auto simp: linked_def)
    then show ?thesis using fresh(1) by (auto simp: D(10) [OF lb] map_of_emplace)
  qed
  ultimately show ?thesis by (simp add: borrow_impl_def Some dr linked_def)
qed (simp add: borrow_impl_def assms)

lemma linked_borrows:
  assumes "linked im" "fresh_borrow im"
  shows "linked (fst (borrow im now b amount auth))" "linked (fst (lend im now l b amount auth))"
proof -
  obtain im1 r where imp: "borrow_impl im now b amount auth None = (im1, r)" by (cases "borrow_impl im now b amount auth None")
  have "linked im1" using linked_borrow_impl [OF assms, of now b amount auth None] imp by simp
  then show "linked (fst (borrow im now b amount auth))" "linked (fst (lend im now l b amount auth))"
    using assms(1) imp by (cases r; simp add: borrow_def lend_def Let_def split: option.split)+
qed

lemma linked_recall_borrow:
  assumes "linked im"
  shows "linked (fst (recall_borrow im now bid auth))"
proof (cases "stale_epoch im auth \<or> (\<forall>b. map_of (im_borrows im) bid = Some b \<longrightarrow> br_recalled b)")
  case True
  then show ?thesis using assms by (auto simp: recall_borrow_def return_borrow_def split: option.split)
next
  case False
  then obtain b where b: "\<not> stale_epoch im auth" "map_of (im_borrows im) bid = Some b" "\<not> br_recalled b" by auto
  define im3 where "im3 = fst (return_borrow im now bid (br_consumed b))"
  note maps = return_borrow_maps [OF b(2,3) im3_def]
  have "links_ok im3" using assms by (simp add: linked_def links_ok_def maps(4,5))
  moreover have "\<exists>l'. map_of (im_lends im3) (br_lending x) = Some l' \<and> ln_lender l' = br_lender x"
    if "map_of (im_borrows im3) k = Some x" for k x
  proof -
    from that b(2) obtain y where y: "map_of (im_borrows im) k = Some y" "br_lending x = br_lending y" "br_lender x = br_lender y"
      by (auto simp: maps(1) map_of_update split: if_splits)
    with assms obtain l where "map_of (im_lends im) (br_lending y) = Some l" "ln_lender l = br_lender y"
      by (auto simp: linked_def)
    with y show ?thesis by (auto simp: maps(2) map_of_update split: option.split)
  qed
  ultimately have "linked im3" by (simp add: linked_def)
  moreover have "fst (recall_borrow im now bid auth) = emit_event now ET_RECALL (br_borrower b) ''borrow recalled''
      (sync_usage now (br_lender b) (sync_usage now (br_borrower b) im3))"
    using b by (simp add: recall_borrow_def return_borrow_def Let_def im3_def)
  ultimately show ?thesis by simp
qed

lemma linked_config:
  assumes "linked im"
  shows "linked (fst (set_policy im now p))" "linked (fst (advance_epoch im now))"
    "linked (fst (create_group im now n k par))" "linked (fst (create_group_autoid im n k par))"
    "linked (fst (create_tenant im now t n g pr))" "linked (fst (create_tenant_auto im now n g pr))"
    "linked (fst (set_tenant_quota im now t q))" "linked (fst (set_group_quota im now gid q))"
    "linked (fst (snapshot im now))" "linked (persisted im now path)"
  by (rule linked_records [OF assms];
      simp add: set_policy_def advance_epoch_def create_group_def create_group_autoid_def new_group_def create_tenant_def
        create_tenant_auto_def set_tenant_quota_def set_group_quota_def snapshot_def persisted_def Let_def case_prod_beta
        split: option.split)+

subsection \<open>Runs with closed books\<close>

definition books_closed :: "impl \<Rightarrow> bool" where
  "books_closed im \<longleftrightarrow> wf_state im \<and> accounted im \<and> linked im"

inductive closing_step :: "impl \<Rightarrow> impl \<Rightarrow> bool" where
  closing_stepI: "op_ok im op \<Longrightarrow> closing_op im now op \<Longrightarrow> closing_step im (apply_op now op im)"

lemma accounted_apply_op:
  assumes "wf_state im" "accounted im" "linked im" "op_ok im op" "closing_op im now op"
  shows "accounted (apply_op now op im)"
proof -
  have "links_ok im" using assms(3) by (simp add: linked_def)
  with assms show ?thesis
    by (cases op)
       (simp_all add: accounted_config accounted_reserve_op accounted_release_op accounted_commit_reservation
         accounted_start_allocation accounted_resize_allocation accounted_release_allocation
         accounted_borrow accounted_lend accounted_recall_borrow linked_lender del: closing_op.simps(1,3))
qed

lemma linked_apply_op:
  assumes "linked im" "closing_op im now op"
  shows "linked (apply_op now op im)"
  using assms
  by (cases op)
     (simp_all add: linked_config linked_reserve linked_release linked_lifecycle linked_borrows linked_recall_borrow
       del: closing_op.simps(1,3))

lemma books_closed_step: "closing_step im im' \<Longrightarrow> books_closed im \<Longrightarrow> books_closed im'"
  by (auto elim!: closing_step.cases simp: books_closed_def wf_apply_op accounted_apply_op linked_apply_op)

lemma books_closed_initial: "books_closed (impl_initial settings ids oob)"
  by (simp add: books_closed_def wf_initial)
     (simp add: impl_initial_def accounted_def counters_match_def counter_error_def recompute_def reserved_remaining_def
       usage_of_def linked_def links_ok_def)

text \<open>
  C13. Accounting closure of whole runs: let the books be closed, that is, the state well
  formed, the reserved, consumed, borrowed and lent counters of every tenant equal to what
  the records add up to, every allocation of the tenant of its reservation, and every borrow
  with a lending record of the same lender. Then they are closed after any sequence of
  configuration operations, commits, starts, successful resizes and releases of allocations,
  reservations that are granted without borrowing or refused by authority, tenant or
  verdict, releases of reservations that borrowed nothing, borrows, lendings and recalls. A
  new engine has closed books. Each step draws unused ids and its vectors satisfy their
  class invariant. Left out are observations, refused resizes, and reservations that borrow,
  are rolled back because a borrow failed, or are released after borrowing: they leave
  counters behind.
\<close>

theorem accounting_closed:
  assumes "closing_step\<^sup>*\<^sup>* im0 im" "books_closed im0"
  shows "books_closed im"
  using assms by (induction rule: rtranclp_induct) (auto intro: books_closed_step)

theorem accounting_closed_witness:
  "books_closed (apply_op 4 (Op_reserve solo (vram 7) solo_authority) solo_engine)"
proof (rule accounting_closed)
  have "accounted solo_engine"
    by (simp add: accounted_def counters_match_def counter_error_def recompute_def reserved_remaining_def)
  then show "books_closed solo_engine" by (simp add: books_closed_def solo_wf linked_def links_ok_def)
  have "op_ok solo_engine (Op_reserve solo (vram 7) solo_authority)" by (simp add: rv_ok_vram i64_bounds)
  moreover obtain im' res where "reserve solo_engine 4 solo (vram 7) solo_authority = (im', Inr res)" "unborrowed im' res"
    by (rule solo_reserve [of 7 4]) simp_all
  then have "closing_op solo_engine 4 (Op_reserve solo (vram 7) solo_authority)" by (simp add: fresh_reservation_def)
  ultimately show "closing_step\<^sup>*\<^sup>* solo_engine (apply_op 4 (Op_reserve solo (vram 7) solo_authority) solo_engine)"
    by (intro r_into_rtranclp closing_stepI)
qed

section \<open>A lender and a borrower\<close>

definition bank :: tenant_id where
  "bank = StrongId 2 2"

definition bank_quota :: resource_quota where
  "bank_quota = resource_quota_default\<lparr>q_guaranteed := vram 10, q_borrowable := vram 6\<rparr>"

text \<open>One tenant guaranteed 10 that offers 6, and one without a quota.\<close>

definition pair_engine :: impl where
  "pair_engine = sample_engine\<lparr>
     im_tenants := [(bank, \<lparr>ten_id = bank, ten_group = None, ten_name = ''bank'', ten_priority = 100, ten_service_class = ''''\<rparr>),
                    (solo, solo_tenant None)],
     im_local_quota := [(bank, bank_quota)]\<rparr>"

lemma pair_engine_simps [simp]:
  "im_local_quota pair_engine = [(bank, bank_quota)]" "im_group_quota pair_engine = []" "im_groups pair_engine = []"
  "im_usage pair_engine = []" "im_reservations pair_engine = []" "im_funding pair_engine = []"
  "im_allocations pair_engine = []" "im_borrows pair_engine = []" "im_lends pair_engine = []" "im_events pair_engine = []"
  "usage_of pair_engine t = empty_usage"
  by (simp_all add: pair_engine_def sample_engine_def impl_initial_def usage_of_def)

lemma pair_tenants: "im_tenants pair_engine =
   [(bank, \<lparr>ten_id = bank, ten_group = None, ten_name = ''bank'', ten_priority = 100, ten_service_class = ''''\<rparr>),
    (solo, solo_tenant None)]"
  by (simp add: pair_engine_def)

lemma bank_not_solo [simp]: "bank \<noteq> solo" "solo \<noteq> bank"
  by (simp_all add: bank_def solo_def)

lemma bank_quota_simps [simp]:
  "q_guaranteed bank_quota = vram 10" "q_borrowable bank_quota = vram 6" "q_soft_limit bank_quota = rv_empty"
  "q_hard_limit bank_quota = rv_empty" "q_burst_limit bank_quota = rv_empty" "q_physical_capacity bank_quota = rv_empty"
  by (simp_all add: bank_quota_def resource_quota_default_def)

lemma pair_wf: "wf_state pair_engine"
  by (simp add: wf_state_def quotas_ok_def usages_ok_def records_ok_def keys_ok_def events_bounded_def
      no_cooldown_def quota_ok_def rv_ok_vram i64_bounds pair_tenants)

lemma pair_chain: "quota_chain pair_engine bank = [bank_quota]"
  by (simp add: quota_chain_def ancestor_groups_def pair_tenants List.map_filter_simps)

lemma pair_lattice:
  "q_guaranteed (effective_lattice pair_engine bank) = vram 10" "q_borrowable (effective_lattice pair_engine bank) = vram 6"
  by (simp_all add: pair_chain merge_min_single rv_ok_vram i64_bounds)

lemma pair_available: "available_to_lend pair_engine bank AcceleratorVRAM = 6"
  unfolding available_to_lend_def Let_def guarantee_at_def pair_lattice
  by (simp add: sub64_def s64_id i64_bounds)

lemma pair_covers: "lender_covers pair_engine bank (vram 4)"
  unfolding lender_covers_def pair_lattice by (simp add: pair_available)

definition pair_authority :: authority where
  "pair_authority = sample_authority pair_engine"

lemma pair_borrow:
  obtains im' rec where "borrow pair_engine 3 solo (vram 4) pair_authority = (im', Inr rec)" "br_lender rec = bank"
proof -
  have f: "find_lender pair_engine solo (vram 4) = Some bank"
    by (simp add: find_lender_def pair_tenants pair_covers)
  have v: "valid_authority pair_engine pair_authority"
    by (simp add: pair_authority_def sample_authority_def valid_authority_def)
  have e: "tenant_exists pair_engine solo" by (simp add: tenant_exists_def contains_key_def pair_tenants)
  obtain im1 rec where dr: "draw_from pair_engine 3 bank solo (vram 4) None = (im1, rec)"
    by (cases "draw_from pair_engine 3 bank solo (vram 4) None")
  have "borrow pair_engine 3 solo (vram 4) pair_authority = (sync_usage 3 solo im1, Inr rec)"
    using v e stale_not_valid(1) by (auto simp: borrow_def borrow_impl_def f dr)
  moreover have "br_lender rec = bank" by (rule draw_from_simps(3) [OF dr]) simp
  ultimately show thesis by (rule that)
qed

theorem available_to_lend_protects_guarantee_witness:
  "rv_get (committed_of (usage_of pair_engine bank)) AcceleratorVRAM + rv_get (us_lent (usage_of pair_engine bank)) AcceleratorVRAM + 4
     \<le> min (rv_get (q_borrowable (effective_lattice pair_engine bank)) AcceleratorVRAM)
          (guarantee_at (effective_lattice pair_engine bank) AcceleratorVRAM)"
  using available_to_lend_protects_guarantee [OF wf_stateD(1,2) [OF pair_wf], of 4 bank AcceleratorVRAM]
  by (simp add: pair_available)

theorem borrow_preserves_guarantee_witness:
  "\<exists>im' rec. borrow pair_engine 3 solo (vram 4) pair_authority = (im', Inr rec) \<and>
    rv_get (us_lent (usage_of im' bank)) AcceleratorVRAM = 4"
proof -
  obtain im' rec where b: "borrow pair_engine 3 solo (vram 4) pair_authority = (im', Inr rec)" "br_lender rec = bank"
    by (rule pair_borrow)
  have "rv_fits (us_lent (usage_of pair_engine (br_lender rec))) (vram 4)"
    by (rule rv_fitsI) (simp_all add: i64_bounds)
  from borrow_preserves_guarantee [OF pair_wf rv_ok_vram b(1) _ _ this, of AcceleratorVRAM] b
  show ?thesis by (simp add: i64_bounds)
qed

theorem borrow_recall_roundtrip_witness:
  "\<exists>im' rec. borrow pair_engine 3 solo (vram 4) pair_authority = (im', Inr rec) \<and>
    rv_get (us_lent (usage_of (fst (recall_borrow im' 5 (br_id rec) pair_authority)) bank)) AcceleratorVRAM = 0"
proof -
  obtain im' rec where b: "borrow pair_engine 3 solo (vram 4) pair_authority = (im', Inr rec)" "br_lender rec = bank"
    by (rule pair_borrow)
  have fresh: "fresh_borrow pair_engine" by (simp add: fresh_borrow_def)
  have ep: "au_epoch pair_authority = im_epoch pair_engine" by (simp add: pair_authority_def sample_authority_def)
  have c: "us_lent (usage_of pair_engine (br_lender rec)) = computed_lent pair_engine (br_lender rec)"
    "us_borrowed_consumed (usage_of pair_engine solo) = computed_borrowed pair_engine solo"
    by (simp_all add: computed_lent_def computed_borrowed_def)
  from borrow_recall_roundtrip [OF pair_wf rv_ok_vram b(1) fresh ep c, of 5 AcceleratorVRAM] b
  show ?thesis by (simp add: Let_def i64_bounds)
qed

theorem return_borrow_keeps_lent_witness:
  "\<exists>im' rec. borrow pair_engine 3 solo (vram 4) pair_authority = (im', Inr rec) \<and>
    usage_of (fst (return_borrow im' 6 (br_id rec) (vram 4))) bank = usage_of im' bank"
proof -
  obtain im' rec where b: "borrow pair_engine 3 solo (vram 4) pair_authority = (im', Inr rec)" "br_lender rec = bank"
    by (rule pair_borrow)
  from borrow_success [OF b(1)] obtain im1 where dr: "draw_from pair_engine 3 bank solo (vram 4) None = (im1, rec)"
    and im': "im' = sync_usage 3 solo im1" using b(2) by metis
  note D = draw_from_simps [OF dr bank_not_solo(1)]
  have look: "map_of (im_borrows im') (br_id rec) = Some rec"
    "map_of (im_lends im') (br_lending rec) = Some (new_lending pair_engine 3 (br_lending rec) bank solo (vram 4))"
    by (simp_all add: im' D(9,10) map_of_emplace)
  have "usage_of (fst (return_borrow im' 6 (br_id rec) (vram 4))) bank = usage_of im' bank"
    by (rule return_borrow_keeps_lent [OF look, of AcceleratorVRAM])
       (simp_all add: new_lending_def rv_ok_vram i64_bounds D(4,6))
  with b show ?thesis by blast
qed

end
