(* ===== verification/QF_Gaps.thy ===== *)
theory QF_Gaps
  imports QF_Accounted
begin

text \<open>
  The corners of the code: what the vector arithmetic promises and where a caller that drops
  its status loses dimensions, and the branches of the engine whose effect differs from the
  comments beside them. Every theorem here is about the operations as they are written.
\<close>

section \<open>Vector arithmetic at its edges\<close>

lemma rv_sub_plus:
  assumes "rv_ok r" "rv_ok x" "rv_fits r x"
  shows "rv_get (snd (rv_sub (rv_plus r x) x False)) d = rv_get r d"
proof -
  have ok: "rv_ok (rv_plus r x)" using rv_ok_plus assms by blast
  have "\<forall>d. \<not> sub_underflows (rv_plus r x) x d" using assms by (auto simp: sub_underflows_def rv_okD not_less)
  from rv_sub_ok [OF ok assms(2) this, of False] assms show ?thesis by (auto simp: rv_okD)
qed

text \<open>
  The checked vector addition reports Ok exactly when no dimension's sum exceeds INT64_MAX;
  then the result is the exact sum and subtracting the same vector again gives the old
  amounts.
\<close>

theorem rv_add_exact_or_reported:
  assumes "rv_ok r" "rv_ok x"
  shows "(fst (rv_add r x False) = Arith_Ok \<longleftrightarrow> (\<forall>d. rv_get r d + rv_get x d \<le> INT64_MAX)) \<and>
    (fst (rv_add r x False) = Arith_Ok \<longrightarrow>
       (\<forall>d. rv_get (snd (rv_add r x False)) d = rv_get r d + rv_get x d \<and>
            rv_get (snd (rv_sub (snd (rv_add r x False)) x False)) d = rv_get r d))"
proof -
  have fits: "rv_fits r x \<longleftrightarrow> (\<forall>d. rv_get r d + rv_get x d \<le> INT64_MAX)"
    using rv_fits_le [OF assms] rv_fitsI [OF assms(1)] by auto
  have "(\<forall>d. rv_get (rv_plus r x) d = rv_get r d + rv_get x d)" using assms by (auto simp: rv_okD)
  then show ?thesis using assms fits by (auto simp: rv_add_status rv_add_fits rv_sub_plus simp del: rv_plus_simps)
qed

theorem rv_add_exact_or_reported_witness:
  "fst (rv_add (vram 3) (vram 4) False) = Arith_Ok \<and> fst (rv_add (vram 3) (vram INT64_MAX) False) \<noteq> Arith_Ok"
proof -
  have ok: "rv_ok (vram 3)" "rv_ok (vram 4)" "rv_ok (vram INT64_MAX)"
    by (simp_all add: rv_ok_vram i64_bounds)
  show ?thesis
    using rv_add_exact_or_reported [OF ok(1,2)] rv_add_exact_or_reported [OF ok(1,3)]
    by (auto simp: i64_bounds dest: spec [of _ AcceleratorVRAM])
qed

text \<open>
  The sum of a collection of vectors is the per-dimension sum and does not depend on the
  order in which a hash map delivers them, as long as no dimension's total exceeds
  INT64_MAX.
\<close>

theorem rv_sum_order_independent:
  assumes "list_all rv_ok xs" "\<forall>d. sum_list (map (\<lambda>x. rv_get x d) xs) \<le> INT64_MAX" "mset ys = mset xs"
  shows "rv_sum ys = rv_sum xs \<and> rv_get (rv_sum xs) d = sum_list (map (\<lambda>x. rv_get x d) xs)"
  using rv_sum_perm [OF assms(1,2) assms(3) [symmetric]] rv_sum_exact(1) [OF assms(1,2)] by simp

theorem rv_sum_order_independent_witness:
  "rv_sum [vram 4, vram 3] = rv_sum [vram 3, vram 4] \<and> rv_get (rv_sum [vram 3, vram 4]) AcceleratorVRAM = 7"
proof -
  have ok: "list_all rv_ok [vram 3, vram 4]" by (simp add: rv_ok_vram i64_bounds)
  have le: "\<forall>d. sum_list (map (\<lambda>x. rv_get x d) [vram 3, vram 4]) \<le> INT64_MAX" by (simp add: i64_bounds)
  have perm: "mset [vram 4, vram 3] = mset [vram 3, vram 4]" by (simp add: ac_simps)
  show ?thesis using rv_sum_order_independent [OF ok le perm, of AcceleratorVRAM] by simp
qed

text \<open>
  When the first dimension overflows, an unsaturated add reports Overflow and changes
  nothing, so an aggregate that ignores the status drops every other dimension of that
  addend as well.
\<close>

theorem rv_acc_overflow_drops_rest:
  assumes "add_overflows r x AcceleratorVRAM"
  shows "rv_add r x False = (Arith_Overflow, r) \<and> rv_acc r x = r"
  using assms by (simp add: rv_acc_def rv_add_def all_resource_dimensions_def add_overflows_def Let_def)

theorem rv_acc_overflow_drops_rest_witness:
  "rv_get (rv_acc (vram INT64_MAX) (rv_put (vram 1) PageableHostRAM 5)) PageableHostRAM = 0"
  using rv_acc_overflow_drops_rest [of "vram INT64_MAX" "rv_put (vram 1) PageableHostRAM 5"]
  by (simp add: add_overflows_def i64_bounds)

section \<open>A hierarchy with a cycle\<close>

text \<open>
  On groups whose parent links form a cycle the ancestor walk does not return.
\<close>

theorem hierarchy_cycle_diverges:
  assumes "parent_cycle gs C" "g \<in> C"
  shows "ancestor_loop gs (Some g) [] = None"
  using assms by (rule ancestor_loop_cycle)

definition group_under :: "tenant_group_id option \<Rightarrow> tenant_group_id \<Rightarrow> tenant_group" where
  "group_under par g =
     \<lparr>grp_id = g, grp_kind = GK_TEAM, grp_parent = par, grp_name = ''team'', grp_quota = resource_quota_default,
      grp_policy_generation = Generation 0\<rparr>"

definition cyclic_groups :: group_map where
  "cyclic_groups =
     [(StrongId 1 1, group_under (Some (StrongId 2 2)) (StrongId 1 1)),
      (StrongId 2 2, group_under (Some (StrongId 1 1)) (StrongId 2 2))]"

theorem hierarchy_cycle_diverges_witness: "ancestor_loop cyclic_groups (Some (StrongId 1 1)) [] = None"
  by (rule hierarchy_cycle_diverges [of _ "{StrongId 1 1, StrongId 2 2}"])
     (simp_all add: parent_cycle_def cyclic_groups_def group_under_def)

section \<open>A hard limit without a soft one\<close>

text \<open>
  On a persistent dimension for which the effective quota sets neither a soft limit nor a
  guarantee, the verdict is never DENY_HARD or DENY_SOFT, whatever the hard limit: the
  missing soft limit counts as INT64_MAX and is tested first.
\<close>

theorem hard_only_quota_not_enforced:
  assumes "\<not> rv_present (q_soft_limit (effective_lattice im t)) d"
    and "\<not> rv_present (q_guaranteed (effective_lattice im t)) d"
    and "\<not> is_consumable d" "usages_ok im" "rv_ok req"
  shows "dim_code im now t req d \<in> {DC_DENY_PARENT, DC_DENY_PHYSICAL, DC_ALLOW_GUARANTEED, DC_ALLOW}"
proof -
  have "sat_add (rv_get (committed_of (usage_of im t)) d) (requested_amount req d) \<le> INT64_MAX"
    using rv_okD [OF rv_ok_committed_of [OF assms(4), of t], of d] rv_okD [OF assms(5), of d]
    by (intro sat_add_bounds [THEN conjunct2, THEN conjunct2]) (simp_all add: requested_amount_def i64_bounds)
  then show ?thesis
    using assms(1-3) by (simp add: dim_code_def Let_def soft_at_def current_committed_scalar_def)
qed

definition hard_only_engine :: impl where
  "hard_only_engine = solo_engine\<lparr>im_group_quota := [], im_local_quota := [(solo, resource_quota_default\<lparr>q_hard_limit := vram 5\<rparr>)]\<rparr>"

lemma hard_only_lattice:
  "q_soft_limit (effective_lattice hard_only_engine solo) = rv_empty"
  "q_guaranteed (effective_lattice hard_only_engine solo) = rv_empty"
  "q_hard_limit (effective_lattice hard_only_engine solo) = vram 5"
proof -
  have "ancestor_groups hard_only_engine solo = [solo_group]"
    by (simp add: hard_only_engine_def ancestor_groups_def solo_tenant_def)
  then have "quota_chain hard_only_engine solo = [resource_quota_default\<lparr>q_hard_limit := vram 5\<rparr>]"
    by (simp add: quota_chain_def List.map_filter_simps hard_only_engine_def)
  then show "q_soft_limit (effective_lattice hard_only_engine solo) = rv_empty"
    "q_guaranteed (effective_lattice hard_only_engine solo) = rv_empty"
    "q_hard_limit (effective_lattice hard_only_engine solo) = vram 5"
    by (simp_all add: merge_min_single resource_quota_default_def rv_ok_vram i64_bounds)
qed

theorem hard_only_quota_not_enforced_witness:
  "hard_at (effective_lattice hard_only_engine solo) AcceleratorVRAM = 5 \<and>
   dim_code hard_only_engine 0 solo (vram 7) AcceleratorVRAM \<noteq> DC_DENY_HARD"
proof -
  have "usages_ok hard_only_engine" by (simp add: usages_ok_def hard_only_engine_def)
  moreover have "\<not> rv_present (q_soft_limit (effective_lattice hard_only_engine solo)) AcceleratorVRAM"
    "\<not> rv_present (q_guaranteed (effective_lattice hard_only_engine solo)) AcceleratorVRAM"
    unfolding hard_only_lattice by simp_all
  moreover have "\<not> is_consumable AcceleratorVRAM" "rv_ok (vram 7)"
    by (simp_all add: is_consumable_def rv_ok_vram i64_bounds)
  ultimately have "dim_code hard_only_engine 0 solo (vram 7) AcceleratorVRAM
      \<in> {DC_DENY_PARENT, DC_DENY_PHYSICAL, DC_ALLOW_GUARANTEED, DC_ALLOW}"
    by (intro hard_only_quota_not_enforced)
  moreover have "hard_at (effective_lattice hard_only_engine solo) AcceleratorVRAM = 5"
    unfolding hard_at_def hard_only_lattice by simp
  ultimately show ?thesis by auto
qed

section \<open>Allocations\<close>

lemma alloc_used_absent:
  assumes "\<forall>(aid, a) \<in> set xs. \<not> (al_active a \<and> al_tenant a = t \<and> al_reservation a = rid)"
  shows "map_of (fold (\<lambda>(aid, a) m. if al_active a \<and> al_tenant a = t
      then map_add_vector (al_reservation a) (al_used a) m else m) xs m) rid = map_of m rid"
  using assms by (induction xs arbitrary: m) (auto simp: map_add_vector_def map_of_update)

lemma remaining_of_unused:
  assumes "rv_ok (res_resources r)" "map_of m (res_id r) = Some rv_empty"
  shows "rv_get (remaining_of m r) d = 0"
proof -
  have "rv_ok (rv_min rv_empty (res_resources r))" using assms(1) by (simp add: rv_ok_min)
  then show ?thesis using assms by (auto simp: remaining_of_def rv_sub_sat_eq rv_min_val rv_okD)
qed

text \<open>
  start_allocation records an active allocation whose used vector is empty and marks the
  reservation CONSUMED; the next usage computation then counts nothing of the reservation
  any more, because the minimum of an empty vector and the reserved one is the reserved one.
\<close>

theorem start_allocation_uncounts_reservation:
  assumes "start_allocation im now rid req auth = (im', Inr al)"
    and "map_of (im_reservations im) rid = Some r" "res_id r = rid" "rv_ok (res_resources r)"
    and "map_of (im_allocations im) (al_id al) = None"
    and "\<forall>(aid, a) \<in> set (im_allocations im). \<not> (al_active a \<and> al_tenant a = res_tenant r \<and> al_reservation a = rid)"
  shows "al_active al \<and> al_used al = rv_empty \<and>
    map_of (im_reservations im') rid = Some (r\<lparr>res_status := RS_CONSUMED\<rparr>) \<and>
    rv_get (remaining_of (alloc_used_by im' (res_tenant r)) (r\<lparr>res_status := RS_CONSUMED\<rparr>)) d = 0"
proof -
  obtain aid :: allocation_id and gen where m: "make_id (ig_allocation (im_ids im)) = (aid, gen)" by force
  have al: "al = new_allocation im now aid rid r req auth"
    and res: "im_reservations im' = AList.update rid (r\<lparr>res_status := RS_CONSUMED\<rparr>) (im_reservations im)"
    and als: "im_allocations im' = emplace aid al (im_allocations im)"
    using assms(1,2) m by (auto simp: start_allocation_def Let_def split: if_splits)
  have id: "al_id al = aid" by (simp add: al new_allocation_def)
  have fold: "alloc_used_by im' (res_tenant r) =
      map_add_vector rid rv_empty (alloc_used_by im (res_tenant r))"
    using assms(5) unfolding alloc_used_by_def als id
    by (simp add: emplace_def al new_allocation_def cong: if_cong)
  have "map_of (alloc_used_by im (res_tenant r)) rid = None"
    unfolding alloc_used_by_def by (subst alloc_used_absent [OF assms(6)]) simp
  then have "map_of (alloc_used_by im' (res_tenant r)) rid = Some rv_empty"
    by (simp add: fold map_add_vector_def map_of_update)
  then show ?thesis
    using remaining_of_unused [of "r\<lparr>res_status := RS_CONSUMED\<rparr>"] assms(3,4)
    by (simp add: res map_of_update al new_allocation_def)
qed

definition held :: reservation where
  "held = new_reservation solo_engine 0 (StrongId 5 5) solo (vram 7) solo_authority"

definition held_engine :: impl where
  "held_engine = solo_engine\<lparr>im_reservations := [(StrongId 5 5, held)]\<rparr>"

theorem start_allocation_uncounts_reservation_witness:
  "\<exists>im' al. start_allocation held_engine 0 (StrongId 5 5) (vram 7) solo_authority = (im', Inr al) \<and>
    rv_get (remaining_of (alloc_used_by im' solo) (held\<lparr>res_status := RS_CONSUMED\<rparr>)) AcceleratorVRAM = 0"
proof -
  have look: "map_of (im_reservations held_engine) (StrongId 5 5) = Some held" by (simp add: held_engine_def)
  have r: "res_id held = StrongId 5 5" "res_tenant held = solo" "rv_ok (res_resources held)" "active_res held"
    by (simp_all add: held_def new_reservation_def active_res_def rv_ok_vram i64_bounds)
  have v: "valid_authority held_engine solo_authority"
    by (simp add: solo_authority_def sample_authority_def valid_authority_def held_engine_def)
  obtain im' al where st: "start_allocation held_engine 0 (StrongId 5 5) (vram 7) solo_authority = (im', Inr al)"
    using look r v by (simp add: start_allocation_def Let_def case_prod_beta)
  moreover have "im_allocations held_engine = []" by (simp add: held_engine_def)
  ultimately show ?thesis
    using start_allocation_uncounts_reservation [OF st look r(1,3), of AcceleratorVRAM] r by simp
qed

text \<open>
  A resize_allocation that is refused by the quota check has already replaced the
  allocation's used vector and leaves the usage counters as they were, so that records and
  counters disagree.
\<close>

theorem resize_refused_keeps_usage:
  assumes "resize_allocation im now aid delta auth = (im', st)" "\<not> st_ok st" "\<not> stale_quota_gen im auth"
    and "map_of (im_allocations im) aid = Some a" "al_active a"
  shows "map_of (im_allocations im') aid =
      Some (a\<lparr>al_used := rv_min (snd (rv_add (al_used a) delta True)) (al_resources a)\<rparr>) \<and>
    im_usage im' = im_usage im"
  using assms by (auto simp: resize_allocation_def Let_def map_of_update status_success_def split: if_splits)

definition unfunded :: allocation where
  "unfunded = new_allocation solo_engine 0 (StrongId 6 6) (StrongId 5 5) held (vram 7) solo_authority"

definition unfunded_engine :: impl where
  "unfunded_engine = solo_engine\<lparr>im_group_quota := [], im_local_quota := [], im_allocations := [(StrongId 6 6, unfunded)]\<rparr>"

theorem resize_refused_keeps_usage_witness:
  "\<exists>im' st. resize_allocation unfunded_engine 0 (StrongId 6 6) (vram 3) solo_authority = (im', st) \<and> \<not> st_ok st \<and>
    map_of (im_allocations im') (StrongId 6 6) =
      Some (unfunded\<lparr>al_used := rv_min (snd (rv_add (al_used unfunded) (vram 3) True)) (al_resources unfunded)\<rparr>)"
proof -
  have a: "map_of (im_allocations unfunded_engine) (StrongId 6 6) = Some unfunded" "al_active unfunded"
    by (simp_all add: unfunded_engine_def unfunded_def new_allocation_def)
  have q: "\<not> stale_quota_gen unfunded_engine solo_authority"
    by (simp add: solo_authority_def sample_authority_def stale_quota_gen_def unfunded_engine_def)
  obtain im' st where st: "resize_allocation unfunded_engine 0 (StrongId 6 6) (vram 3) solo_authority = (im', st)"
    by (cases "resize_allocation unfunded_engine 0 (StrongId 6 6) (vram 3) solo_authority")
  have "dec_code (classify (unfunded_engine\<lparr>im_allocations := w\<rparr>) 0 (al_tenant unfunded) (al_resources unfunded)) = DC_DENY_HARD" for w
  proof -
    have "quota_chain (unfunded_engine\<lparr>im_allocations := w\<rparr>) t = []" for t
      by (auto simp: quota_chain_def unfunded_engine_def List.map_filter_def)
    then have "\<not> has_entitlement (effective_lattice (unfunded_engine\<lparr>im_allocations := w\<rparr>) t)" for t
      by (simp add: has_entitlement_def merge_min_def rv_present_count_def)
    then show ?thesis
      by (simp add: classify_def Let_def unfunded_def new_allocation_def rv_is_empty_iff)
  qed
  then have "\<not> st_ok st" using st a q by (auto simp: resize_allocation_def Let_def status_failure_def)
  then show ?thesis using resize_refused_keeps_usage [OF st _ q a] st by blast
qed

section \<open>Budgets that only the next observation renews\<close>

text \<open>Samples leave a rolling window when a sample is added, not when the window is read.\<close>

lemma current_committed_consumable:
  "is_consumable d \<Longrightarrow> current_committed_scalar im now t d v = current_committed_scalar im now' t d v"
  by (simp add: current_committed_scalar_def rw_usage_def)

lemma classify_step_consumable:
  assumes "\<And>d. rv_present req d \<Longrightarrow> is_consumable d"
  shows "classify_step im now t req = classify_step im now' t req"
proof (intro ext)
  fix d s
  have skip: "requested_amount req d = 0" if "\<not> rv_present req d" using that by (simp add: requested_amount_def)
  show "classify_step im now t req d s = classify_step im now' t req d s"
  proof (cases "rv_present req d")
    case True
    from assms(1) [OF this] have d: "is_consumable d" .
    have "dim_code im now t req d = dim_code im now' t req d"
      using current_committed_consumable [OF d, of im now _ _ now'] d by (simp add: dim_code_def Let_def)
    moreover have "dim_note im now t req d w ex = dim_note im now' t req d w ex" for w ex
      using current_committed_consumable [OF d, of im now _ _ now'] d by (simp add: dim_note_def Let_def)
    ultimately show ?thesis by (cases s) (simp add: classify_step_def)
  qed (cases s, use skip in \<open>simp add: classify_step_def\<close>)
qed

text \<open>
  A request on rolling dimensions gets the same verdict at every time: the window total that
  classify reads is what the last observation left, so that an exhausted budget stays
  exhausted until another observation arrives.
\<close>

theorem rolling_budget_ignores_clock:
  assumes "\<forall>d. rv_present req d \<longrightarrow> is_consumable d"
  shows "evaluate_reservation im now t req = evaluate_reservation im now' t req"
proof -
  have "classify_loop im now t req = classify_loop im now' t req"
    using classify_step_consumable [of req im now t now'] assms by (simp add: classify_loop_def)
  then show ?thesis by (simp only: evaluate_reservation_def classify_def)
qed

end
