(* ===== verification/QF_Codec.thy ===== *)
theory QF_Codec
  imports QF_Records "HOL-Library.Word"
begin

text \<open>
  The binary writer and reader of \<open>persistence/codec.hpp\<close>. A writer call is the list of
  bytes it appends; a reader takes the bytes that are left and returns an error or a value
  with the bytes after it. The writer copies integers from memory, so the byte order is the
  machine's; the model is a little-endian machine, the order the reader assembles. The
  locale \<open>codec\<close> is the contract between a writer and its reader and is interpreted for
  every pair; \<open>stable_reader\<close> says that a reader looks only at the bytes it consumes.
\<close>

unbundle bit_operations_syntax

named_theorems codec_simps "a reader applied to what its writer produced"

type_synonym byte = "8 word"

section \<open>Readers\<close>

text \<open>
  \<open>Decode_error\<close> is the exception \<open>decode_error\<close>, \<open>Load_fail\<close> an early return of
  \<open>deserialize_state\<close> through its \<open>fail\<close> lambda.
\<close>

datatype read_error = Decode_error string | Load_fail string

type_synonym 'a reader = "byte list \<Rightarrow> read_error + 'a \<times> byte list"

definition rreturn :: "'a \<Rightarrow> 'a reader" where
  "rreturn x bs = Inr (x, bs)"

definition rthrow :: "read_error \<Rightarrow> 'a reader" where
  "rthrow e bs = Inl e"

definition rbind :: "'a reader \<Rightarrow> ('a \<Rightarrow> 'b reader) \<Rightarrow> 'b reader" where
  "rbind m f bs = (case m bs of Inl e \<Rightarrow> Inl e | Inr (x, bs') \<Rightarrow> f x bs')"

lemma rbind_Inr: "m bs = Inr (x, bs') \<Longrightarrow> rbind m f bs = f x bs'"
  by (simp add: rbind_def)

lemma rreturn_apply [simp]: "rreturn x bs = Inr (x, bs)"
  by (simp add: rreturn_def)

lemma rthrow_apply [simp]: "rthrow e bs = Inl e"
  by (simp add: rthrow_def)

locale stable_reader =
  fixes dec :: "'a reader"
  assumes consumes: "dec bs = Inr (x, rest) \<Longrightarrow> \<exists>pre. bs = pre @ rest"
    and extends: "dec bs = Inr (x, rest) \<Longrightarrow> dec (bs @ ys) = Inr (x, rest @ ys)"
begin

lemma consumed_length: "dec bs = Inr (x, rest) \<Longrightarrow> length rest \<le> length bs"
  using consumes by fastforce

lemma no_value_of_strict_prefix:
  assumes "dec (bs @ b # ys) = Inr (x, [])"
  shows "dec bs \<noteq> Inr (y, [])"
  using extends [of bs y "[]" "b # ys"] assms by auto

end

locale codec =
  fixes enc :: "'a \<Rightarrow> byte list" and dec :: "'a reader" and valid :: "'a \<Rightarrow> bool"
  assumes dec_enc: "valid x \<Longrightarrow> dec (enc x @ rest) = Inr (x, rest)"
begin

lemma dec_enc_bind: "valid x \<Longrightarrow> rbind dec f (enc x @ rest) = f x rest"
  by (simp add: rbind_def dec_enc)

lemma enc_inj: "valid x \<Longrightarrow> valid y \<Longrightarrow> enc x @ r = enc y @ s \<Longrightarrow> x = y \<and> r = s"
  using dec_enc [of x r] dec_enc [of y s] by (metis Inr_inject Pair_inject)

end

section \<open>Integers\<close>

definition le_bytes :: "nat \<Rightarrow> 'a::len word \<Rightarrow> byte list" where
  "le_bytes n w = map (\<lambda>i. ucast (drop_bit (8 * i) w)) [0..<n]"

definition le_word :: "byte list \<Rightarrow> 'a::len word" where
  "le_word bs = fold (\<lambda>i r. r OR push_bit (8 * i) (ucast (bs ! i))) [0..<length bs] 0"

definition read_bytes :: "nat \<Rightarrow> byte list reader" where
  "read_bytes n bs =
     (if length bs < n then Inl (Decode_error ''truncated data'') else Inr (take n bs, drop n bs))"

definition w_u8 :: "byte \<Rightarrow> byte list" where
  "w_u8 v = [v]"

definition w_u16 :: "16 word \<Rightarrow> byte list" where
  "w_u16 v = le_bytes 2 v"

definition w_u32 :: "32 word \<Rightarrow> byte list" where
  "w_u32 v = le_bytes 4 v"

definition w_u64 :: "64 word \<Rightarrow> byte list" where
  "w_u64 v = le_bytes 8 v"

definition w_i64 :: "int \<Rightarrow> byte list" where
  "w_i64 v = w_u64 (of_int v)"

definition w_bool :: "bool \<Rightarrow> byte list" where
  "w_bool b = w_u8 (if b then 1 else 0)"

definition r_u8 :: "byte reader" where
  "r_u8 = rbind (read_bytes 1) (\<lambda>p. rreturn (p ! 0))"

definition r_u16 :: "16 word reader" where
  "r_u16 = rbind (read_bytes 2) (\<lambda>p. rreturn (le_word p))"

definition r_u32 :: "32 word reader" where
  "r_u32 = rbind (read_bytes 4) (\<lambda>p. rreturn (le_word p))"

definition r_u64 :: "64 word reader" where
  "r_u64 = rbind (read_bytes 8) (\<lambda>p. rreturn (le_word p))"

definition r_i64 :: "int reader" where
  "r_i64 = rbind r_u64 (\<lambda>w. rreturn (sint w))"

definition r_bool :: "bool reader" where
  "r_bool = rbind r_u8 (\<lambda>b. rreturn (b \<noteq> 0))"

subsection \<open>Round trips of integers\<close>

lemma length_le_bytes [simp]: "length (le_bytes n w) = n"
  by (simp add: le_bytes_def)

lemma bit_le_fold:
  fixes bs :: "byte list"
  assumes "m \<le> length bs"
  shows "bit (fold (\<lambda>i r. r OR push_bit (8 * i) (ucast (bs ! i))) [0..<m] (0 :: 'a::len word)) k \<longleftrightarrow>
    k < LENGTH('a) \<and> k < 8 * m \<and> bit (bs ! (k div 8)) (k mod 8)"
  using assms
proof (induction m)
  case (Suc m)
  have "bit (push_bit (8 * m) (ucast (bs ! m)) :: 'a word) k \<longleftrightarrow>
      k < LENGTH('a) \<and> 8 * m \<le> k \<and> k < 8 * Suc m \<and> bit (bs ! (k div 8)) (k mod 8)"
  proof (cases "8 * m \<le> k \<and> k < 8 * Suc m")
    case True
    then have m: "k div 8 = m" by auto
    then have "k mod 8 = k - 8 * m" using minus_mult_div_eq_mod [of k 8] by simp
    with True m show ?thesis by (auto simp: bit_push_bit_iff bit_ucast_iff)
  next
    case False
    then show ?thesis by (auto simp: bit_push_bit_iff bit_ucast_iff dest: bit_imp_le_length)
  qed
  with Suc show ?case by (auto simp: bit_or_iff)
qed simp

lemma le_word_le_bytes:
  fixes w :: "'a::len word"
  assumes "LENGTH('a) = 8 * n"
  shows "(le_word (le_bytes n w) :: 'a word) = w"
proof (rule bit_word_eqI)
  fix k assume k: "k < LENGTH('a)"
  then have "k div 8 < n" using assms by auto
  moreover have "8 * (k div 8) + k mod 8 = k" by simp
  ultimately have "bit (le_bytes n w ! (k div 8)) (k mod 8) = bit w k"
    by (simp add: le_bytes_def bit_ucast_iff bit_drop_bit_eq)
  then show "bit (le_word (le_bytes n w) :: 'a word) k = bit w k"
    using k assms by (simp add: le_word_def bit_le_fold)
qed

lemma read_bytes_append [codec_simps]: "length p = n \<Longrightarrow> read_bytes n (p @ rest) = Inr (p, rest)"
  by (simp add: read_bytes_def)

interpretation u8: codec w_u8 r_u8 "\<lambda>_. True"
  by unfold_locales (simp add: w_u8_def r_u8_def rbind_def read_bytes_def)

interpretation u16: codec w_u16 r_u16 "\<lambda>_. True"
  by unfold_locales (simp add: w_u16_def r_u16_def rbind_def codec_simps le_word_le_bytes)

interpretation u32: codec w_u32 r_u32 "\<lambda>_. True"
  by unfold_locales (simp add: w_u32_def r_u32_def rbind_def codec_simps le_word_le_bytes)

interpretation u64: codec w_u64 r_u64 "\<lambda>_. True"
  by unfold_locales (simp add: w_u64_def r_u64_def rbind_def codec_simps le_word_le_bytes)

interpretation i64: codec w_i64 r_i64 in_i64
proof unfold_locales
  fix x rest assume "in_i64 x"
  then have "sint (of_int x :: 64 word) = x"
    by (simp add: in_i64_def i64_bounds sint_sbintrunc' signed_take_bit_int_eq_self)
  then show "r_i64 (w_i64 x @ rest) = Inr (x, rest)"
    by (simp add: r_i64_def w_i64_def u64.dec_enc_bind)
qed

interpretation bool8: codec w_bool r_bool "\<lambda>_. True"
  by unfold_locales (simp add: w_bool_def r_bool_def u8.dec_enc_bind)

lemmas int_codecs [codec_simps] =
  u8.dec_enc_bind [OF TrueI] u16.dec_enc_bind [OF TrueI] u32.dec_enc_bind [OF TrueI] u64.dec_enc_bind [OF TrueI]
  i64.dec_enc_bind bool8.dec_enc_bind [OF TrueI]

section \<open>Strings, identifiers, optional values\<close>

definition max_string :: nat where
  "max_string = 2 ^ 24"

definition byte_of_char :: "char \<Rightarrow> byte" where
  "byte_of_char c = of_nat (of_char c)"

definition char_of_byte :: "byte \<Rightarrow> char" where
  "char_of_byte b = char_of (unat b)"

definition w_string :: "string \<Rightarrow> byte list" where
  "w_string s = w_u64 (of_nat (length s)) @ map byte_of_char s"

definition r_string :: "string reader" where
  "r_string = rbind r_u64 (\<lambda>len.
     if unat len > max_string then rthrow (Decode_error ''string length exceeds bound'')
     else rbind (read_bytes (unat len)) (\<lambda>p. rreturn (map char_of_byte p)))"

definition string_ok :: "string \<Rightarrow> bool" where
  "string_ok s \<longleftrightarrow> length s \<le> max_string"

definition w_id :: "'tag strong_id \<Rightarrow> byte list" where
  "w_id i = w_u64 (id_hi i) @ w_u64 (id_lo i)"

definition read_id :: "'tag strong_id reader" where
  "read_id = rbind r_u64 (\<lambda>hi. rbind r_u64 (\<lambda>lo. rreturn (StrongId hi lo)))"

definition w_gen :: "'tag generation \<Rightarrow> byte list" where
  "w_gen g = w_u64 (gen_value g)"

definition r_gen :: "'tag generation reader" where
  "r_gen = rbind r_u64 (\<lambda>v. rreturn (Generation v))"

text \<open>An optional identifier: a presence byte, then the identifier.\<close>

definition w_id_opt :: "'tag strong_id option \<Rightarrow> byte list" where
  "w_id_opt v = (case v of None \<Rightarrow> w_u8 0 | Some i \<Rightarrow> w_u8 1 @ w_id i)"

definition r_id_opt :: "'tag strong_id option reader" where
  "r_id_opt = rbind r_u8 (\<lambda>b. if b \<noteq> 0 then rbind read_id (\<lambda>i. rreturn (Some i)) else rreturn None)"

lemma char_byte_roundtrip [simp]: "char_of_byte (byte_of_char c) = c"
proof -
  have "of_char c < (256 :: nat)" by simp
  then have "unat (of_nat (of_char c) :: byte) = of_char c" by (simp add: unat_of_nat)
  then show ?thesis by (simp add: char_of_byte_def byte_of_char_def)
qed

interpretation str: codec w_string r_string string_ok
proof unfold_locales
  fix x rest assume "string_ok x"
  then have "unat (of_nat (length x) :: 64 word) = length x" "length x \<le> max_string"
    by (simp_all add: string_ok_def max_string_def unat_of_nat)
  then show "r_string (w_string x @ rest) = Inr (x, rest)"
    by (simp add: w_string_def r_string_def codec_simps rbind_def [of "read_bytes _"] comp_def)
qed

interpretation ident: codec w_id read_id "\<lambda>_. True"
  by unfold_locales (simp add: w_id_def read_id_def codec_simps)

interpretation gener: codec w_gen r_gen "\<lambda>_. True"
  by unfold_locales (simp add: w_gen_def r_gen_def codec_simps)

lemmas id_codecs [codec_simps] = str.dec_enc_bind ident.dec_enc_bind [OF TrueI] gener.dec_enc_bind [OF TrueI]

interpretation id_opt: codec w_id_opt r_id_opt "\<lambda>_. True"
  by unfold_locales (simp add: w_id_opt_def r_id_opt_def codec_simps split: option.split)

lemmas id_opt_codecs [codec_simps] = id_opt.dec_enc_bind [OF TrueI]

section \<open>Enumerations\<close>

text \<open>
  \<open>static_cast<std::uint8_t>(e)\<close> and \<open>static_cast<ENUM>(r.u8())\<close>. \<open>unraw\<close> recognises the
  values that are no enumerators; such a value is canonical when its byte is none of theirs.
\<close>

definition enum_code :: "'e list \<Rightarrow> ('e \<Rightarrow> byte option) \<Rightarrow> 'e \<Rightarrow> byte" where
  "enum_code es unraw e =
     (case unraw e of Some w \<Rightarrow> w | None \<Rightarrow> of_nat (length (takeWhile (\<lambda>x. x \<noteq> e) es)))"

definition r_enum :: "'e list \<Rightarrow> (byte \<Rightarrow> 'e) \<Rightarrow> 'e reader" where
  "r_enum es raw = rbind r_u8 (\<lambda>b. rreturn (enum_of_code es raw (unat b)))"

text \<open>The checked reader \<open>Enum\<close>, which refuses bytes above a bound; the decoders use the unchecked one.\<close>

definition r_checked_enum :: "nat \<Rightarrow> 'e list \<Rightarrow> (byte \<Rightarrow> 'e) \<Rightarrow> 'e reader" where
  "r_checked_enum max_valid es raw =
     rbind r_u8 (\<lambda>b. if unat b > max_valid then rthrow (Decode_error ''enum value out of range'')
                      else rreturn (enum_of_code es raw (unat b)))"

definition enum_valid :: "'e list \<Rightarrow> ('e \<Rightarrow> byte option) \<Rightarrow> 'e \<Rightarrow> bool" where
  "enum_valid es unraw e \<longleftrightarrow> (case unraw e of Some w \<Rightarrow> length es \<le> unat w | None \<Rightarrow> True)"

locale coded_enum =
  fixes es :: "'e list" and raw :: "byte \<Rightarrow> 'e" and unraw :: "'e \<Rightarrow> byte option"
  assumes few: "length es < 256"
    and listed: "unraw e = None \<Longrightarrow> e \<in> set es"
    and raw_of: "unraw e = Some w \<Longrightarrow> e = raw w"
begin

lemma code_roundtrip:
  assumes "enum_valid es unraw e"
  shows "enum_of_code es raw (unat (enum_code es unraw e)) = e"
proof (cases "unraw e")
  case None
  let ?k = "length (takeWhile (\<lambda>x. x \<noteq> e) es)"
  have k: "?k < length es" using listed [OF None]
    by (metis (mono_tags, lifting) length_takeWhile_le order_le_less takeWhile_eq_all_conv takeWhile_eq_take take_all_iff)
  then have "es ! ?k = e" using nth_length_takeWhile [OF k] by simp
  moreover have "unat (of_nat ?k :: byte) = ?k" using k few by (simp add: unat_of_nat)
  ultimately show ?thesis using None k by (simp add: enum_code_def enum_of_code_def)
next
  case (Some w)
  then show ?thesis
    using assms raw_of [OF Some] by (simp add: enum_code_def enum_of_code_def enum_valid_def)
qed

end

sublocale coded_enum \<subseteq> enum: codec "\<lambda>e. w_u8 (enum_code es unraw e)" "r_enum es raw" "enum_valid es unraw"
  by unfold_locales (simp add: r_enum_def codec_simps code_roundtrip)

definition overcommit_mode_raw :: "overcommit_mode \<Rightarrow> byte option" where
  "overcommit_mode_raw e = (case e of OM_raw w \<Rightarrow> Some w | _ \<Rightarrow> None)"

definition reservation_status_raw :: "reservation_status \<Rightarrow> byte option" where
  "reservation_status_raw e = (case e of RS_raw w \<Rightarrow> Some w | _ \<Rightarrow> None)"

definition tenant_group_kind_raw :: "tenant_group_kind \<Rightarrow> byte option" where
  "tenant_group_kind_raw e = (case e of GK_raw w \<Rightarrow> Some w | _ \<Rightarrow> None)"

abbreviation w_overcommit_mode :: "overcommit_mode \<Rightarrow> byte list" where
  "w_overcommit_mode e \<equiv> w_u8 (enum_code overcommit_mode_list overcommit_mode_raw e)"

abbreviation r_overcommit_mode :: "overcommit_mode reader" where
  "r_overcommit_mode \<equiv> r_enum overcommit_mode_list OM_raw"

abbreviation w_reservation_status :: "reservation_status \<Rightarrow> byte list" where
  "w_reservation_status e \<equiv> w_u8 (enum_code reservation_status_list reservation_status_raw e)"

abbreviation r_reservation_status :: "reservation_status reader" where
  "r_reservation_status \<equiv> r_enum reservation_status_list RS_raw"

abbreviation w_tenant_group_kind :: "tenant_group_kind \<Rightarrow> byte list" where
  "w_tenant_group_kind e \<equiv> w_u8 (enum_code tenant_group_kind_list tenant_group_kind_raw e)"

abbreviation r_tenant_group_kind :: "tenant_group_kind reader" where
  "r_tenant_group_kind \<equiv> r_enum tenant_group_kind_list GK_raw"

interpretation om: coded_enum overcommit_mode_list OM_raw overcommit_mode_raw
  by unfold_locales (auto simp: overcommit_mode_list_def overcommit_mode_raw_def split: overcommit_mode.splits)

interpretation rs: coded_enum reservation_status_list RS_raw reservation_status_raw
  by unfold_locales (auto simp: reservation_status_list_def reservation_status_raw_def split: reservation_status.splits)

interpretation gk: coded_enum tenant_group_kind_list GK_raw tenant_group_kind_raw
  by unfold_locales (auto simp: tenant_group_kind_list_def tenant_group_kind_raw_def split: tenant_group_kind.splits)

lemmas enum_codecs [codec_simps] = om.enum.dec_enc_bind rs.enum.dec_enc_bind gk.enum.dec_enc_bind

section \<open>Resource vectors\<close>

definition w_vector_entry :: "resource_vector \<Rightarrow> resource_dimension \<Rightarrow> byte list" where
  "w_vector_entry v d = w_u8 (if rv_present v d then 1 else 0) @ w_i64 (if rv_present v d then rv_get v d else 0)"

definition w_vector :: "resource_vector \<Rightarrow> byte list" where
  "w_vector v = w_u16 (of_nat (length all_resource_dimensions)) @
     concat (map (w_vector_entry v) all_resource_dimensions)"

fun r_vector_loop :: "resource_dimension list \<Rightarrow> resource_vector \<Rightarrow> resource_vector reader" where
  "r_vector_loop [] r = rreturn r"
| "r_vector_loop (d # ds) r =
     rbind r_u8 (\<lambda>present. rbind r_i64 (\<lambda>val.
       if val < 0 then rthrow (Decode_error ''negative vector amount'')
       else r_vector_loop ds (if present \<noteq> 0 then rv_put r d val else r)))"

definition r_vector :: "resource_vector reader" where
  "r_vector = rbind r_u16 (\<lambda>count.
     if unat count > length all_resource_dimensions
     then rthrow (Decode_error ''vector dimension count exceeds bound'')
     else r_vector_loop (take (unat count) all_resource_dimensions) rv_empty)"

definition w_signed_vector :: "signed_vector \<Rightarrow> byte list" where
  "w_signed_vector v = w_u16 (of_nat (length all_resource_dimensions)) @
     concat (map (\<lambda>d. w_i64 (v d)) all_resource_dimensions)"

fun r_signed_vector_loop :: "resource_dimension list \<Rightarrow> signed_vector \<Rightarrow> signed_vector reader" where
  "r_signed_vector_loop [] r = rreturn r"
| "r_signed_vector_loop (d # ds) r = rbind r_i64 (\<lambda>val. r_signed_vector_loop ds (sv_set r d val))"

definition r_signed_vector :: "signed_vector reader" where
  "r_signed_vector = rbind r_u16 (\<lambda>count.
     if unat count > length all_resource_dimensions
     then rthrow (Decode_error ''signed vector dimension count exceeds bound'')
     else r_signed_vector_loop (take (unat count) all_resource_dimensions) sv_zero)"

lemma rv_ok_in_i64: "rv_ok v \<Longrightarrow> in_i64 (rv_get v d)"
  using rv_okD(1,2) [of v d] by (simp add: in_i64_def i64_bounds)

lemma in_i64_0 [simp]: "in_i64 0"
  by (simp add: in_i64_def i64_bounds)

lemma r_vector_loop_entries:
  assumes "rv_ok v"
  shows "r_vector_loop ds r (concat (map (w_vector_entry v) ds) @ rest) =
    Inr (fold (\<lambda>d r. if rv_present v d then rv_put r d (rv_get v d) else r) ds r, rest)"
proof (induction ds arbitrary: r)
  case (Cons d ds)
  have "in_i64 (rv_get v d)" "0 \<le> rv_get v d" using assms by (simp_all add: rv_ok_in_i64 rv_okD)
  then show ?case using Cons by (cases "rv_present v d") (simp_all add: w_vector_entry_def codec_simps)
qed simp

lemma unat_17 [simp]: "unat (of_nat (length all_resource_dimensions) :: 16 word) = length all_resource_dimensions"
  by (simp add: length_all_dimensions)

interpretation rvec: codec w_vector r_vector rv_ok
proof unfold_locales
  fix v rest assume ok: "rv_ok v"
  have "fold (\<lambda>d r. if rv_present v d then rv_put r d (rv_get v d) else r) all_resource_dimensions rv_empty = v"
    using ok by (intro rv_eqI) (auto simp: fold_put rv_okD)
  then show "r_vector (w_vector v @ rest) = Inr (v, rest)"
    by (simp add: w_vector_def r_vector_def codec_simps r_vector_loop_entries [OF ok])
qed

lemma r_signed_vector_loop_entries:
  assumes "sv_ok v"
  shows "r_signed_vector_loop ds r (concat (map (\<lambda>d. w_i64 (v d)) ds) @ rest) =
    Inr (\<lambda>d. if d \<in> set ds then v d else r d, rest)"
  using assms by (induction ds arbitrary: r) (auto simp: codec_simps sv_ok_def in_i64_def sv_set_def fun_eq_iff)

interpretation svec: codec w_signed_vector r_signed_vector sv_ok
  by unfold_locales (simp add: w_signed_vector_def r_signed_vector_def codec_simps r_signed_vector_loop_entries)

lemmas vector_codecs [codec_simps] = rvec.dec_enc_bind svec.dec_enc_bind

text \<open>The reader accepts only vectors whose amounts are in range and canonical.\<close>

lemma sint64_max: "sint (w :: 64 word) \<le> INT64_MAX"
  using sint_lt [of w] by (simp add: i64_bounds)

lemma rv_ok_r_vector_loop: "rv_ok r \<Longrightarrow> r_vector_loop ds r bs = Inr (v, rest) \<Longrightarrow> rv_ok v"
proof (induction ds arbitrary: r bs)
  case (Cons d ds)
  show ?case
  proof (cases "r_u8 bs")
    case (Inr pb)
    obtain p bs1 where 1: "r_u8 bs = Inr (p, bs1)" using Inr by (cases pb) auto
    show ?thesis
    proof (cases "r_i64 bs1")
      case (Inr vb)
      obtain x bs2 where 2: "r_i64 bs1 = Inr (x, bs2)" using Inr by (cases vb) auto
      then have "x \<le> INT64_MAX"
        by (auto simp: r_i64_def rbind_def sint64_max split: sum.splits)
      moreover have "\<not> x < 0" "r_vector_loop ds (if p \<noteq> 0 then rv_put r d x else r) bs2 = Inr (v, rest)"
        using Cons.prems(2) 1 2 by (auto simp: rbind_def split: if_splits)
      moreover have "rv_ok (if p \<noteq> 0 then rv_put r d x else r)" using Cons.prems(1) calculation(1) by (simp add: rv_ok_put)
      ultimately show ?thesis using Cons.IH by blast
    qed (use Cons.prems 1 in \<open>simp add: rbind_def\<close>)
  qed (use Cons.prems in \<open>simp add: rbind_def\<close>)
qed simp

lemma rv_ok_r_vector: "r_vector bs = Inr (v, rest) \<Longrightarrow> rv_ok v"
  by (auto simp: r_vector_def rbind_def split: sum.splits if_splits intro: rv_ok_r_vector_loop [OF rv_ok_empty])

section \<open>Readers look only at what they consume\<close>

lemma stable_return [intro]: "stable_reader (rreturn x)"
  by unfold_locales simp_all

lemma stable_throw [intro]: "stable_reader (rthrow e)"
  by unfold_locales simp_all

lemma stable_bind [intro]:
  assumes "stable_reader m" "\<And>x. stable_reader (f x)"
  shows "stable_reader (rbind m f)"
proof
  fix bs x rest assume "rbind m f bs = Inr (x, rest)"
  then obtain y bs' where 1: "m bs = Inr (y, bs')" and 2: "f y bs' = Inr (x, rest)"
    by (auto simp: rbind_def split: sum.splits)
  from stable_reader.consumes [OF assms(1) 1] stable_reader.consumes [OF assms(2) 2]
  show "\<exists>pre. bs = pre @ rest" by (metis append_assoc)
  fix ys
  show "rbind m f (bs @ ys) = Inr (x, rest @ ys)"
    using stable_reader.extends [OF assms(1) 1] stable_reader.extends [OF assms(2) 2] by (simp add: rbind_def)
qed

lemma stable_if [intro]: "stable_reader a \<Longrightarrow> stable_reader b \<Longrightarrow> stable_reader (if c then a else b)"
  by simp

lemma stable_read_bytes [intro]: "stable_reader (read_bytes n)"
  by unfold_locales (auto simp: read_bytes_def split: if_splits intro: append_take_drop_id [symmetric])

lemma stable_ints [intro]:
  "stable_reader r_u8" "stable_reader r_u16" "stable_reader r_u32" "stable_reader r_u64"
  unfolding r_u8_def r_u16_def r_u32_def r_u64_def by (intro stable_bind stable_read_bytes stable_return)+

lemma stable_scalars [intro]:
  "stable_reader r_i64" "stable_reader r_bool" "stable_reader read_id" "stable_reader r_gen"
  "stable_reader r_id_opt" "stable_reader r_string" "stable_reader (r_enum es raw)"
  unfolding r_i64_def r_bool_def read_id_def r_gen_def r_id_opt_def r_string_def r_enum_def
  by (intro stable_bind stable_if stable_ints stable_return stable_throw stable_read_bytes)+

lemma stable_vector_loop: "stable_reader (r_vector_loop ds r)"
  by (induction ds arbitrary: r) auto

lemma stable_signed_vector_loop: "stable_reader (r_signed_vector_loop ds r)"
  by (induction ds arbitrary: r) auto

lemma stable_vectors [intro]: "stable_reader r_vector" "stable_reader r_signed_vector"
  unfolding r_vector_def r_signed_vector_def
  by (intro stable_bind stable_if stable_ints stable_throw stable_vector_loop stable_signed_vector_loop)+

interpretation rvec: stable_reader r_vector
  by (rule stable_vectors)

end
