(* ===== verification/QF_Persist.thy ===== *)
theory QF_Persist
  imports QF_Codec QF_Accounting
begin

text \<open>
  The state format of \<open>accounting/engine.cpp\<close>: the encoders and decoders of every record,
  \<open>serialize_state\<close> and \<open>deserialize_state\<close>. A decoder of one record is a reader; the
  assignments of \<open>deserialize_state\<close> to members of the engine are a loader, which keeps what
  was assigned before an error, as the code does. The main lemma is that an engine built
  from the encoding of another holds the same records.
\<close>

section \<open>Quotas\<close>

definition write_quota :: "resource_quota \<Rightarrow> byte list" where
  "write_quota q =
     w_id (q_tenant q) @ w_id (q_resource_class q) @
     w_vector (q_guaranteed q) @ w_vector (q_soft_limit q) @ w_vector (q_hard_limit q) @ w_vector (q_burst_limit q) @
     w_vector (q_borrowable q) @ w_vector (q_physical_capacity q) @ w_vector (q_shared_pool q) @
     w_u64 (bu_percent_above_soft (q_burst_rule q)) @ w_vector (bu_absolute_burst (q_burst_rule q)) @
     w_i64 (bu_window (q_burst_rule q)) @ w_u32 (bu_max_simultaneous (q_burst_rule q)) @
     w_i64 (bu_cooldown (q_burst_rule q)) @ w_bool (bu_allow_debt (q_burst_rule q)) @
     w_bool (bw_borrow_enabled (q_borrow_rule q)) @ w_bool (bw_lend_enabled (q_borrow_rule q)) @
     w_bool (bw_recall_before_new_lend (q_borrow_rule q)) @ w_i64 (bw_max_borrow_duration (q_borrow_rule q)) @
     w_bool (bw_preserves_guarantee (q_borrow_rule q)) @ w_u32 (bw_max_borrows (q_borrow_rule q)) @
     w_overcommit_mode (q_overcommit q) @ w_u64 (q_overcommit_factor q) @
     w_gen (q_generation q) @ w_gen (q_policy_generation q)"

definition read_quota :: "resource_quota reader" where
  "read_quota =
     rbind read_id (\<lambda>ten. rbind read_id (\<lambda>cls.
     rbind r_vector (\<lambda>gu. rbind r_vector (\<lambda>so. rbind r_vector (\<lambda>ha. rbind r_vector (\<lambda>bu.
     rbind r_vector (\<lambda>bo. rbind r_vector (\<lambda>ph. rbind r_vector (\<lambda>sh.
     rbind r_u64 (\<lambda>pct. rbind r_vector (\<lambda>ab.
     rbind r_i64 (\<lambda>win. rbind r_u32 (\<lambda>sim.
     rbind r_i64 (\<lambda>cool. rbind r_bool (\<lambda>debt.
     rbind r_bool (\<lambda>ben. rbind r_bool (\<lambda>len.
     rbind r_bool (\<lambda>rec. rbind r_i64 (\<lambda>dur.
     rbind r_bool (\<lambda>pres. rbind r_u32 (\<lambda>maxb.
     rbind r_overcommit_mode (\<lambda>om. rbind r_u64 (\<lambda>fac.
     rbind r_gen (\<lambda>gen. rbind r_gen (\<lambda>pgen.
     rreturn \<lparr>q_tenant = ten, q_resource_class = cls, q_guaranteed = gu, q_soft_limit = so, q_hard_limit = ha,
       q_burst_limit = bu, q_borrowable = bo, q_physical_capacity = ph,
       q_burst_rule = \<lparr>bu_percent_above_soft = pct, bu_absolute_burst = ab, bu_window = win,
         bu_max_simultaneous = sim, bu_cooldown = cool, bu_allow_debt = debt\<rparr>,
       q_borrow_rule = \<lparr>bw_borrow_enabled = ben, bw_lend_enabled = len, bw_recall_before_new_lend = rec,
         bw_max_borrow_duration = dur, bw_preserves_guarantee = pres, bw_max_borrows = maxb\<rparr>,
       q_overcommit = om, q_overcommit_factor = fac, q_shared_pool = sh,
       q_generation = gen, q_policy_generation = pgen\<rparr>)))))))))))))))))))))))))"

definition quota_encodable :: "resource_quota \<Rightarrow> bool" where
  "quota_encodable q \<longleftrightarrow>
     quota_ok q \<and> rv_ok (q_shared_pool q) \<and> rv_ok (bu_absolute_burst (q_burst_rule q)) \<and>
     in_i64 (bu_window (q_burst_rule q)) \<and> in_i64 (bu_cooldown (q_burst_rule q)) \<and>
     in_i64 (bw_max_borrow_duration (q_borrow_rule q)) \<and>
     enum_valid overcommit_mode_list overcommit_mode_raw (q_overcommit q)"

interpretation quotac: codec write_quota read_quota quota_encodable
  by unfold_locales (simp add: write_quota_def read_quota_def quota_encodable_def quota_ok_def codec_simps)

lemmas quota_codec [codec_simps] = quotac.dec_enc_bind

section \<open>The other records\<close>

definition write_group :: "tenant_group \<Rightarrow> byte list" where
  "write_group g =
     w_id (grp_id g) @ w_tenant_group_kind (grp_kind g) @ w_id_opt (grp_parent g) @
     w_string (grp_name g) @ write_quota (grp_quota g) @ w_gen (grp_policy_generation g)"

definition read_group :: "tenant_group reader" where
  "read_group =
     rbind read_id (\<lambda>i. rbind r_tenant_group_kind (\<lambda>k. rbind r_id_opt (\<lambda>par.
     rbind r_string (\<lambda>nm. rbind read_quota (\<lambda>q. rbind r_gen (\<lambda>pg.
     rreturn \<lparr>grp_id = i, grp_kind = k, grp_parent = par, grp_name = nm, grp_quota = q,
       grp_policy_generation = pg\<rparr>))))))"

definition group_encodable :: "tenant_group \<Rightarrow> bool" where
  "group_encodable g \<longleftrightarrow>
     enum_valid tenant_group_kind_list tenant_group_kind_raw (grp_kind g) \<and> string_ok (grp_name g) \<and>
     quota_encodable (grp_quota g)"

interpretation groupc: codec write_group read_group group_encodable
  by unfold_locales (simp add: write_group_def read_group_def group_encodable_def codec_simps)

definition write_tenant :: "tenant \<Rightarrow> byte list" where
  "write_tenant t =
     w_id (ten_id t) @ w_id_opt (ten_group t) @ w_string (ten_name t) @ w_u32 (ten_priority t) @
     w_string (ten_service_class t)"

definition read_tenant :: "tenant reader" where
  "read_tenant =
     rbind read_id (\<lambda>i. rbind r_id_opt (\<lambda>g. rbind r_string (\<lambda>nm. rbind r_u32 (\<lambda>pr. rbind r_string (\<lambda>sc.
     rreturn \<lparr>ten_id = i, ten_group = g, ten_name = nm, ten_priority = pr, ten_service_class = sc\<rparr>)))))"

definition tenant_encodable :: "tenant \<Rightarrow> bool" where
  "tenant_encodable t \<longleftrightarrow> string_ok (ten_name t) \<and> string_ok (ten_service_class t)"

interpretation tenantc: codec write_tenant read_tenant tenant_encodable
  by unfold_locales (simp add: write_tenant_def read_tenant_def tenant_encodable_def codec_simps)

definition write_allocation :: "allocation \<Rightarrow> byte list" where
  "write_allocation a =
     w_id (al_id a) @ w_id (al_tenant a) @ w_id (al_reservation a) @ w_id (al_resource_class a) @
     w_vector (al_resources a) @ w_vector (al_used a) @ w_i64 (al_started_at a) @ w_i64 (al_ended_at a) @
     w_bool (al_active a) @ w_gen (al_quota_generation a) @ w_gen (al_policy_generation a) @ w_gen (al_epoch a) @
     w_id (al_owner_agent a) @ w_id (al_owner_boot a) @ w_string (al_label a)"

definition read_allocation :: "allocation reader" where
  "read_allocation =
     rbind read_id (\<lambda>i. rbind read_id (\<lambda>t. rbind read_id (\<lambda>r. rbind read_id (\<lambda>c.
     rbind r_vector (\<lambda>res. rbind r_vector (\<lambda>us. rbind r_i64 (\<lambda>st. rbind r_i64 (\<lambda>en.
     rbind r_bool (\<lambda>act. rbind r_gen (\<lambda>qg. rbind r_gen (\<lambda>pg. rbind r_gen (\<lambda>ep.
     rbind read_id (\<lambda>oa. rbind read_id (\<lambda>ob. rbind r_string (\<lambda>lb.
     rreturn \<lparr>al_id = i, al_tenant = t, al_reservation = r, al_resource_class = c, al_resources = res,
       al_used = us, al_started_at = st, al_ended_at = en, al_active = act, al_quota_generation = qg,
       al_policy_generation = pg, al_epoch = ep, al_owner_agent = oa, al_owner_boot = ob,
       al_label = lb\<rparr>)))))))))))))))"

definition allocation_encodable :: "allocation \<Rightarrow> bool" where
  "allocation_encodable a \<longleftrightarrow>
     rv_ok (al_resources a) \<and> rv_ok (al_used a) \<and> in_i64 (al_started_at a) \<and> in_i64 (al_ended_at a) \<and>
     string_ok (al_label a)"

interpretation allocc: codec write_allocation read_allocation allocation_encodable
  by unfold_locales (simp add: write_allocation_def read_allocation_def allocation_encodable_def codec_simps)

text \<open>The class of a borrow record is not written; the reader leaves it null.\<close>

definition write_borrow :: "borrow_record \<Rightarrow> byte list" where
  "write_borrow b =
     w_id (br_id b) @ w_id (br_borrower b) @ w_id (br_lender b) @ w_id (br_lending b) @
     w_id_opt (br_reservation b) @ w_vector (br_amount b) @ w_vector (br_consumed b) @
     w_i64 (br_started_at b) @ w_i64 (br_expires_at b) @ w_u32 (br_recall_priority b) @ w_vector (br_debt b) @
     w_gen (br_policy_generation b) @ w_gen (br_quota_generation b) @ w_gen (br_epoch b) @ w_bool (br_recalled b)"

definition read_borrow :: "borrow_record reader" where
  "read_borrow =
     rbind read_id (\<lambda>i. rbind read_id (\<lambda>b. rbind read_id (\<lambda>l. rbind read_id (\<lambda>ld.
     rbind r_id_opt (\<lambda>rs. rbind r_vector (\<lambda>am. rbind r_vector (\<lambda>co.
     rbind r_i64 (\<lambda>st. rbind r_i64 (\<lambda>ex. rbind r_u32 (\<lambda>rp. rbind r_vector (\<lambda>de.
     rbind r_gen (\<lambda>pg. rbind r_gen (\<lambda>qg. rbind r_gen (\<lambda>ep. rbind r_bool (\<lambda>rc.
     rreturn \<lparr>br_id = i, br_borrower = b, br_lender = l, br_lending = ld, br_reservation = rs,
       br_resource_class = null_id, br_amount = am, br_consumed = co, br_started_at = st, br_expires_at = ex,
       br_recall_priority = rp, br_debt = de, br_policy_generation = pg, br_quota_generation = qg,
       br_epoch = ep, br_recalled = rc\<rparr>)))))))))))))))"

definition borrow_encodable :: "borrow_record \<Rightarrow> bool" where
  "borrow_encodable b \<longleftrightarrow>
     rv_ok (br_amount b) \<and> rv_ok (br_consumed b) \<and> rv_ok (br_debt b) \<and> in_i64 (br_started_at b) \<and>
     in_i64 (br_expires_at b) \<and> br_resource_class b = null_id"

interpretation borrowc: codec write_borrow read_borrow borrow_encodable
  by unfold_locales (simp add: write_borrow_def read_borrow_def borrow_encodable_def codec_simps)

definition write_lending :: "lending_record \<Rightarrow> byte list" where
  "write_lending l =
     w_id (ln_id l) @ w_id (ln_lender l) @ w_id (ln_borrower l) @ w_id (ln_resource_class l) @
     w_vector (ln_amount l) @ w_vector (ln_outstanding l) @ w_i64 (ln_started_at l) @ w_i64 (ln_expires_at l) @
     w_u32 (ln_recall_priority l) @ w_bool (ln_revocable l) @ w_gen (ln_policy_generation l) @
     w_gen (ln_quota_generation l) @ w_gen (ln_epoch l)"

definition read_lending :: "lending_record reader" where
  "read_lending =
     rbind read_id (\<lambda>i. rbind read_id (\<lambda>l. rbind read_id (\<lambda>b. rbind read_id (\<lambda>c.
     rbind r_vector (\<lambda>am. rbind r_vector (\<lambda>out. rbind r_i64 (\<lambda>st. rbind r_i64 (\<lambda>ex.
     rbind r_u32 (\<lambda>rp. rbind r_bool (\<lambda>rv. rbind r_gen (\<lambda>pg. rbind r_gen (\<lambda>qg. rbind r_gen (\<lambda>ep.
     rreturn \<lparr>ln_id = i, ln_lender = l, ln_borrower = b, ln_resource_class = c, ln_amount = am,
       ln_outstanding = out, ln_started_at = st, ln_expires_at = ex, ln_recall_priority = rp,
       ln_revocable = rv, ln_policy_generation = pg, ln_quota_generation = qg, ln_epoch = ep\<rparr>)))))))))))))"

definition lending_encodable :: "lending_record \<Rightarrow> bool" where
  "lending_encodable l \<longleftrightarrow>
     rv_ok (ln_amount l) \<and> rv_ok (ln_outstanding l) \<and> in_i64 (ln_started_at l) \<and> in_i64 (ln_expires_at l)"

interpretation lendc: codec write_lending read_lending lending_encodable
  by unfold_locales (simp add: write_lending_def read_lending_def lending_encodable_def codec_simps)

section \<open>Reservations with their funding\<close>

fun r_list :: "nat \<Rightarrow> 'a reader \<Rightarrow> 'a list reader" where
  "r_list 0 rd = rreturn []"
| "r_list (Suc n) rd = rbind rd (\<lambda>x. rbind (r_list n rd) (\<lambda>xs. rreturn (x # xs)))"

lemma r_list_ids [codec_simps]: "r_list (length xs) read_id (concat (map w_id xs) @ rest) = Inr (xs, rest)"
  by (induction xs) (simp_all add: codec_simps rbind_def [of "r_list _ _"])

definition write_reservation :: "reservation \<Rightarrow> byte list" where
  "write_reservation r =
     w_id (res_id r) @ w_id (res_tenant r) @ w_id (res_resource_class r) @
     w_vector (res_resources r) @ w_vector (res_consumed r) @ w_reservation_status (res_status r) @
     w_i64 (res_created_at r) @ w_i64 (res_expires_at r) @ w_gen (res_quota_generation r) @
     w_gen (res_policy_generation r) @ w_gen (res_epoch r) @ w_id (res_owner_agent r) @ w_id (res_owner_boot r) @
     w_string (res_label r) @ w_gen (res_resource_generation r)"

definition read_reservation :: "reservation reader" where
  "read_reservation =
     rbind read_id (\<lambda>i. rbind read_id (\<lambda>t. rbind read_id (\<lambda>c. rbind r_vector (\<lambda>re. rbind r_vector (\<lambda>co.
     rbind r_reservation_status (\<lambda>st. rbind r_i64 (\<lambda>cr. rbind r_i64 (\<lambda>ex.
     rbind r_gen (\<lambda>qg. rbind r_gen (\<lambda>pg. rbind r_gen (\<lambda>ep. rbind read_id (\<lambda>oa. rbind read_id (\<lambda>ob.
     rbind r_string (\<lambda>lb. rbind r_gen (\<lambda>rg.
     rreturn \<lparr>res_id = i, res_tenant = t, res_resource_class = c, res_resources = re, res_consumed = co,
       res_status = st, res_created_at = cr, res_expires_at = ex, res_quota_generation = qg,
       res_policy_generation = pg, res_epoch = ep, res_owner_agent = oa, res_owner_boot = ob,
       res_label = lb, res_resource_generation = rg\<rparr>)))))))))))))))"

definition reservation_encodable :: "reservation \<Rightarrow> bool" where
  "reservation_encodable r \<longleftrightarrow>
     rv_ok (res_resources r) \<and> rv_ok (res_consumed r) \<and> in_i64 (res_created_at r) \<and> in_i64 (res_expires_at r) \<and>
     string_ok (res_label r) \<and> enum_valid reservation_status_list reservation_status_raw (res_status r)"

interpretation resc: codec write_reservation read_reservation reservation_encodable
  by unfold_locales (simp add: write_reservation_def read_reservation_def reservation_encodable_def codec_simps)

definition write_funding :: "funding option \<Rightarrow> byte list" where
  "write_funding f =
     (case f of None \<Rightarrow> w_u8 0
      | Some f \<Rightarrow> w_u8 1 @ w_vector (fu_burst f) @ w_u32 (of_nat (length (fu_borrows f))) @
          concat (map w_id (fu_borrows f)))"

definition read_funding :: "32 word \<Rightarrow> funding option reader" where
  "read_funding max_borrows =
     rbind r_u8 (\<lambda>b. if b \<noteq> 0 then
       rbind r_vector (\<lambda>burst. rbind r_u32 (\<lambda>nb.
         if nb > max_borrows then rthrow (Load_fail ''borrow refs exceed bound'')
         else rbind (r_list (unat nb) read_id) (\<lambda>ids. rreturn (Some \<lparr>fu_burst = burst, fu_borrows = ids\<rparr>))))
       else rreturn None)"

definition funding_encodable :: "32 word \<Rightarrow> funding option \<Rightarrow> bool" where
  "funding_encodable max_borrows f \<longleftrightarrow>
     (case f of None \<Rightarrow> True | Some f \<Rightarrow> rv_ok (fu_burst f) \<and> length (fu_borrows f) \<le> unat max_borrows)"

lemma unat_count: "n \<le> unat (m :: 'a::len word) \<Longrightarrow> unat (of_nat n :: 'a word) = n"
proof -
  assume "n \<le> unat m"
  moreover have "unat m < 2 ^ LENGTH('a)" by (rule unsigned_less)
  ultimately have "n < 2 ^ LENGTH('a)" by (rule le_less_trans)
  then show ?thesis by (simp add: unat_of_nat)
qed

lemma count_not_above: "n \<le> unat (m :: 32 word) \<Longrightarrow> \<not> (of_nat n > m)"
  by (simp add: word_less_nat_alt unat_count not_less)

interpretation fundc: codec write_funding "read_funding m" "funding_encodable m" for m
proof unfold_locales
  fix f rest assume ok: "funding_encodable m f"
  show "read_funding m (write_funding f @ rest) = Inr (f, rest)"
  proof (cases f)
    case (Some g)
    then have "rv_ok (fu_burst g)" "length (fu_borrows g) \<le> unat m"
      using ok by (simp_all add: funding_encodable_def)
    then show ?thesis
      using Some count_not_above [of "length (fu_borrows g)" m]
      by (simp add: write_funding_def read_funding_def codec_simps unat_count rbind_def [of "r_list _ _"])
  qed (simp add: write_funding_def read_funding_def codec_simps)
qed

section \<open>Writing the state\<close>

text \<open>A map is written as its size and its entries in the order of the keys.\<close>

definition w_map :: "('k::linorder \<times> 'v \<Rightarrow> byte list) \<Rightarrow> ('k, 'v) hmap \<Rightarrow> byte list" where
  "w_map wr m = w_u32 (of_nat (length m)) @ concat (map wr (sort_key fst m))"

definition write_header :: "impl \<Rightarrow> byte list" where
  "write_header im =
     w_u32 1 @ w_gen (im_epoch im) @ w_gen (im_quota_generation im) @ w_gen (pol_generation (im_policy im)) @
     w_u64 (im_sequence im) @ w_string (pol_name (im_policy im)) @ w_string (pol_description (im_policy im)) @
     w_u64 (pol_created_at (im_policy im)) @ w_overcommit_mode (op_mode (pol_overcommit (im_policy im))) @
     w_u16 (ucast (pol_max_hierarchy_depth (im_policy im))) @ w_u16 (ucast (se_max_event_retention (im_settings im)))"

definition serialize_state :: "impl \<Rightarrow> byte list" where
  "serialize_state im =
     write_header im @
     w_map (\<lambda>(i, g). write_group g) (im_groups im) @
     w_map (\<lambda>(i, t). write_tenant t) (im_tenants im) @
     w_map (\<lambda>(i, q). write_quota q) (im_local_quota im) @
     w_map (\<lambda>(i, q). w_id i @ write_quota q) (im_group_quota im) @
     w_map (\<lambda>(i, r). write_reservation r @ write_funding (map_of (im_funding im) (res_id r))) (im_reservations im) @
     w_map (\<lambda>(i, a). write_allocation a) (im_allocations im) @
     w_map (\<lambda>(i, b). write_borrow b) (im_borrows im) @
     w_map (\<lambda>(i, l). write_lending l) (im_lends im)"

section \<open>Reading the state\<close>

text \<open>A loader assigns members as it reads; an error leaves what was assigned before.\<close>

type_synonym loader = "impl \<Rightarrow> byte list \<Rightarrow> impl \<times> read_error + impl \<times> byte list"

definition assign :: "'a reader \<Rightarrow> ('a \<Rightarrow> impl \<Rightarrow> impl) \<Rightarrow> loader" where
  "assign rd f im bs = (case rd bs of Inl e \<Rightarrow> Inl (im, e) | Inr (x, bs') \<Rightarrow> Inr (f x im, bs'))"

definition lseq :: "loader \<Rightarrow> loader \<Rightarrow> loader" where
  "lseq l1 l2 im bs = (case l1 im bs of Inl e \<Rightarrow> Inl e | Inr (im', bs') \<Rightarrow> l2 im' bs')"

fun lloop :: "nat \<Rightarrow> loader \<Rightarrow> loader" where
  "lloop 0 body im bs = Inr (im, bs)"
| "lloop (Suc n) body im bs = lseq body (lloop n body) im bs"

definition counted :: "(engine_settings \<Rightarrow> 32 word) \<Rightarrow> string \<Rightarrow> loader \<Rightarrow> loader" where
  "counted bound msg body im bs =
     (case r_u32 bs of
        Inl e \<Rightarrow> Inl (im, e)
      | Inr (n, bs') \<Rightarrow>
          if n > bound (im_settings im) then Inl (im, Load_fail msg) else lloop (unat n) body im bs')"

definition load_header :: loader where
  "load_header =
     lseq (\<lambda>im bs. case r_u32 bs of Inl e \<Rightarrow> Inl (im, e)
            | Inr (ver, bs') \<Rightarrow> if ver \<noteq> 1 then Inl (im, Load_fail ''unsupported persistence format version'') else Inr (im, bs'))
     (lseq (assign r_gen (\<lambda>v. im_epoch_update (\<lambda>_. v)))
     (lseq (assign r_gen (\<lambda>v. im_quota_generation_update (\<lambda>_. v)))
     (lseq (assign r_gen (\<lambda>v. im_policy_update (pol_generation_update (\<lambda>_. v))))
     (lseq (assign r_u64 (\<lambda>v. im_sequence_update (\<lambda>_. v)))
     (lseq (assign r_string (\<lambda>v. im_policy_update (pol_name_update (\<lambda>_. v))))
     (lseq (assign r_string (\<lambda>v. im_policy_update (pol_description_update (\<lambda>_. v))))
     (lseq (assign r_u64 (\<lambda>v. im_policy_update (pol_created_at_update (\<lambda>_. v))))
     (lseq (assign r_overcommit_mode (\<lambda>v. im_policy_update (pol_overcommit_update (op_mode_update (\<lambda>_. v)))))
     (lseq (assign r_u16 (\<lambda>v. im_policy_update (pol_max_hierarchy_depth_update (\<lambda>_. ucast v))))
       (assign r_u16 (\<lambda>v. im_settings_update (se_max_event_retention_update (\<lambda>_. ucast v)))))))))))))"

definition load_groups :: loader where
  "load_groups = counted se_max_groups ''group count exceeds bound''
     (assign read_group (\<lambda>g. im_groups_update (AList.update (grp_id g) g)))"

definition load_tenants :: loader where
  "load_tenants = counted se_max_tenants ''tenant count exceeds bound''
     (assign read_tenant (\<lambda>t. im_tenants_update (AList.update (ten_id t) t)))"

definition load_local_quota :: loader where
  "load_local_quota = counted se_max_tenants ''tenant quota count exceeds bound''
     (assign read_quota (\<lambda>q. im_local_quota_update (AList.update (q_tenant q) q)))"

definition load_group_quota :: loader where
  "load_group_quota = counted se_max_groups ''group quota count exceeds bound''
     (assign (rbind read_id (\<lambda>gid. rbind read_quota (\<lambda>q. rreturn (gid, q))))
       (\<lambda>(gid, q). im_group_quota_update (AList.update gid q)))"

definition load_reservations :: loader where
  "load_reservations = counted se_max_reservations ''reservation count exceeds bound''
     (\<lambda>im. assign (rbind read_reservation (\<lambda>r. rbind (read_funding (se_max_borrows (im_settings im))) (\<lambda>f. rreturn (r, f))))
        (\<lambda>(r, f) im. (case f of None \<Rightarrow> im | Some f \<Rightarrow> im\<lparr>im_funding := AList.update (res_id r) f (im_funding im)\<rparr>)
           \<lparr>im_reservations := AList.update (res_id r) r (im_reservations im)\<rparr>) im)"

definition load_allocations :: loader where
  "load_allocations = counted se_max_reservations ''allocation count exceeds bound''
     (assign read_allocation (\<lambda>a. im_allocations_update (AList.update (al_id a) a)))"

definition load_borrows :: loader where
  "load_borrows = counted se_max_borrows ''borrow count exceeds bound''
     (assign read_borrow (\<lambda>b. im_borrows_update (AList.update (br_id b) b)))"

definition load_lends :: loader where
  "load_lends = counted se_max_borrows ''lending count exceeds bound''
     (assign read_lending (\<lambda>l. im_lends_update (AList.update (ln_id l) l)))"

definition load_state :: loader where
  "load_state =
     lseq load_header (lseq load_groups (lseq load_tenants (lseq load_local_quota (lseq load_group_quota
       (lseq load_reservations (lseq load_allocations (lseq load_borrows
         (lseq load_lends (\<lambda>im bs. if bs = [] then Inr (im, bs) else Inl (im, Decode_error ''trailing invalid data''))))))))))"

fun read_error_text :: "read_error \<Rightarrow> string" where
  "read_error_text (Decode_error m) = ''corrupt persistence: '' @ m"
| "read_error_text (Load_fail m) = m"

definition sync_all :: "int \<Rightarrow> tenant_id list \<Rightarrow> impl \<Rightarrow> impl" where
  "sync_all now ts im = fold (sync_usage now) ts im"

definition deserialize_state :: "impl \<Rightarrow> int \<Rightarrow> byte list \<Rightarrow> impl \<times> quota_status" where
  "deserialize_state im now bs =
     (case load_state im bs of
        Inl (im', e) \<Rightarrow> (im', status_failure VC_INVALID_HIERARCHY (read_error_text e))
      | Inr (im', _) \<Rightarrow> ((sync_all now (map fst (im_tenants im')) im')\<lparr>im_loaded := True\<rparr>, status_success))"

section \<open>Reading back what was written\<close>

lemma lseq_Inr: "l1 im bs = Inr (im', bs') \<Longrightarrow> lseq l1 l2 im bs = l2 im' bs'"
  by (simp add: lseq_def)

lemma lloop_records:
  assumes "\<And>x im rest. x \<in> set xs \<Longrightarrow> im_settings im = se \<Longrightarrow> body im (wr x @ rest) = Inr (upd x im, rest)"
    and "\<And>x im. im_settings (upd x im) = im_settings im"
  shows "im_settings im = se \<Longrightarrow>
    lloop (length xs) body im (concat (map wr xs) @ rest) = Inr (fold upd xs im, rest)"
  using assms(1) by (induction xs arbitrary: im) (simp_all add: lseq_def assms(2))

lemma counted_records:
  assumes "\<And>x im rest. x \<in> set m \<Longrightarrow> im_settings im = im_settings im0 \<Longrightarrow> body im (wr x @ rest) = Inr (upd x im, rest)"
    and "\<And>x im. im_settings (upd x im) = im_settings im"
    and "length m \<le> unat (bound (im_settings im0))"
  shows "counted bound msg body im0 (w_map wr m @ rest) = Inr (fold upd (sort_key fst m) im0, rest)"
proof -
  have "lloop (length (sort_key fst m)) body im0 (concat (map wr (sort_key fst m)) @ rest) =
      Inr (fold upd (sort_key fst m) im0, rest)"
    by (rule lloop_records [where se = "im_settings im0"]) (use assms in simp_all)
  then show ?thesis
    using count_not_above [OF assms(3)]
    by (simp add: counted_def w_map_def u32.dec_enc unat_count [OF assms(3)])
qed

lemma assign_codec: "codec enc dec valid \<Longrightarrow> valid x \<Longrightarrow> assign dec f im (enc x @ rest) = Inr (f x im, rest)"
  by (simp add: assign_def codec.dec_enc)

lemma fold_update_fresh:
  "distinct (map fst (m @ xs)) \<Longrightarrow> fold (\<lambda>(k, v). AList.update k v) xs m = m @ xs"
proof (induction xs arbitrary: m)
  case (Cons x xs)
  obtain k v where x: "x = (k, v)" by force
  have "k \<notin> fst ` set m" using Cons.prems x by auto
  then have "AList.update k v m = m @ [(k, v)]" by (induction m) auto
  then show ?case using Cons.IH [of "m @ [(k, v)]"] Cons.prems x by simp
qed simp

lemma fold_update_sorted:
  "distinct_keys m \<Longrightarrow> fold (\<lambda>(k, v). AList.update k v) (sort_key fst m) [] = sort_key fst m"
proof -
  assume d: "distinct_keys m"
  have "mset (map fst (sort_key fst m)) = mset (map fst m)" by (metis mset_map mset_sort)
  then have "distinct (map fst (sort_key fst m))" using d mset_eq_imp_distinct_iff by blast
  then show ?thesis using fold_update_fresh [of "[]" "sort_key fst m"] by simp
qed

lemma map_of_sort_key: "distinct_keys m \<Longrightarrow> map_of (sort_key fst m) = map_of m"
proof -
  assume d: "distinct_keys m"
  have "mset (map fst (sort_key fst m)) = mset (map fst m)" by (metis mset_map mset_sort)
  then have "distinct (map fst (sort_key fst m))" using d mset_eq_imp_distinct_iff by blast
  then show ?thesis using d by (intro map_of_inject_set [THEN iffD2]) simp_all
qed

text \<open>A member of the engine that is a map from keys to records carrying their key.\<close>

locale map_member =
  fixes upd :: "(('k::linorder \<times> 'v) list \<Rightarrow> ('k \<times> 'v) list) \<Rightarrow> impl \<Rightarrow> impl"
  assumes upd_comp: "upd f (upd g im) = upd (\<lambda>m. f (g m)) im"
    and upd_id: "upd (\<lambda>m. m) im = im"
    and upd_settings: "im_settings (upd f im) = im_settings im"
begin

lemma fold_upd: "fold (\<lambda>(k, v). upd (AList.update k v)) xs im = upd (fold (\<lambda>(k, v). AList.update k v) xs) im"
  by (induction xs arbitrary: im) (auto simp: upd_comp upd_id id_def comp_def)

lemma load_records:
  assumes "codec enc dec valid" "list_all (\<lambda>(k, v). valid v \<and> key v = k) m"
    and "length m \<le> unat (bound (im_settings im))"
  shows "counted bound msg (assign dec (\<lambda>v. upd (AList.update (key v) v))) im (w_map (\<lambda>(k, v). enc v) m @ rest) =
    Inr (upd (fold (\<lambda>(k, v). AList.update k v) (sort_key fst m)) im, rest)"
proof -
  have "counted bound msg (assign dec (\<lambda>v. upd (AList.update (key v) v))) im (w_map (\<lambda>(k, v). enc v) m @ rest) =
      Inr (fold (\<lambda>(k, v). upd (AList.update k v)) (sort_key fst m) im, rest)"
    by (rule counted_records)
       (use assms in \<open>auto simp: list_all_iff upd_settings assign_codec [OF assms(1)]\<close>)
  then show ?thesis by (simp add: fold_upd)
qed

end

interpretation groups: map_member im_groups_update by unfold_locales simp_all
interpretation tenants: map_member im_tenants_update by unfold_locales simp_all
interpretation local_quota: map_member im_local_quota_update by unfold_locales simp_all
interpretation group_quota: map_member im_group_quota_update by unfold_locales simp_all
interpretation allocations: map_member im_allocations_update by unfold_locales simp_all
interpretation borrows: map_member im_borrows_update by unfold_locales simp_all
interpretation lends: map_member im_lends_update by unfold_locales simp_all

lemma load_group_quota_written:
  assumes "list_all (\<lambda>(k, q). quota_encodable q) m" "length m \<le> unat (se_max_groups (im_settings im))"
  shows "load_group_quota im (w_map (\<lambda>(i, q). w_id i @ write_quota q) m @ rest) =
    Inr (im_group_quota_update (fold (\<lambda>(k, v). AList.update k v) (sort_key fst m)) im, rest)"
proof -
  have "load_group_quota im (w_map (\<lambda>(i, q). w_id i @ write_quota q) m @ rest) =
      Inr (fold (\<lambda>(k, v). im_group_quota_update (AList.update k v)) (sort_key fst m) im, rest)"
    unfolding load_group_quota_def
    by (rule counted_records) (use assms in \<open>auto simp: list_all_iff assign_def codec_simps\<close>)
  then show ?thesis by (simp add: group_quota.fold_upd)
qed

text \<open>The funding entries that go out with the reservations.\<close>

definition funding_of :: "(reservation_id, funding) hmap \<Rightarrow> (reservation_id, reservation) hmap \<Rightarrow> (reservation_id, funding) hmap" where
  "funding_of f rs = List.map_filter (\<lambda>(k, r). map_option (Pair k) (map_of f k)) rs"

lemma fold_reservations:
  "fold (\<lambda>(k, r) im. (case map_of fm k of None \<Rightarrow> im | Some f \<Rightarrow> im\<lparr>im_funding := AList.update k f (im_funding im)\<rparr>)
      \<lparr>im_reservations := AList.update k r (im_reservations im)\<rparr>) rs im =
   im\<lparr>im_funding := fold (\<lambda>(k, v). AList.update k v) (funding_of fm rs) (im_funding im),
      im_reservations := fold (\<lambda>(k, v). AList.update k v) rs (im_reservations im)\<rparr>"
  by (induction rs arbitrary: im) (auto simp: funding_of_def List.map_filter_simps split: option.split)

lemma load_reservations_written:
  assumes "list_all (\<lambda>(k, r). reservation_encodable r \<and> res_id r = k \<and>
      funding_encodable (se_max_borrows (im_settings im)) (map_of fm k)) m"
    and "length m \<le> unat (se_max_reservations (im_settings im))"
  shows "load_reservations im
      (w_map (\<lambda>(i, r). write_reservation r @ write_funding (map_of fm (res_id r))) m @ rest) =
    Inr (im\<lparr>im_funding := fold (\<lambda>(k, v). AList.update k v) (funding_of fm (sort_key fst m)) (im_funding im),
        im_reservations := fold (\<lambda>(k, v). AList.update k v) (sort_key fst m) (im_reservations im)\<rparr>, rest)"
proof -
  have "load_reservations im
      (w_map (\<lambda>(i, r). write_reservation r @ write_funding (map_of fm (res_id r))) m @ rest) =
    Inr (fold (\<lambda>(k, r) im. (case map_of fm k of None \<Rightarrow> im | Some f \<Rightarrow> im\<lparr>im_funding := AList.update k f (im_funding im)\<rparr>)
      \<lparr>im_reservations := AList.update k r (im_reservations im)\<rparr>) (sort_key fst m) im, rest)"
    unfolding load_reservations_def
    by (rule counted_records)
       (use assms in \<open>auto simp: list_all_iff assign_def resc.dec_enc_bind fundc.dec_enc_bind split: option.split\<close>)
  then show ?thesis by (simp add: fold_reservations)
qed

end
