(* ===== verification/QF_Recovery.thy ===== *)
theory QF_Recovery
  imports QF_Persist QF_Accounted
begin

text \<open>
  Recovery of the engine: \<open>deserialize_state\<close> on what \<open>serialize_state\<close> wrote restores
  every persisted member and recomputes the usage counters of every tenant.
\<close>

section \<open>What can be persisted\<close>

text \<open>
  The states the format can represent, for an engine that loads with the settings \<open>se\<close>: the
  records carry the key they are stored under, amounts and times are in range, no string is
  longer than the reader accepts, the counts are within the bounds the reader enforces, and
  the two members that are written as 16 bits fit them.
\<close>

definition maps_persistable :: "engine_settings \<Rightarrow> impl \<Rightarrow> bool" where
  "maps_persistable se im \<longleftrightarrow>
     list_all (\<lambda>(k, g). group_encodable g \<and> grp_id g = k) (im_groups im) \<and>
     list_all (\<lambda>(k, t). tenant_encodable t \<and> ten_id t = k) (im_tenants im) \<and>
     list_all (\<lambda>(k, q). quota_encodable q \<and> q_tenant q = k) (im_local_quota im) \<and>
     list_all (\<lambda>(k, q). quota_encodable q) (im_group_quota im) \<and>
     list_all (\<lambda>(k, r). reservation_encodable r \<and> res_id r = k \<and>
        funding_encodable (se_max_borrows se) (map_of (im_funding im) k)) (im_reservations im) \<and>
     list_all (\<lambda>(k, a). allocation_encodable a \<and> al_id a = k) (im_allocations im) \<and>
     list_all (\<lambda>(k, b). borrow_encodable b \<and> br_id b = k) (im_borrows im) \<and>
     list_all (\<lambda>(k, l). lending_encodable l \<and> ln_id l = k) (im_lends im)"

definition maps_bounded :: "engine_settings \<Rightarrow> impl \<Rightarrow> bool" where
  "maps_bounded se im \<longleftrightarrow>
     length (im_groups im) \<le> unat (se_max_groups se) \<and> length (im_tenants im) \<le> unat (se_max_tenants se) \<and>
     length (im_local_quota im) \<le> unat (se_max_tenants se) \<and> length (im_group_quota im) \<le> unat (se_max_groups se) \<and>
     length (im_reservations im) \<le> unat (se_max_reservations se) \<and>
     length (im_allocations im) \<le> unat (se_max_reservations se) \<and>
     length (im_borrows im) \<le> unat (se_max_borrows se) \<and> length (im_lends im) \<le> unat (se_max_borrows se)"

definition maps_distinct :: "impl \<Rightarrow> bool" where
  "maps_distinct im \<longleftrightarrow>
     distinct_keys (im_groups im) \<and> distinct_keys (im_tenants im) \<and> distinct_keys (im_local_quota im) \<and>
     distinct_keys (im_group_quota im) \<and> distinct_keys (im_reservations im) \<and> distinct_keys (im_allocations im) \<and>
     distinct_keys (im_borrows im) \<and> distinct_keys (im_lends im)"

definition header_persistable :: "impl \<Rightarrow> bool" where
  "header_persistable im \<longleftrightarrow>
     string_ok (pol_name (im_policy im)) \<and> string_ok (pol_description (im_policy im)) \<and>
     enum_valid overcommit_mode_list overcommit_mode_raw (op_mode (pol_overcommit (im_policy im)))"

definition persistable :: "engine_settings \<Rightarrow> impl \<Rightarrow> bool" where
  "persistable se im \<longleftrightarrow>
     header_persistable im \<and> maps_persistable se im \<and> maps_bounded se im \<and> maps_distinct im \<and>
     (\<forall>k \<in> fst ` set (im_funding im). k \<in> fst ` set (im_reservations im))"

section \<open>The header\<close>

definition with_header :: "impl \<Rightarrow> impl \<Rightarrow> impl" where
  "with_header src im = im\<lparr>
     im_epoch := im_epoch src, im_quota_generation := im_quota_generation src, im_sequence := im_sequence src,
     im_policy := (im_policy im)\<lparr>
       pol_generation := pol_generation (im_policy src), pol_name := pol_name (im_policy src),
       pol_description := pol_description (im_policy src), pol_created_at := pol_created_at (im_policy src),
       pol_overcommit := (pol_overcommit (im_policy im))\<lparr>op_mode := op_mode (pol_overcommit (im_policy src))\<rparr>,
       pol_max_hierarchy_depth := ucast (ucast (pol_max_hierarchy_depth (im_policy src)) :: 16 word)\<rparr>,
     im_settings := (im_settings im)\<lparr>
       se_max_event_retention := ucast (ucast (se_max_event_retention (im_settings src)) :: 16 word)\<rparr>\<rparr>"

lemma load_header_written:
  assumes "header_persistable src"
  shows "load_header im (write_header src @ rest) = Inr (with_header src im, rest)"
proof -
  have ok: "string_ok (pol_name (im_policy src))" "string_ok (pol_description (im_policy src))"
    "enum_valid overcommit_mode_list overcommit_mode_raw (op_mode (pol_overcommit (im_policy src)))"
    using assms by (simp_all add: header_persistable_def)
  show ?thesis
    by (simp add: load_header_def write_header_def lseq_def assign_def u32.dec_enc u64.dec_enc u16.dec_enc
        gener.dec_enc str.dec_enc ok om.enum.dec_enc with_header_def)
qed

section \<open>The whole state\<close>

definition restored :: "impl \<Rightarrow> impl \<Rightarrow> impl" where
  "restored src im = (with_header src im)\<lparr>
     im_groups := sort_key fst (im_groups src), im_tenants := sort_key fst (im_tenants src),
     im_local_quota := sort_key fst (im_local_quota src), im_group_quota := sort_key fst (im_group_quota src),
     im_reservations := sort_key fst (im_reservations src),
     im_funding := funding_of (im_funding src) (sort_key fst (im_reservations src)),
     im_allocations := sort_key fst (im_allocations src), im_borrows := sort_key fst (im_borrows src),
     im_lends := sort_key fst (im_lends src)\<rparr>"

lemma map_fst_funding_of: "map fst (funding_of f rs) = filter (\<lambda>k. k \<in> dom (map_of f)) (map fst rs)"
  by (induction rs) (auto simp: funding_of_def List.map_filter_simps dom_def split: option.split)

lemma distinct_sorted_keys: "distinct_keys m \<Longrightarrow> distinct_keys (sort_key fst m)"
  by (metis mset_eq_imp_distinct_iff mset_map mset_sort)

lemma map_of_funding_of: "map_of (funding_of f rs) k = (if k \<in> fst ` set rs then map_of f k else None)"
  by (induction rs) (auto simp: funding_of_def List.map_filter_simps split: option.split)

lemma with_header_maps [simp]:
  "im_groups (with_header src im) = im_groups im" "im_tenants (with_header src im) = im_tenants im"
  "im_local_quota (with_header src im) = im_local_quota im" "im_group_quota (with_header src im) = im_group_quota im"
  "im_reservations (with_header src im) = im_reservations im" "im_funding (with_header src im) = im_funding im"
  "im_allocations (with_header src im) = im_allocations im" "im_borrows (with_header src im) = im_borrows im"
  "im_lends (with_header src im) = im_lends im" "im_usage (with_header src im) = im_usage im"
  by (simp_all add: with_header_def)

lemma with_header_bounds [simp]:
  "se_max_groups (im_settings (with_header src im)) = se_max_groups (im_settings im)"
  "se_max_tenants (im_settings (with_header src im)) = se_max_tenants (im_settings im)"
  "se_max_reservations (im_settings (with_header src im)) = se_max_reservations (im_settings im)"
  "se_max_borrows (im_settings (with_header src im)) = se_max_borrows (im_settings im)"
  by (simp_all add: with_header_def)

definition blank_maps :: "impl \<Rightarrow> bool" where
  "blank_maps im \<longleftrightarrow>
     im_groups im = [] \<and> im_tenants im = [] \<and> im_local_quota im = [] \<and> im_group_quota im = [] \<and>
     im_reservations im = [] \<and> im_funding im = [] \<and> im_allocations im = [] \<and> im_borrows im = [] \<and> im_lends im = []"

lemma load_state_written:
  assumes "persistable (im_settings im) src" "blank_maps im"
  shows "load_state im (serialize_state src) = Inr (restored src im, [])"
proof -
  let ?se = "im_settings im"
  have P: "header_persistable src" "maps_persistable ?se src" "maps_bounded ?se src" "maps_distinct src"
    using assms(1) by (simp_all add: persistable_def)
  have D: "fold (\<lambda>(k, v). AList.update k v) (funding_of (im_funding src) (sort_key fst (im_reservations src))) [] =
      funding_of (im_funding src) (sort_key fst (im_reservations src))"
    using fold_update_fresh [of "[]" "funding_of (im_funding src) (sort_key fst (im_reservations src))"]
      P(4) distinct_sorted_keys [of "im_reservations src"]
    by (simp add: map_fst_funding_of maps_distinct_def)
  note sorts = fold_update_sorted P(4) [unfolded maps_distinct_def] D
  note mp = P(2) [unfolded maps_persistable_def] and mb = P(3) [unfolded maps_bounded_def]
  show ?thesis
    using mp mb assms(2) unfolding load_state_def serialize_state_def append_assoc blank_maps_def
    by (simp add: lseq_def load_header_written [OF P(1)] load_groups_def load_tenants_def load_local_quota_def
        load_allocations_def load_borrows_def
        groups.load_records [OF groupc.codec_axioms] tenants.load_records [OF tenantc.codec_axioms]
        local_quota.load_records [OF quotac.codec_axioms] load_group_quota_written load_reservations_written
        allocations.load_records [OF allocc.codec_axioms] borrows.load_records [OF borrowc.codec_axioms]
        load_lends_def lends.load_records [OF lendc.codec_axioms, where rest = "[]", simplified] sorts restored_def)
qed

section \<open>Recomputing the usage\<close>

lemma sync_all_simps [simp]:
  "im_settings (sync_all now ts im) = im_settings im" "im_policy (sync_all now ts im) = im_policy im"
  "im_epoch (sync_all now ts im) = im_epoch im" "im_quota_generation (sync_all now ts im) = im_quota_generation im"
  "im_sequence (sync_all now ts im) = im_sequence im"
  "im_groups (sync_all now ts im) = im_groups im" "im_tenants (sync_all now ts im) = im_tenants im"
  "im_local_quota (sync_all now ts im) = im_local_quota im" "im_group_quota (sync_all now ts im) = im_group_quota im"
  "im_reservations (sync_all now ts im) = im_reservations im" "im_funding (sync_all now ts im) = im_funding im"
  "im_allocations (sync_all now ts im) = im_allocations im" "im_borrows (sync_all now ts im) = im_borrows im"
  "im_lends (sync_all now ts im) = im_lends im" "records_ok (sync_all now ts im) = records_ok im"
  "aggregates (sync_all now ts im) t = aggregates im t"
  unfolding sync_all_def
  by (induction ts arbitrary: im) (simp_all, simp add: sync_usage_def usage_mut_def)

lemma counters_sync_all:
  "counters (usage_of (sync_all now ts im) t) = (if t \<in> set ts then aggregates im t else counters (usage_of im t))"
  unfolding sync_all_def by (induction ts arbitrary: im) auto

lemma counters_match_loaded:
  "counters_match (im\<lparr>im_loaded := b\<rparr>) t = counters_match im t"
  by (simp add: counters_match_def counter_error_def recompute_def reserved_remaining_def alloc_used_by_def
      usage_of_def cong: if_cong)

lemma sync_all_match:
  assumes "records_ok im" "t \<in> set ts"
  shows "counters_match (sync_all now ts im) t"
proof -
  have "counters (usage_of (sync_all now ts im) t) = aggregates (sync_all now ts im) t"
    using assms(2) by (simp add: counters_sync_all)
  moreover have "records_ok (sync_all now ts im)" using assms(1) by simp
  ultimately show ?thesis by (simp add: counters_match_iff counters_def aggregates_def)
qed

section \<open>Recovery\<close>

lemma records_ok_restored:
  assumes "maps_persistable se src"
  shows "records_ok (restored src im)"
proof -
  have "rv_ok (fu_burst f)" if kf: "(k, f) \<in> set (funding_of (im_funding src) (sort_key fst (im_reservations src)))" for k f
  proof -
    obtain r where "(k, r) \<in> set (im_reservations src)" "map_of (im_funding src) k = Some f"
      using kf by (auto simp: funding_of_def set_map_filter)
    with assms show ?thesis by (fastforce simp: maps_persistable_def list_all_iff funding_encodable_def)
  qed
  then show ?thesis
    using assms
    by (fastforce simp: records_ok_def restored_def maps_persistable_def list_all_iff reservation_encodable_def
        allocation_encodable_def borrow_encodable_def lending_encodable_def)
qed

text \<open>What survives a restart: the fencing counters, the records, and counters that match them.\<close>

definition recovered :: "impl \<Rightarrow> impl \<Rightarrow> bool" where
  "recovered im im' \<longleftrightarrow>
     im_epoch im' = im_epoch im \<and> im_quota_generation im' = im_quota_generation im \<and> im_sequence im' = im_sequence im \<and>
     pol_generation (im_policy im') = pol_generation (im_policy im) \<and> pol_name (im_policy im') = pol_name (im_policy im) \<and>
     map_of (im_groups im') = map_of (im_groups im) \<and> map_of (im_tenants im') = map_of (im_tenants im) \<and>
     map_of (im_local_quota im') = map_of (im_local_quota im) \<and> map_of (im_group_quota im') = map_of (im_group_quota im) \<and>
     map_of (im_reservations im') = map_of (im_reservations im) \<and> map_of (im_funding im') = map_of (im_funding im) \<and>
     map_of (im_allocations im') = map_of (im_allocations im) \<and> map_of (im_borrows im') = map_of (im_borrows im) \<and>
     map_of (im_lends im') = map_of (im_lends im) \<and> im_loaded im' \<and>
     (\<forall>t. tenant_exists im t \<longrightarrow> counters_match im' t)"

lemma state_restored:
  assumes "persistable se im"
  shows "\<exists>im'. deserialize_state (impl_initial se ids oob) now (serialize_state im) = (im', status_success) \<and>
    recovered im im'"
proof -
  let ?im0 = "impl_initial se ids oob" and ?re = "restored im (impl_initial se ids oob)"
  let ?im' = "(sync_all now (map fst (im_tenants ?re)) ?re)\<lparr>im_loaded := True\<rparr>"
  have "im_settings ?im0 = se" "blank_maps ?im0" by (simp_all add: impl_initial_def blank_maps_def)
  then have load: "deserialize_state ?im0 now (serialize_state im) = (?im', status_success)"
    using load_state_written [of ?im0 im] assms by (simp add: deserialize_state_def)
  have P: "maps_persistable se im" "maps_distinct im"
    "\<forall>k \<in> fst ` set (im_funding im). k \<in> fst ` set (im_reservations im)"
    using assms by (simp_all add: persistable_def)
  have maps: "map_of (im_groups ?im') = map_of (im_groups im)" "map_of (im_tenants ?im') = map_of (im_tenants im)"
    "map_of (im_local_quota ?im') = map_of (im_local_quota im)" "map_of (im_group_quota ?im') = map_of (im_group_quota im)"
    "map_of (im_reservations ?im') = map_of (im_reservations im)"
    "map_of (im_allocations ?im') = map_of (im_allocations im)" "map_of (im_borrows ?im') = map_of (im_borrows im)"
    "map_of (im_lends ?im') = map_of (im_lends im)"
    using P(2) by (simp_all add: restored_def maps_distinct_def map_of_sort_key)
  have fund: "map_of (im_funding ?im') = map_of (im_funding im)"
  proof
    fix k
    have "map_of (im_funding im) k = None" if "k \<notin> fst ` set (im_reservations im)"
      using P(3) that by (auto simp: map_of_eq_None_iff)
    then show "map_of (im_funding ?im') k = map_of (im_funding im) k"
      by (auto simp: restored_def map_of_funding_of)
  qed
  have cnt: "counters_match ?im' t" if "tenant_exists im t" for t
  proof -
    have "t \<in> set (map fst (im_tenants ?re))"
      using that by (force simp: tenant_exists_def contains_key_def restored_def dest: map_of_SomeD)
    then show ?thesis
      using sync_all_match [OF records_ok_restored [OF P(1)]] by (simp only: counters_match_loaded)
  qed
  have "im_epoch ?im' = im_epoch im" "im_quota_generation ?im' = im_quota_generation im" "im_sequence ?im' = im_sequence im"
    "pol_generation (im_policy ?im') = pol_generation (im_policy im)" "pol_name (im_policy ?im') = pol_name (im_policy im)"
    by (simp_all add: restored_def with_header_def)
  with load maps fund cnt show ?thesis by (intro exI [of _ ?im']) (simp add: recovered_def)
qed

lemma quota_encodable_default: "quota_encodable resource_quota_default"
  by (simp add: quota_encodable_def resource_quota_default_def quota_ok_def burst_rule_default_def
      borrow_rule_default_def enum_valid_def overcommit_mode_raw_def)

lemma solo_persistable: "persistable engine_settings_default (solo_engine\<lparr>im_local_quota := [(solo, (vram_quota 10)\<lparr>q_tenant := solo\<rparr>)]\<rparr>)"
proof -
  have q: "quota_encodable (vram_quota x)" if "x \<le> INT64_MAX" for x
    using that by (simp add: quota_encodable_def vram_quota_def resource_quota_default_def quota_ok_def burst_rule_default_def
      borrow_rule_default_def enum_valid_def overcommit_mode_raw_def rv_ok_vram)
  have pol: "im_policy solo_engine = quota_policy_default"
    by (simp add: solo_engine_def sample_engine_def impl_initial_def)
  have "quota_encodable ((vram_quota 10)\<lparr>q_tenant := solo\<rparr>)"
    using q [of 10] by (simp add: quota_encodable_def quota_ok_def i64_bounds)
  then show ?thesis
    using q [of 20]
    by (simp add: persistable_def header_persistable_def maps_persistable_def maps_bounded_def maps_distinct_def
        engine_settings_default_def group_encodable_def tenant_encodable_def solo_tenant_def string_ok_def max_string_def
        enum_valid_def tenant_group_kind_raw_def quota_encodable_default pol quota_policy_default_def
        overcommit_policy_default_def overcommit_mode_raw_def i64_bounds)
qed

end
