(* ===== verification/QF_File.thy ===== *)
theory QF_File
  imports QF_Recovery
begin

text \<open>
  The file around the state: the checksum, \<open>save_to\<close> and \<open>load_from\<close> of
  \<open>accounting/engine.cpp\<close>. The outcome of the C library's file calls is an argument.
\<close>

unbundle bit_operations_syntax

section \<open>The checksum\<close>

text \<open>One round of the inner loop that fills the table.\<close>

definition crc_round :: "32 word \<Rightarrow> 32 word" where
  "crc_round c = (if c AND 1 \<noteq> 0 then 0xEDB88320 XOR drop_bit 1 c else drop_bit 1 c)"

definition crc_table :: "32 word \<Rightarrow> 32 word" where
  "crc_table i = (crc_round ^^ 8) i"

definition crc_update :: "32 word \<Rightarrow> byte \<Rightarrow> 32 word" where
  "crc_update crc b = crc_table ((crc XOR ucast b) AND 0xFF) XOR drop_bit 8 crc"

definition crc32 :: "byte list \<Rightarrow> 32 word" where
  "crc32 bs = foldl crc_update 0xFFFFFFFF bs XOR 0xFFFFFFFF"

text \<open>
  The reference, independent of the code: the remainder of the message modulo the generator
  polynomial \<open>x^32 + x^26 + x^23 + x^22 + x^16 + x^12 + x^11 + x^10 + x^8 + x^7 + x^5 + x^4 + x^2 + x + 1\<close>
  (the word lists the coefficients below \<open>x^32\<close>), by long division one bit at a time. The register
  starts with ones, every byte enters with its lowest bit first, and the result is
  complemented and read in reverse.
\<close>

definition crc_generator :: "32 word" where
  "crc_generator = foldr set_bit [26, 23, 22, 16, 12, 11, 10, 8, 7, 5, 4, 2, 1, 0] 0"

definition crc_divide :: "32 word \<Rightarrow> bool \<Rightarrow> 32 word" where
  "crc_divide r b = push_bit 1 r XOR (if bit r 31 \<noteq> b then crc_generator else 0)"

definition message_bits :: "byte list \<Rightarrow> bool list" where
  "message_bits bs = concat (map (\<lambda>b. map (bit b) [0..<8]) bs)"

definition crc_reference :: "byte list \<Rightarrow> 32 word" where
  "crc_reference bs = word_reverse (NOT (foldl crc_divide (NOT 0) (message_bits bs)))"

lemma word_xor_cancel: "a XOR c = b XOR c \<longleftrightarrow> a = (b :: 'a::len word)"
  by (metis xor.assoc xor.right_neutral xor_self_eq)

lemma word_xor_cancel_left: "c XOR a = c XOR b \<longleftrightarrow> a = (b :: 'a::len word)"
  by (simp add: xor.commute [of c] word_xor_cancel)

lemma word_mask_split: "x = (x AND m) XOR (x AND NOT m)" for x m :: "'a::len word"
  by (rule bit_word_eqI) (auto simp: bit_and_iff bit_xor_iff bit_not_iff)

lemma crc_round_eq: "crc_round c = drop_bit 1 c XOR (if bit c 0 then 0xEDB88320 else 0)"
proof -
  have "c AND 1 \<noteq> 0 \<longleftrightarrow> bit c 0" by (simp add: and_one_eq bit_0 even_iff_mod_2_eq_zero odd_iff_mod_2_eq_one)
  then show ?thesis by (simp add: crc_round_def xor.commute)
qed

lemma crc_round_xor: "crc_round (a XOR b) = crc_round a XOR crc_round b"
  by (cases "bit a 0"; cases "bit b 0")
     (simp_all add: crc_round_eq drop_bit_xor bit_xor_iff xor.assoc xor.left_commute xor.commute)

lemma crc_rounds_xor: "(crc_round ^^ n) (a XOR b) = (crc_round ^^ n) a XOR (crc_round ^^ n) b"
  by (induction n) (simp_all add: crc_round_xor)

lemma crc_rounds_high: "take_bit n c = 0 \<Longrightarrow> (crc_round ^^ n) c = drop_bit n c"
proof (induction n arbitrary: c)
  case (Suc n)
  have z: "\<not> bit c k" if "k < Suc n" for k
    using Suc.prems that by (metis bit_0_eq bit_take_bit_iff bot_apply bot_bool_def)
  then have "crc_round c = drop_bit 1 c" by (simp add: crc_round_eq)
  moreover have "take_bit n (drop_bit 1 c) = 0"
    by (rule bit_word_eqI) (use z in \<open>simp add: bit_take_bit_iff bit_drop_bit_eq\<close>)
  ultimately show ?case
    using Suc.IH [of "drop_bit 1 c"] by (simp add: funpow_Suc_right del: funpow.simps)
qed simp

lemma crc_update_rounds: "crc_update crc b = (crc_round ^^ 8) (crc XOR ucast b)"
proof -
  let ?x = "crc XOR ucast b"
  have m: "(0xFF :: 32 word) = mask 8" by (simp add: mask_eq_exp_minus_1)
  have "take_bit 8 (?x AND NOT 0xFF) = 0"
    unfolding m by (rule bit_word_eqI) (simp add: bit_take_bit_iff bit_and_iff bit_not_iff bit_mask_iff)
  then have "(crc_round ^^ 8) (?x AND NOT 0xFF) = drop_bit 8 (?x AND NOT 0xFF)" by (rule crc_rounds_high)
  also have "\<dots> = drop_bit 8 crc"
    unfolding m
    by (rule bit_word_eqI)
       (auto simp: bit_drop_bit_eq bit_and_iff bit_xor_iff bit_not_iff bit_mask_iff bit_ucast_iff dest: bit_imp_le_length)
  finally have "(crc_round ^^ 8) ?x = (crc_round ^^ 8) (?x AND 0xFF) XOR drop_bit 8 crc"
    using crc_rounds_xor [of 8 "?x AND 0xFF" "?x AND NOT 0xFF"] by (simp only: word_mask_split [symmetric])
  then show ?thesis by (simp add: crc_update_def crc_table_def)
qed

text \<open>One step of the division is one round of the table on the reversed register.\<close>

lemma crc_generator_reversed: "word_reverse crc_generator = 0xEDB88320"
  by code_simp

lemma word_reverse_xor: "word_reverse (a XOR b) = word_reverse a XOR word_reverse b"
  by (rule bit_word_eqI) (simp add: bit_word_reverse_iff bit_xor_iff)

lemma word_reverse_push: "word_reverse (push_bit 1 a) = drop_bit 1 (word_reverse a)" for a :: "32 word"
proof (rule bit_word_eqI)
  fix n assume n: "n < LENGTH(32)"
  show "bit (word_reverse (push_bit 1 a)) n = bit (drop_bit 1 (word_reverse a)) n"
  proof (cases "n = 31")
    case False
    with n have "1 \<le> 31 - n" "31 - n < 32" "31 - n - 1 = 30 - n" by simp_all
    with False n show ?thesis by (simp only: bit_word_reverse_iff bit_push_bit_iff bit_drop_bit_eq) (simp add: bit_word_reverse_iff)
  qed (simp add: bit_word_reverse_iff bit_drop_bit_eq bit_0)
qed

lemma crc_divide_reversed: "word_reverse (crc_divide r b) = crc_round (word_reverse r XOR of_bool b)"
proof -
  have low: "bit (word_reverse r XOR of_bool b) 0 \<longleftrightarrow> bit r 31 \<noteq> b"
    by (cases b) (simp_all add: bit_xor_iff bit_word_reverse_iff)
  have "drop_bit 1 (word_reverse r XOR of_bool b) = drop_bit 1 (word_reverse r)"
    by (rule bit_word_eqI) (auto simp: bit_drop_bit_eq bit_xor_iff bit_1_iff)
  moreover have "word_reverse (crc_divide r b) =
      drop_bit 1 (word_reverse r) XOR (if bit r 31 \<noteq> b then word_reverse crc_generator else word_reverse 0)"
    unfolding crc_divide_def word_reverse_xor word_reverse_push by simp
  moreover have "word_reverse (0 :: 32 word) = 0" by (rule bit_word_eqI) (simp add: bit_word_reverse_iff)
  ultimately show ?thesis
    unfolding crc_round_eq low by (simp add: crc_generator_reversed)
qed

lemma crc_divide_bits:
  fixes b :: byte
  assumes "n \<le> 8"
  shows "word_reverse (foldl crc_divide r (map (bit b) [0..<n])) =
    (crc_round ^^ n) (word_reverse r XOR take_bit n (ucast b))"
  using assms
proof (induction n)
  case (Suc n)
  let ?x = "of_bool (bit b n) :: 32 word"
  have "?x = drop_bit n (push_bit n ?x)"
    by (rule bit_word_eqI) (use Suc.prems in \<open>auto simp: bit_drop_bit_eq bit_push_bit_iff bit_1_iff\<close>)
  also have "\<dots> = (crc_round ^^ n) (push_bit n ?x)"
    by (rule crc_rounds_high [symmetric]) (simp add: take_bit_push_bit)
  finally have x: "?x = (crc_round ^^ n) (push_bit n ?x)" .
  have "take_bit (Suc n) (ucast b :: 32 word) = take_bit n (ucast b) XOR push_bit n ?x"
    by (rule bit_word_eqI)
       (use Suc.prems in \<open>auto simp: bit_take_bit_iff bit_ucast_iff bit_xor_iff bit_push_bit_iff bit_1_iff less_Suc_eq\<close>)
  then have "(crc_round ^^ Suc n) (word_reverse r XOR take_bit (Suc n) (ucast b)) =
      crc_round ((crc_round ^^ n) (word_reverse r XOR take_bit n (ucast b)) XOR (crc_round ^^ n) (push_bit n ?x))"
    by (simp only: xor.assoc [symmetric] crc_rounds_xor funpow.simps comp_apply)
  also have "\<dots> = crc_round (word_reverse (foldl crc_divide r (map (bit b) [0..<n])) XOR ?x)"
    using Suc by (simp only: x [symmetric])
  finally show ?case by (simp add: crc_divide_reversed)
qed simp

lemma crc_divide_byte:
  "word_reverse (foldl crc_divide r (map (bit b) [0..<8])) = crc_update (word_reverse r) b" for b :: byte
proof -
  have "take_bit 8 (ucast b :: 32 word) = ucast b" by (rule bit_word_eqI) (auto simp: bit_take_bit_iff bit_ucast_iff dest: bit_imp_le_length)
  then show ?thesis by (simp only: crc_divide_bits [OF order_refl] crc_update_rounds)
qed

lemma crc_divide_message: "word_reverse (foldl crc_divide r (message_bits bs)) = foldl crc_update (word_reverse r) bs"
  by (induction bs arbitrary: r) (simp_all add: message_bits_def crc_divide_byte del: upt_Suc)

text \<open>
  C35. The table-driven crc32 is the standard CRC-32: on every input it equals the remainder
  of the message's bits modulo the generator polynomial x^32 + x^26 + x^23 + x^22 + x^16 +
  x^12 + x^11 + x^10 + x^8 + x^7 + x^5 + x^4 + x^2 + x + 1, computed bit by bit by long
  division with the register starting as ones, bytes entering lowest bit first, and the
  result complemented and read in reverse.
\<close>

theorem crc32_table_is_bitwise: "crc32 bs = crc_reference bs"
proof -
  have "word_reverse (NOT w) = NOT (word_reverse w)" for w :: "32 word"
    by (rule bit_word_eqI) (auto simp: bit_word_reverse_iff bit_not_iff)
  moreover have "w XOR 0xFFFFFFFF = NOT w" for w :: "32 word"
  proof -
    have "(0xFFFFFFFF :: 32 word) = NOT 0" by simp
    then show ?thesis by (simp only:) (rule bit_word_eqI, simp add: bit_xor_iff bit_not_iff)
  qed
  moreover have "word_reverse (NOT 0) = (0xFFFFFFFF :: 32 word)" by code_simp
  ultimately show ?thesis by (simp add: crc32_def crc_reference_def crc_divide_message)
qed

lemma crc_round_inj: "crc_round a = crc_round b \<Longrightarrow> a = b"
proof (rule bit_word_eqI)
  fix n assume eq: "crc_round a = crc_round b" and n: "n < LENGTH(32)"
  have "bit (0xEDB88320 :: 32 word) 31" by simp
  then have top: "bit (crc_round c) 31 = bit c 0" for c
    by (auto simp: crc_round_eq bit_xor_iff bit_drop_bit_eq dest: bit_imp_le_length)
  have "bit a 0 = bit b 0" using top [of a] top [of b] eq by simp
  moreover from this have "drop_bit 1 a = drop_bit 1 b" using eq by (simp only: crc_round_eq word_xor_cancel)
  then have "bit (drop_bit 1 a) k = bit (drop_bit 1 b) k" for k by simp
  ultimately show "bit a n = bit b n" by (cases n) (simp_all add: bit_drop_bit_eq)
qed

lemma crc_rounds_inj: "(crc_round ^^ n) a = (crc_round ^^ n) b \<Longrightarrow> a = b"
  by (induction n) (auto dest: crc_round_inj)

lemma crc_update_inj:
  "crc_update c b = crc_update c' b \<Longrightarrow> c = c'"
  "crc_update c b = crc_update c b' \<Longrightarrow> b = b'"
proof -
  assume "crc_update c b = crc_update c' b"
  then have "c XOR ucast b = c' XOR ucast b" unfolding crc_update_rounds by (rule crc_rounds_inj)
  then show "c = c'" by (simp only: word_xor_cancel)
next
  assume "crc_update c b = crc_update c b'"
  then have "c XOR ucast b = c XOR ucast b'" unfolding crc_update_rounds by (rule crc_rounds_inj)
  then have u: "(ucast b :: 32 word) = ucast b'" by (simp only: word_xor_cancel_left)
  have "b = ucast (ucast b :: 32 word)" for b :: byte
    by (rule bit_word_eqI) (simp add: bit_ucast_iff)
  with u show "b = b'" by metis
qed

lemma foldl_crc_inj: "foldl crc_update c bs = foldl crc_update c' bs \<Longrightarrow> c = c'"
  by (induction bs arbitrary: c c') (auto dest: crc_update_inj(1))

text \<open>Changing one byte changes the checksum.\<close>

lemma crc32_single_byte:
  assumes "b \<noteq> b'"
  shows "crc32 (xs @ b # ys) \<noteq> crc32 (xs @ b' # ys)"
proof
  assume "crc32 (xs @ b # ys) = crc32 (xs @ b' # ys)"
  then have "foldl crc_update (crc_update (foldl crc_update 0xFFFFFFFF xs) b) ys =
      foldl crc_update (crc_update (foldl crc_update 0xFFFFFFFF xs) b') ys"
    unfolding crc32_def word_xor_cancel by simp
  with assms show False using foldl_crc_inj crc_update_inj(2) by blast
qed

section \<open>The file format\<close>

definition kQuotaFabricMagic :: "32 word" where
  "kQuotaFabricMagic = 0x51FA0134"

definition save_blob :: "byte list \<Rightarrow> byte list" where
  "save_blob body = w_u32 kQuotaFabricMagic @ w_u32 1 @ w_u64 (of_nat (length body)) @ body @ w_u32 (crc32 body)"

datatype file_read = Cannot_open | Read_failed | Contents "byte list"

definition io_failure :: "string \<Rightarrow> quota_status" where
  "io_failure m = status_failure VC_RESOURCE_OVERFLOW m"

text \<open>
  A read of \<open>n\<close> bytes at an offset of the buffer, as \<open>read_crc\<close> and \<open>crc32\<close> make them through a raw
  pointer; \<open>None\<close> is a read outside of the buffer, which is undefined behaviour.
\<close>

definition read_range :: "byte list \<Rightarrow> nat \<Rightarrow> nat \<Rightarrow> byte list option" where
  "read_range buf off n = (if off + n \<le> length buf then Some (take n (drop off buf)) else None)"

text \<open>
  \<open>load_from\<close>. The length test computes \<open>remaining() - 4\<close> in \<open>std::size_t\<close>; \<open>body\<close> is the
  reader's offset after the header. The checksum is read behind the body, then the body is read.
\<close>

definition read_file_header :: "64 word reader" where
  "read_file_header =
     rbind r_u32 (\<lambda>magic. if magic \<noteq> kQuotaFabricMagic then rthrow (Load_fail ''bad magic'')
       else rbind r_u32 (\<lambda>ver. if ver \<noteq> 1 then rthrow (Load_fail ''unsupported file version'') else r_u64))"

definition load_from :: "impl \<Rightarrow> int \<Rightarrow> file_read \<Rightarrow> (impl \<times> quota_status) option" where
  "load_from im now file =
     (case file of
        Cannot_open \<Rightarrow> Some (im, io_failure ''cannot open file'')
      | Read_failed \<Rightarrow> Some (im, io_failure ''read failed'')
      | Contents blob \<Rightarrow>
          (case read_file_header blob of
             Inl (Decode_error e) \<Rightarrow> Some (im, io_failure ''load failed'')
           | Inl (Load_fail m) \<Rightarrow> Some (im, io_failure m)
           | Inr (len, remaining) \<Rightarrow>
               if len \<noteq> of_nat (length remaining) - 4 then Some (im, io_failure ''length mismatch'')
               else (let body = length blob - length remaining
                     in case read_range blob (body + unat len) 4 of
                          None \<Rightarrow> None
                        | Some stored \<Rightarrow>
                            (case read_range blob body (unat len) of
                               None \<Rightarrow> None
                             | Some bs \<Rightarrow>
                                 if le_word stored \<noteq> crc32 bs then Some (im, io_failure ''checksum mismatch'')
                                 else Some (deserialize_state im now bs)))))"

text \<open>
  \<open>save_to\<close> over a file system \<open>disk\<close>. The record says how the C library's calls went: whether
  \<open>fopen\<close> gave a stream, how many of \<open>n\<close> bytes \<open>fwrite\<close> took, whether \<open>fflush\<close>, \<open>fclose\<close> and \<open>rename\<close>
  reported success, and how many bytes are in the temporary file if one of the first three
  did not take or deliver everything.
\<close>

record file_io =
  fio_open :: bool
  fio_fwrite :: "nat \<Rightarrow> nat"
  fio_fflush :: bool
  fio_fclose :: bool
  fio_rename :: bool
  fio_kept :: nat

text \<open>
  What the stream leaves in its file: everything when all bytes were taken and both the flush
  and the close succeeded, some front part otherwise. After a failed \<open>fflush\<close> the buffered bytes
  may be lost even though \<open>fclose\<close> reports success.
\<close>

definition stream_contents :: "file_io \<Rightarrow> byte list \<Rightarrow> byte list" where
  "stream_contents io data =
     (if fio_fwrite io (length data) = length data \<and> fio_fflush io \<and> fio_fclose io then data
      else take (fio_kept io) data)"

text \<open>\<open>atomic_replace\<close> of the POSIX build: one \<open>rename\<close>, an error text when it fails.\<close>

definition atomic_replace ::
  "bool \<Rightarrow> string \<Rightarrow> string \<Rightarrow> (string \<rightharpoonup> byte list) \<Rightarrow> string option \<times> (string \<rightharpoonup> byte list)" where
  "atomic_replace renamed tmp path disk =
     (if \<not> renamed then (Some (''rename failed for '' @ path), disk) else (None, (disk(tmp := None))(path := disk tmp)))"

definition save_to :: "impl \<Rightarrow> int \<Rightarrow> string \<Rightarrow> file_io \<Rightarrow> (string \<rightharpoonup> byte list) \<Rightarrow> impl \<times> quota_status \<times> (string \<rightharpoonup> byte list)" where
  "save_to im now path io disk =
     (let blob = save_blob (serialize_state im); tmp = path @ ''.tmp'' in
      if \<not> fio_open io then (im, io_failure ''cannot open temp file'', disk)
      else (let ok = (fio_fwrite io (length blob) = length blob);
                disk1 = disk(tmp \<mapsto> stream_contents io blob)
            in if \<not> ok \<or> \<not> fio_fclose io then (im, io_failure ''write failed'', disk1)
               else case atomic_replace (fio_rename io) tmp path disk1 of
                      (Some err, disk') \<Rightarrow> (im, io_failure err, disk')
                    | (None, disk') \<Rightarrow> (persisted im now path, status_success, disk')))"

lemmas save_to_simps = save_to_def atomic_replace_def stream_contents_def io_failure_def status_failure_def status_success_def

text \<open>
  C29. save_to reports success exactly when fopen gave a stream, fwrite took the whole blob,
  fclose and rename succeeded. When it reports failure, the file at the path and the engine
  are as before, also after a short write or a failed close, which leave only part of the
  blob in the temporary file. When it reports success and fflush had succeeded, the file at
  the path is the complete new blob and the engine has noted it; the result of fflush is
  ignored, and without it the file may be cut short. In every case no file other than the
  path and its .tmp sibling is touched.
\<close>

theorem save_to_atomic:
  "(case save_to im now path io disk of (im', st, disk') \<Rightarrow>
     (st_ok st \<longleftrightarrow> fio_open io \<and> fio_fwrite io (length (save_blob (serialize_state im))) = length (save_blob (serialize_state im)) \<and>
        fio_fclose io \<and> fio_rename io) \<and>
     (\<not> st_ok st \<longrightarrow> disk' path = disk path \<and> im' = im) \<and>
     (st_ok st \<and> fio_fflush io \<longrightarrow> disk' path = Some (save_blob (serialize_state im)) \<and> im' = persisted im now path) \<and>
     (\<forall>p. disk' p = disk p \<or> p = path \<or> p = path @ ''.tmp''))"
  by (auto simp: save_to_simps Let_def)

text \<open>
  The result of \<open>fflush\<close> is not looked at: when it fails and \<open>fclose\<close> does not, success is reported
  and whatever reached the disk replaces the file, which \<open>load_from\<close> then refuses.
\<close>

theorem unflushed_save_replaces_file:
  assumes "fio_open io" "fio_fclose io" "fio_rename io" "\<not> fio_fflush io" "\<And>n. fio_fwrite io n = n"
    and "save_to im now path io disk = (im', st, disk')"
  shows "st_ok st \<and> disk' path = Some (take (fio_kept io) (save_blob (serialize_state im)))"
  using assms by (auto simp: save_to_simps Let_def)

section \<open>Loading a saved file\<close>

lemma length_writers [simp]:
  "length (w_u8 a) = 1" "length (w_u16 b) = 2" "length (w_u32 c) = 4" "length (w_u64 d) = 8"
  by (simp_all add: w_u8_def w_u16_def w_u32_def w_u64_def)

lemma le_word_w_u32: "le_word (w_u32 c) = c"
  by (simp add: w_u32_def le_word_le_bytes)

lemma read_file_header_written:
  "read_file_header (w_u32 kQuotaFabricMagic @ w_u32 1 @ w_u64 len @ rest) = Inr (len, rest)"
  by (simp add: read_file_header_def codec_simps u64.dec_enc)

lemma load_from_written:
  assumes "length body + 4 < 2 ^ 64"
  shows "load_from im now (Contents (w_u32 kQuotaFabricMagic @ w_u32 1 @ w_u64 (of_nat (length body)) @ body @ w_u32 c)) =
    Some (if c = crc32 body then deserialize_state im now body else (im, io_failure ''checksum mismatch''))"
proof -
  have "unat (of_nat (length body) :: 64 word) = length body" using assms by (simp add: unat_of_nat)
  then show ?thesis
    by (simp add: load_from_def read_file_header_written le_word_w_u32 read_range_def Let_def)
qed

lemma load_from_saved:
  assumes "length (serialize_state im) + 4 < 2 ^ 64"
  shows "load_from im0 now (Contents (save_blob (serialize_state im))) =
    Some (deserialize_state im0 now (serialize_state im))"
  using load_from_written [OF assms] by (simp add: save_blob_def)

lemma sample_length: "length (serialize_state sample_engine) + 4 < 2 ^ 64"
  by (simp add: serialize_state_def write_header_def w_map_def w_gen_def w_string_def sample_engine_def
      impl_initial_def quota_policy_default_def)

text \<open>
  C15. When save_to reports success and fflush had succeeded (save_to does not look at its
  result), the file at the path loads into a fresh engine with the same settings: load_from
  succeeds and restores the epoch, the generations, the sequence number, the policy's name
  and generation and every group, tenant, quota, reservation with its funding, allocation,
  borrow and lending record, and the usage counters of every tenant match the restored
  records. The engine must be persistable: values in range, strings and counts within the
  reader's bounds, keys distinct and equal to the ids in the records, every funding entry of
  a reservation, and no resource class in a borrow, which is not written.
\<close>

theorem save_load_roundtrip:
  assumes "persistable se im" "length (serialize_state im) + 4 < 2 ^ 64"
    and "save_to im now path io disk = (im1, st, disk')" "st_ok st" "fio_fflush io"
  shows "\<exists>blob im'. disk' path = Some blob \<and>
    load_from (impl_initial se ids oob) now' (Contents blob) = Some (im', status_success) \<and> recovered im im'"
proof -
  have "disk' path = Some (save_blob (serialize_state im))"
    using assms(3-5) by (auto simp: save_to_simps Let_def split: if_splits)
  then show ?thesis using load_from_saved [OF assms(2)] state_restored [OF assms(1)] by auto
qed

lemma length_vector: "length (w_vector v) = 155"
  by (simp add: w_vector_def w_vector_entry_def w_i64_def all_resource_dimensions_def)

abbreviation quota_engine :: impl where
  "quota_engine \<equiv> solo_engine\<lparr>im_local_quota := [(solo, (vram_quota 10)\<lparr>q_tenant := solo\<rparr>)]\<rparr>"

lemma quota_engine_length: "length (serialize_state quota_engine) + 4 < 2 ^ 64"
  by (simp add: serialize_state_def write_header_def w_map_def w_gen_def w_string_def solo_engine_def sample_engine_def
      impl_initial_def quota_policy_default_def write_quota_def w_id_def w_i64_def w_bool_def length_vector
      write_group_def write_tenant_def w_id_opt_def solo_tenant_def)

definition flawless_io :: file_io where
  "flawless_io = \<lparr>fio_open = True, fio_fwrite = (\<lambda>n. n), fio_fflush = True, fio_fclose = True, fio_rename = True, fio_kept = 0\<rparr>"

theorem save_to_atomic_witness:
  "\<exists>im' st disk'. save_to quota_engine 4 ''q'' flawless_io (\<lambda>_. Some []) = (im', st, disk') \<and> st_ok st \<and>
    disk' ''q'' = Some (save_blob (serialize_state quota_engine)) \<and> disk' ''r'' = Some []"
proof -
  obtain im' st disk' where s: "save_to quota_engine 4 ''q'' flawless_io (\<lambda>_. Some []) = (im', st, disk')"
    by (metis prod.exhaust)
  have io: "fio_open flawless_io" "fio_fflush flawless_io" "fio_fclose flawless_io" "fio_rename flawless_io" "\<And>n. fio_fwrite flawless_io n = n"
    by (simp_all add: flawless_io_def)
  from save_to_atomic [where im = quota_engine and now = 4 and path = "''q''" and io = flawless_io and disk = "\<lambda>_. Some []"] io show ?thesis by (auto simp: s)
qed

theorem save_load_roundtrip_witness:
  "\<exists>blob im'. load_from (impl_initial engine_settings_default sample_ids 0) 5 (Contents blob) = Some (im', status_success) \<and>
    map_of (im_local_quota im') solo = Some ((vram_quota 10)\<lparr>q_tenant := solo\<rparr>)"
proof -
  obtain im1 st disk' where s: "save_to quota_engine 4 ''q'' flawless_io (\<lambda>_. None) = (im1, st, disk')" "st_ok st"
    by (simp add: save_to_simps flawless_io_def Let_def)
  have "fio_fflush flawless_io" by (simp add: flawless_io_def)
  from save_load_roundtrip [OF solo_persistable quota_engine_length s this, of sample_ids 0 5]
  obtain blob im' where
    l: "load_from (impl_initial engine_settings_default sample_ids 0) 5 (Contents blob) = Some (im', status_success)"
    and r: "recovered quota_engine im'" by blast
  have "map_of (im_local_quota im') solo = Some ((vram_quota 10)\<lparr>q_tenant := solo\<rparr>)"
    using r by (simp add: recovered_def)
  with l show ?thesis by blast
qed

section \<open>Damaged files\<close>

lemma le_bytes_le_word:
  fixes p :: "byte list"
  assumes "length p = n" "LENGTH('a::len) = 8 * n"
  shows "le_bytes n (le_word p :: 'a word) = p"
proof (rule nth_equalityI)
  fix i assume "i < length (le_bytes n (le_word p :: 'a word))"
  then have i: "i < n" by simp
  have "bit (ucast (drop_bit (8 * i) (le_word p :: 'a word)) :: byte) k = bit (p ! i) k" if k: "k < 8" for k
  proof -
    have "8 * i + k < 8 * n" using i k by linarith
    moreover have "(8 * i + k) div 8 = i" "(8 * i + k) mod 8 = k" using k by simp_all
    ultimately show ?thesis
      using k assms by (simp add: bit_ucast_iff bit_drop_bit_eq le_word_def bit_le_fold)
  qed
  then show "le_bytes n (le_word p :: 'a word) ! i = p ! i"
    using i by (intro bit_word_eqI) (simp add: le_bytes_def)
qed (use assms in simp)

lemma r_u32_inv: "r_u32 bs = Inr (c, rest) \<Longrightarrow> bs = w_u32 c @ rest"
  by (auto simp: r_u32_def rbind_def read_bytes_def w_u32_def le_bytes_le_word split: if_splits)

lemma r_u64_inv: "r_u64 bs = Inr (c, rest) \<Longrightarrow> bs = w_u64 c @ rest"
  by (auto simp: r_u64_def rbind_def read_bytes_def w_u64_def le_bytes_le_word split: if_splits)

lemma read_file_header_inv:
  "read_file_header bs = Inr (len, rest) \<Longrightarrow> bs = w_u32 kQuotaFabricMagic @ w_u32 1 @ w_u64 len @ rest"
  by (auto simp: read_file_header_def rbind_def split: sum.splits if_splits dest!: r_u32_inv r_u64_inv)

interpretation file_header: stable_reader read_file_header
  unfolding read_file_header_def by (intro stable_bind stable_if stable_ints stable_throw)

definition refused :: "impl \<Rightarrow> (impl \<times> quota_status) option \<Rightarrow> bool" where
  "refused im r \<longleftrightarrow> (\<exists>st. r = Some (im, st) \<and> \<not> st_ok st)"

lemma refused_io [simp]: "refused im (Some (im, io_failure m))"
  by (simp add: refused_def io_failure_def status_failure_def)

lemma load_from_bad_header: "read_file_header bs = Inl e \<Longrightarrow> refused im (load_from im now (Contents bs))"
  by (cases e) (simp_all add: load_from_def)

lemma load_from_bad_length:
  "read_file_header bs = Inr (len, body) \<Longrightarrow> len \<noteq> of_nat (length body) - 4 \<Longrightarrow>
   refused im (load_from im now (Contents bs))"
  by (simp add: load_from_def)

text \<open>
  Every strict prefix of a saved file is refused by load_from and leaves the engine
  unchanged.
\<close>

theorem truncated_file_refused:
  assumes "length (serialize_state im) + 4 < 2 ^ 64" "n < length (save_blob (serialize_state im))"
  shows "refused im0 (load_from im0 now (Contents (take n (save_blob (serialize_state im)))))"
proof -
  define body where "body = serialize_state im"
  define tail where "tail = body @ w_u32 (crc32 body)"
  define blob where "blob = save_blob body"
  have full: "read_file_header blob = Inr (of_nat (length body), tail)"
    by (simp add: blob_def tail_def save_blob_def read_file_header_def codec_simps u64.dec_enc)
  show ?thesis
  proof (cases "read_file_header (take n blob)")
    case (Inl e)
    then show ?thesis using load_from_bad_header by (simp add: blob_def body_def)
  next
    case (Inr p)
    then obtain len rest where p: "read_file_header (take n blob) = Inr (len, rest)" by (cases p) auto
    from file_header.extends [OF this, of "drop n blob"] full
    have len: "len = of_nat (length body)" and tl: "rest @ drop n blob = tail" by auto
    have "length rest < length body + 4"
      using arg_cong [OF tl, of length] assms(2) by (simp add: tail_def blob_def body_def)
    then have "len \<noteq> of_nat (length rest) - 4"
    proof -
      have "(of_nat (length body + 4) :: 64 word) \<noteq> of_nat (length rest)"
      proof -
        have "unat (of_nat (length body + 4) :: 64 word) = length body + 4" "unat (of_nat (length rest) :: 64 word) = length rest"
          using \<open>length rest < length body + 4\<close> assms(1)
          by (subst unat_of_nat, simp add: body_def)+
        then show ?thesis using \<open>length rest < length body + 4\<close> by (metis less_irrefl)
      qed
      then show ?thesis unfolding len by (auto simp: algebra_simps)
    qed
    then show ?thesis using load_from_bad_length [OF p] by (simp add: blob_def body_def)
  qed
qed

theorem truncated_file_refused_witness:
  "refused solo_engine (load_from solo_engine 9 (Contents (take 19 (save_blob (serialize_state sample_engine)))))"
  by (rule truncated_file_refused [OF sample_length]) (simp add: save_blob_def)

definition blob_header :: "byte list \<Rightarrow> byte list" where
  "blob_header body = w_u32 kQuotaFabricMagic @ w_u32 1 @ w_u64 (of_nat (length body))"

lemma save_blob_parts: "save_blob body = blob_header body @ body @ w_u32 (crc32 body)"
  by (simp add: save_blob_def blob_header_def)

lemma length_blob_header [simp]: "length (blob_header body) = 16"
  by (simp add: blob_header_def)

lemma corrupted_header:
  assumes "i < 16" "b \<noteq> blob_header body ! i"
  shows "refused im0 (load_from im0 now (Contents ((blob_header body)[i := b] @ body @ w_u32 (crc32 body))))"
proof -
  let ?hdr = "(blob_header body)[i := b]" and ?tail = "body @ w_u32 (crc32 body)"
  have ne: "?hdr \<noteq> blob_header body" using assms by (metis length_blob_header nth_list_update_eq)
  show ?thesis
  proof (cases "read_file_header (?hdr @ ?tail)")
    case (Inl e)
    then show ?thesis using load_from_bad_header by simp
  next
    case (Inr p)
    then obtain len rest where p: "read_file_header (?hdr @ ?tail) = Inr (len, rest)" by (cases p) auto
    from read_file_header_inv [OF this]
    have "?hdr @ ?tail = (w_u32 kQuotaFabricMagic @ w_u32 1 @ w_u64 len) @ rest" by simp
    then have r: "rest = ?tail" "?hdr = w_u32 kQuotaFabricMagic @ w_u32 1 @ w_u64 len"
      by (subst (asm) append_eq_append_conv; simp)+
    then have "len \<noteq> of_nat (length body)" using ne by (auto simp: blob_header_def)
    then show ?thesis using load_from_bad_length [OF p] r(1) by simp
  qed
qed

lemma corrupted_body:
  assumes "length body + 4 < 2 ^ 64" "j < length body" "b \<noteq> body ! j"
  shows "refused im0 (load_from im0 now (Contents (blob_header body @ body[j := b] @ w_u32 (crc32 body))))"
proof -
  have "crc32 body \<noteq> crc32 (body[j := b])"
    using crc32_single_byte [of "body ! j" b "take j body" "drop (Suc j) body"] assms(2,3)
    by (simp add: upd_conv_take_nth_drop id_take_nth_drop [symmetric])
  then show ?thesis
    using load_from_written [of "body[j := b]" im0 now "crc32 body"] assms(1) by (simp add: blob_header_def)
qed

lemma corrupted_checksum:
  assumes "length body + 4 < 2 ^ 64" "k < 4" "b \<noteq> w_u32 (crc32 body) ! k"
  shows "refused im0 (load_from im0 now (Contents (blob_header body @ body @ (w_u32 (crc32 body))[k := b])))"
proof -
  let ?c = "(w_u32 (crc32 body))[k := b]"
  have "?c \<noteq> w_u32 (crc32 body)" using assms(2,3) by (metis length_writers(3) nth_list_update_eq)
  moreover have c: "?c = w_u32 (le_word ?c)" by (simp add: w_u32_def le_bytes_le_word)
  ultimately have "le_word ?c \<noteq> crc32 body" by metis
  then show ?thesis
    using load_from_written [OF assms(1), of im0 now "le_word ?c"] unfolding c [symmetric] by (simp add: blob_header_def)
qed

text \<open>
  C28. Changing any single byte of a saved file makes load_from fail without any change to
  the engine, whether the byte lies in the magic, the version, the length, the body or the
  checksum.
\<close>

theorem corrupted_byte_refused:
  assumes "length (serialize_state im) + 4 < 2 ^ 64" "i < length (save_blob (serialize_state im))"
    and "b \<noteq> save_blob (serialize_state im) ! i"
  shows "refused im0 (load_from im0 now (Contents ((save_blob (serialize_state im))[i := b])))"
proof -
  let ?body = "serialize_state im"
  consider "i < 16" | "16 \<le> i" "i - 16 < length ?body" | "16 \<le> i" "length ?body \<le> i - 16" by linarith
  then show ?thesis
  proof cases
    case 1
    then show ?thesis
      using corrupted_header [of i b ?body im0 now] assms(3) by (simp add: save_blob_parts list_update_append nth_append)
  next
    case 2
    then show ?thesis
      using corrupted_body [OF assms(1) 2(2), of b im0 now] assms(3)
      by (simp add: save_blob_parts list_update_append nth_append)
  next
    case 3
    then show ?thesis
      using corrupted_checksum [OF assms(1), of "i - 16 - length ?body" b im0 now] assms(2,3)
      by (simp add: save_blob_parts list_update_append nth_append)
  qed
qed

theorem corrupted_byte_refused_witness:
  "refused solo_engine (load_from solo_engine 9 (Contents ((save_blob (serialize_state sample_engine))
     [17 := save_blob (serialize_state sample_engine) ! 17 + 1])))"
proof (rule corrupted_byte_refused [OF sample_length])
  have "4 \<le> length (serialize_state sample_engine)"
    by (simp add: serialize_state_def write_header_def)
  then show "17 < length (save_blob (serialize_state sample_engine))" by (simp add: save_blob_def)
qed simp

lemma wrapped_length: "unat (of_nat n - 4 :: 64 word) + 4 \<le> n \<longleftrightarrow> 4 \<le> n"
proof (cases "4 \<le> n")
  case True
  then have "(of_nat n - 4 :: 64 word) = of_nat (n - 4)" by (simp add: of_nat_diff)
  moreover have "unat (of_nat (n - 4) :: 64 word) \<le> n - 4" by (simp add: unat_of_nat)
  ultimately show ?thesis using True by simp
next
  case False
  then have "n \<in> {0, 1, 2, 3}" by auto
  then show ?thesis by auto
qed

text \<open>
  C39. load_from makes its reads through raw pointers, of the four checksum bytes behind the
  body and of the body, within its buffer on every file, except exactly on files of 16 to 19
  bytes with the right magic and version whose length field is the wrapped-around value
  remaining - 4; there it reads outside.
\<close>

theorem load_from_out_of_bounds:
  "load_from im now (Contents blob) = None \<longleftrightarrow>
    (\<exists>rest. length rest < 4 \<and>
      blob = w_u32 kQuotaFabricMagic @ w_u32 1 @ w_u64 (of_nat (length rest) - 4) @ rest)"
proof (cases "read_file_header blob")
  case (Inl e)
  moreover have "blob \<noteq> w_u32 kQuotaFabricMagic @ w_u32 1 @ w_u64 len @ rest" for len rest
    using Inl read_file_header_written [of len rest] by auto
  ultimately show ?thesis by (cases e) (simp_all add: load_from_def)
next
  case (Inr p)
  then obtain len rest where h: "read_file_header blob = Inr (len, rest)" by (cases p) auto
  note blob = read_file_header_inv [OF h]
  have eq: "blob = w_u32 kQuotaFabricMagic @ w_u32 1 @ w_u64 len' @ rest' \<longleftrightarrow> len' = len \<and> rest' = rest" for len' rest'
  proof
    assume "blob = w_u32 kQuotaFabricMagic @ w_u32 1 @ w_u64 len' @ rest'"
    then have "read_file_header blob = Inr (len', rest')" by (simp only: read_file_header_written)
    with h show "len' = len \<and> rest' = rest" by simp
  qed (simp add: blob)
  have "length blob = 16 + length rest" by (simp add: blob)
  then have "load_from im now (Contents blob) = None \<longleftrightarrow>
      len = of_nat (length rest) - 4 \<and> \<not> unat (of_nat (length rest) - 4 :: 64 word) + 4 \<le> length rest"
    by (auto simp: load_from_def h read_range_def Let_def)
  then show ?thesis unfolding wrapped_length using eq by auto
qed

end
