(* ===== verification/QF_Frame.thy ===== *)
theory QF_Frame
  imports QF_Codec
begin

text \<open>
  The framed protocol of \<open>protocol/frame.cpp\<close>: a 20-byte big-endian header and the payload.
  The socket is the list of bytes it will still deliver; \<open>recv_all\<close> fails when the peer
  closes before enough bytes came.
\<close>

unbundle bit_operations_syntax

section \<open>Message types\<close>

datatype message_type =
    MT_HELLO | MT_WELCOME | MT_CREATE_GROUP | MT_CREATE_TENANT | MT_SET_TENANT_QUOTA | MT_SET_GROUP_QUOTA
  | MT_EVALUATE | MT_RESERVE | MT_COMMIT_RESERVATION | MT_RELEASE | MT_START_ALLOCATION | MT_RELEASE_ALLOCATION
  | MT_BORROW | MT_LEND | MT_RECALL_BORROW | MT_RECALL_DECISION | MT_OBSERVE | MT_ENVELOPE | MT_SNAPSHOT
  | MT_ADVANCE_EPOCH | MT_PING | MT_RESULT_OK | MT_RESULT_ERR
  | MT_raw byte

definition message_type_table :: "(byte \<times> message_type) list" where
  "message_type_table =
     [(1, MT_HELLO), (2, MT_WELCOME), (3, MT_CREATE_GROUP), (4, MT_CREATE_TENANT), (5, MT_SET_TENANT_QUOTA),
      (6, MT_SET_GROUP_QUOTA), (7, MT_EVALUATE), (8, MT_RESERVE), (9, MT_COMMIT_RESERVATION), (10, MT_RELEASE),
      (11, MT_START_ALLOCATION), (12, MT_RELEASE_ALLOCATION), (13, MT_BORROW), (14, MT_LEND),
      (15, MT_RECALL_BORROW), (16, MT_RECALL_DECISION), (17, MT_OBSERVE), (18, MT_ENVELOPE), (19, MT_SNAPSHOT),
      (20, MT_ADVANCE_EPOCH), (21, MT_PING), (200, MT_RESULT_OK), (255, MT_RESULT_ERR)]"

text \<open>\<open>static_cast<MessageType>(b)\<close> and \<open>static_cast<std::uint8_t>(t)\<close>.\<close>

definition message_type_of_code :: "byte \<Rightarrow> message_type" where
  "message_type_of_code b = (case map_of message_type_table b of Some t \<Rightarrow> t | None \<Rightarrow> MT_raw b)"

definition message_type_code :: "message_type \<Rightarrow> byte" where
  "message_type_code t =
     (case t of MT_raw b \<Rightarrow> b
      | _ \<Rightarrow> (case map_of (map (\<lambda>(b, t). (t, b)) message_type_table) t of Some b \<Rightarrow> b | None \<Rightarrow> 0))"

definition message_type_valid :: "message_type \<Rightarrow> bool" where
  "message_type_valid t \<longleftrightarrow> (case t of MT_raw b \<Rightarrow> map_of message_type_table b = None | _ \<Rightarrow> True)"

lemma message_type_roundtrip: "message_type_valid t \<Longrightarrow> message_type_of_code (message_type_code t) = t"
  by (cases t)
     (simp_all add: message_type_valid_def message_type_code_def message_type_of_code_def message_type_table_def)

section \<open>Big-endian integers\<close>

definition be_bytes :: "nat \<Rightarrow> 'a::len word \<Rightarrow> byte list" where
  "be_bytes n w = map (\<lambda>i. ucast (drop_bit (8 * i) w)) (rev [0..<n])"

definition be_word :: "byte list \<Rightarrow> 'a::len word" where
  "be_word bs = foldl (\<lambda>r b. push_bit 8 r OR ucast b) 0 bs"

lemma length_be_bytes [simp]: "length (be_bytes n w) = n"
  by (simp add: be_bytes_def)

lemma be_word_snoc: "be_word (bs @ [b]) = push_bit 8 (be_word bs) OR ucast b"
  by (simp add: be_word_def)

lemma bit_be_word:
  "bit (be_word bs :: 'a::len word) k \<longleftrightarrow>
     k < LENGTH('a) \<and> k < 8 * length bs \<and> bit (rev bs ! (k div 8)) (k mod 8)"
proof (induction bs arbitrary: k rule: rev_induct)
  case (snoc b bs)
  show ?case
  proof (cases "k < 8")
    case True
    then show ?thesis by (simp add: be_word_snoc bit_or_iff bit_push_bit_iff bit_ucast_iff)
  next
    case False
    then have "(k - 8) div 8 = k div 8 - 1" "(k - 8) mod 8 = k mod 8" "0 < k div 8"
      by (simp_all add: le_div_geq le_mod_geq)
    moreover have "k - 8 < 8 * length bs \<longleftrightarrow> k < 8 + 8 * length bs" using False by auto
    moreover have "\<not> bit b k" using False bit_imp_le_length [of b k] by auto
    ultimately show ?thesis
      using False snoc [of "k - 8"]
      by (auto simp: be_word_snoc bit_or_iff bit_push_bit_iff bit_ucast_iff nth_Cons')
  qed
qed (simp add: be_word_def)

lemma be_word_be_bytes:
  fixes w :: "'a::len word"
  assumes "LENGTH('a) = 8 * n"
  shows "(be_word (be_bytes n w) :: 'a word) = w"
proof (rule bit_word_eqI)
  fix k assume k: "k < LENGTH('a)"
  then have "k div 8 < n" using assms by auto
  moreover have "8 * (k div 8) + k mod 8 = k" by simp
  ultimately have "bit (rev (be_bytes n w) ! (k div 8)) (k mod 8) = bit w k"
    by (simp add: be_bytes_def rev_map [symmetric] bit_ucast_iff bit_drop_bit_eq)
  then show "bit (be_word (be_bytes n w) :: 'a word) k = bit w k"
    using k assms by (simp add: bit_be_word)
qed

section \<open>Frames\<close>

definition kFrameMagic :: "32 word" where
  "kFrameMagic = 0x51FA0134"

definition kProtocolVersion :: "16 word" where
  "kProtocolVersion = 1"

definition kMaxFrameSize :: "32 word" where
  "kMaxFrameSize = 16 * 1024 * 1024"

record frame =
  fr_type :: message_type
  fr_flags :: byte
  fr_correlation :: "64 word"
  fr_payload :: "byte list"

definition encode_frame :: "message_type \<Rightarrow> 64 word \<Rightarrow> byte \<Rightarrow> byte list \<Rightarrow> byte list" where
  "encode_frame t corr flags payload =
     be_bytes 4 kFrameMagic @ be_bytes 2 kProtocolVersion @ [message_type_code t] @ [flags] @
     be_bytes 8 corr @ be_bytes 4 (of_nat (length payload) :: 32 word) @ payload"

text \<open>The fields of a header of 20 bytes, at the offsets the reader has when it gets there.\<close>

definition header_magic :: "byte list \<Rightarrow> 32 word" where
  "header_magic h = be_word (take 4 h)"

definition header_version :: "byte list \<Rightarrow> 16 word" where
  "header_version h = be_word (take 2 (drop 4 h))"

definition header_corr :: "byte list \<Rightarrow> 64 word" where
  "header_corr h = be_word (take 8 (drop 8 h))"

definition header_plen :: "byte list \<Rightarrow> 32 word" where
  "header_plen h = be_word (take 4 (drop 16 h))"

definition validate_frame_header_magic :: "byte list \<Rightarrow> bool" where
  "validate_frame_header_magic h \<longleftrightarrow> header_magic h = kFrameMagic"

definition frame_of :: "byte list \<Rightarrow> byte list \<Rightarrow> frame" where
  "frame_of h payload =
     \<lparr>fr_type = message_type_of_code (h ! 6), fr_flags = h ! 7, fr_correlation = header_corr h, fr_payload = payload\<rparr>"

definition decode_frame :: "byte list \<Rightarrow> string + frame" where
  "decode_frame bs =
     (if length bs < 20 then Inl ''frame too small''
      else if header_magic bs \<noteq> kFrameMagic then Inl ''bad frame magic''
      else if header_version bs \<noteq> kProtocolVersion then Inl ''unsupported protocol version''
      else if header_plen bs > kMaxFrameSize then Inl ''frame oversized''
      else if 20 + unat (header_plen bs) > length bs then Inl ''truncated frame''
      else Inr (frame_of bs (take (unat (header_plen bs)) (drop 20 bs))))"

definition recv_frame :: "32 word \<Rightarrow> byte list \<Rightarrow> string + frame \<times> byte list" where
  "recv_frame max_size sock =
     (if length sock < 20 then Inl ''socket closed reading header''
      else let h = take 20 sock; rest = drop 20 sock; plen = header_plen h in
        if \<not> validate_frame_header_magic h then Inl ''bad frame magic''
        else if header_version h \<noteq> kProtocolVersion then Inl ''unsupported protocol version''
        else if plen > kMaxFrameSize then Inl ''frame oversized''
        else if max_size \<noteq> 0 \<and> plen > max_size then Inl ''frame exceeds caller bound''
        else if plen > 0 \<and> length rest < unat plen then Inl ''socket closed reading payload''
        else Inr (frame_of h (take (unat plen) rest), drop (unat plen) rest))"

lemma encode_frame_fields:
  assumes "length payload \<le> unat kMaxFrameSize"
  shows "header_magic (encode_frame t corr flags payload @ rest) = kFrameMagic"
    "header_version (encode_frame t corr flags payload @ rest) = kProtocolVersion"
    "header_corr (encode_frame t corr flags payload @ rest) = corr"
    "unat (header_plen (encode_frame t corr flags payload @ rest)) = length payload"
    "\<not> header_plen (encode_frame t corr flags payload @ rest) > kMaxFrameSize"
    "(encode_frame t corr flags payload @ rest) ! 6 = message_type_code t"
    "(encode_frame t corr flags payload @ rest) ! 7 = flags"
    "length (encode_frame t corr flags payload) = 20 + length payload"
    "drop 20 (encode_frame t corr flags payload @ rest) = payload @ rest"
proof -
  have n: "unat (of_nat (length payload) :: 32 word) = length payload"
    using assms by (simp add: kMaxFrameSize_def unat_of_nat)
  have pl: "header_plen (encode_frame t corr flags payload @ rest) = of_nat (length payload)"
    by (simp add: header_plen_def encode_frame_def drop_Cons' be_word_be_bytes)
  show "unat (header_plen (encode_frame t corr flags payload @ rest)) = length payload" by (simp only: pl n)
  show "\<not> header_plen (encode_frame t corr flags payload @ rest) > kMaxFrameSize"
    using assms n by (simp only: pl word_less_nat_alt not_less)
  show "header_magic (encode_frame t corr flags payload @ rest) = kFrameMagic"
    "header_version (encode_frame t corr flags payload @ rest) = kProtocolVersion"
    "header_corr (encode_frame t corr flags payload @ rest) = corr"
    "(encode_frame t corr flags payload @ rest) ! 6 = message_type_code t"
    "(encode_frame t corr flags payload @ rest) ! 7 = flags"
    "length (encode_frame t corr flags payload) = 20 + length payload"
    "drop 20 (encode_frame t corr flags payload @ rest) = payload @ rest"
    by (simp_all add: header_magic_def header_version_def header_corr_def encode_frame_def be_word_be_bytes
        nth_append drop_Cons')
qed

lemma header_take: "20 \<le> length bs \<Longrightarrow> header_magic (take 20 bs) = header_magic bs \<and> header_version (take 20 bs) = header_version bs \<and>
   header_corr (take 20 bs) = header_corr bs \<and> header_plen (take 20 bs) = header_plen bs"
  by (simp add: header_magic_def header_version_def header_corr_def header_plen_def drop_take min_def)

lemma recv_frame_encoded:
  assumes "message_type_valid t" "length payload \<le> unat kMaxFrameSize"
  shows "recv_frame 0 (encode_frame t corr flags payload @ rest) =
      Inr (\<lparr>fr_type = t, fr_flags = flags, fr_correlation = corr, fr_payload = payload\<rparr>, rest)"
proof -
  note F = encode_frame_fields [OF assms(2), of t corr flags]
  have len: "20 \<le> length (encode_frame t corr flags payload @ rest)" using F(8) by simp
  show ?thesis
    using F(1-5,9) [of rest] F(6,7) [of "[]"] F(8) header_take [OF len] message_type_roundtrip [OF assms(1)]
    by (simp add: recv_frame_def Let_def validate_frame_header_magic_def frame_of_def)
qed

lemma decode_frame_encoded:
  assumes "message_type_valid t" "length payload \<le> unat kMaxFrameSize"
  shows "decode_frame (encode_frame t corr flags payload) =
      Inr \<lparr>fr_type = t, fr_flags = flags, fr_correlation = corr, fr_payload = payload\<rparr>"
proof -
  note F = encode_frame_fields [OF assms(2), of t corr flags]
  show ?thesis
    using F(1-7,9) [of "[]"] F(8) message_type_roundtrip [OF assms(1)] by (simp add: decode_frame_def frame_of_def)
qed

text \<open>
  Both decoders give back an encoded frame whose payload is within the frame size.
\<close>

theorem frame_roundtrip:
  assumes "message_type_valid t" "length payload \<le> unat kMaxFrameSize"
  shows "recv_frame 0 (encode_frame t corr flags payload @ rest) =
      Inr (\<lparr>fr_type = t, fr_flags = flags, fr_correlation = corr, fr_payload = payload\<rparr>, rest) \<and>
    decode_frame (encode_frame t corr flags payload) =
      Inr \<lparr>fr_type = t, fr_flags = flags, fr_correlation = corr, fr_payload = payload\<rparr>"
  using recv_frame_encoded [OF assms] decode_frame_encoded [OF assms] by simp

theorem frame_roundtrip_witness:
  "decode_frame (encode_frame MT_RESERVE 7 0 [1, 2, 3]) =
     Inr \<lparr>fr_type = MT_RESERVE, fr_flags = 0, fr_correlation = 7, fr_payload = [1, 2, 3]\<rparr>"
  using frame_roundtrip [of MT_RESERVE "[1, 2, 3]" 7 0]
  by (simp add: message_type_valid_def kMaxFrameSize_def)

end
