(* ===== verification/QF_Net.thy ===== *)
theory QF_Net
  imports QF_Frame
begin

text \<open>
  The loops of \<open>protocol/net.cpp\<close> over the system calls \<open>send\<close> and \<open>recv\<close>, and \<open>send_frame\<close>
  and \<open>recv_frame\<close> of \<open>protocol/frame.cpp\<close> on top of them. The system calls are parameters:
  the number of bytes they move in one call is up to the operating system. The predicates
  \<open>tcp_recv\<close> and \<open>tcp_send\<close> state what TCP promises about them; under these the loops are
  independent of the segmentation, and receiving a frame from a socket is the function
  \<open>recv_frame\<close> on the bytes of the stream, which the other theories use.
\<close>

section \<open>The loops\<close>

text \<open>\<open>None\<close> is a negative return value; a call that moves no byte counts as a failure as well.\<close>

type_synonym 's recv_call = "'s \<Rightarrow> nat \<Rightarrow> 's \<times> byte list option"
type_synonym 's send_call = "'s \<Rightarrow> byte list \<Rightarrow> 's \<times> nat option"

function recv_loop :: "'s recv_call \<Rightarrow> nat \<Rightarrow> 's \<Rightarrow> byte list \<Rightarrow> 's \<times> byte list option" where
  "recv_loop recv n s data =
     (if length data < n
      then (case recv s (n - length data) of
              (s', None) \<Rightarrow> (s', None)
            | (s', Some d) \<Rightarrow> if d = [] then (s', None) else recv_loop recv n s' (data @ d))
      else (s, Some data))"
  by pat_completeness auto
termination
  by (relation "measure (\<lambda>(recv, n, s, data). n - length data)") (auto simp: diff_less_mono2)

declare recv_loop.simps [simp del]

definition recv_all :: "'s recv_call \<Rightarrow> 's \<Rightarrow> nat \<Rightarrow> 's \<times> byte list option" where
  "recv_all recv s n = recv_loop recv n s []"

function send_loop :: "'s send_call \<Rightarrow> 's \<Rightarrow> byte list \<Rightarrow> nat \<Rightarrow> 's \<times> bool" where
  "send_loop send s data sent =
     (if sent < length data
      then (case send s (drop sent data) of
              (s', None) \<Rightarrow> (s', False)
            | (s', Some r) \<Rightarrow> if r = 0 then (s', False) else send_loop send s' data (sent + r))
      else (s, True))"
  by pat_completeness auto
termination
  by (relation "measure (\<lambda>(send, s, data, sent). length data - sent)") auto

declare send_loop.simps [simp del]

definition send_all :: "'s send_call \<Rightarrow> 's \<Rightarrow> byte list \<Rightarrow> 's \<times> bool" where
  "send_all send s data = send_loop send s data 0"

definition send_frame ::
  "'s send_call \<Rightarrow> 's \<Rightarrow> message_type \<Rightarrow> 64 word \<Rightarrow> byte \<Rightarrow> byte list \<Rightarrow> 's \<times> (string + unit)" where
  "send_frame send s t corr flags payload =
     (case send_all send s (encode_frame t corr flags payload) of
        (s', True) \<Rightarrow> (s', Inr ())
      | (s', False) \<Rightarrow> (s', Inl ''send_all failed''))"

definition recv_frame_socket :: "'s recv_call \<Rightarrow> 's \<Rightarrow> 32 word \<Rightarrow> 's \<times> (string + frame)" where
  "recv_frame_socket recv s max_size =
     (case recv_all recv s 20 of
        (s1, None) \<Rightarrow> (s1, Inl ''socket closed reading header'')
      | (s1, Some h) \<Rightarrow>
          (let plen = header_plen h in
           if \<not> validate_frame_header_magic h then (s1, Inl ''bad frame magic'')
           else if header_version h \<noteq> kProtocolVersion then (s1, Inl ''unsupported protocol version'')
           else if plen > kMaxFrameSize then (s1, Inl ''frame oversized'')
           else if max_size \<noteq> 0 \<and> plen > max_size then (s1, Inl ''frame exceeds caller bound'')
           else if plen > 0
             then (case recv_all recv s1 (unat plen) of
                     (s2, None) \<Rightarrow> (s2, Inl ''socket closed reading payload'')
                   | (s2, Some p) \<Rightarrow> (s2, Inr (frame_of h p)))
             else (s1, Inr (frame_of h []))))"

section \<open>What TCP promises\<close>

text \<open>
  \<open>stream s\<close> are the bytes the peer has sent and that are not yet received. A call for at
  least one byte returns a non-empty part of at most the requested length from the front
  of the stream, and fails only when the peer closed the connection and nothing is left.
\<close>

definition tcp_recv :: "'s recv_call \<Rightarrow> ('s \<Rightarrow> byte list) \<Rightarrow> bool" where
  "tcp_recv recv stream \<longleftrightarrow>
     (\<forall>s n s' d. recv s n = (s', Some d) \<longrightarrow> 0 < n \<longrightarrow> d \<noteq> [] \<and> length d \<le> n \<and> stream s = d @ stream s') \<and>
     (\<forall>s n s'. recv s n = (s', None) \<longrightarrow> 0 < n \<longrightarrow> stream s = [])"

text \<open>\<open>sent s\<close> are the bytes handed to the connection; a call takes over a part from the front.\<close>

definition tcp_send :: "'s send_call \<Rightarrow> ('s \<Rightarrow> byte list) \<Rightarrow> bool" where
  "tcp_send send sent \<longleftrightarrow>
     (\<forall>s data s' r. send s data = (s', Some r) \<longrightarrow> r \<le> length data \<and> sent s' = sent s @ take r data)"

lemma tcp_recvD:
  "tcp_recv recv stream \<Longrightarrow> recv s n = (s', Some d) \<Longrightarrow> 0 < n \<Longrightarrow> d \<noteq> [] \<and> length d \<le> n \<and> stream s = d @ stream s'"
  "tcp_recv recv stream \<Longrightarrow> recv s n = (s', None) \<Longrightarrow> 0 < n \<Longrightarrow> stream s = []"
  unfolding tcp_recv_def by blast+

section \<open>The loops do not depend on the segmentation\<close>

lemma recv_loop_stream:
  assumes tcp: "tcp_recv recv stream" and "length data \<le> n" "n - length data \<le> length (stream s)"
  shows "\<exists>s'. recv_loop recv n s data = (s', Some (data @ take (n - length data) (stream s))) \<and>
    stream s' = drop (n - length data) (stream s)"
  using assms(2,3)
proof (induction "n - length data" arbitrary: s data rule: less_induct)
  case less
  show ?case
  proof (cases "length data < n")
    case True
    then have pos: "0 < n - length data" by simp
    obtain s1 r where r: "recv s (n - length data) = (s1, r)" by force
    then obtain d where d: "r = Some d" using tcp_recvD(2) [OF tcp _ pos] less.prems(2) pos by (cases r) auto
    have D: "d \<noteq> []" "length d \<le> n - length data" "stream s = d @ stream s1"
      using tcp_recvD(1) [OF tcp _ pos] r d by auto
    then have step: "recv_loop recv n s data = recv_loop recv n s1 (data @ d)"
      using True r d by (subst recv_loop.simps) simp
    have "n - length (data @ d) < n - length data" "length (data @ d) \<le> n"
      "n - length (data @ d) \<le> length (stream s1)"
      using D pos less.prems by (simp_all add: diff_less_mono2)
    from less.hyps [OF this] obtain s2 where
      s2: "recv_loop recv n s1 (data @ d) = (s2, Some ((data @ d) @ take (n - length (data @ d)) (stream s1)))"
        "stream s2 = drop (n - length (data @ d)) (stream s1)" by blast
    have "take (n - length data) (stream s) = d @ take (n - length (data @ d)) (stream s1)"
      "drop (n - length data) (stream s) = drop (n - length (data @ d)) (stream s1)"
      using D by simp_all
    then show ?thesis using step s2 by simp
  next
    case False
    then show ?thesis using less.prems by (subst recv_loop.simps) simp
  qed
qed

lemma recv_loop_short:
  assumes tcp: "tcp_recv recv stream" and "length data \<le> n" "length (stream s) < n - length data"
  shows "\<exists>s'. recv_loop recv n s data = (s', None)"
  using assms(2,3)
proof (induction "n - length data" arbitrary: s data rule: less_induct)
  case less
  then have pos: "0 < n - length data" by simp
  obtain s1 r where r: "recv s (n - length data) = (s1, r)" by force
  show ?case
  proof (cases r)
    case None
    then show ?thesis using r pos by (subst recv_loop.simps) simp
  next
    case (Some d)
    have D: "d \<noteq> []" "length d \<le> n - length data" "stream s = d @ stream s1"
      using tcp_recvD(1) [OF tcp _ pos] r Some by auto
    have "n - length (data @ d) < n - length data" using D(1) pos by (simp add: diff_less_mono2)
    from less.hyps [OF this, of s1] have "\<exists>s'. recv_loop recv n s1 (data @ d) = (s', None)"
      using D less.prems by auto
    then show ?thesis using r Some D(1) pos by (subst recv_loop.simps) simp
  qed
qed

lemma recv_all_enough:
  "tcp_recv recv stream \<Longrightarrow> n \<le> length (stream s) \<Longrightarrow>
   \<exists>s'. recv_all recv s n = (s', Some (take n (stream s))) \<and> stream s' = drop n (stream s)"
  using recv_loop_stream [of recv stream "[]" n s] by (simp add: recv_all_def)

lemma recv_all_short: "tcp_recv recv stream \<Longrightarrow> length (stream s) < n \<Longrightarrow> \<exists>s'. recv_all recv s n = (s', None)"
  using recv_loop_short [of recv stream "[]" n s] by (simp add: recv_all_def)

lemma recv_frame_stream:
  assumes tcp: "tcp_recv recv stream"
  shows "(case recv_frame m (stream s) of
      Inl e \<Rightarrow> snd (recv_frame_socket recv s m) = Inl e
    | Inr (f, rest) \<Rightarrow> snd (recv_frame_socket recv s m) = Inr f \<and> stream (fst (recv_frame_socket recv s m)) = rest)"
proof (cases "length (stream s) < 20")
  case True
  then show ?thesis using recv_all_short [OF tcp True] by (auto simp: recv_frame_def recv_frame_socket_def)
next
  case False
  then obtain s1 where s1: "recv_all recv s 20 = (s1, Some (take 20 (stream s)))" "stream s1 = drop 20 (stream s)"
    using recv_all_enough [OF tcp, of 20 s] by auto
  let ?p = "unat (header_plen (take 20 (stream s)))"
  show ?thesis
  proof (cases "length (stream s1) < ?p")
    case True
    then have "0 < header_plen (take 20 (stream s))" by (auto simp: word_gt_0)
    then show ?thesis
      using False s1 recv_all_short [OF tcp True] True
      by (auto simp: recv_frame_def recv_frame_socket_def Let_def)
  next
    case enough: False
    then obtain s2 where "recv_all recv s1 ?p = (s2, Some (take ?p (stream s1)))" "stream s2 = drop ?p (stream s1)"
      using recv_all_enough [OF tcp, of ?p s1] by auto
    then show ?thesis
      using False s1 enough by (auto simp: recv_frame_def recv_frame_socket_def Let_def word_gt_0)
  qed
qed

lemma send_loop_sent:
  assumes tcp: "tcp_send send sent" and "k \<le> length data" "send_loop send s data k = (s', True)"
  shows "sent s' = sent s @ drop k data"
  using assms(2,3)
proof (induction "length data - k" arbitrary: s k rule: less_induct)
  case less
  show ?case
  proof (cases "k < length data")
    case True
    obtain s1 r where r: "send s (drop k data) = (s1, r)" by force
    with less.prems(2) True obtain m where m: "r = Some m" "m \<noteq> 0" "send_loop send s1 data (k + m) = (s', True)"
      by (subst (asm) send_loop.simps) (auto split: option.splits if_splits)
    then have M: "m \<le> length (drop k data)" "sent s1 = sent s @ take m (drop k data)"
      using tcp r unfolding tcp_send_def by blast+
    then have "sent s' = sent s1 @ drop (k + m) data"
      using less.hyps [of "k + m" s1] m True by auto
    then show ?thesis using M by (metis append.assoc append_take_drop_id drop_drop add.commute)
  next
    case False
    then show ?thesis using less.prems by (subst (asm) send_loop.simps) auto
  qed
qed

lemma send_frame_sent:
  assumes "tcp_send send sent" "send_frame send s t corr flags payload = (s', Inr ())"
  shows "sent s' = sent s @ encode_frame t corr flags payload"
  using assms(2) send_loop_sent [OF assms(1), of 0 "encode_frame t corr flags payload" s s']
  by (auto simp: send_frame_def send_all_def split: prod.splits bool.splits)

text \<open>
  C33. However the operating system segments the stream, recv_frame on a socket returns the
  error or the frame that the specification on the byte stream gives, and leaves the stream
  at the end of that frame. Hypothesis: recv returns a non-empty front part of the stream
  and fails only when the stream is exhausted.
\<close>

theorem recv_frame_refines:
  assumes "tcp_recv recv stream"
  shows "case recv_frame m (stream s) of
      Inl e \<Rightarrow> snd (recv_frame_socket recv s m) = Inl e
    | Inr (f, rest) \<Rightarrow> snd (recv_frame_socket recv s m) = Inr f \<and> stream (fst (recv_frame_socket recv s m)) = rest"
  using recv_frame_stream [OF assms] .

text \<open>
  C34. A frame with a payload of at most kMaxFrameSize bytes for which send_frame reports
  success arrives at the other end as the same frame, with the bytes after it left in the
  stream, for any partial sends and receives. send_frame does not check that bound, and the
  receiver refuses a larger frame. Hypotheses: the system calls behave as TCP promises,
  nothing was sent on the connection before, and what the receiver has not read yet starts
  with the sent bytes.
\<close>

theorem frame_over_sockets:
  assumes "tcp_send send sent" "tcp_recv recv stream"
    and "message_type_valid t" "length payload \<le> unat kMaxFrameSize"
    and "sent s = []" "send_frame send s t corr flags payload = (s', Inr ())" "stream r = sent s' @ rest"
  shows "snd (recv_frame_socket recv r 0) =
      Inr \<lparr>fr_type = t, fr_flags = flags, fr_correlation = corr, fr_payload = payload\<rparr> \<and>
    stream (fst (recv_frame_socket recv r 0)) = rest"
proof -
  have "stream r = encode_frame t corr flags payload @ rest"
    using send_frame_sent [OF assms(1,6)] assms(5,7) by simp
  then show ?thesis
    using recv_frame_stream [OF assms(2), where m = 0 and s = r] recv_frame_encoded [OF assms(3,4), of corr flags rest] by simp
qed

section \<open>A connection that moves one byte per call\<close>

definition byte_recv :: "byte list recv_call" where
  "byte_recv s n = (case s of [] \<Rightarrow> ([], None) | b # bs \<Rightarrow> (bs, Some [b]))"

definition byte_send :: "byte list send_call" where
  "byte_send s data = (s @ take 1 data, Some (length (take 1 data)))"

lemma byte_tcp: "tcp_recv byte_recv (\<lambda>s. s)"
  by (auto simp: tcp_recv_def byte_recv_def split: list.splits)

theorem recv_frame_refines_witness:
  "snd (recv_frame_socket byte_recv [1, 2] 0) = Inl ''socket closed reading header''"
  using recv_frame_refines [OF byte_tcp, where m = 0 and s = "[1, 2]"] by (simp add: recv_frame_def)

lemma byte_tcp_send: "tcp_send byte_send (\<lambda>s. s)"
  by (auto simp: tcp_send_def byte_send_def min_def)

lemma byte_send_loop: "k \<le> length data \<Longrightarrow> send_loop byte_send s data k = (s @ drop k data, True)"
proof (induction "length data - k" arbitrary: s k)
  case 0
  then show ?case by (subst send_loop.simps) simp
next
  case (Suc m)
  then have k: "k < length data" by simp
  then have "drop k data = data ! k # drop (Suc k) data" by (simp add: Cons_nth_drop_Suc)
  moreover have "send_loop byte_send (s @ [data ! k]) data (Suc k) = ((s @ [data ! k]) @ drop (Suc k) data, True)"
    using Suc k by (intro Suc.hyps(1)) simp_all
  ultimately show ?case using k by (subst send_loop.simps) (simp add: byte_send_def)
qed

theorem frame_over_sockets_witness:
  "snd (recv_frame_socket byte_recv (encode_frame MT_PING 5 0 [1, 2]) 0) =
     Inr \<lparr>fr_type = MT_PING, fr_flags = 0, fr_correlation = 5, fr_payload = [1, 2]\<rparr>"
proof -
  let ?f = "encode_frame MT_PING 5 0 [1, 2]"
  have "send_frame byte_send [] MT_PING 5 0 [1, 2] = (?f, Inr ())"
    by (simp add: send_frame_def send_all_def byte_send_loop)
  from frame_over_sockets [OF byte_tcp_send byte_tcp _ _ _ this, of ?f "[]"]
  show ?thesis by (simp add: message_type_valid_def kMaxFrameSize_def)
qed

end
