(* ===== verification/QF_Message.thy ===== *)
theory QF_Message
  imports QF_Frame QF_Persist QF_Observe
begin

text \<open>
  The message payloads of \<open>protocol/message.cpp\<close>: the request envelope and the response
  envelope with their encoders and decoders, built on the writer and reader of the state
  format. A value that the code casts to an enumeration without a check keeps its
  underlying integer here where no enumerator stands for it: the dimension of an
  observation and the limiting dimension of a decision. The lemmas are the round trips,
  the rejection of truncated requests and the typing of whatever the decoder accepts.
\<close>

section \<open>Data\<close>

record agent_descriptor =
  ad_agent_id :: agent_id
  ad_boot_id :: agent_boot_id
  ad_node_id :: node_id
  ad_node_boot_generation :: node_boot_generation
  ad_protocol_version :: "32 word"
  ad_inventory :: resource_vector
  ad_snapshot_generation :: resource_snapshot_generation
  ad_backend :: string
  ad_device_identity :: string
  ad_state :: agent_state
  ad_epoch :: coordinator_epoch
  ad_host :: string
  ad_port :: "16 word"

definition agent_descriptor_default :: agent_descriptor where
  "agent_descriptor_default =
     \<lparr>ad_agent_id = null_id, ad_boot_id = null_id, ad_node_id = null_id, ad_node_boot_generation = gen_zero,
      ad_protocol_version = 1, ad_inventory = rv_empty, ad_snapshot_generation = gen_zero, ad_backend = '''',
      ad_device_identity = '''', ad_state = AS_REGISTERED, ad_epoch = gen_zero, ad_host = '''', ad_port = 0\<rparr>"

text \<open>\<open>Observation\<close> with the underlying value of its dimension.\<close>

record wire_observation =
  wo_tenant :: tenant_id
  wo_allocation :: allocation_id
  wo_dimension :: "16 word"
  wo_amount :: int
  wo_kind :: observation_kind
  wo_at :: int
  wo_resource_generation :: resource_generation
  wo_agent :: agent_id
  wo_boot :: agent_boot_id
  wo_source :: string

record wire_request =
  wq_type :: message_type
  wq_auth :: authority
  wq_tenant :: tenant_id
  wq_tenant2 :: tenant_id
  wq_group :: tenant_group_id
  wq_kind :: tenant_group_kind
  wq_reservation :: reservation_id
  wq_allocation :: allocation_id
  wq_borrow :: borrow_id
  wq_agent_id :: agent_id
  wq_agent_boot :: agent_boot_id
  wq_node_id :: node_id
  wq_node_boot :: node_boot_generation
  wq_name :: string
  wq_name2 :: string
  wq_service_class :: string
  wq_path :: string
  wq_priority :: "32 word"
  wq_recall_priority :: "32 word"
  wq_req :: resource_vector
  wq_req2 :: resource_vector
  wq_quota :: resource_quota
  wq_agent :: agent_descriptor
  wq_observation :: wire_observation
  wq_amount :: "64 word"

text \<open>
  \<open>QuotaDecision\<close> as a response holds it: the limiting dimension is a code, because the decoder
  casts whatever byte arrives.
\<close>

record wire_decision =
  wd_code :: decision_code
  wd_tenant :: tenant_id
  wd_resource_class :: resource_class_id
  wd_requested :: resource_vector
  wd_current_usage :: resource_vector
  wd_reserved_usage :: resource_vector
  wd_guarantee :: resource_vector
  wd_soft_limit :: resource_vector
  wd_hard_limit :: resource_vector
  wd_burst :: resource_vector
  wd_borrowed :: resource_vector
  wd_debt :: resource_vector
  wd_parent_available :: resource_vector
  wd_limiting_dimension :: "16 word option"
  wd_compliance :: compliance_state
  wd_recall_action :: recall_action
  wd_generation :: quota_generation
  wd_policy_generation :: policy_generation
  wd_epoch :: coordinator_epoch
  wd_explanation :: explanation

text \<open>The member \<open>snapshot\<close> of \<open>WireResponse\<close> is neither set nor encoded anywhere and is left out.\<close>

record wire_response =
  wr_ok :: bool
  wr_code :: violation_code
  wr_message :: string
  wr_envelope :: quota_envelope
  wr_decision :: wire_decision
  wr_reservation :: reservation
  wr_allocation :: allocation
  wr_borrow :: borrow_record
  wr_lend :: lending_record
  wr_recall :: "recall_action list"
  wr_epoch :: coordinator_epoch
  wr_quota_generation :: quota_generation
  wr_policy_generation :: policy_generation
  wr_text :: string

subsection \<open>Default-constructed records\<close>

definition authority_default :: authority where
  "authority_default =
     \<lparr>au_epoch = gen_zero, au_agent = null_id, au_boot = null_id, au_quota_generation = gen_zero,
      au_policy_generation = gen_zero, au_resource_generation = gen_zero\<rparr>"

text \<open>
  \<open>dimension\<close> and \<open>amount\<close> have no initialiser in \<open>struct Observation\<close>; a default
  \<open>WireRequest\<close> value-initialises nothing there, so the two are arguments.
\<close>

definition wire_observation_default :: "16 word \<Rightarrow> int \<Rightarrow> wire_observation" where
  "wire_observation_default dim amount =
     \<lparr>wo_tenant = null_id, wo_allocation = null_id, wo_dimension = dim, wo_amount = amount,
      wo_kind = OK_USAGE_DELTA, wo_at = 0, wo_resource_generation = gen_zero, wo_agent = null_id,
      wo_boot = null_id, wo_source = ''''\<rparr>"

definition wire_request_default :: "16 word \<Rightarrow> int \<Rightarrow> wire_request" where
  "wire_request_default dim amount =
     \<lparr>wq_type = MT_PING, wq_auth = authority_default, wq_tenant = null_id, wq_tenant2 = null_id,
      wq_group = null_id, wq_kind = GK_TEAM, wq_reservation = null_id, wq_allocation = null_id,
      wq_borrow = null_id, wq_agent_id = null_id, wq_agent_boot = null_id, wq_node_id = null_id,
      wq_node_boot = gen_zero, wq_name = '''', wq_name2 = '''', wq_service_class = '''', wq_path = '''',
      wq_priority = 100, wq_recall_priority = 0, wq_req = rv_empty, wq_req2 = rv_empty,
      wq_quota = resource_quota_default, wq_agent = agent_descriptor_default,
      wq_observation = wire_observation_default dim amount, wq_amount = 0\<rparr>"

definition quota_envelope_default :: quota_envelope where
  "quota_envelope_default =
     \<lparr>env_tenant = null_id, env_resource_class = null_id, env_guaranteed = rv_empty, env_soft_limit = rv_empty,
      env_hard_limit = rv_empty, env_burst_limit = rv_empty, env_current_consumption = rv_empty,
      env_reserved = rv_empty, env_committed_usage = rv_empty, env_borrowed = rv_empty, env_burst_usage = rv_empty,
      env_lent = rv_empty, env_debt = rv_empty, env_available_guaranteed = sv_zero, env_available_soft = sv_zero,
      env_available_burst = sv_zero, env_compliance = CS_COMPLIANT, env_primary_violation = None,
      env_generation = gen_zero, env_policy_generation = gen_zero, env_epoch = gen_zero,
      env_burst_expires_at = 0, env_burst_active = False\<rparr>"

definition reservation_default :: reservation where
  "reservation_default =
     \<lparr>res_id = null_id, res_tenant = null_id, res_resource_class = null_id, res_resources = rv_empty,
      res_consumed = rv_empty, res_status = RS_PROVISIONAL, res_created_at = 0, res_expires_at = 0,
      res_quota_generation = gen_zero, res_policy_generation = gen_zero, res_epoch = gen_zero,
      res_owner_agent = null_id, res_owner_boot = null_id, res_label = '''', res_resource_generation = gen_zero\<rparr>"

definition allocation_default :: allocation where
  "allocation_default =
     \<lparr>al_id = null_id, al_tenant = null_id, al_reservation = null_id, al_resource_class = null_id,
      al_resources = rv_empty, al_used = rv_empty, al_started_at = 0, al_ended_at = 0, al_active = False,
      al_quota_generation = gen_zero, al_policy_generation = gen_zero, al_epoch = gen_zero,
      al_owner_agent = null_id, al_owner_boot = null_id, al_label = ''''\<rparr>"

definition lending_record_default :: lending_record where
  "lending_record_default =
     \<lparr>ln_id = null_id, ln_lender = null_id, ln_borrower = null_id, ln_resource_class = null_id,
      ln_amount = rv_empty, ln_outstanding = rv_empty, ln_started_at = 0, ln_expires_at = 0,
      ln_recall_priority = 0, ln_revocable = True, ln_policy_generation = gen_zero,
      ln_quota_generation = gen_zero, ln_epoch = gen_zero\<rparr>"

definition wire_decision_default :: wire_decision where
  "wire_decision_default =
     \<lparr>wd_code = DC_ALLOW, wd_tenant = null_id, wd_resource_class = null_id, wd_requested = rv_empty,
      wd_current_usage = rv_empty, wd_reserved_usage = rv_empty, wd_guarantee = rv_empty,
      wd_soft_limit = rv_empty, wd_hard_limit = rv_empty, wd_burst = rv_empty, wd_borrowed = rv_empty,
      wd_debt = rv_empty, wd_parent_available = rv_empty, wd_limiting_dimension = None,
      wd_compliance = CS_COMPLIANT, wd_recall_action = RA_NO_ACTION, wd_generation = gen_zero,
      wd_policy_generation = gen_zero, wd_epoch = gen_zero, wd_explanation = []\<rparr>"

definition wire_response_default :: wire_response where
  "wire_response_default =
     \<lparr>wr_ok = False, wr_code = VC_NONE, wr_message = '''', wr_envelope = quota_envelope_default,
      wr_decision = wire_decision_default, wr_reservation = reservation_default,
      wr_allocation = allocation_default, wr_borrow = borrow_record_default, wr_lend = lending_record_default,
      wr_recall = [], wr_epoch = gen_zero, wr_quota_generation = gen_zero, wr_policy_generation = gen_zero,
      wr_text = ''''\<rparr>"

definition response_from :: "quota_status \<Rightarrow> wire_response" where
  "response_from st = wire_response_default\<lparr>wr_ok := st_ok st, wr_code := st_code st, wr_message := st_message st\<rparr>"

section \<open>Enumerations on the wire\<close>

definition observation_kind_list :: "observation_kind list" where
  "observation_kind_list =
     [OK_USAGE_DELTA, OK_COMPUTE_INTERVAL, OK_TRANSFER_CONSUMED, OK_MODEL_RESIDENCY_ADDED,
      OK_MODEL_RESIDENCY_REMOVED, OK_KV_USAGE_CHANGE, OK_TENSOR_USAGE_CHANGE, OK_ALLOCATION_START,
      OK_ALLOCATION_RESIZE, OK_ALLOCATION_RELEASE, OK_RESERVATION_COMMITTED]"

definition observation_kind_raw :: "observation_kind \<Rightarrow> byte option" where
  "observation_kind_raw e = (case e of OK_raw w \<Rightarrow> Some w | _ \<Rightarrow> None)"

definition violation_code_raw :: "violation_code \<Rightarrow> byte option" where
  "violation_code_raw e = (case e of VC_raw w \<Rightarrow> Some w | _ \<Rightarrow> None)"

definition decision_code_raw :: "decision_code \<Rightarrow> byte option" where
  "decision_code_raw e = (case e of DC_raw w \<Rightarrow> Some w | _ \<Rightarrow> None)"

definition compliance_state_raw :: "compliance_state \<Rightarrow> byte option" where
  "compliance_state_raw e = (case e of CS_raw w \<Rightarrow> Some w | _ \<Rightarrow> None)"

definition recall_action_raw :: "recall_action \<Rightarrow> byte option" where
  "recall_action_raw e = (case e of RA_raw w \<Rightarrow> Some w | _ \<Rightarrow> None)"

abbreviation violation_code_code :: "violation_code \<Rightarrow> byte" where
  "violation_code_code \<equiv> enum_code violation_code_list violation_code_raw"

abbreviation w_observation_kind :: "observation_kind \<Rightarrow> byte list" where
  "w_observation_kind e \<equiv> w_u8 (enum_code observation_kind_list observation_kind_raw e)"

abbreviation w_violation_code :: "violation_code \<Rightarrow> byte list" where
  "w_violation_code e \<equiv> w_u8 (violation_code_code e)"

abbreviation w_decision_code :: "decision_code \<Rightarrow> byte list" where
  "w_decision_code e \<equiv> w_u8 (enum_code decision_code_list decision_code_raw e)"

abbreviation w_compliance_state :: "compliance_state \<Rightarrow> byte list" where
  "w_compliance_state e \<equiv> w_u8 (enum_code compliance_state_list compliance_state_raw e)"

abbreviation w_recall_action :: "recall_action \<Rightarrow> byte list" where
  "w_recall_action e \<equiv> w_u8 (enum_code recall_action_list recall_action_raw e)"

abbreviation r_observation_kind :: "observation_kind reader" where
  "r_observation_kind \<equiv> r_enum observation_kind_list OK_raw"

abbreviation r_violation_code :: "violation_code reader" where
  "r_violation_code \<equiv> r_enum violation_code_list VC_raw"

abbreviation r_decision_code :: "decision_code reader" where
  "r_decision_code \<equiv> r_enum decision_code_list DC_raw"

abbreviation r_compliance_state :: "compliance_state reader" where
  "r_compliance_state \<equiv> r_enum compliance_state_list CS_raw"

abbreviation r_recall_action :: "recall_action reader" where
  "r_recall_action \<equiv> r_enum recall_action_list RA_raw"

interpretation okind: coded_enum observation_kind_list OK_raw observation_kind_raw
  by unfold_locales (auto simp: observation_kind_list_def observation_kind_raw_def split: observation_kind.splits)

interpretation vcode: coded_enum violation_code_list VC_raw violation_code_raw
  by unfold_locales (auto simp: violation_code_list_def violation_code_raw_def split: violation_code.splits)

interpretation dcode: coded_enum decision_code_list DC_raw decision_code_raw
  by unfold_locales (auto simp: decision_code_list_def decision_code_raw_def split: decision_code.splits)

interpretation cstate: coded_enum compliance_state_list CS_raw compliance_state_raw
  by unfold_locales (auto simp: compliance_state_list_def compliance_state_raw_def split: compliance_state.splits)

interpretation raction: coded_enum recall_action_list RA_raw recall_action_raw
  by unfold_locales (auto simp: recall_action_list_def recall_action_raw_def split: recall_action.splits)

lemmas wire_enum_codecs [codec_simps] =
  okind.enum.dec_enc_bind vcode.enum.dec_enc_bind dcode.enum.dec_enc_bind cstate.enum.dec_enc_bind
  raction.enum.dec_enc_bind

definition w_message_type :: "message_type \<Rightarrow> byte list" where
  "w_message_type t = w_u8 (message_type_code t)"

definition r_message_type :: "message_type reader" where
  "r_message_type = rbind r_u8 (\<lambda>b. rreturn (message_type_of_code b))"

interpretation mtype: codec w_message_type r_message_type message_type_valid
  by unfold_locales (simp add: w_message_type_def r_message_type_def codec_simps message_type_roundtrip)

lemmas message_type_codec [codec_simps] = mtype.dec_enc_bind

section \<open>Encodings that lose something\<close>

text \<open>
  The contract of an encoder and a decoder where the receiver gets a \<open>view\<close> of the value: members
  that are not written come back as their defaults.
\<close>

locale lossy_codec =
  fixes enc :: "'a \<Rightarrow> byte list" and dec :: "'a reader" and valid :: "'a \<Rightarrow> bool" and view :: "'a \<Rightarrow> 'a"
  assumes dec_enc_view: "valid x \<Longrightarrow> dec (enc x @ rest) = Inr (view x, rest)"
begin

lemma dec_enc_view_bind: "valid x \<Longrightarrow> rbind dec f (enc x @ rest) = f (view x) rest"
  by (simp add: rbind_def dec_enc_view)

end

text \<open>A codec without loss, used on values that the encoder does not tell from their views.\<close>

lemma lossy_by_codec:
  assumes "codec enc dec good" "\<And>x. valid x \<Longrightarrow> good (view x)" "\<And>x. enc (view x) = enc x"
  shows "lossy_codec enc dec valid view"
proof
  fix x rest assume "valid x"
  then show "dec (enc x @ rest) = Inr (view x, rest)"
    using codec.dec_enc [OF assms(1) assms(2), of x rest] assms(3) by simp
qed

section \<open>Requests\<close>

text \<open>\<open>w_quota\<close> and \<open>r_quota\<close> list the same members in the same order as \<open>write_quota\<close> and \<open>read_quota\<close>.\<close>

definition w_quota :: "resource_quota \<Rightarrow> byte list" where
  "w_quota q = write_quota q"

definition r_quota :: "resource_quota reader" where
  "r_quota = read_quota"

definition w_authority :: "authority \<Rightarrow> byte list" where
  "w_authority a =
     w_gen (au_epoch a) @ w_gen (au_quota_generation a) @ w_gen (au_policy_generation a) @
     w_id (au_agent a) @ w_id (au_boot a) @ w_gen (au_resource_generation a)"

definition r_authority :: "authority reader" where
  "r_authority =
     rbind r_gen (\<lambda>ep. rbind r_gen (\<lambda>qg. rbind r_gen (\<lambda>pg.
     rbind read_id (\<lambda>ag. rbind read_id (\<lambda>bo. rbind r_gen (\<lambda>rg.
     rreturn \<lparr>au_epoch = ep, au_agent = ag, au_boot = bo, au_quota_generation = qg,
       au_policy_generation = pg, au_resource_generation = rg\<rparr>))))))"

definition w_obs :: "wire_observation \<Rightarrow> byte list" where
  "w_obs ob =
     w_id (wo_tenant ob) @ w_id (wo_allocation ob) @ w_u16 (wo_dimension ob) @ w_i64 (wo_amount ob) @
     w_observation_kind (wo_kind ob) @ w_u64 (if wo_at ob > 0 then of_int (wo_at ob) else 0) @
     w_gen (wo_resource_generation ob) @ w_id (wo_agent ob) @ w_id (wo_boot ob) @ w_string (wo_source ob)"

definition r_obs :: "wire_observation reader" where
  "r_obs =
     rbind read_id (\<lambda>t. rbind read_id (\<lambda>al. rbind r_u16 (\<lambda>dim. rbind r_i64 (\<lambda>am.
     rbind r_observation_kind (\<lambda>k. rbind r_i64 (\<lambda>tm.
     rbind r_gen (\<lambda>rg. rbind read_id (\<lambda>ag. rbind read_id (\<lambda>bo. rbind r_string (\<lambda>src.
     rreturn \<lparr>wo_tenant = t, wo_allocation = al, wo_dimension = dim, wo_amount = am, wo_kind = k, wo_at = tm,
       wo_resource_generation = rg, wo_agent = ag, wo_boot = bo, wo_source = src\<rparr>))))))))))"

text \<open>The group goes out only when it is not null.\<close>

definition w_group :: "tenant_group_id \<Rightarrow> byte list" where
  "w_group g = w_u8 (if id_is_null g then 0 else 1) @ (if id_is_null g then [] else w_id g)"

definition r_group :: "tenant_group_id reader" where
  "r_group = rbind r_u8 (\<lambda>b. if b \<noteq> 0 then read_id else rreturn null_id)"

definition encode_request :: "wire_request \<Rightarrow> byte list" where
  "encode_request q =
     w_message_type (wq_type q) @ w_authority (wq_auth q) @ w_id (wq_tenant q) @ w_id (wq_tenant2 q) @
     w_group (wq_group q) @ w_tenant_group_kind (wq_kind q) @
     w_id (wq_reservation q) @ w_id (wq_allocation q) @ w_id (wq_borrow q) @
     w_id (wq_agent_id q) @ w_id (wq_agent_boot q) @ w_id (wq_node_id q) @ w_gen (wq_node_boot q) @
     w_string (wq_name q) @ w_string (wq_name2 q) @ w_string (wq_service_class q) @ w_string (wq_path q) @
     w_u32 (wq_priority q) @ w_u32 (wq_recall_priority q) @ w_vector (wq_req q) @ w_vector (wq_req2 q) @
     w_quota (wq_quota q) @ w_obs (wq_observation q) @ w_u64 (wq_amount q)"

text \<open>The member \<open>agent\<close> of the request is not on the wire; the decoder leaves its default.\<close>

definition read_request :: "wire_request reader" where
  "read_request =
     rbind r_message_type (\<lambda>ty. rbind r_authority (\<lambda>au. rbind read_id (\<lambda>t. rbind read_id (\<lambda>t2.
     rbind r_group (\<lambda>g. rbind r_tenant_group_kind (\<lambda>k.
     rbind read_id (\<lambda>res. rbind read_id (\<lambda>al. rbind read_id (\<lambda>bo.
     rbind read_id (\<lambda>ag. rbind read_id (\<lambda>ab. rbind read_id (\<lambda>no. rbind r_gen (\<lambda>nb.
     rbind r_string (\<lambda>nm. rbind r_string (\<lambda>nm2. rbind r_string (\<lambda>sc. rbind r_string (\<lambda>pa.
     rbind r_u32 (\<lambda>pr. rbind r_u32 (\<lambda>rp. rbind r_vector (\<lambda>rq. rbind r_vector (\<lambda>rq2.
     rbind r_quota (\<lambda>q. rbind r_obs (\<lambda>ob. rbind r_u64 (\<lambda>am.
     rreturn \<lparr>wq_type = ty, wq_auth = au, wq_tenant = t, wq_tenant2 = t2, wq_group = g, wq_kind = k,
       wq_reservation = res, wq_allocation = al, wq_borrow = bo, wq_agent_id = ag, wq_agent_boot = ab,
       wq_node_id = no, wq_node_boot = nb, wq_name = nm, wq_name2 = nm2, wq_service_class = sc, wq_path = pa,
       wq_priority = pr, wq_recall_priority = rp, wq_req = rq, wq_req2 = rq2, wq_quota = q,
       wq_agent = agent_descriptor_default, wq_observation = ob, wq_amount = am\<rparr>))))))))))))))))))))))))"

text \<open>The bytes after the request are ignored: the decoder does not call \<open>require_end\<close>.\<close>

definition decode_request :: "byte list \<Rightarrow> read_error + wire_request" where
  "decode_request p = map_sum id fst (read_request p)"

definition obs_encodable :: "wire_observation \<Rightarrow> bool" where
  "obs_encodable ob \<longleftrightarrow>
     in_i64 (wo_amount ob) \<and> 0 \<le> wo_at ob \<and> in_i64 (wo_at ob) \<and> string_ok (wo_source ob) \<and>
     enum_valid observation_kind_list observation_kind_raw (wo_kind ob)"

definition request_encodable :: "wire_request \<Rightarrow> bool" where
  "request_encodable q \<longleftrightarrow>
     message_type_valid (wq_type q) \<and> enum_valid tenant_group_kind_list tenant_group_kind_raw (wq_kind q) \<and>
     string_ok (wq_name q) \<and> string_ok (wq_name2 q) \<and> string_ok (wq_service_class q) \<and> string_ok (wq_path q) \<and>
     rv_ok (wq_req q) \<and> rv_ok (wq_req2 q) \<and> quota_encodable (wq_quota q) \<and> obs_encodable (wq_observation q) \<and>
     wq_agent q = agent_descriptor_default"

interpretation wquota: codec w_quota r_quota quota_encodable
  unfolding w_quota_def [abs_def] r_quota_def by (rule quotac.codec_axioms)

interpretation auth: codec w_authority r_authority "\<lambda>_. True"
  by unfold_locales (simp add: w_authority_def r_authority_def codec_simps)

interpretation obs: codec w_obs r_obs obs_encodable
proof unfold_locales
  fix x rest assume ok: "obs_encodable x"
  then have at: "w_u64 (if wo_at x > 0 then of_int (wo_at x) else 0) = w_i64 (wo_at x)"
    by (auto simp: obs_encodable_def w_i64_def)
  show "r_obs (w_obs x @ rest) = Inr (x, rest)"
    using ok unfolding w_obs_def at by (simp add: r_obs_def obs_encodable_def codec_simps)
qed

interpretation wgroup: codec w_group r_group "\<lambda>_. True"
  by unfold_locales (auto simp: w_group_def r_group_def codec_simps ident.dec_enc id_is_null_def null_id_def
      intro: strong_id.expand)

lemmas request_part_codecs [codec_simps] =
  wquota.dec_enc_bind auth.dec_enc_bind [OF TrueI] obs.dec_enc_bind wgroup.dec_enc_bind [OF TrueI]

interpretation request: codec encode_request read_request request_encodable
  by unfold_locales (simp add: encode_request_def read_request_def request_encodable_def codec_simps)

text \<open>
  What the coordinator receives of a request: the agent's descriptor is not written and a
  negative time of the observation is written as 0. \<open>request_ranged\<close> is what the types of the
  members ensure, and the reader's bound on strings.
\<close>

definition received_request :: "wire_request \<Rightarrow> wire_request" where
  "received_request q = q\<lparr>wq_agent := agent_descriptor_default,
     wq_observation := (wq_observation q)\<lparr>wo_at := max 0 (wo_at (wq_observation q))\<rparr>\<rparr>"

definition request_ranged :: "wire_request \<Rightarrow> bool" where
  "request_ranged q \<longleftrightarrow>
     message_type_valid (wq_type q) \<and> enum_valid tenant_group_kind_list tenant_group_kind_raw (wq_kind q) \<and>
     string_ok (wq_name q) \<and> string_ok (wq_name2 q) \<and> string_ok (wq_service_class q) \<and> string_ok (wq_path q) \<and>
     rv_ok (wq_req q) \<and> rv_ok (wq_req2 q) \<and> quota_encodable (wq_quota q) \<and>
     in_i64 (wo_amount (wq_observation q)) \<and> in_i64 (wo_at (wq_observation q)) \<and> string_ok (wo_source (wq_observation q)) \<and>
     enum_valid observation_kind_list observation_kind_raw (wo_kind (wq_observation q))"

interpretation request: lossy_codec encode_request read_request request_ranged received_request
proof (rule lossy_by_codec [OF request.codec_axioms])
  show "request_encodable (received_request q)" if "request_ranged q" for q
    using that by (auto simp: request_ranged_def request_encodable_def received_request_def obs_encodable_def in_i64_def i64_bounds)
  show "encode_request (received_request q) = encode_request q" for q
    by (simp add: encode_request_def received_request_def w_obs_def max_def)
qed

section \<open>Responses\<close>

definition w_env :: "quota_envelope \<Rightarrow> byte list" where
  "w_env e =
     w_id (env_tenant e) @ w_id (env_resource_class e) @
     w_vector (env_guaranteed e) @ w_vector (env_soft_limit e) @ w_vector (env_hard_limit e) @
     w_vector (env_burst_limit e) @ w_vector (env_current_consumption e) @ w_vector (env_reserved e) @
     w_vector (env_committed_usage e) @ w_vector (env_borrowed e) @ w_vector (env_burst_usage e) @
     w_vector (env_lent e) @ w_vector (env_debt e) @ w_signed_vector (env_available_guaranteed e) @
     w_signed_vector (env_available_soft e) @ w_signed_vector (env_available_burst e) @
     w_compliance_state (env_compliance e) @
     w_u8 (case env_primary_violation e of Some v \<Rightarrow> violation_code_code v | None \<Rightarrow> 0) @
     w_gen (env_generation e) @ w_gen (env_policy_generation e) @ w_gen (env_epoch e) @
     w_i64 (env_burst_expires_at e) @ w_bool (env_burst_active e)"

definition r_env :: "quota_envelope reader" where
  "r_env =
     rbind read_id (\<lambda>t. rbind read_id (\<lambda>c. rbind r_vector (\<lambda>gu. rbind r_vector (\<lambda>so. rbind r_vector (\<lambda>ha.
     rbind r_vector (\<lambda>bu. rbind r_vector (\<lambda>cu. rbind r_vector (\<lambda>re. rbind r_vector (\<lambda>co. rbind r_vector (\<lambda>bo.
     rbind r_vector (\<lambda>bs. rbind r_vector (\<lambda>le. rbind r_vector (\<lambda>de. rbind r_signed_vector (\<lambda>ag.
     rbind r_signed_vector (\<lambda>as. rbind r_signed_vector (\<lambda>ab. rbind r_compliance_state (\<lambda>cs.
     rbind r_u8 (\<lambda>pv. rbind r_gen (\<lambda>ge. rbind r_gen (\<lambda>pg. rbind r_gen (\<lambda>ep. rbind r_i64 (\<lambda>be. rbind r_bool (\<lambda>ba.
     rreturn \<lparr>env_tenant = t, env_resource_class = c, env_guaranteed = gu, env_soft_limit = so,
       env_hard_limit = ha, env_burst_limit = bu, env_current_consumption = cu, env_reserved = re,
       env_committed_usage = co, env_borrowed = bo, env_burst_usage = bs, env_lent = le, env_debt = de,
       env_available_guaranteed = ag, env_available_soft = as, env_available_burst = ab, env_compliance = cs,
       env_primary_violation =
         (if pv \<noteq> 0 then Some (enum_of_code violation_code_list VC_raw (unat pv)) else None),
       env_generation = ge, env_policy_generation = pg, env_epoch = ep, env_burst_expires_at = be,
       env_burst_active = ba\<rparr>)))))))))))))))))))))))"

text \<open>
  The four records below list the same members in the same order as the state format, with
  the same reader on the other side.
\<close>

definition w_res :: "reservation \<Rightarrow> byte list" where
  "w_res r = write_reservation r"

definition r_res :: "reservation reader" where
  "r_res = read_reservation"

definition w_alloc :: "allocation \<Rightarrow> byte list" where
  "w_alloc a = write_allocation a"

definition r_alloc :: "allocation reader" where
  "r_alloc = read_allocation"

definition w_borrow :: "borrow_record \<Rightarrow> byte list" where
  "w_borrow b = write_borrow b"

definition r_borrow :: "borrow_record reader" where
  "r_borrow = read_borrow"

definition w_lend :: "lending_record \<Rightarrow> byte list" where
  "w_lend l = write_lending l"

definition r_lend :: "lending_record reader" where
  "r_lend = read_lending"

definition w_decision :: "wire_decision \<Rightarrow> byte list" where
  "w_decision d =
     w_decision_code (wd_code d) @ w_string (explanation_human (wd_explanation d)) @
     w_vector (wd_requested d) @ w_vector (wd_guarantee d) @ w_vector (wd_soft_limit d) @
     w_vector (wd_hard_limit d) @
     w_u8 (case wd_limiting_dimension d of Some k \<Rightarrow> ucast k | None \<Rightarrow> 255)"

definition r_decision :: "wire_decision reader" where
  "r_decision =
     rbind r_decision_code (\<lambda>c. rbind r_string (\<lambda>ex. rbind r_vector (\<lambda>rq. rbind r_vector (\<lambda>gu.
     rbind r_vector (\<lambda>so. rbind r_vector (\<lambda>ha. rbind r_u8 (\<lambda>ld.
     rreturn (wire_decision_default\<lparr>wd_code := c, wd_explanation := [(VC_NONE, ex)], wd_requested := rq,
       wd_guarantee := gu, wd_soft_limit := so, wd_hard_limit := ha,
       wd_limiting_dimension := (if ld \<noteq> 255 then Some (ucast ld) else None)\<rparr>))))))))"

definition encode_response :: "wire_response \<Rightarrow> byte list" where
  "encode_response r =
     w_bool (wr_ok r) @ w_violation_code (wr_code r) @ w_string (wr_message r) @ w_env (wr_envelope r) @
     w_decision (wr_decision r) @ w_res (wr_reservation r) @ w_alloc (wr_allocation r) @
     w_borrow (wr_borrow r) @ w_lend (wr_lend r) @ w_u32 (of_nat (length (wr_recall r))) @
     concat (map w_recall_action (wr_recall r)) @
     w_gen (wr_epoch r) @ w_gen (wr_quota_generation r) @ w_gen (wr_policy_generation r) @ w_string (wr_text r)"

definition read_response :: "wire_response reader" where
  "read_response =
     rbind r_bool (\<lambda>ok. rbind r_violation_code (\<lambda>c. rbind r_string (\<lambda>msg. rbind r_env (\<lambda>env.
     rbind r_decision (\<lambda>d. rbind r_res (\<lambda>re. rbind r_alloc (\<lambda>al. rbind r_borrow (\<lambda>bo. rbind r_lend (\<lambda>le.
     rbind r_u32 (\<lambda>rc. rbind (r_list (unat rc) r_recall_action) (\<lambda>ra.
     rbind r_gen (\<lambda>ep. rbind r_gen (\<lambda>qg. rbind r_gen (\<lambda>pg. rbind r_string (\<lambda>tx.
     rreturn \<lparr>wr_ok = ok, wr_code = c, wr_message = msg, wr_envelope = env, wr_decision = d,
       wr_reservation = re, wr_allocation = al, wr_borrow = bo, wr_lend = le, wr_recall = ra, wr_epoch = ep,
       wr_quota_generation = qg, wr_policy_generation = pg, wr_text = tx\<rparr>)))))))))))))))"

definition decode_response :: "byte list \<Rightarrow> read_error + wire_response" where
  "decode_response p = map_sum id fst (read_response p)"

subsection \<open>Round trip\<close>

definition env_encodable :: "quota_envelope \<Rightarrow> bool" where
  "env_encodable e \<longleftrightarrow>
     rv_ok (env_guaranteed e) \<and> rv_ok (env_soft_limit e) \<and> rv_ok (env_hard_limit e) \<and> rv_ok (env_burst_limit e) \<and>
     rv_ok (env_current_consumption e) \<and> rv_ok (env_reserved e) \<and> rv_ok (env_committed_usage e) \<and>
     rv_ok (env_borrowed e) \<and> rv_ok (env_burst_usage e) \<and> rv_ok (env_lent e) \<and> rv_ok (env_debt e) \<and>
     sv_ok (env_available_guaranteed e) \<and> sv_ok (env_available_soft e) \<and> sv_ok (env_available_burst e) \<and>
     enum_valid compliance_state_list compliance_state_raw (env_compliance e) \<and>
     (case env_primary_violation e of None \<Rightarrow> True | Some v \<Rightarrow> enum_valid violation_code_list violation_code_raw v) \<and>
     in_i64 (env_burst_expires_at e)"

text \<open>
  What a client sees of a response. Of the decision only the code, the request, the guarantee
  and the two limits arrive as they are: the explanation becomes one line without a code, the
  limiting dimension is cut to a byte and lost when that is 255, and all other members come
  back as their defaults. A violation of code 0 in the envelope is taken as none, and the
  resource class of the borrow is not sent.
\<close>

definition seen_env :: "quota_envelope \<Rightarrow> quota_envelope" where
  "seen_env e = e\<lparr>env_primary_violation :=
     (case env_primary_violation e of None \<Rightarrow> None | Some v \<Rightarrow> if violation_code_code v = 0 then None else Some v)\<rparr>"

definition seen_dimension :: "16 word \<Rightarrow> 16 word option" where
  "seen_dimension k = (let b = ucast k :: byte in if b = 255 then None else Some (ucast b))"

definition seen_decision :: "wire_decision \<Rightarrow> wire_decision" where
  "seen_decision d = wire_decision_default\<lparr>
     wd_code := wd_code d, wd_requested := wd_requested d, wd_guarantee := wd_guarantee d,
     wd_soft_limit := wd_soft_limit d, wd_hard_limit := wd_hard_limit d,
     wd_limiting_dimension := Option.bind (wd_limiting_dimension d) seen_dimension,
     wd_explanation := [(VC_NONE, explanation_human (wd_explanation d))]\<rparr>"

definition seen_borrow :: "borrow_record \<Rightarrow> borrow_record" where
  "seen_borrow b = b\<lparr>br_resource_class := null_id\<rparr>"

definition seen_response :: "wire_response \<Rightarrow> wire_response" where
  "seen_response r = r\<lparr>wr_envelope := seen_env (wr_envelope r), wr_decision := seen_decision (wr_decision r),
     wr_borrow := seen_borrow (wr_borrow r)\<rparr>"

text \<open>What the types of the members ensure, and the reader's bound on strings and counts.\<close>

definition decision_encodable :: "wire_decision \<Rightarrow> bool" where
  "decision_encodable d \<longleftrightarrow>
     enum_valid decision_code_list decision_code_raw (wd_code d) \<and> string_ok (explanation_human (wd_explanation d)) \<and>
     rv_ok (wd_requested d) \<and> rv_ok (wd_guarantee d) \<and> rv_ok (wd_soft_limit d) \<and> rv_ok (wd_hard_limit d)"

definition borrow_ranged :: "borrow_record \<Rightarrow> bool" where
  "borrow_ranged b \<longleftrightarrow>
     rv_ok (br_amount b) \<and> rv_ok (br_consumed b) \<and> rv_ok (br_debt b) \<and> in_i64 (br_started_at b) \<and> in_i64 (br_expires_at b)"

definition response_encodable :: "wire_response \<Rightarrow> bool" where
  "response_encodable r \<longleftrightarrow>
     enum_valid violation_code_list violation_code_raw (wr_code r) \<and> string_ok (wr_message r) \<and>
     env_encodable (wr_envelope r) \<and> decision_encodable (wr_decision r) \<and>
     reservation_encodable (wr_reservation r) \<and> allocation_encodable (wr_allocation r) \<and>
     borrow_ranged (wr_borrow r) \<and> lending_encodable (wr_lend r) \<and> length (wr_recall r) < 2 ^ 32 \<and>
     list_all (enum_valid recall_action_list recall_action_raw) (wr_recall r) \<and> string_ok (wr_text r)"

interpretation envelope: lossy_codec w_env r_env env_encodable seen_env
proof
  fix e rest assume "env_encodable e"
  then show "r_env (w_env e @ rest) = Inr (seen_env e, rest)"
    by (cases "env_primary_violation e")
       (simp_all add: w_env_def r_env_def env_encodable_def codec_simps vcode.code_roundtrip seen_env_def)
qed

interpretation decision: lossy_codec w_decision r_decision decision_encodable seen_decision
proof
  fix d rest assume "decision_encodable d"
  then show "r_decision (w_decision d @ rest) = Inr (seen_decision d, rest)"
    by (cases "wd_limiting_dimension d")
       (simp_all add: w_decision_def r_decision_def decision_encodable_def seen_decision_def seen_dimension_def codec_simps Let_def)
qed

lemma r_list_codec:
  assumes "codec enc dec valid" "list_all valid xs"
  shows "r_list (length xs) dec (concat (map enc xs) @ rest) = Inr (xs, rest)"
  using assms(2)
  by (induction xs) (simp_all add: codec.dec_enc_bind [OF assms(1)] rbind_def [of "r_list _ _"])

interpretation wres: codec w_res r_res reservation_encodable
  unfolding w_res_def [abs_def] r_res_def by (rule resc.codec_axioms)

interpretation walloc: codec w_alloc r_alloc allocation_encodable
  unfolding w_alloc_def [abs_def] r_alloc_def by (rule allocc.codec_axioms)

interpretation wborrow: lossy_codec w_borrow r_borrow borrow_ranged seen_borrow
  unfolding w_borrow_def [abs_def] r_borrow_def
  by (rule lossy_by_codec [OF borrowc.codec_axioms])
     (simp_all add: borrow_ranged_def borrow_encodable_def seen_borrow_def write_borrow_def)

interpretation wlend: codec w_lend r_lend lending_encodable
  unfolding w_lend_def [abs_def] r_lend_def by (rule lendc.codec_axioms)

lemmas response_part_codecs [codec_simps] =
  envelope.dec_enc_view_bind decision.dec_enc_view_bind wres.dec_enc_bind walloc.dec_enc_bind wborrow.dec_enc_view_bind
  wlend.dec_enc_bind

interpretation response: lossy_codec encode_response read_response response_encodable seen_response
proof
  fix r rest assume ok: "response_encodable r"
  then have "unat (of_nat (length (wr_recall r)) :: 32 word) = length (wr_recall r)"
    by (simp add: response_encodable_def unat_of_nat)
  then show "read_response (encode_response r @ rest) = Inr (seen_response r, rest)"
    using ok
    by (simp add: read_response_def encode_response_def response_encodable_def seen_response_def codec_simps
        rbind_def [of "r_list _ _"] r_list_codec [OF raction.enum.codec_axioms])
qed

lemma decode_response_encoded: "response_encodable r \<Longrightarrow> decode_response (encode_response r) = Inr (seen_response r)"
  using response.dec_enc_view [of r "[]"] by (simp add: decode_response_def)

section \<open>What the decoders accept\<close>

text \<open>The contract of a reader towards its caller: every value it returns satisfies a predicate.\<close>

locale typed_reader =
  fixes dec :: "'a reader" and good :: "'a \<Rightarrow> bool"
  assumes typed: "dec bs = Inr (x, rest) \<Longrightarrow> good x"

lemma typed_return: "good x \<Longrightarrow> typed_reader (rreturn x) good"
  by unfold_locales simp

lemma typed_bind:
  assumes "typed_reader m P" "\<And>x. P x \<Longrightarrow> typed_reader (f x) good"
  shows "typed_reader (rbind m f) good"
proof
  fix bs x rest assume "rbind m f bs = Inr (x, rest)"
  then obtain y bs' where "m bs = Inr (y, bs')" "f y bs' = Inr (x, rest)"
    by (auto simp: rbind_def split: sum.splits)
  then show "good x" using assms typed_reader.typed by metis
qed

lemma typed_any: "typed_reader m (\<lambda>_. True)"
  by unfold_locales simp

lemma in_i64_sint: "in_i64 (sint (w :: 64 word))"
  using sint_ge [of w] sint_lt [of w] by (simp add: in_i64_def i64_bounds)

lemma typed_i64: "typed_reader r_i64 in_i64"
  unfolding r_i64_def by (intro typed_bind [OF typed_any] typed_return in_i64_sint)

lemma typed_vector: "typed_reader r_vector rv_ok"
  by unfold_locales (rule rv_ok_r_vector)

text \<open>Enumerations come back canonical: a value without an enumerator keeps a code no enumerator has.\<close>

context coded_enum
begin

lemma typed_enum:
  assumes "\<And>w. unraw (raw w) = Some w" "\<And>e. e \<in> set es \<Longrightarrow> unraw e = None"
  shows "typed_reader (r_enum es raw) (enum_valid es unraw)"
  unfolding r_enum_def
  by (intro typed_bind [OF typed_any] typed_return) (simp add: enum_of_code_def enum_valid_def assms not_less)

end

lemma typed_overcommit: "typed_reader r_overcommit_mode (enum_valid overcommit_mode_list overcommit_mode_raw)"
  by (rule om.typed_enum) (auto simp: overcommit_mode_raw_def overcommit_mode_list_def)

lemma typed_observation_kind: "typed_reader r_observation_kind (enum_valid observation_kind_list observation_kind_raw)"
  by (rule okind.typed_enum) (auto simp: observation_kind_raw_def observation_kind_list_def)

lemma typed_group_kind: "typed_reader r_tenant_group_kind (enum_valid tenant_group_kind_list tenant_group_kind_raw)"
  by (rule gk.typed_enum) (auto simp: tenant_group_kind_raw_def tenant_group_kind_list_def)

lemma typed_string: "typed_reader r_string string_ok"
proof
  fix bs s rest assume "r_string bs = Inr (s, rest)"
  then obtain n :: "64 word" and bs' where "\<not> max_string < unat n" "rbind (read_bytes (unat n)) (\<lambda>p. rreturn (map char_of_byte p)) bs' = Inr (s, rest)"
    by (auto simp: r_string_def rbind_def [of r_u64] split: sum.splits if_splits)
  then show "string_ok s" by (auto simp: rbind_def read_bytes_def string_ok_def split: if_splits)
qed

lemma typed_message_type: "typed_reader r_message_type message_type_valid"
  unfolding r_message_type_def
  by (intro typed_bind [OF typed_any] typed_return)
     (auto simp: message_type_of_code_def message_type_valid_def message_type_table_def split: option.split if_splits)

lemmas typed_steps =
  typed_bind [OF typed_vector] typed_bind [OF typed_i64] typed_bind [OF typed_string]
  typed_bind [OF typed_overcommit] typed_bind [OF typed_observation_kind] typed_bind [OF typed_group_kind]
  typed_bind [OF typed_message_type]

lemma typed_quota: "typed_reader r_quota quota_encodable"
  unfolding r_quota_def read_quota_def
  by (rule typed_steps typed_bind [OF typed_any])+ (rule typed_return, simp add: quota_encodable_def quota_ok_def)

definition obs_typed :: "wire_observation \<Rightarrow> bool" where
  "obs_typed ob \<longleftrightarrow>
     in_i64 (wo_amount ob) \<and> in_i64 (wo_at ob) \<and> string_ok (wo_source ob) \<and>
     enum_valid observation_kind_list observation_kind_raw (wo_kind ob)"

lemma typed_obs: "typed_reader r_obs obs_typed"
  unfolding r_obs_def
  by (rule typed_steps typed_bind [OF typed_any])+ (rule typed_return, simp add: obs_typed_def)

definition request_typed :: "wire_request \<Rightarrow> bool" where
  "request_typed q \<longleftrightarrow>
     rv_ok (wq_req q) \<and> rv_ok (wq_req2 q) \<and> quota_encodable (wq_quota q) \<and> obs_typed (wq_observation q) \<and>
     message_type_valid (wq_type q) \<and> enum_valid tenant_group_kind_list tenant_group_kind_raw (wq_kind q) \<and>
     string_ok (wq_name q) \<and> string_ok (wq_name2 q) \<and> string_ok (wq_service_class q) \<and> string_ok (wq_path q) \<and>
     wq_agent q = agent_descriptor_default"

interpretation request: typed_reader read_request request_typed
  unfolding read_request_def
  by (rule typed_steps typed_bind [OF typed_quota] typed_bind [OF typed_obs] typed_bind [OF typed_any])+
     (rule typed_return, simp add: request_typed_def)

lemma decode_request_InrD: "decode_request p = Inr q \<Longrightarrow> \<exists>rest. read_request p = Inr (q, rest)"
  by (auto simp: decode_request_def map_sum_def split: sum.splits)

lemma decoded_typed: "decode_request p = Inr q \<Longrightarrow> request_typed q"
  using decode_request_InrD request.typed by blast

lemma stable_quota: "stable_reader r_quota"
  unfolding r_quota_def read_quota_def by (intro stable_bind stable_vectors stable_ints stable_scalars stable_return)

lemma stable_request: "stable_reader read_request"
  unfolding read_request_def r_message_type_def r_authority_def r_group_def r_obs_def
  by (intro stable_bind stable_if stable_quota stable_vectors stable_ints stable_scalars stable_return)

interpretation request: stable_reader read_request
  by (rule stable_request)

lemma truncated_request_refused:
  assumes "request_ranged q" "n < length (encode_request q)"
  shows "\<exists>e. decode_request (take n (encode_request q)) = Inl e"
proof (cases "read_request (take n (encode_request q))")
  case (Inr v)
  obtain y rest where "read_request (take n (encode_request q)) = Inr (y, rest)" using Inr by (cases v) auto
  from request.extends [OF this, of "drop n (encode_request q)"]
  show ?thesis using request.dec_enc_view [OF assms(1), of "[]"] assms(2) by simp
qed (simp add: decode_request_def)

text \<open>
  C31. What decode_request makes of an encoded request is the request itself, except that
  the agent's descriptor, which is not written, comes back as its default and a negative
  time of the observation as 0; and it refuses every strict prefix of an encoded request.
  Hypotheses: what the types of the members ensure (vectors satisfy their class invariant,
  times and amounts are int64 values, enumerations are canonical) and that strings are
  within the reader's bound, which the writer does not check.
\<close>

theorem request_roundtrip:
  assumes "request_ranged q"
  shows "decode_request (encode_request q) = Inr (received_request q) \<and>
    (\<forall>n < length (encode_request q). \<exists>e. decode_request (take n (encode_request q)) = Inl e)"
  using request.dec_enc_view [OF assms, of "[]"] truncated_request_refused [OF assms] by (simp add: decode_request_def)

text \<open>Bytes after the request are not noticed, although the comments of the codec promise that they are refused.\<close>

theorem request_trailing_ignored:
  "request_ranged q \<Longrightarrow> decode_request (encode_request q @ trailing) = Inr (received_request q)"
  using request.dec_enc_view [of q trailing] by (simp add: decode_request_def)

text \<open>
  C32. decode_response of an encoded response gives exactly seen_response: every encoded
  member as it was sent, with these losses. Of the decision only code, request, guarantee,
  soft and hard limit arrive; its tenant, resource class, usages, burst, borrowed, debt,
  parent's availability, compliance, recall action and generations come back as defaults,
  its explanation as its printed text on one line without a code, and its limiting dimension
  cut to a byte, or not at all when that byte is 255. The resource class of the borrow comes
  back null, and a primary violation of code 0 in the envelope as none. The member snapshot,
  which nothing sets, is not part of the model. Hypotheses: what the types of the members
  ensure, and strings and the number of recall actions within the reader's bounds.
\<close>

theorem response_roundtrip:
  assumes "response_encodable r"
  shows "decode_response (encode_response r) = Inr (seen_response r)"
  by (rule decode_response_encoded [OF assms])

text \<open>
  C30. Whatever bytes a peer sends, a request that decode_request accepts is well typed: all
  vectors satisfy the class invariant, the quota is encodable, times and amounts are in the
  range of int64_t, strings within the bound, enumeration values canonical; and re-encoding
  it decodes to the same request when its timestamp is not negative.
\<close>

theorem decode_request_typed:
  assumes "decode_request p = Inr q"
  shows "request_typed q \<and>
    (0 \<le> wo_at (wq_observation q) \<longrightarrow> decode_request (encode_request q) = Inr q)"
proof -
  have t: "request_typed q" using assms by (rule decoded_typed)
  then have "request_encodable q" if "0 \<le> wo_at (wq_observation q)"
    using that by (simp add: request_typed_def request_encodable_def obs_typed_def obs_encodable_def)
  then show ?thesis using t request.dec_enc [of q "[]"] by (simp add: decode_request_def)
qed

section \<open>A concrete request and response\<close>

lemma default_request_encodable: "request_encodable (wire_request_default 0 0)"
  by (simp add: request_encodable_def wire_request_default_def message_type_valid_def obs_encodable_def
      wire_observation_default_def string_ok_def quota_encodable_def resource_quota_default_def quota_ok_def
      burst_rule_default_def borrow_rule_default_def enum_valid_def overcommit_mode_raw_def
      tenant_group_kind_raw_def observation_kind_raw_def)

lemma default_response_encodable: "response_encodable wire_response_default"
  by (simp add: response_encodable_def wire_response_default_def env_encodable_def quota_envelope_default_def
      decision_encodable_def wire_decision_default_def explanation_human_def string_ok_def borrow_ranged_def
      reservation_encodable_def reservation_default_def allocation_encodable_def allocation_default_def
      borrow_record_default_def lending_encodable_def lending_record_default_def
      enum_valid_def violation_code_raw_def compliance_state_raw_def decision_code_raw_def
      reservation_status_raw_def sv_ok_def sv_zero_def)

theorem request_roundtrip_witness:
  "decode_request (encode_request (wire_request_default 0 0)) = Inr (wire_request_default 0 0) \<and>
   (\<exists>e. decode_request (take 5 (encode_request (wire_request_default 0 0))) = Inl e)"
proof -
  have "5 < length (encode_request (wire_request_default 0 0))"
    by (simp add: encode_request_def w_message_type_def w_u8_def w_authority_def w_gen_def w_u64_def)
  moreover have "request_ranged (wire_request_default 0 0)"
    using default_request_encodable by (simp add: request_ranged_def request_encodable_def obs_encodable_def)
  moreover have "received_request (wire_request_default 0 0) = wire_request_default 0 0"
    by (simp add: received_request_def wire_request_default_def wire_observation_default_def)
  ultimately show ?thesis using request_roundtrip [of "wire_request_default 0 0"] by simp
qed

text \<open>A decision about a known tenant, limited by dimension 3: tenant and usage do not arrive.\<close>

definition sample_response :: wire_response where
  "sample_response = wire_response_default\<lparr>wr_decision := wire_decision_default\<lparr>wd_tenant := StrongId 1 1,
     wd_code := DC_DENY_HARD, wd_limiting_dimension := Some 3, wd_compliance := CS_OVER_HARD\<rparr>\<rparr>"

theorem response_roundtrip_witness:
  "\<exists>r. decode_response (encode_response sample_response) = Inr r \<and> wd_code (wr_decision r) = DC_DENY_HARD \<and>
    wd_limiting_dimension (wr_decision r) = Some 3 \<and> wd_tenant (wr_decision r) = null_id"
proof -
  have "response_encodable sample_response"
    using default_response_encodable
    by (simp add: sample_response_def response_encodable_def decision_encodable_def wire_decision_default_def
        explanation_human_def string_ok_def wire_response_default_def enum_valid_def decision_code_raw_def)
  from response_roundtrip [OF this] show ?thesis
    by (simp add: sample_response_def seen_response_def seen_decision_def seen_dimension_def wire_decision_default_def)
qed

theorem decode_request_typed_witness: "request_typed (wire_request_default 0 0)"
proof -
  have "decode_request (encode_request (wire_request_default 0 0)) = Inr (wire_request_default 0 0)"
    using request.dec_enc [OF default_request_encodable, of "[]"] by (simp add: decode_request_def)
  then show ?thesis using decode_request_typed by blast
qed

end
