(* ===== verification/QF_Restart.thy ===== *)
theory QF_Restart
  imports QF_File QF_Machine
begin

text \<open>
  The life of an engine across restarts: the operations of \<open>QF_Machine\<close>, \<open>save_to\<close>, and \<open>load_from\<close> of
  a saved state into an engine that holds nothing yet. A loaded state is as well formed as the
  one that was saved, so that the invariants of the state machine carry over. A file from
  elsewhere is not checked to this extent, see \<open>hierarchy_cycle_diverges\<close> in \<open>QF_Gaps\<close>.
\<close>

section \<open>A loaded state\<close>

text \<open>The event retention as it comes back from the file, where it has 16 bits.\<close>

definition saved_retention :: "impl \<Rightarrow> nat" where
  "saved_retention im = unat (ucast (ucast (se_max_event_retention (im_settings im)) :: 16 word) :: 32 word)"

text \<open>An engine into which a state can be loaded: no records, no usage, and no more events than the file allows.\<close>

definition ready_to_load :: "impl \<Rightarrow> impl \<Rightarrow> bool" where
  "ready_to_load src im \<longleftrightarrow> blank_maps im \<and> im_usage im = [] \<and> length (im_events im) \<le> saved_retention src"

lemma hier_ok_same_set: "hier_ok gs \<Longrightarrow> set gs' = set gs \<Longrightarrow> hier_ok gs'"
  by (simp add: hier_ok_def)

lemma wf_restored:
  assumes "persistable se src" "wf_state src" "ready_to_load src im"
  shows "wf_state (restored src im)"
proof -
  have P: "maps_persistable se src" "maps_distinct src" using assms(1) by (simp_all add: persistable_def)
  have "quotas_ok (restored src im)"
    using wf_stateD(1) [OF assms(2)] by (simp add: quotas_ok_def restored_def)
  moreover have "usages_ok (restored src im)" "no_cooldown (restored src im)"
    using assms(3) by (simp_all add: usages_ok_def no_cooldown_def restored_def ready_to_load_def)
  moreover have "keys_ok (restored src im)"
    using P(2) assms(3)
    by (simp add: keys_ok_def restored_def maps_distinct_def distinct_sorted_keys map_fst_funding_of ready_to_load_def)
  moreover have "hier_ok (im_groups (restored src im))"
    using wf_stateD(5) [OF assms(2)] by (simp add: restored_def hier_ok_same_set)
  moreover have "events_bounded (restored src im)"
    using assms(3) by (simp add: events_bounded_def restored_def with_header_def ready_to_load_def saved_retention_def)
  ultimately show ?thesis by (simp add: wf_state_def records_ok_restored [OF P(1)])
qed

lemma wf_sync_all: "wf_state im \<Longrightarrow> wf_state (sync_all now ts im)"
  unfolding sync_all_def by (induction ts arbitrary: im) (simp_all add: wf_sync_usage)

lemma wf_loaded_flag: "wf_state im \<Longrightarrow> wf_state (im\<lparr>im_loaded := b\<rparr>)"
  by (simp add: wf_state_def keys_ok_def records_ok_def quotas_ok_def usages_ok_def events_bounded_def no_cooldown_def)

lemma wf_load_saved:
  assumes "persistable (im_settings im) src" "length (serialize_state src) + 4 < 2 ^ 64" "wf_state src" "ready_to_load src im"
  shows "\<exists>im'. load_from im now (Contents (save_blob (serialize_state src))) = Some (im', status_success) \<and> wf_state im'"
proof -
  have "load_state im (serialize_state src) = Inr (restored src im, [])"
    using assms(4) by (intro load_state_written assms(1)) (simp add: ready_to_load_def)
  then show ?thesis
    unfolding load_from_saved [OF assms(2)] deserialize_state_def
    by (simp add: wf_loaded_flag wf_sync_all wf_restored [OF assms(1,3,4)])
qed

section \<open>Lifetimes\<close>

text \<open>
  The states an engine goes through in its life. \<open>op_ok\<close> says that vectors satisfy their class
  invariant and that the id of a new group is not yet in use as a parent; \<open>persistable\<close> that the
  format can represent the saved state.
\<close>

inductive lifetime :: "impl \<Rightarrow> bool" where
  lifetime_new: "lifetime (impl_initial settings ids oob)"
| lifetime_op: "lifetime im \<Longrightarrow> op_ok im op \<Longrightarrow> lifetime (apply_op now op im)"
| lifetime_save: "lifetime im \<Longrightarrow> save_to im now path io disk = (im', st, disk') \<Longrightarrow> lifetime im'"
| lifetime_load:
    "lifetime im \<Longrightarrow> lifetime src \<Longrightarrow> ready_to_load src im \<Longrightarrow> persistable (im_settings im) src \<Longrightarrow>
     length (serialize_state src) + 4 < 2 ^ 64 \<Longrightarrow>
     load_from im now (Contents (save_blob (serialize_state src))) = Some (im', st) \<Longrightarrow> lifetime im'"
| lifetime_refused: "lifetime im \<Longrightarrow> refused im (load_from im now f) \<Longrightarrow> load_from im now f = Some (im', st) \<Longrightarrow> lifetime im'"

lemma save_to_engine: "save_to im now path io disk = (im', st, disk') \<Longrightarrow> im' = im \<or> im' = apply_op now (Op_persisted path) im"
  by (auto simp: save_to_simps Let_def split: if_splits)

lemma lifetime_well_formed: "lifetime im \<Longrightarrow> wf_state im"
proof (induction rule: lifetime.induct)
  case (lifetime_save im now path io disk im' st disk')
  then show ?case using save_to_engine [OF lifetime_save.hyps(2)] wf_apply_op [of im "Op_persisted path" now] by auto
next
  case (lifetime_load im src now im' st)
  then show ?case using wf_load_saved [of im src now] by auto
next
  case (lifetime_refused im now f im' st)
  then show ?case by (auto simp: refused_def)
qed (auto simp: wf_initial intro: wf_apply_op)

lemma reachable_lifetime: "reachable im \<Longrightarrow> lifetime im"
  by (induction rule: reachable.induct) (auto elim!: engine_stepE intro: lifetime.intros)

text \<open>
  C12. Every state in the life of an engine is well formed: all vectors in quotas, usages
  and records are in range and canonical, all maps have distinct keys, the group hierarchy
  is a forest, the event log is within its bound and no cooldown is pending. A life starts
  with a new engine and goes on with any sequence of the public operations: all operations
  that change the engine, with any outcome, save_to whatever the file system does, load_from
  of a file that is refused before its records are read, and load_from of a state that such
  an engine saved into an engine without records and usage. Hypotheses on a step: vectors
  satisfy their class invariant, the id of a new group is not yet in use as a parent, and a
  loaded state is one the format can represent, with an event retention (16 bits in the
  file) that admits the events logged so far. Loading a file from elsewhere is left out: its
  hierarchy is not checked and may be cyclic.
\<close>

theorem lifetime_wf: "lifetime im \<Longrightarrow> wf_state im"
  by (rule lifetime_well_formed)

text \<open>
  C37. In every state of the life of an engine, as in C12 (new groups get ids not yet in use
  as a parent, only states that such an engine saved are loaded), the ancestor walk of
  ancestor_groups returns from every start group. On a state loaded from a file with cyclic
  parents it would not.
\<close>

theorem lifetime_hierarchy_terminates:
  assumes "lifetime im"
  shows "\<exists>chain. ancestor_loop (im_groups im) start [] = Some chain"
  using lifetime_well_formed [OF assms] ancestor_loop_fuel [OF _ enough_fuel_length]
  unfolding wf_state_def hier_ok_def by blast

section \<open>A restart\<close>

abbreviation advanced_engine :: impl where
  "advanced_engine \<equiv> apply_op 3 Op_advance_epoch sample_engine"

lemma advanced_lifetime: "lifetime sample_engine" "lifetime advanced_engine"
proof -
  show "lifetime sample_engine" unfolding sample_engine_def by (rule lifetime_new)
  then show "lifetime advanced_engine" by (rule lifetime_op) simp
qed

lemma advanced_persistable:
  "persistable (im_settings sample_engine) advanced_engine" "length (serialize_state advanced_engine) + 4 < 2 ^ 64"
  "ready_to_load advanced_engine sample_engine"
proof -
  show "persistable (im_settings sample_engine) advanced_engine"
    by (simp add: advance_epoch_def sample_engine_def impl_initial_def persistable_def header_persistable_def maps_persistable_def
        maps_bounded_def maps_distinct_def quota_policy_default_def overcommit_policy_default_def string_ok_def enum_valid_def
        overcommit_mode_raw_def emit_event_def Let_def)
  show "length (serialize_state advanced_engine) + 4 < 2 ^ 64"
    by (simp add: serialize_state_def write_header_def w_map_def w_gen_def w_string_def sample_engine_def
        impl_initial_def quota_policy_default_def advance_epoch_def)
  show "ready_to_load advanced_engine sample_engine"
    by (simp add: ready_to_load_def blank_maps_def sample_engine_def impl_initial_def)
qed

lemma restarted_engine:
  obtains im' where "load_from sample_engine 5 (Contents (save_blob (serialize_state advanced_engine))) = Some (im', status_success)"
    "lifetime im'"
proof -
  obtain im' where im': "load_from sample_engine 5 (Contents (save_blob (serialize_state advanced_engine))) = Some (im', status_success)"
    using wf_load_saved [OF advanced_persistable(1,2) lifetime_well_formed [OF advanced_lifetime(2)] advanced_persistable(3)] by blast
  from lifetime_load [OF advanced_lifetime advanced_persistable(3,1,2) im'] im' show ?thesis by (rule that [rotated])
qed

theorem lifetime_wf_witness:
  "\<exists>im'. load_from sample_engine 5 (Contents (save_blob (serialize_state advanced_engine))) = Some (im', status_success) \<and> wf_state im'"
  by (rule restarted_engine) (blast intro: lifetime_wf)

theorem lifetime_hierarchy_terminates_witness:
  "\<exists>im' chain. load_from sample_engine 5 (Contents (save_blob (serialize_state advanced_engine))) = Some (im', status_success) \<and>
    ancestor_loop (im_groups im') (Some null_id) [] = Some chain"
  by (rule restarted_engine) (blast dest: lifetime_hierarchy_terminates)

end
