(* ===== verification/QF_Coordinator.thy ===== *)
theory QF_Coordinator
  imports QF_Message QF_Restart QF_Fencing
begin

text \<open>
  The coordinator of \<open>apps/coordinator/main.cpp\<close>: the dispatch of decoded requests to the
  engine, the agent registry, the loop over the frames of a connection and the start-up
  sequence. \<open>None\<close> stands for a read or write outside an array, which an observation with
  an unknown dimension causes. \<open>handle_request\<close> handles a request without interference; the
  sessions of the coordinator run in threads of their own, and \<open>served\<close> lets other
  sessions act between the authority check of a request and its execution.
\<close>

section \<open>State\<close>

record coordinator =
  co_engine :: impl
  co_agents :: "(agent_id, agent_boot_id) hmap"

definition show_gen :: "'tag generation \<Rightarrow> string" where
  "show_gen g = show_nat (unat (gen_value g))"

section \<open>Texts and authority\<close>

definition newline :: string where
  "newline = [CHR 0x0A]"

definition tenant_line :: "tenant \<Rightarrow> string" where
  "tenant_line t =
     ''  tenant '' @ to_hex (ten_id t) @ '' ['' @ ten_name t @ ''] group='' @
     (case ten_group t of Some g \<Rightarrow> to_hex g | None \<Rightarrow> ''-'') @ '' prio='' @ show_nat (unat (ten_priority t)) @ newline"

definition envelope_line :: "quota_envelope \<Rightarrow> string" where
  "envelope_line e =
     ''  '' @ to_hex (env_tenant e) @ '' committed='' @ rv_to_string (env_committed_usage e) @
     '' compliance='' @ compliance_state_name (env_compliance e) @ newline"

definition snapshot_text :: "impl \<Rightarrow> int \<Rightarrow> impl \<times> string" where
  "snapshot_text im now =
     (let (im', s) = snapshot im now
      in (im',
        ''snapshot epoch='' @ show_gen (sn_epoch s) @ '' quota_gen='' @ show_gen (sn_quota_generation s) @
        '' policy_gen='' @ show_gen (sn_policy_generation s) @ newline @
        ''  groups='' @ show_nat (length (sn_groups s)) @ '' tenants='' @ show_nat (length (sn_tenants s)) @ newline @
        ''  quotas='' @ show_nat (length (sn_quotas s)) @ '' envelopes='' @ show_nat (length (sn_envelopes s)) @ newline @
        ''  reservations='' @ show_nat (length (sn_reservations s)) @
        '' allocations='' @ show_nat (length (sn_allocations s)) @ newline @
        ''  borrows='' @ show_nat (length (sn_borrow_records s)) @
        '' lends='' @ show_nat (length (sn_lending_records s)) @ newline @
        concat (map tenant_line (sn_tenants s)) @ concat (map envelope_line (sn_envelopes s))))"

definition check_authority :: "impl \<Rightarrow> wire_request \<Rightarrow> quota_status" where
  "check_authority im q =
     (if au_epoch (wq_auth q) \<noteq> im_epoch im
        then status_failure VC_STALE_AUTHORITY ''stale coordinator epoch''
      else if au_quota_generation (wq_auth q) \<noteq> im_quota_generation im
        then status_failure VC_STALE_QUOTA_GENERATION ''stale quota generation''
      else if au_policy_generation (wq_auth q) \<noteq> pol_generation (im_policy im)
        then status_failure VC_STALE_POLICY ''stale policy generation''
      else status_success)"

text \<open>The three members a response carries of the engine's authority.\<close>

definition with_authority :: "impl \<Rightarrow> wire_response \<Rightarrow> wire_response" where
  "with_authority im r =
     r\<lparr>wr_epoch := im_epoch im, wr_quota_generation := im_quota_generation im,
       wr_policy_generation := pol_generation (im_policy im)\<rparr>"

section \<open>Observations from the wire\<close>

definition dimension_code :: "resource_dimension \<Rightarrow> 16 word" where
  "dimension_code d = of_nat (length (takeWhile (\<lambda>e. e \<noteq> d) all_resource_dimensions))"

definition dimension_of_code :: "16 word \<Rightarrow> resource_dimension option" where
  "dimension_of_code w =
     (if unat w < length all_resource_dimensions then Some (all_resource_dimensions ! unat w) else None)"

definition observation_of :: "resource_dimension \<Rightarrow> wire_observation \<Rightarrow> observation" where
  "observation_of d ob =
     \<lparr>ob_tenant = wo_tenant ob, ob_allocation = wo_allocation ob, ob_dimension = d, ob_amount = wo_amount ob,
      ob_kind = wo_kind ob, ob_at = wo_at ob, ob_resource_generation = wo_resource_generation ob,
      ob_agent = wo_agent ob, ob_boot = wo_boot ob, ob_source = wo_source ob\<rparr>"

text \<open>
  \<open>apply_observation\<close> for a dimension that is no enumerator. The kinds that name their own
  dimension do not touch the array at the given index; the three that use it read and
  write beyond the end of the consumption vector.
\<close>

definition apply_unknown_dimension :: "impl \<Rightarrow> int \<Rightarrow> wire_observation \<Rightarrow> (impl \<times> quota_status) option" where
  "apply_unknown_dimension im clock ob =
     (if \<not> tenant_exists im (wo_tenant ob)
        then Some (im, status_failure VC_WRONG_TENANT ''unknown tenant for observation'')
      else
        (let im0 = usage_mut (wo_tenant ob) (\<lambda>u. u) im;
             now = (if wo_at ob > 0 then wo_at ob else clock);
             done = (\<lambda>im1. Some (emit_event clock ET_VIOLATION (wo_tenant ob) ''observation unknown_dimension'' im1,
                       status_success))
         in case wo_kind ob of
              OK_COMPUTE_INTERVAL \<Rightarrow>
                Some (im0, status_failure VC_INVALID_SHARED_ATTRIBUTION ''compute interval on wrong dimension'')
            | OK_TRANSFER_CONSUMED \<Rightarrow>
                Some (im0, status_failure VC_INVALID_SHARED_ATTRIBUTION ''transfer consumed on wrong dimension'')
            | OK_KV_USAGE_CHANGE \<Rightarrow> None
            | OK_TENSOR_USAGE_CHANGE \<Rightarrow> None
            | OK_USAGE_DELTA \<Rightarrow> None
            | _ \<Rightarrow> (case observe_kind im0 now (observation_of ModelResidencyBytes ob) of
                      Inl st \<Rightarrow> Some (im0, st)
                    | Inr im1 \<Rightarrow> done im1)))"

definition apply_wire_observation :: "impl \<Rightarrow> int \<Rightarrow> wire_observation \<Rightarrow> (impl \<times> quota_status) option" where
  "apply_wire_observation im now ob =
     (case dimension_of_code (wo_dimension ob) of
        Some d \<Rightarrow> Some (apply_observation im now (observation_of d ob))
      | None \<Rightarrow> apply_unknown_dimension im now ob)"

section \<open>The dispatcher\<close>

definition opt_group :: "wire_request \<Rightarrow> tenant_group_id option" where
  "opt_group q = (if id_is_null (wq_group q) then None else Some (wq_group q))"

definition wire_decision_of :: "quota_decision \<Rightarrow> wire_decision" where
  "wire_decision_of d =
     \<lparr>wd_code = dec_code d, wd_tenant = dec_tenant d, wd_resource_class = dec_resource_class d,
      wd_requested = dec_requested d, wd_current_usage = dec_current_usage d, wd_reserved_usage = dec_reserved_usage d,
      wd_guarantee = dec_guarantee d, wd_soft_limit = dec_soft_limit d, wd_hard_limit = dec_hard_limit d,
      wd_burst = dec_burst d, wd_borrowed = dec_borrowed d, wd_debt = dec_debt d,
      wd_parent_available = dec_parent_available d,
      wd_limiting_dimension = map_option dimension_code (dec_limiting_dimension d), wd_compliance = dec_compliance d,
      wd_recall_action = dec_recall_action d, wd_generation = dec_generation d,
      wd_policy_generation = dec_policy_generation d, wd_epoch = dec_epoch d, wd_explanation = dec_explanation d\<rparr>"

definition outcome :: "('a \<Rightarrow> wire_response \<Rightarrow> wire_response) \<Rightarrow> 'a quota_result \<Rightarrow> wire_response" where
  "outcome put r =
     (case r of Inl st \<Rightarrow> response_from (status_failure (st_code st) (st_message st))
      | Inr v \<Rightarrow> put v (response_from status_success))"

text \<open>The cases of the \<open>switch\<close> that follow a passed authority check, on the engine alone.\<close>

definition dispatch :: "impl \<Rightarrow> int \<Rightarrow> wire_request \<Rightarrow> wire_response \<Rightarrow> impl \<times> wire_response" where
  "dispatch im now q resp =
     (case wq_type q of
        MT_CREATE_GROUP \<Rightarrow>
          (let (im', st) = create_group im now (wq_name q) (wq_kind q) (opt_group q)
           in (im', resp\<lparr>wr_ok := st_ok st, wr_text := ''group created''\<rparr>))
      | MT_CREATE_TENANT \<Rightarrow>
          (let (im', st, tid) = create_tenant_auto im now (wq_name q) (opt_group q) (wq_priority q)
           in (im', resp\<lparr>wr_ok := st_ok st, wr_message := st_message st,
                     wr_text := to_hex (case tid of Some i \<Rightarrow> i | None \<Rightarrow> null_id)\<rparr>))
      | MT_SET_TENANT_QUOTA \<Rightarrow> apsnd response_from (set_tenant_quota im now (wq_tenant q) (wq_quota q))
      | MT_SET_GROUP_QUOTA \<Rightarrow> apsnd response_from (set_group_quota im now (wq_group q) (wq_quota q))
      | MT_EVALUATE \<Rightarrow>
          (im, resp\<lparr>wr_ok := True,
                 wr_decision := wire_decision_of (evaluate_reservation im now (wq_tenant q) (wq_req q))\<rparr>)
      | MT_RESERVE \<Rightarrow>
          apsnd (outcome (\<lambda>v. wr_reservation_update (\<lambda>_. v))) (reserve im now (wq_tenant q) (wq_req q) (wq_auth q))
      | MT_COMMIT_RESERVATION \<Rightarrow> apsnd response_from (commit_reservation im now (wq_reservation q) (wq_auth q))
      | MT_RELEASE \<Rightarrow> apsnd response_from (release im now (wq_reservation q) (wq_auth q))
      | MT_START_ALLOCATION \<Rightarrow>
          apsnd (outcome (\<lambda>v. wr_allocation_update (\<lambda>_. v)))
            (start_allocation im now (wq_reservation q) (wq_req q) (wq_auth q))
      | MT_RELEASE_ALLOCATION \<Rightarrow> apsnd response_from (release_allocation im now (wq_allocation q) (wq_auth q))
      | MT_BORROW \<Rightarrow>
          apsnd (outcome (\<lambda>v. wr_borrow_update (\<lambda>_. v))) (borrow im now (wq_tenant q) (wq_req q) (wq_auth q))
      | MT_LEND \<Rightarrow>
          apsnd (outcome (\<lambda>v. wr_lend_update (\<lambda>_. v)))
            (lend im now (wq_tenant q) (wq_tenant2 q) (wq_req q) (wq_auth q))
      | MT_RECALL_BORROW \<Rightarrow> apsnd response_from (recall_borrow im now (wq_borrow q) (wq_auth q))
      | MT_RECALL_DECISION \<Rightarrow> (im, resp\<lparr>wr_ok := True, wr_recall := recall_decision im now (wq_tenant q)\<rparr>)
      | MT_ENVELOPE \<Rightarrow> (im, resp\<lparr>wr_ok := True, wr_envelope := envelope im now (wq_tenant q)\<rparr>)
      | MT_SNAPSHOT \<Rightarrow> (let (im', tx) = snapshot_text im now in (im', resp\<lparr>wr_ok := True, wr_text := tx\<rparr>))
      | _ \<Rightarrow> (im, response_from (status_failure VC_STALE_RESERVATION ''unsupported message type'')))"

text \<open>\<open>OBSERVE\<close> after its authority check: the agent must be registered with the boot it reports.\<close>

definition observe :: "coordinator \<Rightarrow> int \<Rightarrow> wire_request \<Rightarrow> (coordinator \<times> wire_response) option" where
  "observe co now q =
     (let ob = wq_observation q
      in if map_of (co_agents co) (wo_agent ob) \<noteq> Some (wo_boot ob)
         then Some (co, response_from (status_failure VC_STALE_AUTHORITY ''stale agent boot identity''))
         else map_option (\<lambda>(im, st). (co\<lparr>co_engine := im\<rparr>, response_from st))
                (apply_wire_observation (co_engine co) now ob))"

text \<open>What a request does once its authority check has passed.\<close>

definition act :: "coordinator \<Rightarrow> int \<Rightarrow> wire_request \<Rightarrow> (coordinator \<times> wire_response) option" where
  "act co now q =
     (if wq_type q = MT_OBSERVE then observe co now q
      else (let (im, r) = dispatch (co_engine co) now q (with_authority (co_engine co) wire_response_default)
            in Some (co\<lparr>co_engine := im\<rparr>, r)))"

definition unchecked_types :: "message_type list" where
  "unchecked_types = [MT_HELLO, MT_PING, MT_ADVANCE_EPOCH, MT_WELCOME, MT_RESULT_OK, MT_RESULT_ERR]"

definition needs_authority :: "message_type \<Rightarrow> bool" where
  "needs_authority t \<longleftrightarrow> t \<notin> set unchecked_types \<and> (case t of MT_raw _ \<Rightarrow> False | _ \<Rightarrow> True)"

definition handle_type :: "coordinator \<Rightarrow> int \<Rightarrow> wire_request \<Rightarrow> (coordinator \<times> wire_response) option" where
  "handle_type co now q =
     (let im = co_engine co;
          resp = with_authority im wire_response_default;
          st = check_authority im q
      in case wq_type q of
           MT_HELLO \<Rightarrow>
             Some (co\<lparr>co_agents := AList.update (wq_agent_id q) (wq_agent_boot q) (co_agents co)\<rparr>,
                   resp\<lparr>wr_ok := True, wr_text := ''registered agent_id='' @ to_hex (wq_agent_id q) @
                     '' boot='' @ to_hex (wq_agent_boot q)\<rparr>)
         | MT_PING \<Rightarrow>
             Some (co, resp\<lparr>wr_ok := True, wr_text := ''pong epoch='' @ show_gen (im_epoch im) @
                     '' quota_gen='' @ show_gen (im_quota_generation im)\<rparr>)
         | MT_ADVANCE_EPOCH \<Rightarrow>
             (let (im', st) = advance_epoch im now in Some (co\<lparr>co_engine := im'\<rparr>, response_from st))
         | _ \<Rightarrow>
             if needs_authority (wq_type q) \<and> \<not> st_ok st then Some (co, response_from st)
             else act co now q)"

text \<open>One request: the response has the authority the engine ends with.\<close>

definition handle_request :: "coordinator \<Rightarrow> int \<Rightarrow> wire_request \<Rightarrow> (coordinator \<times> wire_response) option" where
  "handle_request co now q =
     map_option (\<lambda>(co', r). (co', with_authority (co_engine co') r)) (handle_type co now q)"

section \<open>Sessions\<close>

fun what :: "read_error \<Rightarrow> string" where
  "what (Decode_error m) = m"
| "what (Load_fail m) = m"

text \<open>One received frame: the new state and the bytes sent back.\<close>

definition handle_frame :: "coordinator \<Rightarrow> int \<Rightarrow> frame \<Rightarrow> (coordinator \<times> byte list) option" where
  "handle_frame co now f =
     (case decode_request (fr_payload f) of
        Inl e \<Rightarrow>
          Some (co, encode_frame MT_RESULT_ERR (fr_correlation f) 0 (encode_response
            (response_from (status_failure VC_STALE_RESERVATION (''malformed request: '' @ what e)))))
      | Inr q \<Rightarrow>
          map_option (\<lambda>(co', r). (co', encode_frame (if wr_ok r then MT_RESULT_OK else MT_RESULT_ERR)
             (fr_correlation f) 0 (encode_response r))) (handle_request co now q))"

lemma recv_frame_shorter: "recv_frame n sock = Inr (f, rest) \<Longrightarrow> length rest < length sock"
  by (auto simp: recv_frame_def Let_def split: if_splits)

text \<open>
  \<open>handle_session\<close> until the peer closes the connection or sends bytes that are no frame.
  \<open>clock n\<close> is the clock when the n-th frame is handled; the result of \<open>send_frame\<close> is
  ignored, as in the code.
\<close>

function handle_session ::
  "(nat \<Rightarrow> int) \<Rightarrow> nat \<Rightarrow> coordinator \<Rightarrow> byte list \<Rightarrow> (coordinator \<times> byte list list) option" where
  "handle_session clock n co sock =
     (case recv_frame 0 sock of
        Inl err \<Rightarrow> Some (co, [])
      | Inr (f, rest) \<Rightarrow>
          (case handle_frame co (clock n) f of
             None \<Rightarrow> None
           | Some (co', out) \<Rightarrow>
               map_option (\<lambda>(co'', outs). (co'', out # outs)) (handle_session clock (Suc n) co' rest)))"
  by pat_completeness auto
termination
  by (relation "measure (\<lambda>(clock, n, co, sock). length sock)") (auto dest: recv_frame_shorter)

declare handle_session.simps [simp del]

section \<open>Start-up\<close>

text \<open>
  \<open>main\<close> up to the listening socket: the default policy, then the state file when the path
  is given and exists (\<open>Some\<close> of what reading it gives). The result of loading is ignored.
\<close>

definition coordinator_policy :: quota_policy where
  "coordinator_policy =
     quota_policy_default\<lparr>pol_name := ''quota-fabric-default'', pol_description := ''default coordinator policy''\<rparr>"

definition coordinator_start :: "id_gens \<Rightarrow> int \<Rightarrow> int \<Rightarrow> file_read option \<Rightarrow> coordinator option" where
  "coordinator_start ids oob now state_file =
     (let im = fst (set_policy (impl_initial engine_settings_default ids oob) now coordinator_policy)
      in map_option (\<lambda>im'. \<lparr>co_engine = im', co_agents = []\<rparr>)
           (case state_file of None \<Rightarrow> Some im | Some file \<Rightarrow> map_option fst (load_from im now file)))"

section \<open>Requests keep the engine well formed\<close>

lemma wf_dispatch:
  assumes "wf_state im" "request_typed q" "wq_type q = MT_CREATE_GROUP \<Longrightarrow> fresh_group im (opt_group q)"
  shows "wf_state (fst (dispatch im now q resp))"
proof -
  have "rv_ok (wq_req q)" "quota_ok (wq_quota q)"
    using assms(2) by (simp_all add: request_typed_def quota_encodable_def)
  then show ?thesis
    using assms(1,3)
    by (cases "wq_type q")
       (simp_all add: dispatch_def split_beta Let_def snapshot_text_def wf_create_group wf_create_tenant_auto
         wf_set_tenant_quota wf_set_group_quota wf_reserve wf_commit_reservation wf_release wf_start_allocation
         wf_release_allocation wf_borrow wf_lend wf_recall_borrow wf_snapshot)
qed

lemma wf_apply_wire_observation:
  assumes "wf_state im" "apply_wire_observation im now ob = Some (im', st)"
  shows "wf_state im'"
proof (cases "dimension_of_code (wo_dimension ob)")
  case None
  then have "apply_unknown_dimension im now ob = Some (im', st)" using assms by (simp add: apply_wire_observation_def)
  moreover note wf_usage_touch [OF assms(1), of "wo_tenant ob"]
  ultimately show ?thesis
    using assms(1) wf_observe_kind [of "usage_mut (wo_tenant ob) (\<lambda>u. u) im"]
    by (auto simp: apply_unknown_dimension_def Let_def wf_emit_event
        split: if_splits observation_kind.splits sum.splits)
next
  case (Some d)
  then show ?thesis
    using assms wf_apply_observation [OF assms(1), of now "observation_of d ob"]
    by (auto simp: apply_wire_observation_def)
qed

lemma wf_observe: "wf_state (co_engine co) \<Longrightarrow> observe co now q = Some (co', r) \<Longrightarrow> wf_state (co_engine co')"
  by (auto simp: observe_def Let_def split: if_splits dest: wf_apply_wire_observation)

lemma wf_act:
  assumes "wf_state (co_engine co)" "request_typed q"
    and "wq_type q = MT_CREATE_GROUP \<Longrightarrow> fresh_group (co_engine co) (opt_group q)"
    and "act co now q = Some (co', r)"
  shows "wf_state (co_engine co')"
  using assms
  by (auto simp: act_def Let_def split_beta wf_dispatch dest: wf_observe split: if_splits)

lemma handle_typeE:
  assumes "handle_type co now q = Some (co', r)"
  obtains "co_engine co' = co_engine co"
    | "wq_type q = MT_ADVANCE_EPOCH" "co_engine co' = fst (advance_epoch (co_engine co) now)"
    | "act co now q = Some (co', r)"
  using assms
  by (cases "wq_type q") (auto simp: handle_type_def Let_def split_beta split: if_splits)

lemma wf_handle_request:
  assumes "wf_state (co_engine co)" "request_typed q"
    and "wq_type q = MT_CREATE_GROUP \<Longrightarrow> fresh_group (co_engine co) (opt_group q)"
    and "handle_request co now q = Some (co', r)"
  shows "wf_state (co_engine co')"
proof -
  obtain r' where "handle_type co now q = Some (co', r')" using assms(4) by (auto simp: handle_request_def)
  then show ?thesis
    using assms(1-3) by (cases rule: handle_typeE) (auto simp: wf_advance_epoch dest: wf_act)
qed

text \<open>
  The state files a coordinator may be started with: none, one that cannot be read, one that
  \<open>load_from\<close> refuses before it looks at the records, or one that an engine saved. What another
  file may contain is not checked by the loader.
\<close>

definition state_file_ok :: "file_read option \<Rightarrow> bool" where
  "state_file_ok f \<longleftrightarrow> (\<forall>blob. f = Some (Contents blob) \<longrightarrow>
     (\<forall>im now. refused im (load_from im now (Contents blob))) \<or>
     (\<exists>src. lifetime src \<and> persistable engine_settings_default src \<and> length (serialize_state src) + 4 < 2 ^ 64 \<and>
        0 < saved_retention src \<and> blob = save_blob (serialize_state src)))"

text \<open>
  The states a coordinator goes through. Its sessions receive arbitrary payloads. A request
  that needs authority is checked and then waits in \<open>ps\<close> until its thread runs again, and
  whatever the other sessions do in between is allowed. What the check saw is left open, so
  the set covers more than the runs of the program. The generator must not hand out a group id
  already in use as a parent. A request whose handling accesses an array out of bounds
  (\<open>out_of_bounds_observation_iff\<close>) has no successor: its effect is undefined.
\<close>

inductive served :: "coordinator \<Rightarrow> wire_request list \<Rightarrow> bool" where
  served_start: "state_file_ok f \<Longrightarrow> coordinator_start ids oob now f = Some co \<Longrightarrow> served co []"
| served_check: "served co ps \<Longrightarrow> decode_request p = Inr q \<Longrightarrow> needs_authority (wq_type q) \<Longrightarrow> served co (q # ps)"
| served_act:
    "served co ps \<Longrightarrow> q \<in> set ps \<Longrightarrow>
     (wq_type q = MT_CREATE_GROUP \<longrightarrow> fresh_group (co_engine co) (opt_group q)) \<Longrightarrow>
     act co now q = Some (co', r) \<Longrightarrow> served co' (remove1 q ps)"
| served_request:
    "served co ps \<Longrightarrow> decode_request p = Inr q \<Longrightarrow>
     (wq_type q = MT_CREATE_GROUP \<longrightarrow> fresh_group (co_engine co) (opt_group q)) \<Longrightarrow>
     handle_request co now q = Some (co', r) \<Longrightarrow> served co' ps"

lemma wf_coordinator_start:
  assumes "state_file_ok f" "coordinator_start ids oob now f = Some co"
  shows "wf_state (co_engine co)"
proof -
  define im where "im = fst (set_policy (impl_initial engine_settings_default ids oob) now coordinator_policy)"
  have wf: "wf_state im" by (simp add: im_def wf_set_policy wf_initial)
  have im: "im_settings im = engine_settings_default" "blank_maps im" "im_usage im = []" "length (im_events im) \<le> 1"
    by (simp_all add: im_def set_policy_def blank_maps_def impl_initial_def split: option.split)
       (simp_all add: emit_event_def length_pop_to)
  show ?thesis
  proof (cases f)
    case None
    then show ?thesis using assms(2) wf by (auto simp: coordinator_start_def Let_def im_def)
  next
    case (Some g)
    with assms(2) have load: "map_option fst (load_from im now g) = Some (co_engine co)"
      by (auto simp: coordinator_start_def Let_def im_def)
    show ?thesis
    proof (cases g)
      case (Contents blob)
      with assms(1) Some consider "refused im (load_from im now g)"
        | src where "lifetime src" "persistable engine_settings_default src" "length (serialize_state src) + 4 < 2 ^ 64"
          "0 < saved_retention src" "g = Contents (save_blob (serialize_state src))"
        by (auto simp: state_file_ok_def)
      then show ?thesis
      proof cases
        case 1
        then show ?thesis using load wf by (auto simp: refused_def)
      next
        case 2
        have "ready_to_load src im" using im 2(4) by (simp add: ready_to_load_def)
        with wf_load_saved [of im src now] 2 im(1) load lifetime_well_formed [OF 2(1)] show ?thesis by auto
      qed
    qed (use load wf in \<open>auto simp: load_from_def\<close>)
  qed
qed

lemma served_wf_state: "served co ps \<Longrightarrow> wf_state (co_engine co) \<and> (\<forall>q \<in> set ps. request_typed q)"
proof (induction rule: served.induct)
  case (served_start f ids oob now co)
  then show ?case by (simp add: wf_coordinator_start)
next
  case (served_check co ps p q)
  then show ?case by (simp add: decoded_typed)
next
  case (served_act co ps q now co' r)
  then show ?case using wf_act [of co q now co' r] by (auto dest: set_remove1_subset [THEN subsetD])
next
  case (served_request co ps p q now co' r)
  then show ?case using wf_handle_request [of co q now co' r] decoded_typed by blast
qed

text \<open>
  C14. The engine of a coordinator is well formed whatever payloads any number of sessions
  send, interleaved between the authority check and the execution of a request. The
  coordinator starts without a state file, with one that cannot be read or that load_from
  refuses before it reads the records, or with one that an engine saved in its life (C12)
  and whose event retention is not 0; an id handed out for a new group is not yet in use as
  a parent; and a request whose handling would access an array out of bounds ends the run,
  since its effect is undefined.
\<close>

theorem served_wf:
  assumes "served co ps"
  shows "wf_state (co_engine co)"
  using served_wf_state [OF assms] ..

section \<open>Authority at the boundary\<close>

lemma check_authority_ok:
  "st_ok (check_authority im q) \<longleftrightarrow>
     au_epoch (wq_auth q) = im_epoch im \<and> au_quota_generation (wq_auth q) = im_quota_generation im \<and>
     au_policy_generation (wq_auth q) = pol_generation (im_policy im)"
  by (simp add: check_authority_def)

lemma check_authority_code:
  "\<not> st_ok (check_authority im q) \<Longrightarrow>
   st_code (check_authority im q) \<in> {VC_STALE_AUTHORITY, VC_STALE_QUOTA_GENERATION, VC_STALE_POLICY}"
  by (auto simp: check_authority_def)

lemma handle_stale:
  assumes "needs_authority (wq_type q)" "\<not> st_ok (check_authority (co_engine co) q)"
  shows "handle_request co now q =
    Some (co, with_authority (co_engine co) (response_from (check_authority (co_engine co) q)))"
  using assms
  by (cases "wq_type q") (simp_all add: handle_request_def handle_type_def Let_def needs_authority_def unchecked_types_def)

lemma response_from_simps [simp]:
  "wr_ok (response_from st) = st_ok st" "wr_code (response_from st) = st_code st"
  "wr_message (response_from st) = st_message st"
  by (simp_all add: response_from_def)

lemma with_authority_simps [simp]:
  "wr_ok (with_authority im r) = wr_ok r" "wr_code (with_authority im r) = wr_code r"
  "wr_epoch (with_authority im r) = im_epoch im" "wr_quota_generation (with_authority im r) = im_quota_generation im"
  "wr_policy_generation (with_authority im r) = pol_generation (im_policy im)"
  by (simp_all add: with_authority_def)

text \<open>
  C21. A request of a type that needs authority whose epoch, quota generation or policy
  generation is not the engine's current one is refused with one of the three stale codes;
  engine and agent registry are unchanged and the response carries the current authority.
\<close>

theorem stale_request_refused:
  assumes "needs_authority (wq_type q)"
    and "au_epoch (wq_auth q) \<noteq> im_epoch (co_engine co) \<or>
      au_quota_generation (wq_auth q) \<noteq> im_quota_generation (co_engine co) \<or>
      au_policy_generation (wq_auth q) \<noteq> pol_generation (im_policy (co_engine co))"
  shows "\<exists>r. handle_request co now q = Some (co, r) \<and> \<not> wr_ok r \<and>
    wr_code r \<in> {VC_STALE_AUTHORITY, VC_STALE_QUOTA_GENERATION, VC_STALE_POLICY} \<and>
    wr_epoch r = im_epoch (co_engine co) \<and> wr_quota_generation r = im_quota_generation (co_engine co) \<and>
    wr_policy_generation r = pol_generation (im_policy (co_engine co))"
proof -
  have bad: "\<not> st_ok (check_authority (co_engine co) q)" using assms(2) by (simp add: check_authority_ok)
  then show ?thesis
    using handle_stale [OF assms(1) bad, of now] check_authority_code [OF bad]
    by (auto intro!: exI [of _ "with_authority (co_engine co) (response_from (check_authority (co_engine co) q))"])
qed

text \<open>
  The operations that carry their authority into the engine are checked there again: an
  epoch that advanced after the check still stops them.
\<close>

definition rechecked_types :: "message_type list" where
  "rechecked_types = [MT_RESERVE, MT_COMMIT_RESERVATION, MT_RELEASE, MT_START_ALLOCATION, MT_BORROW, MT_LEND, MT_RECALL_BORROW]"

lemma outcome_rejected: "result_rejected r \<Longrightarrow> \<not> wr_ok (outcome f r)"
  by (auto simp: result_rejected_def outcome_def split: sum.splits)

text \<open>
  C22. When the epoch advances between the authority check of a request and its execution,
  reserve, commit, release, start_allocation, borrow, lend and recall requests are still
  refused and change nothing.
\<close>

theorem stale_act_refused:
  assumes "wq_type q \<in> set rechecked_types" "au_epoch (wq_auth q) \<noteq> im_epoch (co_engine co)"
  shows "\<exists>r. act co now q = Some (co, r) \<and> \<not> wr_ok r"
proof -
  have st: "stale_epoch (co_engine co) (wq_auth q)" using assms(2) by (simp add: stale_epoch_def)
  let ?d = "dispatch (co_engine co) now q (with_authority (co_engine co) wire_response_default)"
  have "fst ?d = co_engine co \<and> \<not> wr_ok (snd ?d)"
    using assms(1) reserve.fence [OF st] commit_reservation.fence [OF st] release.fence [OF st]
      start_allocation.fence [OF st] borrow.fence [OF st] lend.fence [OF st] recall_borrow.fence [OF st]
    by (auto simp: rechecked_types_def dispatch_def outcome_rejected status_rejected_def)
  moreover have "wq_type q \<noteq> MT_OBSERVE" using assms(1) by (auto simp: rechecked_types_def)
  ultimately show ?thesis by (simp add: act_def Let_def split_beta)
qed

text \<open>
  ADVANCE_EPOCH is served without an authority check: any peer that can connect advances the
  epoch and thereby makes every outstanding authority stale.
\<close>

theorem any_peer_advances_epoch:
  assumes "wq_type q = MT_ADVANCE_EPOCH" "handle_request co now q = Some (co', r)"
    and "needs_authority (wq_type q')" "au_epoch (wq_auth q') = im_epoch (co_engine co)"
  shows "wr_ok r \<and> wr_epoch r = gen_next (im_epoch (co_engine co)) \<and>
    (\<exists>r'. handle_request co' now' q' = Some (co', r') \<and> \<not> wr_ok r' \<and> wr_code r' = VC_STALE_AUTHORITY)"
proof -
  have co': "co' = co\<lparr>co_engine := fst (advance_epoch (co_engine co) now)\<rparr>"
    and r: "wr_ok r" "wr_epoch r = im_epoch (co_engine co')"
    using assms(1,2) by (auto simp: handle_request_def handle_type_def Let_def advance_epoch_def)
  have e: "im_epoch (co_engine co') = gen_next (im_epoch (co_engine co))"
    by (simp add: co' advance_epoch_def)
  then have stale: "check_authority (co_engine co') q' = status_failure VC_STALE_AUTHORITY ''stale coordinator epoch''"
    using assms(4) by (simp add: check_authority_def gen_next_neq [symmetric])
  show ?thesis using handle_stale [OF assms(3), of co' now'] stale r e by simp
qed

section \<open>Observations and agent boots\<close>

lemma observe_stale_boot:
  assumes "wq_type q = MT_OBSERVE"
    and "map_of (co_agents co) (wo_agent (wq_observation q)) \<noteq> Some (wo_boot (wq_observation q))"
  shows "\<exists>r. handle_request co now q = Some (co, r) \<and> \<not> wr_ok r"
  using assms
  by (auto simp: handle_request_def handle_type_def Let_def needs_authority_def unchecked_types_def act_def observe_def)

lemma agents_kept:
  assumes "handle_request co now q = Some (co', r)"
  shows "co_agents co' = (if wq_type q = MT_HELLO
    then AList.update (wq_agent_id q) (wq_agent_boot q) (co_agents co) else co_agents co)"
  using assms
  by (cases "wq_type q")
     (auto simp: handle_request_def handle_type_def Let_def split_beta observe_def act_def split: if_splits)

text \<open>A run of requests in which one agent does not register again.\<close>

inductive runs_without_hello :: "agent_id \<Rightarrow> coordinator \<Rightarrow> coordinator \<Rightarrow> bool" for a where
  run_none: "runs_without_hello a co co"
| run_one:
    "runs_without_hello a co co1 \<Longrightarrow> handle_request co1 now q = Some (co2, r) \<Longrightarrow>
     \<not> (wq_type q = MT_HELLO \<and> wq_agent_id q = a) \<Longrightarrow> runs_without_hello a co co2"

lemma boot_kept: "runs_without_hello a co co' \<Longrightarrow> map_of (co_agents co') a = map_of (co_agents co) a"
  by (induction rule: runs_without_hello.induct) (auto simp: agents_kept map_of_update)

text \<open>
  C36. After an agent has registered with a boot id, and until it registers again, an
  observation that names the agent with any other boot id is refused and changes nothing.
\<close>

theorem restarted_agent_fences_old_boot:
  assumes "wq_type h = MT_HELLO" "handle_request co now h = Some (co1, r1)"
    and "runs_without_hello (wq_agent_id h) co1 co2"
    and "wq_type q = MT_OBSERVE" "wo_agent (wq_observation q) = wq_agent_id h"
      "wo_boot (wq_observation q) \<noteq> wq_agent_boot h"
  shows "\<exists>r. handle_request co2 now' q = Some (co2, r) \<and> \<not> wr_ok r"
proof -
  have "map_of (co_agents co2) (wq_agent_id h) = Some (wq_agent_boot h)"
    using boot_kept [OF assms(3)] agents_kept [OF assms(2)] assms(1) by (simp add: map_of_update)
  then show ?thesis using observe_stale_boot [OF assms(4)] assms(5,6) by simp
qed

text \<open>
  C38. Handling a decoded request accesses an array out of bounds exactly for an authorised
  observation of a registered agent on an existing tenant whose dimension is 17 or more and
  whose kind indexes by dimension.
\<close>

theorem out_of_bounds_observation_iff:
  "handle_request co now q = None \<longleftrightarrow>
     wq_type q = MT_OBSERVE \<and> st_ok (check_authority (co_engine co) q) \<and>
     map_of (co_agents co) (wo_agent (wq_observation q)) = Some (wo_boot (wq_observation q)) \<and>
     tenant_exists (co_engine co) (wo_tenant (wq_observation q)) \<and>
     17 \<le> unat (wo_dimension (wq_observation q)) \<and>
     wo_kind (wq_observation q) \<in> {OK_USAGE_DELTA, OK_KV_USAGE_CHANGE, OK_TENSOR_USAGE_CHANGE}"
proof -
  let ?ob = "wq_observation q"
  have obs: "apply_wire_observation im now ?ob = None \<longleftrightarrow>
      17 \<le> unat (wo_dimension ?ob) \<and> tenant_exists im (wo_tenant ?ob) \<and>
      wo_kind ?ob \<in> {OK_USAGE_DELTA, OK_KV_USAGE_CHANGE, OK_TENSOR_USAGE_CHANGE}" for im
    by (auto simp: apply_wire_observation_def apply_unknown_dimension_def dimension_of_code_def Let_def
        length_all_dimensions split: observation_kind.splits sum.splits)
  show ?thesis
    by (cases "wq_type q")
       (auto simp: handle_request_def handle_type_def Let_def split_beta needs_authority_def unchecked_types_def
         act_def observe_def obs)
qed

section \<open>Sessions answer every request\<close>

primrec serve :: "(nat \<Rightarrow> int) \<Rightarrow> nat \<Rightarrow> coordinator \<Rightarrow> frame list \<Rightarrow> (coordinator \<times> byte list list) option" where
  "serve clock n co [] = Some (co, [])"
| "serve clock n co (f # fs) =
     (case handle_frame co (clock n) f of
        None \<Rightarrow> None
      | Some (co', out) \<Rightarrow> map_option (\<lambda>(co'', outs). (co'', out # outs)) (serve clock (Suc n) co' fs))"

definition frame_bytes :: "frame \<Rightarrow> byte list" where
  "frame_bytes f = encode_frame (fr_type f) (fr_correlation f) (fr_flags f) (fr_payload f)"

definition frame_sendable :: "frame \<Rightarrow> bool" where
  "frame_sendable f \<longleftrightarrow> message_type_valid (fr_type f) \<and> length (fr_payload f) \<le> unat kMaxFrameSize"

lemma recv_frame_bytes: "frame_sendable f \<Longrightarrow> recv_frame 0 (frame_bytes f @ rest) = Inr (f, rest)"
  by (simp add: frame_sendable_def frame_bytes_def recv_frame_encoded)

lemma handle_session_serve:
  assumes "recv_frame 0 tail = Inl err" "list_all frame_sendable fs"
  shows "handle_session clock n co (concat (map frame_bytes fs) @ tail) = serve clock n co fs"
  using assms(2)
proof (induction fs arbitrary: n co)
  case Nil
  then show ?case using assms(1) by (simp add: handle_session.simps [of _ _ _ tail])
next
  case (Cons f fs)
  then show ?case
    by (subst handle_session.simps) (simp add: recv_frame_bytes split: option.split)
qed

lemma header_corr_encoded: "header_corr (encode_frame t corr flags payload) = corr"
  by (simp add: header_corr_def encode_frame_def be_word_be_bytes drop_Cons')

lemma encoded_type_byte: "encode_frame t corr flags payload ! 6 = message_type_code t"
  by (simp add: encode_frame_def nth_append)

definition answers :: "frame \<Rightarrow> byte list \<Rightarrow> bool" where
  "answers f out \<longleftrightarrow>
     header_corr out = fr_correlation f \<and>
     (message_type_of_code (out ! 6) = MT_RESULT_OK \<or> message_type_of_code (out ! 6) = MT_RESULT_ERR)"

lemma handle_frame_answers: "handle_frame co now f = Some (co', out) \<Longrightarrow> answers f out"
  by (auto simp: handle_frame_def answers_def header_corr_encoded encoded_type_byte message_type_roundtrip
      message_type_valid_def split: sum.splits if_splits)

lemma serve_answers: "serve clock n co fs = Some (co', outs) \<Longrightarrow> list_all2 answers fs outs"
proof (induction fs arbitrary: n co outs)
  case (Cons f fs)
  then show ?case by (auto dest: handle_frame_answers split: option.splits)
qed simp

text \<open>
  C23. A session that receives any number of well-formed frames handles them one by one in
  order and sends exactly one response frame for each, with the correlation of its request
  and type RESULT_OK or RESULT_ERR, until the stream ends or is no frame.
\<close>

theorem session_answers_in_order:
  assumes "list_all frame_sendable fs" "recv_frame 0 tail = Inl err"
    and "handle_session clock n co (concat (map frame_bytes fs) @ tail) = Some (co', outs)"
  shows "serve clock n co fs = Some (co', outs) \<and> list_all2 answers fs outs"
  using assms(3) serve_answers unfolding handle_session_serve [OF assms(2,1)] by blast

section \<open>A small run\<close>

definition sample_coordinator :: coordinator where
  "sample_coordinator = \<lparr>co_engine = fst (set_policy sample_engine 1 coordinator_policy), co_agents = []\<rparr>"

definition sample_request :: "message_type \<Rightarrow> wire_request" where
  "sample_request t = (wire_request_default 0 0)\<lparr>wq_type := t\<rparr>"

definition ping_frame :: frame where
  "ping_frame = \<lparr>fr_type = MT_PING, fr_flags = 0, fr_correlation = 9, fr_payload = encode_request (sample_request MT_PING)\<rparr>"

lemma sample_request_type [simp]: "wq_type (sample_request t) = t"
  by (simp add: sample_request_def)

lemma sample_request_encodable: "message_type_valid t \<Longrightarrow> request_encodable (sample_request t)"
  using default_request_encodable by (simp add: sample_request_def request_encodable_def)

lemma decode_sample: "message_type_valid t \<Longrightarrow> decode_request (encode_request (sample_request t)) = Inr (sample_request t)"
  using request.dec_enc [OF sample_request_encodable, of t "[]"] by (simp add: decode_request_def)

lemma coordinator_policy_valid: "policy_validate coordinator_policy = None"
  by code_simp

lemma sample_coordinator_authority [simp]:
  "im_epoch (co_engine sample_coordinator) = gen_initial"
  "im_quota_generation (co_engine sample_coordinator) = gen_initial"
  by (simp_all add: sample_coordinator_def set_policy_def coordinator_policy_valid sample_engine_def impl_initial_def)

lemma sample_stale: "au_epoch (wq_auth (sample_request t)) \<noteq> im_epoch (co_engine sample_coordinator)"
  by (simp add: sample_request_def wire_request_default_def authority_default_def gen_zero_def gen_initial_def)

lemma served_sample: "served sample_coordinator []"
  by (rule served_start [of None sample_ids 0 1])
     (simp_all add: state_file_ok_def coordinator_start_def sample_coordinator_def sample_engine_def)

lemma ping_sendable: "frame_sendable ping_frame"
  by (simp add: frame_sendable_def ping_frame_def message_type_valid_def kMaxFrameSize_def encode_request_def
      w_message_type_def w_authority_def w_gen_def w_id_def w_group_def w_string_def w_quota_def write_quota_def
      w_obs_def w_i64_def w_bool_def length_vector sample_request_def wire_request_default_def
      wire_observation_default_def)

lemma handle_ping: "\<exists>r. handle_request co now (sample_request MT_PING) = Some (co, r) \<and> wr_ok r"
  by (simp add: handle_request_def handle_type_def Let_def)

theorem served_wf_witness: "wf_state (co_engine sample_coordinator)"
  by (rule served_wf [OF served_sample])

theorem stale_request_refused_witness:
  "\<exists>r. handle_request sample_coordinator 3 (sample_request MT_RESERVE) = Some (sample_coordinator, r) \<and> \<not> wr_ok r"
  using stale_request_refused [OF _ disjI1 [OF sample_stale], of MT_RESERVE 3]
  by (auto simp: needs_authority_def unchecked_types_def)

theorem any_peer_advances_epoch_witness:
  "\<exists>co' r. handle_request sample_coordinator 3 (sample_request MT_ADVANCE_EPOCH) = Some (co', r) \<and>
     wr_epoch r = gen_next gen_initial"
proof -
  obtain co' r where h: "handle_request sample_coordinator 3 (sample_request MT_ADVANCE_EPOCH) = Some (co', r)"
    by (simp add: handle_request_def handle_type_def Let_def split_beta)
  let ?q = "(sample_request MT_RESERVE)\<lparr>wq_auth := authority_default\<lparr>au_epoch := gen_initial\<rparr>\<rparr>"
  have "wr_epoch r = gen_next gen_initial"
    using any_peer_advances_epoch [OF _ h, of ?q 4] by (simp add: needs_authority_def unchecked_types_def)
  then show ?thesis using h by blast
qed

theorem restarted_agent_fences_old_boot_witness:
  "\<exists>co r. handle_request co 4 (sample_request MT_OBSERVE) = Some (co, r) \<and> \<not> wr_ok r"
proof -
  let ?h = "(sample_request MT_HELLO)\<lparr>wq_agent_boot := StrongId 1 1\<rparr>"
  obtain co r where h: "handle_request sample_coordinator 3 ?h = Some (co, r)"
    by (simp add: handle_request_def handle_type_def Let_def)
  have "wo_agent (wq_observation (sample_request MT_OBSERVE)) = wq_agent_id ?h"
    "wo_boot (wq_observation (sample_request MT_OBSERVE)) \<noteq> wq_agent_boot ?h"
    by (simp_all add: sample_request_def wire_request_default_def wire_observation_default_def null_id_def)
  then show ?thesis using restarted_agent_fences_old_boot [OF _ h run_none, of "sample_request MT_OBSERVE" 4] by auto
qed

theorem session_answers_in_order_witness:
  "\<exists>outs. handle_session (\<lambda>n. int n) 0 sample_coordinator (frame_bytes ping_frame) = Some (sample_coordinator, outs) \<and>
     list_all2 answers [ping_frame] outs"
proof -
  have tail: "recv_frame 0 [] = Inl ''socket closed reading header''" by (simp add: recv_frame_def)
  obtain outs where s: "serve (\<lambda>n. int n) 0 sample_coordinator [ping_frame] = Some (sample_coordinator, outs)"
    using handle_ping [of sample_coordinator 0] decode_sample [of MT_PING]
    by (auto simp: handle_frame_def ping_frame_def message_type_valid_def)
  have h: "handle_session (\<lambda>n. int n) 0 sample_coordinator (concat (map frame_bytes [ping_frame]) @ []) =
      Some (sample_coordinator, outs)"
    using s handle_session_serve [OF tail, of "[ping_frame]"] ping_sendable by simp
  show ?thesis using session_answers_in_order [OF _ tail h] ping_sendable h by auto
qed

theorem stale_act_refused_witness:
  "\<exists>r. act sample_coordinator 4 (sample_request MT_RESERVE) = Some (sample_coordinator, r) \<and> \<not> wr_ok r"
  by (rule stale_act_refused [OF _ sample_stale]) (simp add: rechecked_types_def)

end
