(* ===== verification/QF_Client.thy ===== *)
theory QF_Client
  imports QF_Coordinator
begin

text \<open>
  The two clients of the coordinator: the control tool of \<open>apps/ctl/main.cpp\<close> and the agent
  of \<open>apps/agent/main.cpp\<close>. The connection is a function that takes the bytes of a sent
  frame and gives the bytes the socket then delivers; \<open>None\<close> is a failed send. The locale
  \<open>authority_peer\<close> states what the control tool relies on and is interpreted by the
  coordinator's session loop.
\<close>

section \<open>Library functions the clients use\<close>

text \<open>\<open>std::stoi\<close> and \<open>std::stoul\<close>; \<open>None\<close> is an exception. The latter accepts a minus sign and negates.\<close>

definition stoi :: "string \<Rightarrow> int option" where
  "stoi s = (case stoll s of None \<Rightarrow> None | Some x \<Rightarrow> if x < - (2 ^ 31) \<or> x \<ge> 2 ^ 31 then None else Some x)"

definition stoul :: "string \<Rightarrow> 64 word option" where
  "stoul s =
     (let body = dropWhile is_space s;
          neg = (body \<noteq> [] \<and> hd body = CHR ''-'');
          rest = (if body \<noteq> [] \<and> (hd body = CHR ''-'' \<or> hd body = CHR ''+'') then tl body else body);
          ds = takeWhile is_digit rest;
          x = digits_value ds
      in if ds = [] then None
         else if x \<ge> 2 ^ 64 then None
         else Some (if neg then - of_nat x else of_nat x))"

section \<open>Remote calls\<close>

text \<open>\<open>struct Rpc\<close> with the global \<open>g_auth\<close>; \<open>rpc_in\<close> is what the socket delivered and nobody read yet.\<close>

record rpc =
  rpc_conn :: bool
  rpc_corr :: "64 word"
  rpc_auth :: authority
  rpc_in :: "byte list"

definition rpc_start :: "bool \<Rightarrow> rpc" where
  "rpc_start conn = \<lparr>rpc_conn = conn, rpc_corr = 1, rpc_auth = authority_default, rpc_in = []\<rparr>"

definition learn_authority :: "wire_response \<Rightarrow> authority \<Rightarrow> authority" where
  "learn_authority r a =
     (if gen_value (wr_epoch r) \<noteq> 0
      then a\<lparr>au_epoch := wr_epoch r, au_quota_generation := wr_quota_generation r,
             au_policy_generation := wr_policy_generation r, au_resource_generation := gen_initial\<rparr>
      else a)"

definition rpc_fail :: "string \<Rightarrow> wire_response" where
  "rpc_fail msg = wire_response_default\<lparr>wr_message := msg\<rparr>"

type_synonym 's exchange = "'s \<Rightarrow> byte list \<Rightarrow> ('s \<times> byte list) option"

definition rpc_call :: "'s exchange \<Rightarrow> 's \<Rightarrow> rpc \<Rightarrow> wire_request \<Rightarrow> 's \<times> rpc \<times> wire_response" where
  "rpc_call ex s st req =
     (if \<not> rpc_conn st then (s, st, rpc_fail ''cannot connect to coordinator'')
      else
        (let st1 = st\<lparr>rpc_corr := rpc_corr st + 1\<rparr>
         in case ex s (encode_frame (wq_type req) (rpc_corr st) 0 (encode_request req)) of
              None \<Rightarrow> (s, st1, rpc_fail ''send: send_all failed'')
            | Some (s', delivered) \<Rightarrow>
                (case recv_frame 0 (rpc_in st @ delivered) of
                   Inl err \<Rightarrow> (s', st1, rpc_fail (''recv: '' @ err))
                 | Inr (f, rest) \<Rightarrow>
                     (let resp = (case decode_response (fr_payload f) of Inr r \<Rightarrow> r | Inl e \<Rightarrow> rpc_fail (what e))
                      in (s', st1\<lparr>rpc_auth := learn_authority resp (rpc_auth st), rpc_in := rest\<rparr>, resp)))))"

section \<open>The control tool\<close>

type_synonym fields = "(string, string) hmap"

definition arg_get :: "fields \<Rightarrow> string \<Rightarrow> string \<Rightarrow> string" where
  "arg_get m k d = (case map_of m k of None \<Rightarrow> d | Some v \<Rightarrow> v)"

record ctl_options =
  cl_host :: string
  cl_port :: "16 word"
  cl_json :: bool
  cl_cmd :: string
  cl_fields :: fields

definition ctl_defaults :: ctl_options where
  "ctl_defaults = \<lparr>cl_host = ''127.0.0.1'', cl_port = 6100, cl_json = False, cl_cmd = '''', cl_fields = []\<rparr>"

definition ctl_coordinator :: "string \<Rightarrow> ctl_options \<Rightarrow> ctl_options option" where
  "ctl_coordinator hp opt =
     (let host = takeWhile (\<lambda>c. c \<noteq> CHR '':'') hp;
          portstr = (if CHR '':'' \<in> set hp then tl (dropWhile (\<lambda>c. c \<noteq> CHR '':'') hp) else hp)
      in map_option (\<lambda>p. opt\<lparr>cl_host := host, cl_port := of_int p\<rparr>) (stoi portstr))"

definition ctl_plain :: "string \<Rightarrow> ctl_options \<Rightarrow> ctl_options" where
  "ctl_plain a opt =
     (if a = ''--json'' then opt\<lparr>cl_json := True\<rparr>
      else if cl_cmd opt = '''' \<and> (a = '''' \<or> hd a \<noteq> CHR ''-'') then opt\<lparr>cl_cmd := a\<rparr>
      else if CHR ''='' \<in> set a
        then opt\<lparr>cl_fields := AList.update (takeWhile (\<lambda>c. c \<noteq> CHR ''='') a)
               (tl (dropWhile (\<lambda>c. c \<noteq> CHR ''='') a)) (cl_fields opt)\<rparr>
      else opt)"

fun ctl_parse :: "string list \<Rightarrow> ctl_options \<Rightarrow> ctl_options option" where
  "ctl_parse [] opt = Some opt"
| "ctl_parse (a # rest) opt =
     (case rest of
        [] \<Rightarrow> Some (ctl_plain a opt)
      | b # rest' \<Rightarrow>
          if a = ''--coordinator''
          then (case ctl_coordinator b opt of None \<Rightarrow> None | Some opt' \<Rightarrow> ctl_parse rest' opt')
          else ctl_parse rest (ctl_plain a opt))"

text \<open>
  What building a request comes to: the request, an unknown command, an exception of the
  number parser, or the value of an empty \<open>std::optional\<close>, which is undefined.
\<close>

datatype 'a cli = Cli_ok 'a | Cli_unknown | Cli_exception | Cli_undefined

definition zero_vram :: string where
  "zero_vram = ''accelerator_vram_bytes=0''"

definition group_field :: "fields \<Rightarrow> string \<Rightarrow> tenant_group_id" where
  "group_field m k = (case map_of m k of None \<Rightarrow> null_id | Some v \<Rightarrow> from_hex v)"

definition with_vector :: "string \<Rightarrow> (resource_vector \<Rightarrow> wire_request) \<Rightarrow> wire_request cli" where
  "with_vector s f = (case rv_parse s of None \<Rightarrow> Cli_undefined | Some v \<Rightarrow> Cli_ok (f v))"

definition set_quota_request :: "wire_request \<Rightarrow> fields \<Rightarrow> wire_request cli" where
  "set_quota_request req m =
     (let gu = arg_get m ''guaranteed'' zero_vram
      in case (rv_parse gu, rv_parse (arg_get m ''soft'' gu), rv_parse (arg_get m ''hard'' gu),
               rv_parse (arg_get m ''burst'' zero_vram), rv_parse (arg_get m ''borrowable'' zero_vram)) of
           (Some g, Some s, Some h, Some bu, Some bo) \<Rightarrow>
             Cli_ok (req\<lparr>wq_type := MT_SET_TENANT_QUOTA, wq_tenant := from_hex (arg_get m ''tenant'' ''''),
               wq_quota := (wq_quota req)\<lparr>q_tenant := from_hex (arg_get m ''tenant'' ''''), q_guaranteed := g,
                 q_soft_limit := s, q_hard_limit := h, q_burst_limit := bu, q_borrowable := bo,
                 q_burst_rule := (q_burst_rule (wq_quota req))\<lparr>bu_window := 30000000000\<rparr>\<rparr>\<rparr>)
         | _ \<Rightarrow> Cli_undefined)"

definition ctl_request :: "wire_request \<Rightarrow> string \<Rightarrow> fields \<Rightarrow> wire_request cli" where
  "ctl_request req cmd m =
     (let tenant = from_hex (arg_get m ''tenant'' '''');
          res = from_hex (arg_get m ''reservation'' '''');
          amount = arg_get m ''amount'' ''''
      in
      if cmd = ''create-tenant'' then
        (case stoul (arg_get m ''priority'' ''100'') of
           None \<Rightarrow> Cli_exception
         | Some p \<Rightarrow> Cli_ok (req\<lparr>wq_type := MT_CREATE_TENANT, wq_name := arg_get m ''name'' ''tenant'',
             wq_priority := ucast p, wq_group := group_field m ''group''\<rparr>))
      else if cmd = ''create-group'' then
        Cli_ok (req\<lparr>wq_type := MT_CREATE_GROUP, wq_name := arg_get m ''name'' ''group'',
          wq_kind := (case parse_enum tenant_group_kind_list GK_raw tenant_group_kind_name (arg_get m ''kind'' ''TEAM'') of
                        Some k \<Rightarrow> k | None \<Rightarrow> GK_TEAM),
          wq_group := group_field m ''parent''\<rparr>)
      else if cmd = ''set-quota'' then set_quota_request req m
      else if cmd = ''show-quota'' \<or> cmd = ''show-tenant'' \<or> cmd = ''show-usage'' then
        Cli_ok (req\<lparr>wq_type := MT_ENVELOPE, wq_tenant := tenant\<rparr>)
      else if cmd = ''reserve'' then
        with_vector amount (\<lambda>v. req\<lparr>wq_type := MT_RESERVE, wq_tenant := tenant, wq_req := v\<rparr>)
      else if cmd = ''release'' then Cli_ok (req\<lparr>wq_type := MT_RELEASE, wq_reservation := res\<rparr>)
      else if cmd = ''consume'' then
        with_vector amount (\<lambda>v. req\<lparr>wq_type := MT_START_ALLOCATION, wq_reservation := res, wq_req := v\<rparr>)
      else if cmd = ''borrow'' then
        with_vector amount (\<lambda>v. req\<lparr>wq_type := MT_BORROW, wq_tenant := tenant, wq_req := v\<rparr>)
      else if cmd = ''lend'' then
        with_vector amount (\<lambda>v. req\<lparr>wq_type := MT_LEND, wq_tenant := from_hex (arg_get m ''lender'' ''''),
          wq_tenant2 := from_hex (arg_get m ''borrower'' ''''), wq_req := v\<rparr>)
      else if cmd = ''recall'' then
        Cli_ok (req\<lparr>wq_type := MT_RECALL_BORROW, wq_borrow := from_hex (arg_get m ''borrow'' '''')\<rparr>)
      else if cmd = ''explain'' then
        with_vector amount (\<lambda>v. req\<lparr>wq_type := MT_EVALUATE, wq_tenant := tenant, wq_req := v\<rparr>)
      else if cmd \<in> set [''snapshot'', ''show-agents'', ''show-reservations'', ''show-policy'', ''show-tree'', ''validate'']
        then Cli_ok (req\<lparr>wq_type := MT_SNAPSHOT\<rparr>)
      else if cmd = ''advance-epoch'' then Cli_ok (req\<lparr>wq_type := MT_ADVANCE_EPOCH\<rparr>)
      else if cmd = ''ping'' then Cli_ok (req\<lparr>wq_type := MT_PING\<rparr>)
      else Cli_unknown)"

definition ctl_authorize :: "authority \<Rightarrow> wire_request \<Rightarrow> wire_request" where
  "ctl_authorize g req =
     req\<lparr>wq_auth := (wq_auth req)\<lparr>au_epoch := au_epoch g, au_quota_generation := au_quota_generation g,
       au_policy_generation := au_policy_generation g, au_resource_generation := gen_initial\<rparr>\<rparr>"

text \<open>The exchange of \<open>main\<close>: a ping to learn the authority, then the command.\<close>

definition ctl_converse ::
  "'s exchange \<Rightarrow> 's \<Rightarrow> wire_request \<Rightarrow> wire_request \<Rightarrow> 's \<times> rpc \<times> wire_response" where
  "ctl_converse ex s ping req =
     (let (s1, st1, pong) = rpc_call ex s (rpc_start True) ping
      in rpc_call ex s1 st1 (ctl_authorize (rpc_auth st1) req))"

subsection \<open>Output\<close>

definition envelope_to_string :: "quota_envelope \<Rightarrow> string" where
  "envelope_to_string e =
     ''tenant='' @ to_hex (env_tenant e) @ '' class='' @ to_hex (env_resource_class e) @ newline @
     ''  guaranteed: '' @ rv_to_string (env_guaranteed e) @ newline @
     ''  soft:       '' @ rv_to_string (env_soft_limit e) @ newline @
     ''  hard:       '' @ rv_to_string (env_hard_limit e) @ newline @
     ''  burst:      '' @ rv_to_string (env_burst_limit e) @ newline @
     ''  consumption:'' @ rv_to_string (env_current_consumption e) @ newline @
     ''  reserved:   '' @ rv_to_string (env_reserved e) @ newline @
     ''  committed:  '' @ rv_to_string (env_committed_usage e) @ newline @
     ''  borrowed:   '' @ rv_to_string (env_borrowed e) @ newline @
     ''  burst_use:  '' @ rv_to_string (env_burst_usage e) @ newline @
     ''  lent:       '' @ rv_to_string (env_lent e) @ newline @
     ''  debt:       '' @ rv_to_string (env_debt e) @ newline @
     ''  avail_guaranteed: '' @ show_int (env_available_guaranteed e AcceleratorVRAM) @
     '' (VRAM)  compliance='' @ compliance_state_name (env_compliance e) @
     ''  gen='' @ show_gen (env_generation e) @ '' policy='' @ show_gen (env_policy_generation e) @
     '' epoch='' @ show_gen (env_epoch e)"

definition dimension_code_name :: "16 word \<Rightarrow> string" where
  "dimension_code_name w =
     (case dimension_of_code w of Some d \<Rightarrow> resource_dimension_name d | None \<Rightarrow> ''unknown_dimension'')"

definition print_resp :: "wire_response \<Rightarrow> string" where
  "print_resp r =
     (if \<not> wr_ok r
      then ''ERROR '' @ violation_code_name (wr_code r) @
           (if wr_message r = '''' then '''' else '': '' @ wr_message r) @ newline
      else
        (let res = wr_reservation r; al = wr_allocation r; bo = wr_borrow r; le = wr_lend r; d = wr_decision r
         in (if wr_text r = '''' then '''' else wr_text r @ newline) @
            (if id_is_null (env_tenant (wr_envelope r)) then '''' else envelope_to_string (wr_envelope r) @ newline) @
            (if id_is_null (res_id res) then ''''
             else ''reservation='' @ to_hex (res_id res) @ '' status='' @ reservation_status_name (res_status res) @
                  '' resources='' @ rv_to_string (res_resources res) @ newline) @
            (if id_is_null (al_id al) then ''''
             else ''allocation='' @ to_hex (al_id al) @ '' active='' @ (if al_active al then ''true'' else ''false'') @
                  '' used='' @ rv_to_string (al_used al) @ newline) @
            (if id_is_null (br_id bo) then ''''
             else ''borrow='' @ to_hex (br_id bo) @ '' borrower='' @ to_hex (br_borrower bo) @
                  '' lender='' @ to_hex (br_lender bo) @ '' amount='' @ rv_to_string (br_amount bo) @ newline) @
            (if id_is_null (ln_id le) then ''''
             else ''lend='' @ to_hex (ln_id le) @ '' lender='' @ to_hex (ln_lender le) @
                  '' borrower='' @ to_hex (ln_borrower le) @ '' amount='' @ rv_to_string (ln_amount le) @ newline) @
            (if wd_code d \<noteq> DC_ALLOW \<or> \<not> rv_is_empty (wd_requested d)
             then ''decision='' @ decision_code_name (wd_code d) @ '' requested='' @ rv_to_string (wd_requested d) @
                  '' limit='' @ (case wd_limiting_dimension d of Some w \<Rightarrow> dimension_code_name w | None \<Rightarrow> ''-'') @
                  newline @ explanation_human (wd_explanation d)
             else '''') @
            (if wr_recall r = [] then ''''
             else ''recall:'' @ concat (map (\<lambda>a. '' '' @ recall_action_name a) (wr_recall r)) @ newline)))"

definition json_line :: "wire_response \<Rightarrow> string" where
  "json_line r =
     ''{ \"ok\":'' @ (if wr_ok r then ''true'' else ''false'') @ '', \"code\":\"'' @ violation_code_name (wr_code r) @
     ''\", \"msg\":\"'' @ wr_message r @ ''\" }'' @ newline"

text \<open>
  \<open>main\<close>: standard output and exit code, \<open>None\<close> when an exception ends the program or its
  behaviour is undefined. \<open>hello\<close> and \<open>req\<close> are default-constructed requests, \<open>conn\<close> whether the
  connection is made.
\<close>

definition ctl_main ::
  "'s exchange \<Rightarrow> 's \<Rightarrow> bool \<Rightarrow> wire_request \<Rightarrow> wire_request \<Rightarrow> string list \<Rightarrow> (string \<times> int) option" where
  "ctl_main ex s conn hello req args =
     (if args = []
      then Some (''usage: quota-fabricctl [--coordinator host:port] [--json] <command> [field=value ...]'' @ newline, 2)
      else case ctl_parse args ctl_defaults of
        None \<Rightarrow> None
      | Some opt \<Rightarrow>
          if cl_cmd opt = '''' then Some (''no command'' @ newline, 2)
          else (case ctl_request req (cl_cmd opt) (cl_fields opt) of
                  Cli_unknown \<Rightarrow> Some (''unknown command: '' @ cl_cmd opt @ newline, 2)
                | Cli_exception \<Rightarrow> None
                | Cli_undefined \<Rightarrow> None
                | Cli_ok q \<Rightarrow>
                    if \<not> conn
                    then Some (''ERROR cannot connect to '' @ cl_host opt @ '':'' @ show_nat (unat (cl_port opt)) @ newline, 1)
                    else (let resp = snd (snd (ctl_converse ex s hello q))
                          in if cl_json opt then Some (json_line resp, 0)
                             else Some (print_resp resp, if wr_ok resp then 0 else 1))))"

section \<open>The agent\<close>

record agent_options =
  ag_port :: "16 word"
  ag_host :: string
  ag_name :: string
  ag_backend :: string
  ag_inventory :: string
  ag_fixed_id :: string
  ag_observe :: "(resource_dimension \<times> int) list"

definition agent_defaults :: agent_options where
  "agent_defaults =
     \<lparr>ag_port = 0, ag_host = ''127.0.0.1'', ag_name = ''agent'', ag_backend = ''cpu'', ag_inventory = '''',
      ag_fixed_id = '''', ag_observe = []\<rparr>"

definition observe_list :: "string \<Rightarrow> (resource_dimension \<times> int) list" where
  "observe_list s =
     (case rv_parse s of None \<Rightarrow> []
      | Some v \<Rightarrow> map (\<lambda>d. (d, rv_get v d)) (filter (rv_present v) all_resource_dimensions))"

text \<open>One option with its value; the inner \<open>None\<close> says that the argument is not an option.\<close>

definition agent_option :: "string \<Rightarrow> string \<Rightarrow> agent_options \<Rightarrow> agent_options option option" where
  "agent_option a b opt =
     (if a = ''--port'' then map_option (\<lambda>p. Some (opt\<lparr>ag_port := of_int p\<rparr>)) (stoi b)
      else if a = ''--host'' then Some (Some (opt\<lparr>ag_host := b\<rparr>))
      else if a = ''--name'' then Some (Some (opt\<lparr>ag_name := b\<rparr>))
      else if a = ''--backend'' then Some (Some (opt\<lparr>ag_backend := b\<rparr>))
      else if a = ''--inventory'' then Some (Some (opt\<lparr>ag_inventory := b\<rparr>))
      else if a = ''--agent-id'' then Some (Some (opt\<lparr>ag_fixed_id := b\<rparr>))
      else if a = ''--observe'' then Some (Some (opt\<lparr>ag_observe := ag_observe opt @ observe_list b\<rparr>))
      else Some None)"

fun agent_parse :: "string list \<Rightarrow> agent_options \<Rightarrow> agent_options option" where
  "agent_parse [] opt = Some opt"
| "agent_parse (a # rest) opt =
     (case rest of
        [] \<Rightarrow> Some opt
      | b # rest' \<Rightarrow>
          (case agent_option a b opt of
             None \<Rightarrow> None
           | Some None \<Rightarrow> agent_parse rest opt
           | Some (Some opt') \<Rightarrow> agent_parse rest' opt'))"

text \<open>The registration, with the identifiers the three generators give.\<close>

definition agent_hello ::
  "wire_request \<Rightarrow> agent_options \<Rightarrow> agent_id \<Rightarrow> agent_boot_id \<Rightarrow> node_id \<Rightarrow> wire_request" where
  "agent_hello req opt made boot node =
     (let aid = (if ag_fixed_id opt = '''' then made else from_hex (ag_fixed_id opt))
      in req\<lparr>wq_type := MT_HELLO, wq_agent_id := aid, wq_agent_boot := boot, wq_node_id := node,
           wq_node_boot := gen_initial, wq_name := ag_name opt, wq_path := ag_backend opt,
           wq_agent := (wq_agent req)\<lparr>ad_agent_id := aid, ad_boot_id := boot, ad_node_id := node,
             ad_node_boot_generation := gen_initial, ad_protocol_version := 1, ad_backend := ag_backend opt,
             ad_device_identity := (if take 4 (ag_backend opt) = ''cuda'' then ''RTX-5090'' else ''cpu''),
             ad_inventory := (case (if ag_inventory opt = '''' then None else rv_parse (ag_inventory opt)) of
                Some v \<Rightarrow> v | None \<Rightarrow> ad_inventory (wq_agent req))\<rparr>\<rparr>)"

definition agent_authority :: "wire_request \<Rightarrow> wire_response \<Rightarrow> authority" where
  "agent_authority hello welcome =
     authority_default\<lparr>au_epoch := wr_epoch welcome, au_quota_generation := wr_quota_generation welcome,
       au_policy_generation := wr_policy_generation welcome, au_agent := wq_agent_id hello,
       au_boot := wq_agent_boot hello, au_resource_generation := gen_initial\<rparr>"

definition agent_observation ::
  "wire_request \<Rightarrow> wire_request \<Rightarrow> authority \<Rightarrow> int \<Rightarrow> resource_dimension \<times> int \<Rightarrow> wire_request" where
  "agent_observation req hello auth now = (\<lambda>(dim, amt).
     req\<lparr>wq_type := MT_OBSERVE, wq_auth := auth,
         wq_observation := (wq_observation req)\<lparr>wo_tenant := null_id, wo_dimension := dimension_code dim,
           wo_amount := amt, wo_kind := OK_USAGE_DELTA, wo_resource_generation := gen_initial,
           wo_agent := wq_agent_id hello, wo_boot := wq_agent_boot hello, wo_at := now\<rparr>\<rparr>)"

text \<open>
  \<open>main\<close> after the options: the identity line printed after the welcome with the peer's
  state, or the exit code with its message. A response that does not decode ends the program by an
  exception (\<open>Inl None\<close>).
\<close>

definition agent_register ::
  "'s exchange \<Rightarrow> 's \<Rightarrow> wire_request \<Rightarrow> (int \<times> string) option + 's \<times> wire_response \<times> string \<times> byte list" where
  "agent_register ex s hello =
     (case ex s (encode_frame MT_HELLO 1 0 (encode_request hello)) of
        None \<Rightarrow> Inl (Some (1, ''hello send failed'' @ newline))
      | Some (s', delivered) \<Rightarrow>
          (case recv_frame 0 delivered of
             Inl err \<Rightarrow> Inl (Some (1, ''no welcome'' @ newline))
           | Inr (f, rest) \<Rightarrow>
               (case decode_response (fr_payload f) of
                  Inl e \<Rightarrow> Inl None
                | Inr welcome \<Rightarrow>
                    Inr (s', welcome, ''AGENT_ID='' @ to_hex (wq_agent_id hello) @ '' BOOT_ID='' @ to_hex (wq_agent_boot hello) @
                      '' EPOCH='' @ show_gen (wr_epoch welcome) @ '' QUOTA_GEN='' @ show_gen (wr_quota_generation welcome) @
                      newline, rest))))"

text \<open>
  The observations, one call each with its clock reading; a failed send ends the loop, a
  missing reply does not. \<open>None\<close> is again an exception.
\<close>

fun agent_report ::
  "'s exchange \<Rightarrow> 's \<Rightarrow> byte list \<Rightarrow> 64 word \<Rightarrow> wire_request list \<Rightarrow> 's option" where
  "agent_report ex s inp corr [] = Some s"
| "agent_report ex s inp corr (q # qs) =
     (case ex s (encode_frame MT_OBSERVE corr 0 (encode_request q)) of
        None \<Rightarrow> Some s
      | Some (s', delivered) \<Rightarrow>
          (case recv_frame 0 (inp @ delivered) of
             Inl err \<Rightarrow> agent_report ex s' [] (corr + 1) qs
           | Inr (f, rest) \<Rightarrow>
               (case decode_response (fr_payload f) of
                  Inl e \<Rightarrow> None
                | Inr r \<Rightarrow> agent_report ex s' rest (corr + 1) qs)))"

section \<open>What the control tool relies on\<close>

text \<open>
  A peer answers a ping with one frame whose response carries the authority of its state
  and leaves that state as it is.
\<close>

definition ping_request :: "wire_request \<Rightarrow> bool" where
  "ping_request q \<longleftrightarrow> wq_type q = MT_PING \<and> request_encodable q \<and> length (encode_request q) \<le> unat kMaxFrameSize"

definition sendable_response :: "wire_response \<Rightarrow> bool" where
  "sendable_response r \<longleftrightarrow> response_encodable r \<and> length (encode_response r) \<le> unat kMaxFrameSize"

definition response_frame :: "64 word \<Rightarrow> wire_response \<Rightarrow> byte list" where
  "response_frame corr r = encode_frame (if wr_ok r then MT_RESULT_OK else MT_RESULT_ERR) corr 0 (encode_response r)"

locale authority_peer =
  fixes ex :: "'s exchange" and current :: "'s \<Rightarrow> coordinator_epoch \<times> quota_generation \<times> policy_generation"
  assumes pong: "ping_request q \<Longrightarrow> \<exists>r. ex s (encode_frame MT_PING corr 0 (encode_request q)) =
      Some (s, response_frame corr r) \<and> sendable_response r \<and>
      (wr_epoch r, wr_quota_generation r, wr_policy_generation r) = current s"
begin

lemma call_response:
  assumes "rpc_conn st" "rpc_in st = []" "sendable_response r"
    and "ex s (encode_frame (wq_type q) (rpc_corr st) 0 (encode_request q)) = Some (s', response_frame (rpc_corr st) r)"
  shows "rpc_call ex s st q =
    (s', st\<lparr>rpc_corr := rpc_corr st + 1, rpc_auth := learn_authority (seen_response r) (rpc_auth st)\<rparr>, seen_response r)"
proof -
  have "message_type_valid (if wr_ok r then MT_RESULT_OK else MT_RESULT_ERR)"
    by (simp add: message_type_valid_def)
  moreover have "decode_response (encode_response r) = Inr (seen_response r)"
    using assms(3) by (simp add: sendable_response_def decode_response_encoded)
  ultimately show ?thesis
    using assms recv_frame_encoded [of "if wr_ok r then MT_RESULT_OK else MT_RESULT_ERR" "encode_response r" "rpc_corr st" 0 "[]"]
    by (simp add: rpc_call_def response_frame_def sendable_response_def Let_def)
qed

lemma ping_learns:
  assumes "ping_request q" "gen_value (fst (current s)) \<noteq> 0"
  shows "\<exists>st pong. rpc_call ex s (rpc_start True) q = (s, st, pong) \<and> rpc_conn st \<and> rpc_in st = [] \<and> rpc_corr st = 2 \<and>
    (au_epoch (rpc_auth st), au_quota_generation (rpc_auth st), au_policy_generation (rpc_auth st)) = current s"
proof -
  from pong [OF assms(1), of s 1] obtain r where
    r: "ex s (encode_frame MT_PING 1 0 (encode_request q)) = Some (s, response_frame 1 r)" "sendable_response r"
      "(wr_epoch r, wr_quota_generation r, wr_policy_generation r) = current s" by blast
  have t: "wq_type q = MT_PING" using assms(1) by (simp add: ping_request_def)
  have "gen_value (wr_epoch r) \<noteq> 0" using r(3) assms(2) by (metis fst_conv)
  then show ?thesis
    using call_response [of "rpc_start True" r s q s] r t
    by (simp add: rpc_start_def learn_authority_def seen_response_def)
qed

end

section \<open>The coordinator as the peer\<close>

text \<open>A session that receives the given bytes: the state it leaves and all it sends back.\<close>

definition coordinator_peer :: "int \<Rightarrow> coordinator exchange" where
  "coordinator_peer now co bytes =
     map_option (\<lambda>(co', outs). (co', concat outs)) (handle_session (\<lambda>_. now) 0 co bytes)"

definition engine_authority :: "coordinator \<Rightarrow> coordinator_epoch \<times> quota_generation \<times> policy_generation" where
  "engine_authority co =
     (im_epoch (co_engine co), im_quota_generation (co_engine co), pol_generation (im_policy (co_engine co)))"

lemma coordinator_peer_frame:
  assumes "message_type_valid t" "request_encodable q" "length (encode_request q) \<le> unat kMaxFrameSize"
    and "handle_request co now q = Some (co', r)"
  shows "coordinator_peer now co (encode_frame t corr 0 (encode_request q)) = Some (co', response_frame corr r)"
proof -
  let ?f = "\<lparr>fr_type = t, fr_flags = 0, fr_correlation = corr, fr_payload = encode_request q\<rparr>"
  have "recv_frame 0 [] = Inl ''socket closed reading header''" by (simp add: recv_frame_def)
  moreover have "decode_request (encode_request q) = Inr q"
    using request.dec_enc [OF assms(2), of "[]"] by (simp add: decode_request_def)
  moreover have "frame_sendable ?f" using assms(1,3) by (simp add: frame_sendable_def)
  ultimately show ?thesis
    using handle_session_serve [of "[]" _ "[?f]" "\<lambda>_. now" 0 co] assms(4)
    by (simp add: coordinator_peer_def frame_bytes_def handle_frame_def response_frame_def)
qed

lemma length_show_nat: "n < 10 ^ Suc k \<Longrightarrow> length (show_nat n) \<le> Suc k"
proof (induction k arbitrary: n)
  case 0
  then show ?case by (subst show_nat.simps) simp
next
  case (Suc k)
  then have "n div 10 < 10 ^ Suc k" by (simp add: less_mult_imp_div_less mult.commute)
  with Suc.IH show ?case by (subst show_nat.simps) simp
qed

lemma length_show_gen: "length (show_gen g) \<le> 20"
proof -
  have "unat (gen_value g) < 2 ^ 64" using unsigned_less [of "gen_value g"] by simp
  then show ?thesis unfolding show_gen_def using length_show_nat [of _ 19] by simp
qed

definition pong_response :: "impl \<Rightarrow> wire_response" where
  "pong_response im =
     with_authority im (wire_response_default\<lparr>wr_ok := True,
       wr_text := ''pong epoch='' @ show_gen (im_epoch im) @ '' quota_gen='' @ show_gen (im_quota_generation im)\<rparr>)"

lemma length_signed_vector: "length (w_signed_vector v) = 138"
  by (simp add: w_signed_vector_def w_i64_def all_resource_dimensions_def)

text \<open>A response with nothing but a status and a short text fits into a frame.\<close>

definition plain_response :: "impl \<Rightarrow> bool \<Rightarrow> violation_code \<Rightarrow> string \<Rightarrow> string \<Rightarrow> wire_response" where
  "plain_response im okay code msg t =
     with_authority im (wire_response_default\<lparr>wr_ok := okay, wr_code := code, wr_message := msg, wr_text := t\<rparr>)"

lemma plain_sendable:
  assumes "enum_valid violation_code_list violation_code_raw code" "length msg \<le> 200" "length t \<le> 200"
  shows "sendable_response (plain_response im okay code msg t)"
proof -
  have "response_encodable (plain_response im okay code msg t)"
    using default_response_encodable assms
    by (simp add: plain_response_def with_authority_def response_encodable_def string_ok_def max_string_def)
  moreover have "length (encode_response (plain_response im okay code msg t)) \<le> unat kMaxFrameSize"
    using assms(2,3)
    by (simp add: plain_response_def with_authority_def wire_response_default_def encode_response_def w_bool_def
        w_string_def w_env_def w_decision_def w_res_def w_alloc_def w_borrow_def w_lend_def w_id_def w_gen_def w_i64_def
        length_vector length_signed_vector quota_envelope_default_def wire_decision_default_def explanation_human_def
        write_reservation_def reservation_default_def write_allocation_def allocation_default_def
        write_borrow_def borrow_record_default_def w_id_opt_def write_lending_def kMaxFrameSize_def)
  ultimately show ?thesis by (simp add: sendable_response_def)
qed

lemma pong_sendable: "sendable_response (pong_response im)"
proof -
  let ?t = "''pong epoch='' @ show_gen (im_epoch im) @ '' quota_gen='' @ show_gen (im_quota_generation im)"
  have "enum_valid violation_code_list violation_code_raw (wr_code wire_response_default)"
    using default_response_encodable by (simp add: response_encodable_def)
  moreover have "length ?t \<le> 200" using length_show_gen [of "im_epoch im"] length_show_gen [of "im_quota_generation im"] by simp
  ultimately have "sendable_response (plain_response im True (wr_code wire_response_default) (wr_message wire_response_default) ?t)"
    by (intro plain_sendable) (simp_all add: wire_response_default_def)
  then show ?thesis by (simp add: plain_response_def pong_response_def)
qed

lemma handle_ping_request: "wq_type q = MT_PING \<Longrightarrow> handle_request co now q = Some (co, pong_response (co_engine co))"
  by (simp add: handle_request_def handle_type_def Let_def pong_response_def with_authority_def)

interpretation coordinator: authority_peer "coordinator_peer now" engine_authority for now
proof
  fix q and s :: coordinator and corr
  assume q: "ping_request q"
  then have "coordinator_peer now s (encode_frame MT_PING corr 0 (encode_request q)) =
      Some (s, response_frame corr (pong_response (co_engine s)))"
    by (intro coordinator_peer_frame handle_ping_request) (simp_all add: ping_request_def message_type_valid_def)
  then show "\<exists>r. coordinator_peer now s (encode_frame MT_PING corr 0 (encode_request q)) =
      Some (s, response_frame corr r) \<and> sendable_response r \<and>
      (wr_epoch r, wr_quota_generation r, wr_policy_generation r) = engine_authority s"
    using pong_sendable by (intro exI [of _ "pong_response (co_engine s)"]) (simp add: pong_response_def engine_authority_def)
qed

text \<open>
  C24. The control tool's ping teaches it the engine's authority, so that the command it
  sends next passes the coordinator's authority check, and the tool receives the
  coordinator's response to exactly that command. Hypotheses: the epoch is valid, the
  messages are within the frame size.
\<close>

theorem ctl_command_served:
  assumes "ping_request hello" "request_encodable req" "length (encode_request req) \<le> unat kMaxFrameSize"
    and "gen_is_valid (im_epoch (co_engine co))"
  shows "\<exists>st pong q. rpc_call (coordinator_peer now) co (rpc_start True) hello = (co, st, pong) \<and>
    q = ctl_authorize (rpc_auth st) req \<and> check_authority (co_engine co) q = status_success \<and>
    (\<forall>co' r. handle_request co now q = Some (co', r) \<and> sendable_response r \<longrightarrow>
      (\<exists>st'. ctl_converse (coordinator_peer now) co hello req = (co', st', seen_response r)))"
proof -
  from coordinator.ping_learns [OF assms(1), of co now] assms(4)
  obtain st pong where st: "rpc_call (coordinator_peer now) co (rpc_start True) hello = (co, st, pong)"
    "rpc_conn st" "rpc_in st = []" and
    auth: "(au_epoch (rpc_auth st), au_quota_generation (rpc_auth st), au_policy_generation (rpc_auth st)) =
      engine_authority co"
    by (auto simp: engine_authority_def gen_is_valid_def)
  let ?q = "ctl_authorize (rpc_auth st) req"
  have ok: "check_authority (co_engine co) ?q = status_success"
    using auth by (simp add: check_authority_def ctl_authorize_def engine_authority_def)
  have enc: "request_encodable ?q" "length (encode_request ?q) \<le> unat kMaxFrameSize"
    using assms(2,3)
    by (simp_all add: request_encodable_def ctl_authorize_def encode_request_def w_authority_def w_gen_def w_id_def)
  have "\<exists>st'. ctl_converse (coordinator_peer now) co hello req = (co', st', seen_response r)"
    if "handle_request co now ?q = Some (co', r)" "sendable_response r" for co' r
  proof -
    have "message_type_valid (wq_type ?q)" using enc by (simp add: request_encodable_def)
    from coordinator_peer_frame [OF this enc that(1), of "rpc_corr st"]
    show ?thesis using coordinator.call_response [OF st(2,3) that(2)] st(1) by (auto simp: ctl_converse_def Let_def)
  qed
  then show ?thesis using st(1) ok by blast
qed

section \<open>The observations of the agent\<close>

lemma dimension_code_of: "dimension_of_code (dimension_code d) = Some d"
  by (cases d) (simp_all add: dimension_of_code_def dimension_code_def all_resource_dimensions_def)

text \<open>
  The observations the agent sends name the null tenant, so that they are refused and change
  nothing unless a tenant with the null id exists.
\<close>

theorem agent_observations_dropped:
  assumes "\<not> tenant_exists (co_engine co) null_id"
  shows "\<exists>r. handle_request co now (agent_observation req hello auth at_time x) = Some (co, r) \<and> \<not> wr_ok r"
  using assms
  by (cases x)
     (auto simp: handle_request_def handle_type_def Let_def act_def observe_def agent_observation_def dimension_code_of
       apply_wire_observation_def apply_observation_def observation_of_def)

theorem agent_observations_dropped_witness:
  "\<exists>r. handle_request sample_coordinator 5
     (agent_observation (sample_request MT_OBSERVE) (sample_request MT_HELLO) authority_default 4 (KVCacheBytes, 3)) =
     Some (sample_coordinator, r) \<and> \<not> wr_ok r"
  by (rule agent_observations_dropped)
     (simp add: sample_coordinator_def set_policy_def coordinator_policy_valid sample_engine_def impl_initial_def
       tenant_exists_def contains_key_def)

lemma sample_request_length: "length (encode_request (sample_request t)) \<le> unat kMaxFrameSize"
  by (simp add: kMaxFrameSize_def encode_request_def w_message_type_def w_authority_def w_gen_def w_id_def w_group_def
      w_string_def w_quota_def write_quota_def w_obs_def w_i64_def w_bool_def length_vector sample_request_def
      wire_request_default_def wire_observation_default_def)

theorem ctl_command_served_witness:
  "\<exists>st pong. rpc_call (coordinator_peer 7) sample_coordinator (rpc_start True) (sample_request MT_PING) =
       (sample_coordinator, st, pong) \<and>
     check_authority (co_engine sample_coordinator) (ctl_authorize (rpc_auth st) (sample_request MT_RESERVE)) =
       status_success"
proof -
  have "ping_request (sample_request MT_PING)" "request_encodable (sample_request MT_RESERVE)"
    "gen_is_valid (im_epoch (co_engine sample_coordinator))"
    by (simp_all add: ping_request_def sample_request_encodable sample_request_length message_type_valid_def
        gen_is_valid_def gen_initial_def)
  from ctl_command_served [OF this(1,2) sample_request_length this(3), of 7]
  show ?thesis by auto
qed

end
