(* ===== verification/QF_Cuda.thy ===== *)
theory QF_Cuda
  imports QF_Records "HOL-Library.Multiset"
begin

text \<open>
  The CUDA backend of \<open>backends/cuda/cuda_backend.cu\<close>. The runtime is not part of the sources:
  the outcome of each of its calls is a member of an argument, the order in which the
  threads of a launch run is a list, and device memory starts with arbitrary contents. The
  acquisitions and releases of device memory and events are recorded in a trace. The lemmas:
  every path releases what it acquired, and the workload computes the specified checksum
  under any schedule of the threads.
\<close>

section \<open>Kernels\<close>

definition ceil_div :: "32 word \<Rightarrow> 32 word \<Rightarrow> 32 word" where
  "ceil_div a b = (a + b - 1) div b"

text \<open>The body of each kernel for the thread with global index \<open>i\<close>.\<close>

definition qf_generate :: "32 word \<Rightarrow> 32 word \<Rightarrow> 32 word \<Rightarrow> 32 word list \<Rightarrow> 32 word list" where
  "qf_generate seed n i out = (if i < n then out[unat i := seed + i] else out)"

definition qf_checksum :: "32 word list \<Rightarrow> 32 word \<Rightarrow> 32 word \<Rightarrow> 64 word \<Rightarrow> 64 word" where
  "qf_checksum inp n i acc = (if i < n then acc + ucast (inp ! unat i) else acc)"

text \<open>
  A launch of \<open>blocks\<close> blocks of 256 threads: thread \<open>t\<close> of block \<open>k\<close> has index
  \<open>k * 256 + t\<close>, and \<open>order\<close> lists these threads as they run.
\<close>

definition launch_threads :: "32 word \<Rightarrow> nat list" where
  "launch_threads blocks = [0..<unat blocks * 256]"

definition schedule_of :: "32 word \<Rightarrow> nat list \<Rightarrow> bool" where
  "schedule_of blocks order \<longleftrightarrow> mset order = mset (launch_threads blocks)"

definition launch :: "(32 word \<Rightarrow> 's \<Rightarrow> 's) \<Rightarrow> nat list \<Rightarrow> 's \<Rightarrow> 's" where
  "launch body order s = fold (\<lambda>k. body (of_nat k)) order s"

section \<open>Device discovery\<close>

record device_info =
  di_name :: string
  di_total_memory :: int
  di_free_memory :: int
  di_major :: int
  di_minor :: int

record cuda_backend =
  cb_available :: bool
  cb_device :: device_info
  cb_error :: string

definition cuda_backend_default :: cuda_backend where
  "cuda_backend_default =
     \<lparr>cb_available = False,
      cb_device = \<lparr>di_name = '''', di_total_memory = 0, di_free_memory = 0, di_major = 0, di_minor = 0\<rparr>,
      cb_error = ''''\<rparr>"

text \<open>What the runtime answers: \<open>None\<close> and \<open>False\<close> for a failed call.\<close>

record discovery =
  cu_device_count :: "int option"
  cu_set_device :: bool
  cu_properties :: "(string \<times> int \<times> int) option"
  cu_mem_info :: "(64 word \<times> 64 word) option"

definition discover :: "discovery \<Rightarrow> cuda_backend" where
  "discover rt =
     (let b = cuda_backend_default
      in case cu_device_count rt of
           None \<Rightarrow> b\<lparr>cb_error := ''no CUDA device''\<rparr>
         | Some c \<Rightarrow>
             if c = 0 then b\<lparr>cb_error := ''no CUDA device''\<rparr>
             else if \<not> cu_set_device rt then b\<lparr>cb_error := ''cudaSetDevice failed''\<rparr>
             else (case cu_properties rt of
                     None \<Rightarrow> b\<lparr>cb_error := ''cudaGetDeviceProperties failed''\<rparr>
                   | Some (name, major, minor) \<Rightarrow>
                       (let b1 = b\<lparr>cb_device := (cb_device b)\<lparr>di_name := take 255 name, di_major := major, di_minor := minor\<rparr>\<rparr>
                        in case cu_mem_info rt of
                             None \<Rightarrow> b1\<lparr>cb_error := ''cudaMemGetInfo failed''\<rparr>
                           | Some (free_b, total_b) \<Rightarrow>
                               b1\<lparr>cb_device := (cb_device b1)\<lparr>di_free_memory := sint free_b, di_total_memory := sint total_b\<rparr>,
                                  cb_available := True\<rparr>)))"

definition display_name :: "device_info \<Rightarrow> string" where
  "display_name d = di_name d @ '' sm_'' @ show_int (di_major d) @ show_int (di_minor d)"

section \<open>Memory\<close>

datatype cuda_resource = Din | Dout | Dacc | Start_event | Stop_event

datatype cuda_action = Acquire cuda_resource | Release cuda_resource

text \<open>\<open>alloc\<close> and the two copies: whether the call is made and succeeds. \<open>ok\<close> is the runtime's answer.\<close>

definition alloc :: "int \<Rightarrow> bool \<Rightarrow> bool" where
  "alloc bytes ok \<longleftrightarrow> \<not> bytes \<le> 0 \<and> ok"

definition free_mem :: "cuda_resource option \<Rightarrow> bool \<Rightarrow> bool" where
  "free_mem ptr ok \<longleftrightarrow> (case ptr of Some _ \<Rightarrow> ok | None \<Rightarrow> True)"

definition h2d :: "int \<Rightarrow> bool \<Rightarrow> bool" where
  "h2d bytes ok \<longleftrightarrow> bytes > 0 \<and> ok"

definition d2h :: "int \<Rightarrow> bool \<Rightarrow> bool" where
  "d2h bytes ok \<longleftrightarrow> bytes > 0 \<and> ok"

section \<open>Workloads\<close>

record 'e workload_io =
  wi_malloc_in :: bool
  wi_malloc_out :: bool
  wi_malloc_acc :: bool
  wi_memset :: bool
  wi_copy :: bool
  wi_last_error :: bool
  wi_memory :: "32 word list"
  wi_order1 :: "nat list"
  wi_order2 :: "nat list"
  wi_elapsed :: 'e

definition destroy_events :: "cuda_action list" where
  "destroy_events = [Release Start_event, Release Stop_event]"

text \<open>
  The result of \<open>run_kernel\<close>: its return value, what it stores in \<open>*elapsed_ms\<close> (if it does),
  the device buffer as the kernel leaves it, and the acquisitions and releases.
\<close>

record 'e kernel_run =
  kr_ok :: bool
  kr_elapsed :: "'e option"
  kr_buffer :: "32 word list"
  kr_trace :: "cuda_action list"

definition run_kernel :: "int \<Rightarrow> 'e workload_io \<Rightarrow> 'e kernel_run" where
  "run_kernel n io =
     (if n \<le> 0 \<or> \<not> wi_malloc_in io then \<lparr>kr_ok = False, kr_elapsed = None, kr_buffer = [], kr_trace = []\<rparr>
      else \<lparr>kr_ok = wi_last_error io,
            kr_elapsed = Some (wi_elapsed io),
            kr_buffer = launch (qf_generate 42 (of_int n)) (wi_order1 io) (wi_memory io),
            kr_trace = [Acquire Din, Acquire Start_event, Acquire Stop_event, Release Din] @ destroy_events\<rparr>)"

text \<open>
  The result of \<open>run_workload\<close>: \<open>*checksum\<close> and \<open>*bytes_moved\<close> when it returns true,
  what it stores in \<open>*elapsed_ms\<close> (also when \<open>cudaGetLastError\<close> then fails it), and the trace.
\<close>

record 'e workload_run =
  wr_outputs :: "(int \<times> int) option"
  wr_elapsed :: "'e option"
  wr_trace :: "cuda_action list"

definition failed_run :: "cuda_action list \<Rightarrow> 'e workload_run" where
  "failed_run tr = \<lparr>wr_outputs = None, wr_elapsed = None, wr_trace = tr\<rparr>"

definition run_workload :: "int \<Rightarrow> 'e workload_io \<Rightarrow> 'e workload_run" where
  "run_workload elements io =
     (if elements \<le> 0 then failed_run []
      else
        (let bytes = s64 (elements * 4);
             events = [Acquire Start_event, Acquire Stop_event];
             n = (of_int elements :: 32 word);
             dout = launch (qf_generate 7 n) (wi_order1 io) (wi_memory io);
             dacc = launch (qf_checksum dout n) (wi_order2 io) 0;
             t1 = events @ [Acquire Din];
             t2 = t1 @ [Acquire Dout];
             t3 = t2 @ [Acquire Dacc];
             cleanup = [Release Din, Release Dout, Release Dacc] @ destroy_events
         in if \<not> alloc bytes (wi_malloc_in io) then failed_run (events @ destroy_events)
            else if \<not> alloc bytes (wi_malloc_out io) then failed_run (t1 @ [Release Din] @ destroy_events)
            else if \<not> wi_malloc_acc io then failed_run (t2 @ [Release Din, Release Dout] @ destroy_events)
            else if \<not> wi_memset io then failed_run (t3 @ cleanup)
            else if \<not> d2h bytes (wi_copy io) then failed_run (t3 @ cleanup)
            else if \<not> wi_last_error io then (failed_run (t3 @ cleanup))\<lparr>wr_elapsed := Some (wi_elapsed io)\<rparr>
            else (let host_sum = foldl (\<lambda>a i. a + ucast (dout ! i)) (0 :: 64 word) [0..<nat elements]
                  in \<lparr>wr_outputs = Some (sint host_sum, s64 (bytes * 2)), wr_elapsed = Some (wi_elapsed io),
                      wr_trace = t3 @ cleanup\<rparr>)))"

section \<open>Nothing leaks\<close>

definition balanced :: "cuda_action list \<Rightarrow> bool" where
  "balanced tr \<longleftrightarrow> (\<forall>r. count (mset tr) (Acquire r) = count (mset tr) (Release r) \<and> count (mset tr) (Acquire r) \<le> 1)"

lemma workload_balanced: "balanced (wr_trace (run_workload elements io))"
  unfolding run_workload_def Let_def by (auto simp: balanced_def destroy_events_def failed_run_def)

text \<open>
  On every path of run_workload and run_kernel, failures of the runtime included, each
  device buffer and event is acquired at most once and released exactly when it was
  acquired.
\<close>

theorem cuda_no_leak: "balanced (wr_trace (run_workload elements io)) \<and> balanced (kr_trace (run_kernel n io))"
proof
  show "balanced (kr_trace (run_kernel n io))"
    by (simp add: run_kernel_def balanced_def destroy_events_def)
  show "balanced (wr_trace (run_workload elements io))" by (rule workload_balanced)
qed

section \<open>The checksum\<close>

text \<open>The specification: the sum of the generated elements modulo \<open>2 ^ 64\<close>.\<close>

definition expected_sum :: "nat \<Rightarrow> 64 word" where
  "expected_sum n = (\<Sum>i<n. ucast (7 + of_nat i :: 32 word))"

lemma generate_fold:
  assumes "list_all (\<lambda>k. k < 2 ^ 32) order" "n \<le> length mem" "n < 2 ^ 32"
  shows "length (launch (qf_generate seed (of_nat n)) order mem) = length mem \<and>
    (\<forall>i < n. i \<in> set order \<or> mem ! i = seed + of_nat i \<longrightarrow>
      launch (qf_generate seed (of_nat n)) order mem ! i = seed + of_nat i)"
  using assms(1,2)
proof (induction order arbitrary: mem)
  case (Cons k order)
  have lt: "((of_nat k :: 32 word) < of_nat n) = (k < n)" "unat (of_nat k :: 32 word) = k"
    using Cons.prems(1) assms(3) by (simp_all add: word_less_nat_alt unat_of_nat)
  let ?m = "qf_generate seed (of_nat n) (of_nat k) mem"
  have m: "?m = (if k < n then mem[k := seed + of_nat k] else mem)" by (simp add: qf_generate_def lt)
  then have "length ?m = length mem" by simp
  moreover have "?m ! i = seed + of_nat i" if "i < n" "i = k \<or> mem ! i = seed + of_nat i" for i
    using that Cons.prems(2) by (auto simp: m nth_list_update)
  ultimately show ?case
    using Cons.IH [of ?m] Cons.prems by (auto simp: launch_def)
qed (simp add: launch_def)

lemma checksum_fold:
  assumes "list_all (\<lambda>k. k < 2 ^ 32) order" "n < 2 ^ 32"
  shows "launch (qf_checksum inp (of_nat n)) order acc =
    acc + (\<Sum>k \<in># mset order. if k < n then ucast (inp ! k) else 0)"
  using assms(1)
proof (induction order arbitrary: acc)
  case (Cons k order)
  have "((of_nat k :: 32 word) < of_nat n) = (k < n)" "unat (of_nat k :: 32 word) = k"
    using Cons.prems assms(2) by (simp_all add: word_less_nat_alt unat_of_nat)
  then have "launch (qf_checksum inp (of_nat n)) (k # order) acc =
      launch (qf_checksum inp (of_nat n)) order (acc + (if k < n then ucast (inp ! k) else 0))"
    by (simp add: launch_def qf_checksum_def)
  then show ?case using Cons by (simp add: add.assoc)
qed (simp add: launch_def)

lemma threads_cover:
  assumes "n + 255 < 2 ^ 32"
  shows "n \<le> unat (ceil_div (of_nat n) 256) * 256" "unat (ceil_div (of_nat n) 256) * 256 < 2 ^ 32"
proof -
  have d: "ceil_div (of_nat n) 256 = of_nat (n + 255) div 256" by (simp add: ceil_div_def add.commute)
  have "unat (of_nat (n + 255) :: 32 word) = n + 255" using assms by (subst unat_of_nat) simp
  moreover have "unat (256 :: 32 word) = 256" by simp
  ultimately have "unat (ceil_div (of_nat n) 256) = (n + 255) div 256" by (simp only: d unat_div_distrib)
  then show "n \<le> unat (ceil_div (of_nat n) 256) * 256" "unat (ceil_div (of_nat n) 256) * 256 < 2 ^ 32"
    using assms by linarith+
qed

lemma schedule_mset: "schedule_of blocks order \<Longrightarrow> mset order = mset_set {..<unat blocks * 256}"
  by (simp add: schedule_of_def launch_threads_def lessThan_atLeast0)

lemma schedule_threads: "schedule_of blocks order \<Longrightarrow> set order = {..<unat blocks * 256}"
  using schedule_mset [THEN arg_cong [where f = set_mset]] by simp

lemma device_results:
  assumes "n + 255 < 2 ^ 32" "length mem = n"
    and "schedule_of (ceil_div (of_nat n) 256) order1" "schedule_of (ceil_div (of_nat n) 256) order2"
  shows "launch (qf_generate 7 (of_nat n)) order1 mem = map (\<lambda>i. 7 + of_nat i) [0..<n]"
    and "launch (qf_checksum (map (\<lambda>i. 7 + of_nat i) [0..<n]) (of_nat n)) order2 0 = expected_sum n"
proof -
  let ?b = "unat (ceil_div (of_nat n) 256) * 256"
  note cover = threads_cover [OF assms(1)]
  have all: "list_all (\<lambda>k. k < 2 ^ 32) order1" "list_all (\<lambda>k. k < 2 ^ 32) order2"
    using schedule_threads [OF assms(3)] schedule_threads [OF assms(4)] cover(2) by (auto simp: list_all_iff)
  show "launch (qf_generate 7 (of_nat n)) order1 mem = map (\<lambda>i. 7 + of_nat i) [0..<n]"
    using generate_fold [OF all(1), of n mem 7] assms(1,2) cover(1) schedule_threads [OF assms(3)]
    by (intro nth_equalityI) auto
  have "(\<Sum>k \<in># mset order2. if k < n then f k else 0) = (\<Sum>k<n. f k)" for f :: "nat \<Rightarrow> 64 word"
  proof -
    have "(\<Sum>k \<in># mset order2. if k < n then f k else 0) = (\<Sum>k \<in> {..<?b}. if k < n then f k else 0)"
      unfolding schedule_mset [OF assms(4)] by (simp add: sum_unfold_sum_mset)
    also have "\<dots> = (\<Sum>k \<in> {..<n}. f k)"
      by (rule sum.mono_neutral_cong_right) (use cover(1) in auto)
    finally show ?thesis .
  qed
  then show "launch (qf_checksum (map (\<lambda>i. 7 + of_nat i) [0..<n]) (of_nat n)) order2 0 = expected_sum n"
    using checksum_fold [OF all(2), of n _ 0] assms(1) by (simp add: expected_sum_def)
qed

lemma host_sum: "foldl (\<lambda>a i. a + ucast (map (\<lambda>i. 7 + of_nat i :: 32 word) [0..<n] ! i)) (0 :: 64 word) [0..<m] =
    (\<Sum>i<m. ucast (map (\<lambda>i. 7 + of_nat i :: 32 word) [0..<n] ! i))"
  by (induction m) simp_all

lemma workload_result:
  assumes "0 < n" "n + 255 < 2 ^ 32" "length (wi_memory io) = n"
    and "schedule_of (ceil_div (of_nat n) 256) (wi_order1 io)" "schedule_of (ceil_div (of_nat n) 256) (wi_order2 io)"
    and "wi_malloc_in io" "wi_malloc_out io" "wi_malloc_acc io" "wi_memset io" "wi_copy io" "wi_last_error io"
  shows "wr_outputs (run_workload (int n) io) = Some (sint (expected_sum n), 8 * int n) \<and>
    launch (qf_checksum (launch (qf_generate 7 (of_nat n)) (wi_order1 io) (wi_memory io)) (of_nat n)) (wi_order2 io) 0 =
      expected_sum n"
proof -
  note dev = device_results [OF assms(2-5)]
  have "s64 (int n * 4) = int n * 4" "s64 (int n * 4 * 2) = 8 * int n"
    using assms(2) by (simp_all add: s64_id i64_bounds)
  then show ?thesis
    using assms(1,6-11) dev host_sum [of n n]
    by (simp add: run_workload_def Let_def alloc_def d2h_def expected_sum_def)
qed

text \<open>
  C40. When every runtime call succeeds, a workload of n elements returns as checksum the
  sum of 7 + i over the elements and 8 * n as bytes moved, and the sum that the second
  kernel accumulates on the device by atomic additions is the same, for every order in which
  the threads of the two launches run. Hypotheses: 0 < n and n + 255 < 2^32, since the
  kernels take 32-bit sizes; each schedule runs exactly the launched threads.
\<close>

theorem workload_checksum:
  assumes "0 < n" "n + 255 < 2 ^ 32" "length (wi_memory io) = n"
    and "schedule_of (ceil_div (of_nat n) 256) (wi_order1 io)" "schedule_of (ceil_div (of_nat n) 256) (wi_order2 io)"
    and "wi_malloc_in io" "wi_malloc_out io" "wi_malloc_acc io" "wi_memset io" "wi_copy io" "wi_last_error io"
  shows "wr_outputs (run_workload (int n) io) = Some (sint (expected_sum n), 8 * int n) \<and>
    launch (qf_checksum (launch (qf_generate 7 (of_nat n)) (wi_order1 io) (wi_memory io)) (of_nat n)) (wi_order2 io) 0 =
      expected_sum n"
  by (rule workload_result [OF assms])

definition sample_run :: "unit workload_io" where
  "sample_run = \<lparr>wi_malloc_in = True, wi_malloc_out = True, wi_malloc_acc = True, wi_memset = True,
     wi_copy = True, wi_last_error = True, wi_memory = [5, 5], wi_order1 = rev (launch_threads 1),
     wi_order2 = launch_threads 1, wi_elapsed = ()\<rparr>"

lemma sample_schedules: "schedule_of (ceil_div (of_nat 2) 256) (wi_order1 sample_run)"
  "schedule_of (ceil_div (of_nat 2) 256) (wi_order2 sample_run)"
proof -
  have c: "ceil_div (of_nat 2) 256 = 1" by (simp add: ceil_div_def)
  show "schedule_of (ceil_div (of_nat 2) 256) (wi_order1 sample_run)"
    "schedule_of (ceil_div (of_nat 2) 256) (wi_order2 sample_run)"
    unfolding c schedule_of_def by (simp_all only: sample_run_def workload_io.simps mset_rev)
qed

theorem workload_checksum_witness: "wr_outputs (run_workload 2 sample_run) = Some (15, 16)"
proof -
  have "{..<2 :: nat} = {0, 1}" by auto
  then have e: "sint (expected_sum 2) = 15" by (simp add: expected_sum_def)
  have f: "length (wi_memory sample_run) = 2" "wi_malloc_in sample_run" "wi_malloc_out sample_run"
    "wi_malloc_acc sample_run" "wi_memset sample_run" "wi_copy sample_run" "wi_last_error sample_run"
    by (simp_all only: sample_run_def workload_io.simps) simp
  have "(0 :: nat) < 2" "(2 :: nat) + 255 < 2 ^ 32" by simp_all
  note run = workload_checksum [OF this f(1) sample_schedules f(2-7), THEN conjunct1]
  have "int 2 = 2" "8 * int 2 = 16" by simp_all
  with run e show ?thesis by (simp only:)
qed

end
