(* ===== verification/QF_Ledger.thy ===== *)
theory QF_Ledger
  imports QF_Accounted
begin

text \<open>
  The specification of the engine as a quota ledger, and its abstraction. The ledger keeps the
  granted reservations and the limit of every account, a tenant or a group; a grant has to fit
  into every account it is charged to. The abstraction reads it off the engine's records; the
  lemmas relate it to the engine's counters and show which operations leave it alone.
\<close>

section \<open>The specification\<close>

datatype account = Tenant_account tenant_id | Group_account tenant_group_id

record ledger =
  lg_entries :: "(reservation_id \<times> tenant_id \<times> resource_vector) list"
  lg_member :: "account \<Rightarrow> tenant_id \<Rightarrow> bool"
  lg_limit :: "account \<Rightarrow> resource_dimension \<Rightarrow> int option"

definition charged :: "ledger \<Rightarrow> account \<Rightarrow> resource_dimension \<Rightarrow> int" where
  "charged L a d = sum_list (map (\<lambda>(rid, t, v). if lg_member L a t then rv_get v d else 0) (lg_entries L))"

text \<open>Consumable dimensions have rolling windows instead of a limit on what is held; \<open>None\<close> is no limit.\<close>

definition below :: "int \<Rightarrow> int option \<Rightarrow> bool" where
  "below x lim = (case lim of None \<Rightarrow> True | Some l \<Rightarrow> x \<le> l)"

definition solvent :: "ledger \<Rightarrow> bool" where
  "solvent L \<longleftrightarrow> (\<forall>a d. \<not> is_consumable d \<longrightarrow> below (charged L a d) (lg_limit L a d))"

lemma below_mono: "x \<le> y \<Longrightarrow> below y lim \<Longrightarrow> below x lim"
  by (auto simp: below_def split: option.splits)

inductive ledger_step :: "ledger \<Rightarrow> ledger \<Rightarrow> bool" where
  ledger_grant:
    "rid \<notin> fst ` set (lg_entries L) \<Longrightarrow> rv_ok v \<Longrightarrow>
     (\<And>a d. lg_member L a t \<Longrightarrow> rv_present v d \<Longrightarrow> \<not> is_consumable d \<Longrightarrow>
       below (charged L a d + rv_get v d) (lg_limit L a d)) \<Longrightarrow>
     ledger_step L (L\<lparr>lg_entries := lg_entries L @ [(rid, t, v)]\<rparr>)"
| ledger_free:
    "(\<And>e. e \<in> set (lg_entries L) \<Longrightarrow> rv_ok (snd (snd e))) \<Longrightarrow>
     ledger_step L (L\<lparr>lg_entries := filter (\<lambda>(k, t, v). k \<noteq> rid) (lg_entries L)\<rparr>)"
| ledger_configure: "solvent (L\<lparr>lg_member := m, lg_limit := l\<rparr>) \<Longrightarrow> ledger_step L (L\<lparr>lg_member := m, lg_limit := l\<rparr>)"
| ledger_idle: "ledger_step L L"

lemma charged_append: "charged (L\<lparr>lg_entries := lg_entries L @ [(rid, t, v)]\<rparr>) a d =
    charged L a d + (if lg_member L a t then rv_get v d else 0)"
  by (simp add: charged_def)

lemma sum_list_filter_le:
  fixes f :: "'a \<Rightarrow> int"
  assumes "\<And>x. x \<in> set xs \<Longrightarrow> 0 \<le> f x"
  shows "sum_list (map f (filter P xs)) \<le> sum_list (map f xs)"
  using assms by (induction xs) (auto simp: add_increasing)

lemma charged_free:
  assumes "\<And>e. e \<in> set (lg_entries L) \<Longrightarrow> rv_ok (snd (snd e))"
  shows "charged (L\<lparr>lg_entries := filter P (lg_entries L)\<rparr>) a d \<le> charged L a d"
proof -
  have "sum_list (map (\<lambda>(rid, t, v). if lg_member L a t then rv_get v d else 0) (filter P (lg_entries L))) \<le> charged L a d"
    unfolding charged_def by (rule sum_list_filter_le) (use assms in \<open>force simp: rv_okD\<close>)
  then show ?thesis by (simp add: charged_def)
qed

lemma ledger_step_solvent: "ledger_step L L' \<Longrightarrow> solvent L \<Longrightarrow> solvent L'"
proof (induction rule: ledger_step.induct)
  case (ledger_grant rid L v t)
  have absent: "rv_get v d = 0" if "\<not> rv_present v d" for d using ledger_grant.hyps(2) that by (simp add: rv_ok_def)
  have "below (charged L a d + (if lg_member L a t then rv_get v d else 0)) (lg_limit L a d)" if "\<not> is_consumable d" for a d
    using ledger_grant.prems ledger_grant.hyps(3) [of a d] absent [of d] that
    by (cases "rv_present v d") (auto simp: solvent_def)
  then show ?case by (simp add: solvent_def charged_append)
next
  case (ledger_free L rid)
  then show ?case
    using below_mono [OF charged_free [of L, OF ledger_free.hyps(1)]] by (simp add: solvent_def)
qed auto

section \<open>The engine's ledger\<close>

definition in_group :: "impl \<Rightarrow> tenant_group_id \<Rightarrow> tenant_id \<Rightarrow> bool" where
  "in_group im g t = (case map_of (im_tenants im) t of None \<Rightarrow> False | Some tn \<Rightarrow> has_ancestor im tn g)"

fun account_member :: "impl \<Rightarrow> account \<Rightarrow> tenant_id \<Rightarrow> bool" where
  "account_member im (Tenant_account t') t = (t = t')"
| "account_member im (Group_account g) t = in_group im g t"

fun account_limit :: "impl \<Rightarrow> account \<Rightarrow> resource_dimension \<Rightarrow> int option" where
  "account_limit im (Tenant_account t) d = Some (hard_at (effective_lattice im t) d)"
| "account_limit im (Group_account g) d =
     (case map_of (im_group_quota im) g of
        None \<Rightarrow> None
      | Some q \<Rightarrow> if rv_present (q_hard_limit q) d then Some (rv_get (q_hard_limit q) d) else None)"

definition ledger_of :: "impl \<Rightarrow> ledger" where
  "ledger_of im = \<lparr>lg_entries = map (\<lambda>(rid, r). (rid, res_tenant r, res_resources r)) (im_reservations im),
     lg_member = account_member im, lg_limit = account_limit im\<rparr>"

definition held :: "impl \<Rightarrow> tenant_id \<Rightarrow> resource_dimension \<Rightarrow> int" where
  "held im t d = sum_list (map (\<lambda>(rid, r). if res_tenant r = t then rv_get (res_resources r) d else 0) (im_reservations im))"

section \<open>Steps that leave the books alone\<close>

text \<open>
  Borrowing, returning and synchronising change neither reservations nor limits, and keep
  the reserved and consumed counters in step with the records.
\<close>

definition same_books :: "impl \<Rightarrow> impl \<Rightarrow> bool" where
  "same_books im im' \<longleftrightarrow>
     im_reservations im' = im_reservations im \<and> im_allocations im' = im_allocations im \<and>
     im_tenants im' = im_tenants im \<and> im_groups im' = im_groups im \<and>
     im_local_quota im' = im_local_quota im \<and> im_group_quota im' = im_group_quota im \<and>
     (\<forall>t. in_step im t \<longrightarrow> in_step im' t)"

lemma same_books_refl [simp]: "same_books im im"
  by (simp add: same_books_def)

lemma same_books_trans: "same_books im im1 \<Longrightarrow> same_books im1 im2 \<Longrightarrow> same_books im im2"
  by (simp add: same_books_def)

lemma reserved_remaining_records:
  assumes "im_reservations im' = im_reservations im" "im_allocations im' = im_allocations im"
  shows "reserved_remaining im' t = reserved_remaining im t" "computed_consumed im' t = computed_consumed im t"
  by (simp_all add: reserved_remaining_def alloc_used_by_def computed_consumed_def assms cong: if_cong)

lemma same_books_usage_mut:
  assumes "same_books im im1" "\<And>u. us_reserved (f u) = us_reserved u" "\<And>u. us_consumption (f u) = us_consumption u"
  shows "same_books im (usage_mut t f im1)"
  using assms reserved_remaining_records [of "usage_mut t f im1" im1] by (simp add: same_books_def in_step_def)

lemma same_books_sync:
  assumes "same_books im im1"
  shows "same_books im (sync_usage now t im1)"
  using assms reserved_remaining_records [of "usage_mut t (synced im1 now t) im1" im1]
  unfolding sync_usage_def by (simp add: same_books_def in_step_def)

lemma same_books_records:
  assumes "same_books im im1" "im_usage im' = im_usage im1" "im_reservations im' = im_reservations im1"
    "im_allocations im' = im_allocations im1" "im_tenants im' = im_tenants im1" "im_groups im' = im_groups im1"
    "im_local_quota im' = im_local_quota im1" "im_group_quota im' = im_group_quota im1"
  shows "same_books im im'"
  using assms reserved_remaining_records [of im' im1] by (simp add: same_books_def in_step_def usage_of_def)

lemma same_books_event: "same_books im im1 \<Longrightarrow> same_books im (emit_event now et t det im1)"
  by (rule same_books_records) simp_all

lemma same_books_fields:
  assumes "same_books im im1"
  shows "same_books im (im1\<lparr>im_lends := l\<rparr>)" "same_books im (im1\<lparr>im_borrows := b\<rparr>)"
    "same_books im (im1\<lparr>im_funding := f\<rparr>)" "same_books im (im1\<lparr>im_ids := i\<rparr>)"
    "same_books im (im1\<lparr>im_ids := i, im_lends := l, im_borrows := b\<rparr>)"
  by (rule same_books_records [OF assms]; simp)+

lemmas same_books_rules = same_books_refl same_books_event same_books_sync same_books_usage_mut same_books_fields

lemma same_books_draw_from: "same_books im (fst (draw_from im now lender borrower amount rid))"
  unfolding draw_from_def Let_def case_prod_beta fst_conv by (intro same_books_rules) simp_all

lemma same_books_borrow_impl: "same_books im (fst (borrow_impl im now borrower amount auth rid))"
  using same_books_draw_from by (auto simp: borrow_impl_def case_prod_beta split: option.split)

lemma same_books_return_to_lender: "same_books im im1 \<Longrightarrow> same_books im (return_to_lender lid ret im1)"
  unfolding return_to_lender_def Let_def
  by (auto split: option.split intro!: same_books_fields same_books_usage_mut)

lemma same_books_return_borrow: "same_books im im1 \<Longrightarrow> same_books im (fst (return_borrow im1 now bid amount))"
  unfolding return_borrow_def Let_def
  by (auto split: option.split intro!: same_books_return_to_lender same_books_fields same_books_event same_books_usage_mut)

lemma same_books_return_all: "same_books im im1 \<Longrightarrow> same_books im (return_all now ids im1)"
  unfolding return_all_def
proof (induction ids arbitrary: im1)
  case (Cons b ids)
  have "same_books im (return_indexed now b im1)"
    unfolding return_indexed_def Let_def
    by (auto split: option.split intro!: same_books_return_borrow same_books_fields Cons.prems)
  with Cons.IH show ?case by simp
qed simp

lemma same_books_reserve_loop:
  assumes "same_books im im1"
  shows "same_books im (fst (reserve_loop now t req auth eff cb ds im1 burst ids))"
  using assms
proof (induction ds arbitrary: im1 burst ids)
  case (Cons d ds)
  have step: "same_books im (fst (borrow_impl im1 now t amount auth None))" for amount
    using Cons.prems same_books_borrow_impl same_books_trans by blast
  have "same_books im (fst (case borrow_impl im1 now t amount auth None of
      (im1, Inl st) \<Rightarrow> (return_all now ids im1, Inl (f st))
    | (im1, Inr b) \<Rightarrow> reserve_loop now t req auth eff cb ds im1 burst' (ids @ [br_id b])))" for amount burst' f
    using step [of amount] by (auto split: prod.split sum.split intro: same_books_return_all Cons.IH)
  with Cons show ?case by (simp add: Let_def)
qed simp

lemma same_books_borrow: "same_books im (fst (borrow im now b amount auth))"
  using same_books_borrow_impl [of im now b amount auth None]
  by (auto simp: borrow_def intro!: same_books_sync split: prod.split sum.split)

lemma same_books_lend: "same_books im (fst (lend im now l b amount auth))"
  using same_books_borrow_impl [of im now b amount auth None]
  by (auto simp: lend_def Let_def intro!: same_books_sync split: prod.split sum.split option.split)

lemma same_books_recall_borrow: "same_books im (fst (recall_borrow im now bid auth))"
  using same_books_return_borrow [of im im]
  by (auto simp: recall_borrow_def case_prod_beta intro!: same_books_event same_books_sync split: option.split)

lemma same_books_reserve_refused:
  assumes "reserve im now t req auth = (im', Inl st)"
  shows "same_books im im'"
proof -
  have "same_books im (usage_mut t (\<lambda>u. u) im)" by (rule same_books_usage_mut) simp_all
  from same_books_reserve_loop [OF this, of now t req auth "effective_lattice im t" "committed_of (usage_of im t)"
      all_resource_dimensions rv_empty "[]"]
  show ?thesis using assms by (auto simp: reserve_def Let_def split: if_splits prod.splits sum.splits)
qed

section \<open>The invariant of a run\<close>

definition booked :: "impl \<Rightarrow> bool" where
  "booked im \<longleftrightarrow>
     wf_state im \<and> im_allocations im = [] \<and> (\<forall>t. in_step im t) \<and>
     (\<forall>(k, r) \<in> set (im_reservations im). res_status r = RS_COMMITTED \<and> tenant_exists im (res_tenant r)) \<and>
     (\<forall>(t, tn) \<in> set (im_tenants im). \<forall>g. ten_group tn = Some g \<longrightarrow> group_exists im g) \<and>
     (\<forall>(g, q) \<in> set (im_group_quota im). group_exists im g) \<and>
     (\<forall>t d. held im t d \<le> INT64_MAX) \<and> solvent (ledger_of im)"

lemma bookedD:
  assumes "booked im"
  shows "wf_state im" "im_allocations im = []" "in_step im t"
    "(k, r) \<in> set (im_reservations im) \<Longrightarrow> res_status r = RS_COMMITTED"
    "(k, r) \<in> set (im_reservations im) \<Longrightarrow> tenant_exists im (res_tenant r)"
    "map_of (im_group_quota im) g = Some q \<Longrightarrow> group_exists im g"
    "held im t d \<le> INT64_MAX" "solvent (ledger_of im)"
  using assms by (auto simp: booked_def dest!: map_of_SomeD)

lemma charged_tenant: "charged (ledger_of im) (Tenant_account t) d = held im t d"
  by (simp add: charged_def ledger_of_def held_def comp_def case_prod_beta' cong: if_cong)

text \<open>Without allocations the counters are the sums of the reservations.\<close>

definition vectors_of :: "tenant_id \<Rightarrow> (reservation_id \<times> reservation) list \<Rightarrow> resource_vector list" where
  "vectors_of t xs = map (\<lambda>e. res_resources (snd e)) (filter (\<lambda>e. res_tenant (snd e) = t) xs)"

lemma held_vectors: "held im t d = sum_list (map (\<lambda>v. rv_get v d) (vectors_of t (im_reservations im)))"
proof -
  have "sum_list (map (\<lambda>(rid, r). if res_tenant r = t then rv_get (res_resources r) d else 0) xs) =
      sum_list (map (\<lambda>v. rv_get v d) (vectors_of t xs))" for xs :: "(reservation_id \<times> reservation) list"
    by (induction xs) (auto simp: vectors_of_def)
  then show ?thesis by (simp add: held_def)
qed

lemma fold_acc_vectors:
  assumes "\<forall>e \<in> set xs. active_res (snd e)"
  shows "fold (\<lambda>(k, r) acc. if res_tenant r = t \<and> active_res r then rv_acc acc (res_resources r) else acc) xs s =
    foldl rv_acc s (vectors_of t xs)"
  using assms by (induction xs arbitrary: s) (auto simp: vectors_of_def)

lemma booked_counters:
  assumes "booked im"
  shows "us_consumption (usage_of im t) = rv_empty"
    "rv_get (us_reserved (usage_of im t)) d = held im t d"
    "rv_get (committed_of (usage_of im t)) d = held im t d"
proof -
  note B = bookedD [OF assms]
  show c: "us_consumption (usage_of im t) = rv_empty"
    using B(3) [of t] by (simp add: in_step_def computed_consumed_def B(2))
  have act: "\<forall>e \<in> set (im_reservations im). active_res (snd e)"
    using B(4) by (force simp: active_res_def)
  have "reserved_remaining im t = rv_sum (vectors_of t (im_reservations im))"
    by (simp add: reserved_remaining_if alloc_used_by_def B(2) remaining_of_def rv_sum_def fold_acc_vectors [OF act] cong: if_cong)
  then have r: "us_reserved (usage_of im t) = rv_sum (vectors_of t (im_reservations im))"
    using B(3) [of t] by (simp add: in_step_def)
  have ok: "list_all rv_ok (vectors_of t (im_reservations im))"
    using wf_recordsD(1) [OF B(1)] by (auto simp: vectors_of_def list_all_iff)
  show res: "rv_get (us_reserved (usage_of im t)) d = held im t d" for d
    using rv_sum_exact(1) [OF ok] B(7) by (simp add: r held_vectors)
  show "rv_get (committed_of (usage_of im t)) d = held im t d"
    using B(7) usages_okD [OF wf_stateD(2) [OF B(1)], of t] by (subst committed_of_val) (simp_all add: c res)
qed

lemma tenant_sum_swap:
  fixes f :: "reservation \<Rightarrow> int"
  assumes "distinct_keys ts" "\<forall>e \<in> set xs. res_tenant (snd e) \<in> fst ` set ts"
  shows "sum_list (map (\<lambda>(tid, tn). if P tn then sum_list (map (\<lambda>(rid, r). if res_tenant r = tid then f r else 0) xs) else 0) ts) =
    sum_list (map (\<lambda>(rid, r). if case map_of ts (res_tenant r) of None \<Rightarrow> False | Some tn \<Rightarrow> P tn then f r else 0) xs)"
  using assms(2)
proof (induction xs)
  case Nil
  show ?case by (induction ts) auto
next
  case (Cons e xs)
  obtain k r where e: "e = (k, r)" by (cases e)
  obtain tn where tn: "map_of ts (res_tenant r) = Some tn"
    using Cons.prems e by (metis list.set_intros(1) map_of_eq_None_iff option.exhaust snd_conv)
  have "sum_list (map (\<lambda>(tid, tn). if P tn then sum_list (map (\<lambda>(rid, r). if res_tenant r = tid then f r else 0) (e # xs)) else 0) ts) =
      sum_list (map (\<lambda>(tid, tn). if P tn then sum_list (map (\<lambda>(rid, r). if res_tenant r = tid then f r else 0) xs) else 0) ts) +
      (if P tn then f r else 0)"
    by (rule sum_list_one_changed [OF assms(1) tn]) (auto simp: e)
  then show ?case using Cons tn e by simp
qed

lemma charged_group:
  assumes "booked im"
  shows "charged (ledger_of im) (Group_account g) d = subtree_total im g d"
proof -
  note B = bookedD [OF assms] and C = booked_counters [OF assms]
  have ex: "\<forall>e \<in> set (im_reservations im). res_tenant (snd e) \<in> fst ` set (im_tenants im)"
  proof
    fix e assume "e \<in> set (im_reservations im)"
    then have "tenant_exists im (res_tenant (snd e))" using B(5) [of "fst e" "snd e"] by simp
    then show "res_tenant (snd e) \<in> fst ` set (im_tenants im)"
      by (force simp: tenant_exists_def contains_key_def image_iff dest!: map_of_SomeD)
  qed
  have "subtree_total im g d = sum_list (map (\<lambda>(tid, tn). if has_ancestor im tn g then held im tid d else 0) (im_tenants im))"
    by (simp add: subtree_total_def C(1,2) cong: if_cong)
  also have "\<dots> = sum_list (map (\<lambda>(rid, r). if in_group im g (res_tenant r) then rv_get (res_resources r) d else 0) (im_reservations im))"
    unfolding held_def in_group_def by (rule tenant_sum_swap [OF wf_keys(2) [OF B(1)] ex])
  finally show ?thesis
    by (simp add: charged_def ledger_of_def comp_def case_prod_beta' cong: if_cong)
qed

lemma hard_at_cong:
  assumes "im_tenants im' = im_tenants im" "im_groups im' = im_groups im"
    "im_local_quota im' = im_local_quota im" "im_group_quota im' = im_group_quota im"
  shows "hard_at (effective_lattice im' t) d = hard_at (effective_lattice im t) d"
proof -
  have "quota_chain im' t = quota_chain im t" by (simp add: quota_chain_def ancestor_groups_def assms cong: option.case_cong)
  then show ?thesis by (simp add: hard_at_def)
qed

lemma account_cong:
  assumes "im_tenants im' = im_tenants im" "im_groups im' = im_groups im"
    "im_local_quota im' = im_local_quota im" "im_group_quota im' = im_group_quota im"
  shows "account_member im' = account_member im" "account_limit im' = account_limit im"
proof -
  have "account_member im' a t = account_member im a t" for a t
    by (cases a) (simp_all add: in_group_def has_ancestor_def assms cong: option.case_cong)
  moreover have "account_limit im' a d = account_limit im a d" for a d
    by (cases a) (simp_all add: hard_at_cong [OF assms] assms)
  ultimately show "account_member im' = account_member im" "account_limit im' = account_limit im" by blast+
qed

lemma booked_same_books:
  assumes "booked im" "same_books im im'" "wf_state im'"
  shows "booked im' \<and> ledger_of im' = ledger_of im"
proof -
  have "ledger_of im' = ledger_of im"
    using assms(2) account_cong [of im' im] by (simp add: same_books_def ledger_of_def)
  with assms show ?thesis
    by (simp add: booked_def same_books_def held_def tenant_exists_def group_exists_def)
qed

end
