(* ===== verification/QF_Simulation.thy ===== *)
theory QF_Simulation
  imports Main
begin

text \<open>
  The interface between a program's step relation and its abstract specification: a forward
  simulation with an invariant. Runs of the program are mapped to runs of the specification,
  so that what every step of the specification preserves holds along all runs.
\<close>

locale simulation =
  fixes start :: "'c \<Rightarrow> bool" and cstep :: "'c \<Rightarrow> 'c \<Rightarrow> bool" and inv :: "'c \<Rightarrow> bool"
    and abs :: "'c \<Rightarrow> 'a" and astep :: "'a \<Rightarrow> 'a \<Rightarrow> bool"
  assumes start_inv: "start c \<Longrightarrow> inv c"
    and step_inv: "inv c \<Longrightarrow> cstep c c' \<Longrightarrow> inv c'"
    and step_abs: "inv c \<Longrightarrow> cstep c c' \<Longrightarrow> astep (abs c) (abs c')"
begin

lemma run_inv:
  assumes "cstep\<^sup>*\<^sup>* c c'" "inv c"
  shows "inv c'"
  using assms by (induction rule: rtranclp_induct) (auto intro: step_inv)

lemma run_abs:
  assumes "cstep\<^sup>*\<^sup>* c c'" "inv c"
  shows "astep\<^sup>*\<^sup>* (abs c) (abs c')"
  using assms(1)
proof (induction rule: rtranclp_induct)
  case (step y z)
  have "inv y" using run_inv [OF step.hyps(1) assms(2)] .
  with step show ?case by (meson rtranclp.rtrancl_into_rtrancl step_abs)
qed simp

lemma run_safe:
  assumes "start c" "cstep\<^sup>*\<^sup>* c c'" "P (abs c)" "\<And>a a'. astep a a' \<Longrightarrow> P a \<Longrightarrow> P a'"
  shows "P (abs c')"
proof -
  have "astep\<^sup>*\<^sup>* (abs c) (abs c')" by (rule run_abs [OF assms(2) start_inv [OF assms(1)]])
  then show ?thesis using assms(3) by (induction rule: rtranclp_induct) (auto intro: assms(4))
qed

end

end
