(* ===== verification/QF_Governed.thy ===== *)
theory QF_Governed
  imports QF_Ledger QF_Simulation
begin

text \<open>
  The engine refines the quota ledger: along any run of reservations, releases, commits,
  borrows, recalls and configuration changes, what is held is within the limits of every
  tenant and group. Allocations and observations are not part of these runs (\<open>QF_Gaps\<close> says
  what starting an allocation does to the counters), nor are reservations that overdraw the
  hard limit by borrowing.
\<close>

section \<open>Grants\<close>

lemma reserve_keeps_limits:
  assumes "reserve im now t req auth = (im', Inr res)"
  shows "im_local_quota im' = im_local_quota im" "im_group_quota im' = im_group_quota im"
proof -
  from reserve_success [OF assms] obtain im2 burst ids where
    loop: "reserve_loop now t req auth (effective_lattice im t) (committed_of (usage_of im t))
       all_resource_dimensions (usage_mut t (\<lambda>u. u) im) rv_empty [] = (im2, Inr (burst, ids))"
    and rc: "record_reservation now t req auth burst ids (activate_burst now t (effective_lattice im t) burst im2) = (im', res)"
    by metis
  have "same_books im (usage_mut t (\<lambda>u. u) im)" by (rule same_books_usage_mut) simp_all
  from same_books_reserve_loop [OF this] loop have "same_books im im2" by (metis fst_conv)
  moreover have "im' = fst (record_reservation now t req auth burst ids (activate_burst now t (effective_lattice im t) burst im2))"
    by (simp add: rc)
  ultimately show "im_local_quota im' = im_local_quota im" "im_group_quota im' = im_group_quota im"
    by (simp_all add: same_books_def record_reservation_def activate_burst_def sync_usage_def Let_def case_prod_beta)
qed

lemma up_reaches_chain: "up_reaches n gs cur g \<Longrightarrow> map_of gs g \<noteq> None \<Longrightarrow> g \<in> set (up_chain n gs cur)"
  by (induction n gs cur g rule: up_reaches.induct) (auto split: option.splits if_splits)

lemma in_group_ancestor: "in_group im g t \<Longrightarrow> group_exists im g \<Longrightarrow> g \<in> set (ancestor_groups im t)"
  by (auto simp: in_group_def ancestor_groups_def has_ancestor_def group_exists_def contains_key_def
      intro!: up_reaches_chain split: option.splits)

text \<open>The sums that a reservation leaves behind in the range of \<open>std::int64_t\<close>.\<close>

definition totals_fit :: "impl \<Rightarrow> bool" where
  "totals_fit im \<longleftrightarrow> list_all (\<lambda>(g, q). list_all (\<lambda>d. subtree_total im g d \<le> INT64_MAX) all_resource_dimensions) (im_group_quota im)"

lemma totals_fitD: "totals_fit im \<Longrightarrow> map_of (im_group_quota im) g = Some q \<Longrightarrow> subtree_total im g d \<le> INT64_MAX"
  by (auto simp: totals_fit_def list_all_iff all_dimensions_UNIV dest!: map_of_SomeD)

lemma grant_fits:
  assumes "booked im" "rv_ok req" "reserve im now t req auth = (im', Inr res)" "unborrowed im' res"
    and "fresh_reservation im" "request_fits im t req" "totals_fit im'"
    and "account_member im a t" "rv_present req d" "\<not> is_consumable d"
  shows "below (charged (ledger_of im) a d + rv_get req d) (account_limit im a d)"
proof (cases a)
  case (Tenant_account t')
  note B = bookedD [OF assms(1)] and C = booked_counters [OF assms(1)]
  have "held im t d \<le> hard_at (effective_lattice im t) d"
    using B(8) assms(10) charged_tenant [of im t d]
    by (force simp: solvent_def ledger_of_def below_def dest: spec [of _ "Tenant_account t"])
  with reserve_hard_bound [OF B(1) assms(2-5) B(3) assms(6,9,10)] show ?thesis
    using Tenant_account assms(8) by (simp add: C(3) charged_tenant below_def)
next
  case (Group_account g)
  note B = bookedD [OF assms(1)]
  have "subtree_total im g d + rv_get req d \<le> rv_get (q_hard_limit q) d"
    if q: "map_of (im_group_quota im) g = Some q" "rv_present (q_hard_limit q) d" for q
  proof -
    have q': "map_of (im_group_quota im') g = Some q" using q(1) by (simp add: reserve_keeps_limits [OF assms(3)])
    have anc: "g \<in> set (ancestor_groups im t)"
      using assms(8) Group_account B(6) [OF q(1)] by (simp add: in_group_ancestor)
    from reserve_parent_bound [OF B(1) assms(2-5) B(3) assms(6,9,10) anc q]
    have "rv_get (subtree_committed im' g) d = rv_get (subtree_committed im g) d + rv_get req d \<and>
        rv_get (subtree_committed im' g) d \<le> rv_get (q_hard_limit q) d"
      using totals_fitD [OF assms(7) q'] by blast
    moreover have "rv_get (subtree_committed im g) d = subtree_total im g d"
    proof (rule subtree_committed_total)
      show "usages_ok im" using B(1) by (rule wf_stateD)
      have "subtree_total im g e \<le> subtree_total im' g e" for e
        using reserve_subtree_total [OF B(1) assms(2-5) B(3) assms(6) anc] assms(2) by (simp add: rv_okD)
      then show "\<forall>d. subtree_total im g d \<le> INT64_MAX" using totals_fitD [OF assms(7) q'] order_trans by blast
    qed
    ultimately show ?thesis by simp
  qed
  then show ?thesis
    using Group_account by (auto simp: charged_group [OF assms(1)] below_def split: option.splits)
qed

definition refines_step :: "impl \<Rightarrow> impl \<Rightarrow> bool" where
  "refines_step im im' \<longleftrightarrow> booked im' \<and> ledger_step (ledger_of im) (ledger_of im')"

lemma refines_same_books: "booked im \<Longrightarrow> same_books im im' \<Longrightarrow> wf_state im' \<Longrightarrow> refines_step im im'"
  using booked_same_books [of im im'] by (simp add: refines_step_def ledger_idle)

lemma in_step_aggregates:
  assumes "in_step im t" "aggregates im' t = aggregates im t" "counters (usage_of im' t) = counters (usage_of im t)"
  shows "in_step im' t"
  using assms by (simp add: in_step_def aggregates_def counters_def)

lemma refines_grant:
  assumes "booked im" "rv_ok req" "reserve im now t req auth = (im', Inr res)" "unborrowed im' res"
    and "fresh_reservation im" "request_fits im t req" "totals_fit im'"
  shows "refines_step im im'"
proof -
  note B = bookedD [OF assms(1)] and R = reserve_unborrowed [OF assms(3,4)]
  have new: "map_of (im_reservations im) (res_id res) = None" using assms(5) by (simp add: fresh_reservation_def R(1))
  have ent: "im_reservations im' = im_reservations im @ [(res_id res, res)]" by (simp add: R(5) emplace_new [OF new])
  have led: "ledger_of im' = (ledger_of im)\<lparr>lg_entries := lg_entries (ledger_of im) @ [(res_id res, t, req)]\<rparr>"
    using account_cong [OF R(10,11) reserve_keeps_limits [OF assms(3)]] by (simp add: ledger_of_def ent R(2,3))
  have step: "ledger_step (ledger_of im) (ledger_of im')"
    unfolding led
  proof (rule ledger_grant [OF _ assms(2)])
    show "res_id res \<notin> fst ` set (lg_entries (ledger_of im))"
      using new by (force simp: ledger_of_def map_of_eq_None_iff image_iff)
    show "below (charged (ledger_of im) a d + rv_get req d) (lg_limit (ledger_of im) a d)"
      if "lg_member (ledger_of im) a t" "rv_present req d" "\<not> is_consumable d" for a d
      using grant_fits [OF assms, of a d] that by (simp add: ledger_of_def)
  qed
  have "in_step im' t'" for t'
  proof (cases "t' = t")
    case True
    then show ?thesis using reserve_counters(3) [OF assms(3-5) B(3)] by simp
  next
    case False
    have "aggregates im' t' = aggregates im t'"
      by (rule aggregates_reservations [OF R(7,8,9)]) (use False R(2) in \<open>auto simp: R(5) intro!: fold_emplace_skip\<close>)
    with B(3) [of t'] R(13) [OF False] show ?thesis by (auto intro: in_step_aggregates)
  qed
  moreover have "held im' t' d \<le> INT64_MAX" for t' d
    using B(7) [of t' d] assms(6) booked_counters(1,2) [OF assms(1), of t]
    by (auto simp: held_def [of im'] ent R(2,3) held_def [symmetric] request_fits_def list_all_iff all_dimensions_UNIV)
  moreover have "wf_state im'" using wf_reserve [OF B(1) assms(2), of now t auth] assms(3) by simp
  moreover have "\<forall>(k, r) \<in> set (im_reservations im'). res_status r = RS_COMMITTED \<and> tenant_exists im' (res_tenant r)"
    using assms(1) R(4,2,17) by (auto simp: booked_def ent tenant_exists_def R(10))
  ultimately have "booked im'"
    using assms(1) ledger_step_solvent [OF step] reserve_keeps_limits [OF assms(3)]
    by (simp add: booked_def R(7,10,11) group_exists_def)
  with step show ?thesis by (simp add: refines_step_def)
qed

section \<open>Releases\<close>

lemma delete_filter: "AList.delete k xs = filter (\<lambda>(k', v). k' \<noteq> k) xs"
  by (induction xs) auto

lemma same_booksD:
  assumes "same_books im im'"
  shows "im_reservations im' = im_reservations im" "im_allocations im' = im_allocations im"
    "im_tenants im' = im_tenants im" "im_groups im' = im_groups im"
    "im_local_quota im' = im_local_quota im" "im_group_quota im' = im_group_quota im" "in_step im t \<Longrightarrow> in_step im' t"
  using assms by (simp_all add: same_books_def)

text \<open>The state before the final synchronisation of \<open>release\<close>: one reservation is gone.\<close>

lemma release_shape:
  assumes "booked im" "\<not> stale_epoch im auth" "map_of (im_reservations im) rid = Some r"
  obtains im4 where "fst (release im now rid auth) =
      emit_event now ET_RELEASE (res_tenant r) ''reservation released'' (sync_usage now (res_tenant r) im4)"
    "im_reservations im4 = AList.delete rid (im_reservations im)" "im_allocations im4 = []"
    "im_tenants im4 = im_tenants im" "im_groups im4 = im_groups im"
    "im_local_quota im4 = im_local_quota im" "im_group_quota im4 = im_group_quota im"
    "\<And>t. t \<noteq> res_tenant r \<Longrightarrow> in_step im4 t"
proof -
  note B = bookedD [OF assms(1)]
  define im1 where "im1 = im\<lparr>im_reservations := AList.update rid (r\<lparr>res_status := RS_RELEASED\<rparr>) (im_reservations im)\<rparr>"
  define im2 where "im2 = (case map_of (im_funding im1) rid of None \<Rightarrow> im1 | Some f \<Rightarrow> return_all now (fu_borrows f) im1)"
  define im4 where "im4 = im2\<lparr>im_allocations := map (\<lambda>(aid, a). (aid, if al_reservation a = rid then a\<lparr>al_active := False\<rparr> else a))
        (im_allocations im2), im_reservations := AList.delete rid (im_reservations im2),
      im_funding := AList.delete rid (im_funding im2)\<rparr>"
  have "active_res r" using B(4) map_of_SomeD [OF assms(3)] by (simp add: active_res_def)
  have books: "same_books im1 im2" by (auto simp: im2_def intro: same_books_return_all split: option.split)
  note S = same_booksD [OF books]
  have al: "im_allocations im2 = []" using S(2) B(2) by (simp add: im1_def)
  have res: "im_reservations im4 = AList.delete rid (im_reservations im)"
    using S(1) by (simp add: im4_def im1_def delete_update_same)
  have "in_step im4 t" if t: "t \<noteq> res_tenant r" for t
  proof -
    have a1: "aggregates im1 t = aggregates im t"
      unfolding im1_def using t by (intro aggregates_res_update [OF assms(3)]) simp_all
    have "in_step im1 t" by (rule in_step_aggregates [OF B(3) a1]) (simp add: im1_def)
    then have s2: "in_step im2 t" by (rule S(7))
    have "reserved_remaining im4 t = reserved_remaining im t"
      using t unfolding reserved_remaining_if res
      by (simp add: alloc_used_by_def al im4_def B(2) fold_delete_skip [OF wf_keys(6) [OF B(1)] assms(3)] cong: if_cong)
    moreover have "reserved_remaining im2 t = reserved_remaining im t" "computed_consumed im4 t = computed_consumed im2 t"
      using a1 reserved_remaining_records [OF S(1,2)] by (simp_all add: aggregates_def computed_consumed_def im4_def al)
    moreover have "usage_of im4 t = usage_of im2 t" by (simp add: im4_def usage_of_def)
    ultimately show ?thesis using s2 by (simp add: in_step_def)
  qed
  moreover have "fst (release im now rid auth) =
      emit_event now ET_RELEASE (res_tenant r) ''reservation released'' (sync_usage now (res_tenant r) im4)"
    unfolding im4_def im2_def im1_def release_def Let_def using assms(2,3) \<open>active_res r\<close> by simp
  ultimately show thesis
    using that [of im4] res S(3-6) by (simp add: im4_def im1_def al)
qed

lemma refines_release:
  assumes "booked im"
  shows "refines_step im (fst (release im now rid auth))"
proof (cases "stale_epoch im auth \<or> map_of (im_reservations im) rid = None")
  case True
  then have "fst (release im now rid auth) = im" by (auto simp: release_def)
  with assms show ?thesis by (simp add: refines_step_def ledger_idle)
next
  case False
  then obtain r where r: "\<not> stale_epoch im auth" "map_of (im_reservations im) rid = Some r" by auto
  let ?im' = "fst (release im now rid auth)"
  obtain im4 where im': "?im' = emit_event now ET_RELEASE (res_tenant r) ''reservation released'' (sync_usage now (res_tenant r) im4)"
    and res: "im_reservations im4 = AList.delete rid (im_reservations im)" and al: "im_allocations im4 = []"
    and F: "im_tenants im4 = im_tenants im" "im_groups im4 = im_groups im"
      "im_local_quota im4 = im_local_quota im" "im_group_quota im4 = im_group_quota im"
    and other: "\<And>t. t \<noteq> res_tenant r \<Longrightarrow> in_step im4 t"
    using release_shape [OF assms r, of now] by metis
  note B = bookedD [OF assms]
  have F': "im_tenants ?im' = im_tenants im" "im_groups ?im' = im_groups im" "im_local_quota ?im' = im_local_quota im"
    "im_group_quota ?im' = im_group_quota im" "im_allocations ?im' = []"
    "im_reservations ?im' = filter (\<lambda>(k, r). k \<noteq> rid) (im_reservations im)"
    by (simp_all add: im' F al res sync_usage_def delete_filter)
  have ok: "rv_ok (snd (snd e))" if "e \<in> set (lg_entries (ledger_of im))" for e
    using that wf_recordsD(1) [OF B(1)] by (auto simp: ledger_of_def)
  have led: "ledger_of ?im' = (ledger_of im)\<lparr>lg_entries := filter (\<lambda>(k, t, v). k \<noteq> rid) (lg_entries (ledger_of im))\<rparr>"
    using account_cong [OF F'(1-4)] by (simp add: ledger_of_def F'(6) filter_map comp_def case_prod_beta')
  have step: "ledger_step (ledger_of im) (ledger_of ?im')"
    unfolding led using ok by (rule ledger_free)
  have "in_step ?im' t" for t
    using other [of t] reserved_remaining_records [of ?im' im4 t]
    by (cases "t = res_tenant r") (simp_all add: im' in_step_def sync_usage_def)
  moreover have "held ?im' t d \<le> INT64_MAX" for t d
  proof -
    have "charged (ledger_of ?im') (Tenant_account t) d \<le> charged (ledger_of im) (Tenant_account t) d"
      unfolding led using ok by (rule charged_free)
    with B(7) [of t d] show ?thesis by (simp add: charged_tenant)
  qed
  ultimately have "booked ?im'"
    using assms wf_release [OF B(1)] ledger_step_solvent [OF step]
    by (auto simp: booked_def F' group_exists_def tenant_exists_def)
  with step show ?thesis by (simp add: refines_step_def)
qed

section \<open>Configuration\<close>

text \<open>A configuration step touches neither records nor counters; it refines when the limits still cover what is held.\<close>

lemma refines_configure:
  assumes "booked im" "wf_state im'" "solvent (ledger_of im')"
    and "im_usage im' = im_usage im" "im_reservations im' = im_reservations im" "im_allocations im' = im_allocations im"
    and "\<And>t. tenant_exists im t \<Longrightarrow> tenant_exists im' t" "\<And>g. group_exists im g \<Longrightarrow> group_exists im' g"
    and "\<forall>(t, tn) \<in> set (im_tenants im'). \<forall>g. ten_group tn = Some g \<longrightarrow> group_exists im' g"
    and "\<forall>(g, q) \<in> set (im_group_quota im'). group_exists im' g"
  shows "refines_step im im'"
proof -
  have "ledger_of im' = (ledger_of im)\<lparr>lg_member := account_member im', lg_limit := account_limit im'\<rparr>"
    by (simp add: ledger_of_def assms(5))
  then have "ledger_step (ledger_of im) (ledger_of im')" using assms(3) by (simp add: ledger_configure)
  moreover have "in_step im' t" for t
    using bookedD(3) [OF assms(1), of t] reserved_remaining_records [OF assms(5,6)] by (simp add: in_step_def usage_of_def assms(4))
  moreover have "held im' t d = held im t d" for t d by (simp add: held_def assms(5))
  ultimately show ?thesis
    using assms(1-3,6-10) by (auto simp: refines_step_def booked_def assms(5))
qed

lemma sum_list_zero: "\<forall>x \<in> set xs. f x = 0 \<Longrightarrow> sum_list (map f xs) = (0 :: int)"
  by (induction xs) auto

lemma solvent_cong:
  assumes "booked im" "im_reservations im' = im_reservations im"
    and "\<And>a t. tenant_exists im t \<Longrightarrow> account_member im' a t = account_member im a t"
    and "\<And>a d. account_limit im' a d = account_limit im a d \<or> (\<exists>t l. a = Tenant_account t \<and> \<not> tenant_exists im t \<and> account_limit im' a d = Some l \<and> 0 \<le> l)"
  shows "solvent (ledger_of im')"
proof -
  note B = bookedD [OF assms(1)]
  have ch: "charged (ledger_of im') a d = charged (ledger_of im) a d" for a d
    unfolding charged_def ledger_of_def using B(5) assms(3)
    by (auto simp: assms(2) intro!: arg_cong [where f = sum_list])
  have "held im t d = 0" if "\<not> tenant_exists im t" for t d
    unfolding held_def using B(5) that by (intro sum_list_zero) auto
  then have "below (charged (ledger_of im) a d) (account_limit im' a d)" if "\<not> is_consumable d" for a d
    using B(8) that assms(4) [of a d] by (auto simp: solvent_def ledger_of_def below_def charged_tenant [unfolded ledger_of_def])
  then show ?thesis by (simp add: solvent_def ch) (simp add: ledger_of_def)
qed

definition same_but_tenants :: "impl \<Rightarrow> impl \<Rightarrow> bool" where
  "same_but_tenants im im' \<longleftrightarrow>
     im_groups im' = im_groups im \<and> im_usage im' = im_usage im \<and> im_local_quota im' = im_local_quota im \<and>
     im_group_quota im' = im_group_quota im \<and> im_reservations im' = im_reservations im \<and> im_allocations im' = im_allocations im"

lemma create_tenant_granted:
  assumes "st_ok (snd (create_tenant im now i name grp prio))"
  obtains tn where "\<not> tenant_exists im i" "ten_group tn = grp" "\<forall>g. grp = Some g \<longrightarrow> group_exists im g"
    "im_tenants (fst (create_tenant im now i name grp prio)) = im_tenants im @ [(i, tn)]"
    "same_but_tenants im (fst (create_tenant im now i name grp prio))"
proof -
  define tn where "tn = \<lparr>ten_id = i, ten_group = grp, ten_name = name, ten_priority = prio, ten_service_class = ''''\<rparr>"
  have new: "\<not> tenant_exists im i" and g: "\<forall>g. grp = Some g \<longrightarrow> group_exists im g"
    and im': "fst (create_tenant im now i name grp prio) =
      emit_event now ET_QUOTA_UPDATE i ''tenant created'' (im\<lparr>im_tenants := emplace i tn (im_tenants im)\<rparr>)"
    using assms by (auto simp: create_tenant_def tn_def status_failure_def split: if_splits option.splits)
  have "map_of (im_tenants im) i = None" using new by (simp add: tenant_exists_def contains_key_def)
  then show ?thesis using that [of tn] new g by (simp add: im' emplace_new tn_def same_but_tenants_def)
qed

lemma refines_create_tenant:
  assumes "booked im"
  shows "refines_step im (fst (create_tenant im now i name grp prio))"
proof (cases "st_ok (snd (create_tenant im now i name grp prio))")
  case True
  note B = bookedD [OF assms]
  let ?im' = "fst (create_tenant im now i name grp prio)"
  from create_tenant_granted [OF True] obtain tn where
    new: "\<not> tenant_exists im i" and g: "ten_group tn = grp" "\<forall>g. grp = Some g \<longrightarrow> group_exists im g"
    and F1: "im_tenants ?im' = im_tenants im @ [(i, tn)]" and same: "same_but_tenants im ?im'" .
  have F: "im_tenants ?im' = im_tenants im @ [(i, tn)]" "im_groups ?im' = im_groups im" "im_usage ?im' = im_usage im"
    "im_local_quota ?im' = im_local_quota im" "im_group_quota ?im' = im_group_quota im"
    "im_reservations ?im' = im_reservations im" "im_allocations ?im' = im_allocations im"
    using F1 same by (simp_all add: same_but_tenants_def)
  have wf': "wf_state ?im'" by (rule wf_create_tenant [OF B(1)])
  have old: "map_of (im_tenants ?im') t = map_of (im_tenants im) t" if "t \<noteq> i" for t
    using that by (simp add: F(1) map_add_def split: option.split)
  have mem: "account_member ?im' a t = account_member im a t" if "tenant_exists im t" for a t
  proof -
    have "t \<noteq> i" using that new by auto
    then show ?thesis by (cases a) (simp_all add: in_group_def has_ancestor_def old F(2) cong: option.case_cong)
  qed
  have lim: "account_limit ?im' a d = account_limit im a d \<or>
      (\<exists>t l. a = Tenant_account t \<and> \<not> tenant_exists im t \<and> account_limit ?im' a d = Some l \<and> 0 \<le> l)" for a d
  proof (cases "a = Tenant_account i")
    case True
    then show ?thesis
      using new hard_at_bounds [OF quota_ok_effective [OF wf_stateD(1) [OF wf']]] by auto
  next
    case False
    have "quota_chain ?im' t = quota_chain im t" if "t \<noteq> i" for t
      by (simp add: quota_chain_def ancestor_groups_def old [OF that] F(2,4,5) cong: option.case_cong)
    with False show ?thesis by (cases a) (simp_all add: hard_at_def F)
  qed
  show ?thesis
  proof (rule refines_configure [OF assms wf' solvent_cong [OF assms F(6) mem lim] F(3,6,7)])
    show "tenant_exists ?im' t" if "tenant_exists im t" for t
      using that new old [of t] by (cases "t = i") (auto simp: tenant_exists_def contains_key_def)
    show "\<forall>(t, tn) \<in> set (im_tenants ?im'). \<forall>g. ten_group tn = Some g \<longrightarrow> group_exists ?im' g"
      using assms g by (auto simp: booked_def F group_exists_def)
    show "\<forall>(g, q) \<in> set (im_group_quota ?im'). group_exists ?im' g"
      using assms by (auto simp: booked_def F group_exists_def)
  qed (simp_all add: group_exists_def F)
next
  case False
  then have "fst (create_tenant im now i name grp prio) = im" by (auto simp: create_tenant_def split: if_splits)
  with assms show ?thesis by (simp add: refines_step_def ledger_idle)
qed

lemma refines_create_tenant_auto:
  assumes "booked im"
  shows "refines_step im (fst (create_tenant_auto im now name grp prio))"
proof -
  obtain i :: tenant_id and gen where i: "make_id (ig_tenant (im_ids im)) = (i, gen)"
    by (cases "make_id (ig_tenant (im_ids im)) :: tenant_id \<times> id_gen")
  let ?im1 = "im\<lparr>im_ids := (im_ids im)\<lparr>ig_tenant := gen\<rparr>\<rparr>"
  have b: "booked ?im1 \<and> ledger_of ?im1 = ledger_of im"
    using bookedD(1) [OF assms] by (intro booked_same_books [OF assms] same_books_fields wf_ids) simp_all
  then have "refines_step ?im1 (fst (create_tenant ?im1 now i name grp prio))" by (simp add: refines_create_tenant)
  with b show ?thesis by (simp add: create_tenant_auto_def i refines_step_def case_prod_beta Let_def)
qed

text \<open>A group nobody refers to yet is on no walk, and more fuel does not lengthen a walk.\<close>

lemma walk_emplace:
  assumes "\<forall>(h, H) \<in> set gs. grp_parent H \<noteq> Some gid" "cur \<noteq> Some gid"
  shows "up_chain n (emplace gid G gs) cur = up_chain n gs cur"
    "up_reaches n (emplace gid G gs) cur a = up_reaches n gs cur a"
proof -
  have "up_chain n (emplace gid G gs) cur = up_chain n gs cur \<and>
      up_reaches n (emplace gid G gs) cur a = up_reaches n gs cur a"
    using assms(2)
  proof (induction n arbitrary: cur)
    case (Suc n)
    show ?case
    proof (cases cur)
      case (Some g)
      then have "map_of (emplace gid G gs) g = map_of gs g" using Suc.prems by (simp add: map_of_emplace)
      moreover have "grp_parent H \<noteq> Some gid" if "map_of gs g = Some H" for H
        using assms(1) map_of_SomeD [OF that] by auto
      ultimately show ?thesis using Some Suc.IH by (auto split: option.split)
    qed simp
  qed simp
  then show "up_chain n (emplace gid G gs) cur = up_chain n gs cur"
    "up_reaches n (emplace gid G gs) cur a = up_reaches n gs cur a" by simp_all
qed

lemma walk_fuel:
  assumes "hier_ok gs" "length gs < n"
  shows "up_chain n gs cur = up_chain (Suc (length gs)) gs cur"
    "up_reaches n gs cur a = up_reaches (Suc (length gs)) gs cur a"
proof -
  obtain rank :: "tenant_group_id \<Rightarrow> nat" where
    rank: "\<forall>(g, G) \<in> set gs. \<forall>p. grp_parent G = Some p \<longrightarrow> p \<in> fst ` set gs \<longrightarrow> rank p < rank g"
    using assms(1) unfolding hier_ok_def by blast
  have n: "enough_fuel rank gs n cur"
    using hier_height_le [of rank gs] assms(2) by (auto simp: enough_fuel_def split: option.split intro: le_less_trans)
  show "up_chain n gs cur = up_chain (Suc (length gs)) gs cur"
    using ancestor_loop_fuel [OF rank n, of "[]"] ancestor_loop_fuel [OF rank enough_fuel_length, of cur "[]"] by simp
  show "up_reaches n gs cur a = up_reaches (Suc (length gs)) gs cur a"
    using has_ancestor_loop_fuel [OF rank n] has_ancestor_loop_fuel [OF rank enough_fuel_length] by (metis option.inject)
qed

lemma refines_new_group:
  assumes "booked im" "fresh_group im parent"
  shows "refines_step im (fst (new_group im name kind parent))"
proof (cases "group_exists im (next_group_id im)")
  case True
  then have "same_books im (fst (new_group im name kind parent))"
    by (intro same_books_records [OF same_books_refl])
       (auto simp: new_group_def next_group_id_def group_exists_def contains_key_def emplace_def Let_def case_prod_beta)
  then show ?thesis
    using assms by (intro refines_same_books wf_new_group) (simp_all add: bookedD)
next
  case False
  let ?im' = "fst (new_group im name kind parent)" and ?g = "next_group_id im"
  note B = bookedD [OF assms(1)]
  obtain G where F: "im_groups ?im' = emplace ?g G (im_groups im)" "im_tenants ?im' = im_tenants im" "im_usage ?im' = im_usage im"
    "im_local_quota ?im' = im_local_quota im" "im_group_quota ?im' = im_group_quota im"
    "im_reservations ?im' = im_reservations im" "im_allocations ?im' = im_allocations im"
    by (simp add: new_group_def next_group_id_def Let_def case_prod_beta)
  have len: "length (im_groups ?im') = Suc (length (im_groups im))"
    using False by (simp add: F(1) emplace_def group_exists_def contains_key_def split: option.splits)
  have par: "\<forall>(h, H) \<in> set (im_groups im). grp_parent H \<noteq> Some ?g"
    using assms(2) by (auto simp: fresh_group_def list_all_iff)
  have ten: "ten_group tn \<noteq> Some ?g" if "map_of (im_tenants im) t = Some tn" for t tn
    using assms(1) False map_of_SomeD [OF that] by (auto simp: booked_def)
  have walk: "up_chain (Suc (length (im_groups ?im'))) (im_groups ?im') (ten_group tn) =
        up_chain (Suc (length (im_groups im))) (im_groups im) (ten_group tn)"
      "has_ancestor ?im' tn g = has_ancestor im tn g" if "map_of (im_tenants im) t = Some tn" for t tn g
    using walk_emplace [OF par ten [OF that]] walk_fuel [OF wf_stateD(5) [OF B(1)], of "Suc (Suc (length (im_groups im)))"]
    by (simp_all add: has_ancestor_def len, simp_all add: F(1))
  have chain: "quota_chain ?im' t = quota_chain im t" for t
    using walk(1) by (auto simp: quota_chain_def ancestor_groups_def F simp del: up_chain.simps split: option.split)
  have mem: "account_member ?im' a t = account_member im a t" for a t
    by (cases a) (auto simp: in_group_def F(2) walk(2) split: option.split)
  have lim: "account_limit ?im' a d = account_limit im a d" for a d
    by (cases a) (simp_all add: hard_at_def chain F)
  have ex: "group_exists ?im' h" if "group_exists im h" for h
    using that by (auto simp: group_exists_def contains_key_def F(1) map_of_emplace split: option.splits)
  show ?thesis
  proof (rule refines_configure [OF assms(1) wf_new_group [OF B(1) assms(2)] solvent_cong [OF assms(1) F(6) mem] F(3,6,7)])
    show "\<forall>(t, tn) \<in> set (im_tenants ?im'). \<forall>g. ten_group tn = Some g \<longrightarrow> group_exists ?im' g"
      "\<forall>(g, q) \<in> set (im_group_quota ?im'). group_exists ?im' g"
      using assms(1) ex by (auto simp: booked_def F(2,5))
  qed (simp_all add: lim ex tenant_exists_def F(2))
qed

lemma refines_config:
  assumes "booked im"
  shows "refines_step im (fst (set_policy im now p))" "refines_step im (fst (advance_epoch im now))"
    "refines_step im (fst (snapshot im now))" "refines_step im (fst (commit_reservation im now rid auth))"
    "refines_step im (persisted im now path)"
proof -
  note B = bookedD [OF assms]
  show "refines_step im (fst (set_policy im now p))"
    by (intro refines_same_books assms wf_set_policy B same_books_records [OF same_books_refl];
        simp add: set_policy_def split: option.split)
  show "refines_step im (fst (advance_epoch im now))"
    by (intro refines_same_books assms wf_advance_epoch B same_books_records [OF same_books_refl]; simp add: advance_epoch_def)
  show "refines_step im (persisted im now path)"
    by (intro refines_same_books assms wf_persisted B same_books_records [OF same_books_refl]; simp add: persisted_def)
  show "refines_step im (fst (snapshot im now))"
    by (intro refines_same_books assms wf_snapshot B same_books_records [OF same_books_refl]; simp add: snapshot_def)
  have "res_status r = RS_COMMITTED" if "map_of (im_reservations im) rid = Some r" for r
    using B(4) map_of_SomeD [OF that] by blast
  then have "fst (commit_reservation im now rid auth) = im"
    by (auto simp: commit_reservation_def split: option.split)
  then show "refines_step im (fst (commit_reservation im now rid auth))"
    using assms by (simp add: refines_step_def ledger_idle)
qed

lemma refines_create_group:
  assumes "booked im" "fresh_group im parent"
  shows "refines_step im (fst (create_group im now name kind parent))"
proof -
  have "refines_step im (emit_event now et t det im1)" if "refines_step im im1" for im1 et t det
    using that booked_same_books [of im1 "emit_event now et t det im1"]
    by (simp add: refines_step_def same_books_event wf_emit_event bookedD(1))
  then show ?thesis
    using assms refines_new_group by (auto simp: create_group_def refines_step_def ledger_idle split: if_splits)
qed

lemma refines_set_quota:
  assumes "booked im" "quota_ok q"
  shows "solvent (ledger_of (fst (set_tenant_quota im now t q))) \<Longrightarrow> refines_step im (fst (set_tenant_quota im now t q))"
    "solvent (ledger_of (fst (set_group_quota im now g q))) \<Longrightarrow> refines_step im (fst (set_group_quota im now g q))"
proof -
  note B = bookedD [OF assms(1)]
  have quotas: "\<forall>(g, q) \<in> set (im_group_quota im). group_exists im g" "\<forall>(t, tn) \<in> set (im_tenants im). \<forall>g. ten_group tn = Some g \<longrightarrow> group_exists im g"
    using assms(1) by (simp_all add: booked_def)
  show "refines_step im (fst (set_tenant_quota im now t q))" if "solvent (ledger_of (fst (set_tenant_quota im now t q)))"
    by (rule refines_configure [OF assms(1) wf_set_tenant_quota [OF B(1) assms(2)] that])
       (use quotas in \<open>simp_all add: set_tenant_quota_def tenant_exists_def group_exists_def\<close>)
  show "refines_step im (fst (set_group_quota im now g q))" if "solvent (ledger_of (fst (set_group_quota im now g q)))"
    by (rule refines_configure [OF assms(1) wf_set_group_quota [OF B(1) assms(2)] that])
       (use quotas in \<open>auto simp: set_group_quota_def tenant_exists_def group_exists_def dest!: set_update_subset [THEN subsetD]\<close>)
qed

section \<open>Runs\<close>

text \<open>
  The runs considered: a granted reservation has borrowed nothing, got an unused id and
  keeps the sums in range; a new quota covers what is held under it (lowering a quota below
  that is the subject of \<open>compute_compliance\<close>).
\<close>

fun governed_op :: "impl \<Rightarrow> int \<Rightarrow> engine_op \<Rightarrow> bool" where
  "governed_op im now (Op_reserve t req a) =
     (case reserve im now t req a of
        (im', Inl st) \<Rightarrow> True
      | (im', Inr res) \<Rightarrow> unborrowed im' res \<and> fresh_reservation im \<and> request_fits im t req \<and> totals_fit im')"
| "governed_op im now (Op_set_tenant_quota t q) = solvent (ledger_of (fst (set_tenant_quota im now t q)))"
| "governed_op im now (Op_set_group_quota g q) = solvent (ledger_of (fst (set_group_quota im now g q)))"
| "governed_op im now (Op_start_allocation r req a) = False"
| "governed_op im now (Op_resize_allocation i delta a) = False"
| "governed_op im now (Op_release_allocation i a) = False"
| "governed_op im now (Op_apply_observation obs) = False"
| "governed_op im now _ = True"

lemma refines_reserve:
  assumes "booked im" "rv_ok req" "governed_op im now (Op_reserve t req a)"
  shows "refines_step im (fst (reserve im now t req a))"
proof (cases "reserve im now t req a")
  case (Pair im' r)
  show ?thesis
  proof (cases r)
    case (Inl st)
    with Pair show ?thesis
      using refines_same_books [OF assms(1) same_books_reserve_refused] wf_reserve [OF bookedD(1) [OF assms(1)] assms(2), of now t a] by simp
  next
    case (Inr res)
    with Pair show ?thesis using refines_grant [OF assms(1,2)] assms(3) by simp
  qed
qed

lemma refines_borrows:
  assumes "booked im" "rv_ok amount"
  shows "refines_step im (fst (borrow im now b amount a))" "refines_step im (fst (lend im now l b amount a))"
    "refines_step im (fst (recall_borrow im now bid a))"
  using assms bookedD(1) [OF assms(1)]
  by (auto intro!: refines_same_books same_books_borrow same_books_lend same_books_recall_borrow wf_borrow wf_lend wf_recall_borrow)

lemma refines_apply_op:
  assumes "booked im" "op_ok im op" "governed_op im now op"
  shows "refines_step im (apply_op now op im)"
  using assms
  by (cases op)
     (simp_all add: refines_config refines_create_group refines_new_group create_group_autoid_def refines_create_tenant
       refines_create_tenant_auto refines_set_quota refines_reserve refines_release refines_borrows
       refines_borrows(3) [OF _ rv_ok_empty] del: governed_op.simps(1))

text \<open>An engine as it is configured before its first reservation; the initial one is an instance.\<close>

definition unused_engine :: "impl \<Rightarrow> bool" where
  "unused_engine im \<longleftrightarrow>
     wf_state im \<and> im_reservations im = [] \<and> im_allocations im = [] \<and> im_usage im = [] \<and>
     (\<forall>(t, tn) \<in> set (im_tenants im). \<forall>g. ten_group tn = Some g \<longrightarrow> group_exists im g) \<and>
     (\<forall>(g, q) \<in> set (im_group_quota im). group_exists im g)"

lemma unused_initial: "unused_engine (impl_initial settings ids oob)"
  by (simp add: unused_engine_def wf_initial) (simp add: impl_initial_def)

inductive governed_step :: "impl \<Rightarrow> impl \<Rightarrow> bool" where
  governed_stepI: "op_ok im op \<Longrightarrow> governed_op im now op \<Longrightarrow> governed_step im (apply_op now op im)"

inductive_cases governed_stepE: "governed_step im im'"

lemma booked_unused:
  assumes "unused_engine im"
  shows "booked im"
proof -
  have wf: "wf_state im" and U: "im_reservations im = []" "im_allocations im = []" "im_usage im = []"
    using assms by (simp_all add: unused_engine_def)
  have ch: "charged (ledger_of im) a d = 0" for a d by (simp add: charged_def ledger_of_def U)
  have "0 \<le> rv_get (q_hard_limit q) d" if "map_of (im_group_quota im) g = Some q" for g q d
    using wf_recordsD(7) [OF wf] map_of_SomeD [OF that] by (auto simp: quota_ok_def rv_okD)
  then have "below 0 (account_limit im a d)" for a d
    using hard_at_bounds [OF quota_ok_effective [OF wf_stateD(1) [OF wf]]]
    by (cases a) (auto simp: below_def split: option.split)
  then have "solvent (ledger_of im)" by (simp add: solvent_def ch) (simp add: ledger_of_def)
  moreover have "in_step im t" for t
    by (simp add: in_step_def reserved_remaining_def computed_consumed_def usage_of_def U)
  moreover have "held im t d \<le> INT64_MAX" for t d by (simp add: held_def U i64_bounds)
  ultimately show ?thesis
    using wf assms by (simp add: booked_def unused_engine_def)
qed

interpretation books: simulation unused_engine governed_step booked ledger_of ledger_step
  by unfold_locales (auto elim!: governed_stepE simp: booked_unused refines_apply_op [unfolded refines_step_def])

lemma governed_limits:
  assumes "unused_engine im0" "governed_step\<^sup>*\<^sup>* im0 im" "\<not> is_consumable d"
  shows "rv_get (committed_of (usage_of im t)) d =
      (\<Sum>(rid, r) \<leftarrow> im_reservations im. if res_tenant r = t then rv_get (res_resources r) d else 0) \<and>
    rv_get (committed_of (usage_of im t)) d \<le> hard_at (effective_lattice im t) d \<and>
    (\<forall>g q. map_of (im_group_quota im) g = Some q \<and> rv_present (q_hard_limit q) d \<longrightarrow>
      subtree_total im g d \<le> rv_get (q_hard_limit q) d)"
proof -
  note B = books.run_inv [OF assms(2) books.start_inv [OF assms(1)]]
  have "solvent (ledger_of im)"
    by (rule books.run_safe [OF assms(1,2)]) (auto intro: ledger_step_solvent bookedD(8) books.start_inv assms(1))
  then have lim: "below (charged (ledger_of im) a d) (account_limit im a d)" for a
    using assms(3) by (simp add: solvent_def) (simp add: ledger_of_def)
  have "held im t d \<le> hard_at (effective_lattice im t) d"
    using lim [of "Tenant_account t"] by (simp add: charged_tenant below_def)
  moreover have "subtree_total im g d \<le> rv_get (q_hard_limit q) d"
    if "map_of (im_group_quota im) g = Some q" "rv_present (q_hard_limit q) d" for g q
    using lim [of "Group_account g"] that by (simp add: charged_group [OF B] below_def)
  ultimately show ?thesis by (simp add: booked_counters(3) [OF B] held_def)
qed

text \<open>
  C1. Quota safety of whole runs: start from an engine without reservations, allocations and
  usage and run any sequence of reservations, releases, commits, borrows, lendings, recalls,
  configuration changes and saves. Then on every persistent dimension the tenant's committed
  usage is exactly the sum of its reservations, is within its effective hard limit, and the
  total below every group that sets a hard limit is within that limit. A step is restricted
  as follows: a granted reservation has borrowed nothing, got an unused id and keeps the
  sums in the int64 range; a new quota covers what is already held; the id of a new group is
  not yet in use as a parent; allocations and observations are not part of the run.
\<close>

theorem quota_never_exceeded:
  assumes "unused_engine im0" "governed_step\<^sup>*\<^sup>* im0 im" "\<not> is_consumable d"
  shows "rv_get (committed_of (usage_of im t)) d =
      (\<Sum>(rid, r) \<leftarrow> im_reservations im. if res_tenant r = t then rv_get (res_resources r) d else 0) \<and>
    rv_get (committed_of (usage_of im t)) d \<le> hard_at (effective_lattice im t) d \<and>
    (\<forall>g q. map_of (im_group_quota im) g = Some q \<and> rv_present (q_hard_limit q) d \<longrightarrow>
      subtree_total im g d \<le> rv_get (q_hard_limit q) d)"
  using assms by (rule governed_limits)

text \<open>
  C2. The same runs of the engine are runs of the abstract quota ledger, in which a grant is
  charged to the accounts of its tenant and of all the tenant's groups and has to fit into
  each of them, a release removes the entry, and reconfiguration must leave the ledger
  solvent; the engine's committed usage and subtree totals are the charges of these
  accounts.
\<close>

theorem engine_refines_ledger:
  assumes "unused_engine im0" "governed_step\<^sup>*\<^sup>* im0 im"
  shows "ledger_step\<^sup>*\<^sup>* (ledger_of im0) (ledger_of im) \<and>
    (\<forall>t d. rv_get (committed_of (usage_of im t)) d = charged (ledger_of im) (Tenant_account t) d) \<and>
    (\<forall>g d. subtree_total im g d = charged (ledger_of im) (Group_account g) d)"
proof -
  note B = books.run_inv [OF assms(2) books.start_inv [OF assms(1)]]
  show ?thesis
    using books.run_abs [OF assms(2) books.start_inv [OF assms(1)]]
    by (simp add: booked_counters(3) [OF B] charged_tenant charged_group [OF B])
qed

section \<open>A run\<close>

lemma solo_unused: "unused_engine solo_engine"
  by (simp add: unused_engine_def solo_wf group_exists_def contains_key_def solo_tenant_def)

lemma solo_governed_op: "governed_op solo_engine 3 (Op_reserve solo (vram 7) solo_authority)"
proof -
  obtain im' res where r: "reserve solo_engine 3 solo (vram 7) solo_authority = (im', Inr res)" "unborrowed im' res"
    by (rule solo_reserve [of 7 3]) simp_all
  note R = reserve_unborrowed [OF r] and C = reserve_counters [OF r solo_fresh solo_in_step]
  have res: "rv_get (us_reserved (usage_of im' solo)) e = rv_get (vram 7) e" for e
    using reserve_committed(2) [OF solo_wf rv_ok_vram r solo_fresh solo_in_step solo_fits, of e] by (simp add: i64_bounds)
  have "totals_fit im'"
    by (simp add: totals_fit_def reserve_keeps_limits [OF r(1)] subtree_total_def R(10) C(2) res i64_bounds list_all_iff)
  with r solo_fresh solo_fits [of 7] show ?thesis by simp
qed

lemma solo_run: "governed_step\<^sup>*\<^sup>* solo_engine (apply_op 3 (Op_reserve solo (vram 7) solo_authority) solo_engine)"
  by (rule r_into_rtranclp, rule governed_stepI [OF _ solo_governed_op]) (simp add: rv_ok_vram i64_bounds)

theorem engine_refines_ledger_witness:
  "ledger_step\<^sup>*\<^sup>* (ledger_of solo_engine) (ledger_of (apply_op 3 (Op_reserve solo (vram 7) solo_authority) solo_engine))"
  using engine_refines_ledger [OF solo_unused solo_run] by blast

theorem quota_never_exceeded_witness:
  "rv_get (committed_of (usage_of (apply_op 3 (Op_reserve solo (vram 7) solo_authority) solo_engine) solo)) AcceleratorVRAM \<le>
   hard_at (effective_lattice (apply_op 3 (Op_reserve solo (vram 7) solo_authority) solo_engine) solo) AcceleratorVRAM"
proof -
  have "\<not> is_consumable AcceleratorVRAM" by (simp add: is_consumable_def)
  then show ?thesis using quota_never_exceeded [OF solo_unused solo_run] by blast
qed

end
