(* ===== verification/QF_Serving.thy ===== *)
theory QF_Serving
  imports QF_Governed QF_Coordinator
begin

text \<open>
  The coordinator on top of the engine: every request is at most one public operation of the
  engine, named by its type. The sessions of a coordinator, interleaved between the authority
  check and the execution of a request, are therefore runs of the engine's state machine, and
  what holds along those runs holds in the coordinator: the quota safety of \<open>QF_Governed\<close> for
  any peers that send arbitrary bytes.
\<close>

section \<open>The operation a request asks for\<close>

definition request_op :: "wire_request \<Rightarrow> engine_op option" where
  "request_op q =
     (case wq_type q of
        MT_CREATE_GROUP \<Rightarrow> Some (Op_create_group (wq_name q) (wq_kind q) (opt_group q))
      | MT_CREATE_TENANT \<Rightarrow> Some (Op_create_tenant_auto (wq_name q) (opt_group q) (wq_priority q))
      | MT_SET_TENANT_QUOTA \<Rightarrow> Some (Op_set_tenant_quota (wq_tenant q) (wq_quota q))
      | MT_SET_GROUP_QUOTA \<Rightarrow> Some (Op_set_group_quota (wq_group q) (wq_quota q))
      | MT_RESERVE \<Rightarrow> Some (Op_reserve (wq_tenant q) (wq_req q) (wq_auth q))
      | MT_COMMIT_RESERVATION \<Rightarrow> Some (Op_commit_reservation (wq_reservation q) (wq_auth q))
      | MT_RELEASE \<Rightarrow> Some (Op_release (wq_reservation q) (wq_auth q))
      | MT_START_ALLOCATION \<Rightarrow> Some (Op_start_allocation (wq_reservation q) (wq_req q) (wq_auth q))
      | MT_RELEASE_ALLOCATION \<Rightarrow> Some (Op_release_allocation (wq_allocation q) (wq_auth q))
      | MT_BORROW \<Rightarrow> Some (Op_borrow (wq_tenant q) (wq_req q) (wq_auth q))
      | MT_LEND \<Rightarrow> Some (Op_lend (wq_tenant q) (wq_tenant2 q) (wq_req q) (wq_auth q))
      | MT_RECALL_BORROW \<Rightarrow> Some (Op_recall_borrow (wq_borrow q) (wq_auth q))
      | MT_SNAPSHOT \<Rightarrow> Some Op_snapshot
      | MT_ADVANCE_EPOCH \<Rightarrow> Some Op_advance_epoch
      | MT_OBSERVE \<Rightarrow>
          map_option (\<lambda>d. Op_apply_observation (observation_of d (wq_observation q)))
            (dimension_of_code (wo_dimension (wq_observation q)))
      | _ \<Rightarrow> None)"

definition known_dimension :: "wire_request \<Rightarrow> bool" where
  "known_dimension q \<longleftrightarrow> (wq_type q = MT_OBSERVE \<longrightarrow> dimension_of_code (wo_dimension (wq_observation q)) \<noteq> None)"

text \<open>The engine after a request: as before, or after the operation the request asks for.\<close>

definition one_operation :: "int \<Rightarrow> wire_request \<Rightarrow> impl \<Rightarrow> impl \<Rightarrow> bool" where
  "one_operation now q im im' \<longleftrightarrow> im' = im \<or> (\<exists>op. request_op q = Some op \<and> im' = apply_op now op im)"

lemma dispatch_operation:
  assumes "wq_type q \<noteq> MT_ADVANCE_EPOCH" "wq_type q \<noteq> MT_OBSERVE"
  shows "one_operation now q im (fst (dispatch im now q resp))"
  using assms
  by (cases "wq_type q") (simp_all add: one_operation_def dispatch_def request_op_def split_beta Let_def snapshot_text_def)

lemma observe_operation:
  assumes "wq_type q = MT_OBSERVE" "known_dimension q" "observe co now q = Some (co', r)"
  shows "one_operation now q (co_engine co) (co_engine co')"
  using assms
  by (auto simp: observe_def Let_def apply_wire_observation_def known_dimension_def one_operation_def request_op_def split_beta
      split: if_splits)

lemma act_operation:
  assumes "known_dimension q" "wq_type q \<noteq> MT_ADVANCE_EPOCH" "act co now q = Some (co', r)"
  shows "one_operation now q (co_engine co) (co_engine co')"
proof (cases "wq_type q = MT_OBSERVE")
  case True
  with assms show ?thesis by (intro observe_operation) (simp_all add: act_def)
next
  case False
  with assms dispatch_operation [OF assms(2) False]
  show ?thesis by (auto simp: act_def split_beta Let_def)
qed

lemma request_operation:
  assumes "known_dimension q" "handle_request co now q = Some (co', r)"
  shows "one_operation now q (co_engine co) (co_engine co')"
proof -
  obtain r' where h: "handle_type co now q = Some (co', r')" using assms(2) by (auto simp: handle_request_def)
  show ?thesis
  proof (cases "wq_type q = MT_ADVANCE_EPOCH")
    case True
    with h show ?thesis by (auto simp: handle_type_def Let_def split_beta one_operation_def request_op_def)
  next
    case False
    with h act_operation [OF assms(1) False] show ?thesis
      by (cases rule: handle_typeE) (auto simp: one_operation_def)
  qed
qed

section \<open>Sessions as runs of the engine\<close>

text \<open>
  \<open>allowed\<close> restricts the operations. A request that changes the engine has to be an allowed
  operation; for a new group the generator must not hand out an id in use as a parent.
\<close>

definition request_allowed ::
  "(impl \<Rightarrow> int \<Rightarrow> engine_op \<Rightarrow> bool) \<Rightarrow> int \<Rightarrow> wire_request \<Rightarrow> coordinator \<Rightarrow> coordinator \<Rightarrow> bool" where
  "request_allowed allowed now q co co' \<longleftrightarrow>
     known_dimension q \<and>
     (co_engine co' = co_engine co \<or>
      (wq_type q = MT_CREATE_GROUP \<longrightarrow> fresh_group (co_engine co) (opt_group q)) \<and>
      (\<forall>op. request_op q = Some op \<longrightarrow> allowed (co_engine co) now op))"

inductive session_step ::
  "(impl \<Rightarrow> int \<Rightarrow> engine_op \<Rightarrow> bool) \<Rightarrow> coordinator \<times> wire_request list \<Rightarrow> coordinator \<times> wire_request list \<Rightarrow> bool"
  for allowed where
  session_check:
    "decode_request p = Inr q \<Longrightarrow> needs_authority (wq_type q) \<Longrightarrow> session_step allowed (co, ps) (co, q # ps)"
| session_act:
    "q \<in> set ps \<Longrightarrow> act co now q = Some (co', r) \<Longrightarrow> request_allowed allowed now q co co' \<Longrightarrow>
     session_step allowed (co, ps) (co', remove1 q ps)"
| session_request:
    "decode_request p = Inr q \<Longrightarrow> handle_request co now q = Some (co', r) \<Longrightarrow> request_allowed allowed now q co co' \<Longrightarrow>
     session_step allowed (co, ps) (co', ps)"

inductive_cases session_stepE: "session_step allowed s s'"

definition allowed_step :: "(impl \<Rightarrow> int \<Rightarrow> engine_op \<Rightarrow> bool) \<Rightarrow> impl \<Rightarrow> impl \<Rightarrow> bool" where
  "allowed_step allowed im im' \<longleftrightarrow> im' = im \<or> (\<exists>op now. op_ok im op \<and> allowed im now op \<and> im' = apply_op now op im)"

text \<open>The requests that wait for their thread are well typed and passed an authority check.\<close>

definition waiting_ok :: "coordinator \<times> wire_request list \<Rightarrow> bool" where
  "waiting_ok s \<longleftrightarrow> (\<forall>q \<in> set (snd s). request_typed q \<and> needs_authority (wq_type q))"

lemma request_op_ok:
  assumes "request_typed q" "request_op q = Some op" "wq_type q = MT_CREATE_GROUP \<longrightarrow> fresh_group im (opt_group q)"
  shows "op_ok im op"
proof -
  have "rv_ok (wq_req q)" "quota_ok (wq_quota q)"
    using assms(1) by (simp_all add: request_typed_def quota_encodable_def)
  with assms(2,3) show ?thesis by (cases "wq_type q") (auto simp: request_op_def)
qed

lemma one_operation_allowed:
  assumes "one_operation now q (co_engine co) (co_engine co')" "request_allowed allowed now q co co'" "request_typed q"
  shows "allowed_step allowed (co_engine co) (co_engine co')"
  using assms request_op_ok [OF assms(3)] unfolding one_operation_def request_allowed_def allowed_step_def by blast

lemma session_step_allowed:
  assumes "session_step allowed s s'" "waiting_ok s"
  shows "allowed_step allowed (co_engine (fst s)) (co_engine (fst s'))"
  using assms(1)
proof (cases rule: session_step.cases)
  case (session_check p q co ps)
  then show ?thesis by (simp add: allowed_step_def)
next
  case (session_act q ps co now co' r)
  with assms(2) have q: "request_typed q" "needs_authority (wq_type q)" by (auto simp: waiting_ok_def)
  then have "wq_type q \<noteq> MT_ADVANCE_EPOCH" by (auto simp: needs_authority_def unchecked_types_def)
  with session_act q show ?thesis
    by (auto intro!: one_operation_allowed act_operation simp: request_allowed_def)
next
  case (session_request p q co now co' r ps)
  then show ?thesis
    by (auto intro!: one_operation_allowed request_operation intro: decoded_typed simp: request_allowed_def)
qed

lemma session_step_waiting:
  assumes "session_step allowed s s'" "waiting_ok s"
  shows "waiting_ok s'"
  using assms(1)
proof (cases rule: session_step.cases)
  case (session_act q ps co now co' r)
  with assms(2) show ?thesis by (auto simp: waiting_ok_def dest: set_remove1_subset [THEN subsetD])
qed (use assms(2) in \<open>auto simp: waiting_ok_def decoded_typed\<close>)

definition started :: "coordinator \<times> wire_request list \<Rightarrow> bool" where
  "started s \<longleftrightarrow> snd s = [] \<and> (\<exists>ids oob now. coordinator_start ids oob now None = Some (fst s))"

interpretation sessions: simulation started "session_step allowed" waiting_ok "\<lambda>s. co_engine (fst s)" "allowed_step allowed"
  for allowed
proof
  show "started s \<Longrightarrow> waiting_ok s" for s by (simp add: started_def waiting_ok_def)
qed (rule session_step_waiting session_step_allowed; assumption)+

section \<open>Quota safety of the coordinator\<close>

lemma allowed_step_governed: "(allowed_step governed_op)\<^sup>*\<^sup>* im im' \<Longrightarrow> governed_step\<^sup>*\<^sup>* im im'"
proof (induction rule: rtranclp_induct)
  case (step y z)
  then show ?case
    by (auto simp: allowed_step_def intro: governed_stepI rtranclp.rtrancl_into_rtrancl)
qed simp

lemma started_unused:
  assumes "started s"
  shows "unused_engine (co_engine (fst s))"
proof -
  obtain ids oob now where s: "co_engine (fst s) = fst (set_policy (impl_initial engine_settings_default ids oob) now coordinator_policy)"
    using assms by (cases s) (auto simp: started_def coordinator_start_def Let_def)
  then have "wf_state (co_engine (fst s))" by (simp add: wf_set_policy wf_initial)
  then show ?thesis
    unfolding unused_engine_def unfolding s by (simp add: set_policy_def impl_initial_def coordinator_policy_valid)
qed

text \<open>
  C4. Quota safety of the served system: whatever bytes any number of peers send to a
  freshly started coordinator, with their sessions interleaved between the authority check
  and the execution of a request, no tenant holds more of a persistent dimension than its
  effective hard limit and no group more than the hard limit it sets. Every request is one
  public operation of the engine or none; those that change the engine are restricted as in
  the runs of C1, and an observation names an existing dimension.
\<close>

theorem coordinator_quota_safe:
  assumes "coordinator_start ids oob now None = Some co0" "(session_step governed_op)\<^sup>*\<^sup>* (co0, []) (co, ps)" "\<not> is_consumable d"
  shows "rv_get (committed_of (usage_of (co_engine co) t)) d \<le> hard_at (effective_lattice (co_engine co) t) d \<and>
    (\<forall>g q. map_of (im_group_quota (co_engine co)) g = Some q \<and> rv_present (q_hard_limit q) d \<longrightarrow>
      subtree_total (co_engine co) g d \<le> rv_get (q_hard_limit q) d)"
proof -
  have st: "started (co0, [])" using assms(1) by (auto simp: started_def)
  have "governed_step\<^sup>*\<^sup>* (co_engine co0) (co_engine co)"
    using sessions.run_abs [OF assms(2) sessions.start_inv [OF st]] by (auto intro: allowed_step_governed)
  from governed_limits [OF started_unused [OF st, simplified] this assms(3)] show ?thesis by blast
qed

text \<open>Without a restriction on the operations, the coordinator's engine is in a reachable state of the engine.\<close>

lemma coordinator_reaches:
  assumes "coordinator_start ids oob now None = Some co0" "(session_step (\<lambda>_ _ _. True))\<^sup>*\<^sup>* (co0, []) (co, ps)"
  shows "reachable (co_engine co)"
proof -
  have st: "started (co0, [])" using assms(1) by (auto simp: started_def)
  have "co_engine co0 = apply_op now (Op_set_policy coordinator_policy) (impl_initial engine_settings_default ids oob)"
    using assms(1) by (auto simp: coordinator_start_def Let_def)
  then have "reachable (co_engine co0)" by (simp only:) (rule reachable_apply [OF reachable_initial], simp)
  with sessions.run_safe [OF st assms(2), of reachable] show ?thesis
    by (auto simp: allowed_step_def intro: reachable_apply)
qed

lemma sample_session:
  "\<exists>co. (session_step governed_op)\<^sup>*\<^sup>* (sample_coordinator, []) (co, []) \<and> length (im_tenants (co_engine co)) = 1"
proof -
  let ?q = "sample_request MT_CREATE_TENANT"
  obtain co r where act: "act sample_coordinator 5 ?q = Some (co, r)" by (simp add: act_def split_beta Let_def)
  have "session_step governed_op (sample_coordinator, []) (sample_coordinator, [?q])"
    by (rule session_check [OF decode_sample]) (simp_all add: message_type_valid_def needs_authority_def unchecked_types_def)
  moreover have "session_step governed_op (sample_coordinator, [?q]) (co, remove1 ?q [?q])"
    by (rule session_act [OF _ act]) (simp_all add: request_allowed_def known_dimension_def request_op_def)
  ultimately have "(session_step governed_op)\<^sup>*\<^sup>* (sample_coordinator, []) (co, [])" by simp
  moreover have "length (im_tenants (co_engine co)) = 1"
  proof -
    let ?im = "co_engine sample_coordinator"
    have none: "im_tenants ?im = []" "im_settings ?im = engine_settings_default" "opt_group ?q = None"
      by (simp_all add: sample_coordinator_def set_policy_def coordinator_policy_valid sample_engine_def impl_initial_def
          opt_group_def sample_request_def wire_request_default_def id_is_null_def null_id_def)
    have "co_engine co = fst (create_tenant_auto ?im 5 (wq_name ?q) None (wq_priority ?q))"
      using act by (auto simp: act_def split_beta Let_def dispatch_def none(3))
    then show ?thesis
      using none(1,2)
      by (simp add: create_tenant_auto_def create_tenant_def split_beta Let_def tenant_exists_def contains_key_def emplace_def
          engine_settings_default_def)
  qed
  ultimately show ?thesis by blast
qed

theorem coordinator_quota_safe_witness:
  "\<exists>co ps. (session_step governed_op)\<^sup>*\<^sup>* (sample_coordinator, []) (co, ps) \<and> length (im_tenants (co_engine co)) = 1 \<and>
     rv_get (committed_of (usage_of (co_engine co) null_id)) AcceleratorVRAM \<le>
       hard_at (effective_lattice (co_engine co) null_id) AcceleratorVRAM"
proof -
  obtain co where co: "(session_step governed_op)\<^sup>*\<^sup>* (sample_coordinator, []) (co, [])" "length (im_tenants (co_engine co)) = 1"
    using sample_session by blast
  have "coordinator_start sample_ids 0 1 None = Some sample_coordinator"
    by (simp add: coordinator_start_def sample_coordinator_def sample_engine_def)
  moreover have "\<not> is_consumable AcceleratorVRAM" by (simp add: is_consumable_def)
  ultimately show ?thesis using coordinator_quota_safe [OF _ co(1), of sample_ids 0 1 AcceleratorVRAM null_id] co by blast
qed

end
