(* ===== verification/QF_Socket.thy ===== *)
theory QF_Socket
  imports QF_Prelude QF_Simulation "HOL-Library.Multiset"
begin

text \<open>
  The life cycle of \<open>TcpSocket\<close> (\<open>protocol/net.hpp\<close>, \<open>protocol/net.cpp\<close>): connecting,
  listening, accepting, moving, closing and destroying. The operating system is a table of
  open descriptors; which calls succeed is an argument, and so is the rule by which it
  chooses a new descriptor. The lemmas: every open descriptor belongs to exactly one socket
  object, whatever sequence of these operations runs and wherever a call fails, so that
  nothing leaks and nothing is closed twice. The transfer of data is in \<open>QF_Net\<close>.
\<close>

section \<open>The operating system\<close>

text \<open>
  \<open>os_addrinfo\<close> counts the address lists of \<open>getaddrinfo\<close> that are not freed yet, \<open>os_faults\<close>
  the calls of \<open>close\<close> on a descriptor that is not open, \<open>os_wsock_init\<close> is the flag of the
  Windows build.
\<close>

record os =
  os_open :: "int list"
  os_addrinfo :: nat
  os_faults :: nat
  os_wsock_init :: bool

datatype platform = Windows | Posix

abbreviation QF_INVALID_SOCKET :: int where
  "QF_INVALID_SOCKET \<equiv> -1"

definition net_startup :: "platform \<Rightarrow> os \<Rightarrow> os" where
  "net_startup p s = (case p of Windows \<Rightarrow> if \<not> os_wsock_init s then s\<lparr>os_wsock_init := True\<rparr> else s | Posix \<Rightarrow> s)"

definition net_cleanup :: "platform \<Rightarrow> os \<Rightarrow> os" where
  "net_cleanup p s = (case p of Windows \<Rightarrow> if os_wsock_init s then s\<lparr>os_wsock_init := False\<rparr> else s | Posix \<Rightarrow> s)"

text \<open>A successful \<open>socket\<close> or \<open>accept\<close> returns a descriptor chosen from the open ones.\<close>

definition new_descriptor :: "(int list \<Rightarrow> int) \<Rightarrow> bool \<Rightarrow> os \<Rightarrow> os \<times> int" where
  "new_descriptor fresh ok s =
     (if ok then (s\<lparr>os_open := fresh (os_open s) # os_open s\<rparr>, fresh (os_open s)) else (s, QF_INVALID_SOCKET))"

definition close_impl :: "int \<Rightarrow> os \<Rightarrow> os" where
  "close_impl fd s =
     (if fd \<in> set (os_open s) then s\<lparr>os_open := remove1 fd (os_open s)\<rparr> else s\<lparr>os_faults := Suc (os_faults s)\<rparr>)"

definition getaddrinfo_call :: "bool \<Rightarrow> os \<Rightarrow> os" where
  "getaddrinfo_call ok s = (if ok then s\<lparr>os_addrinfo := Suc (os_addrinfo s)\<rparr> else s)"

definition freeaddrinfo :: "os \<Rightarrow> os" where
  "freeaddrinfo s = s\<lparr>os_addrinfo := os_addrinfo s - 1\<rparr>"

text \<open>What POSIX promises of the choice: a descriptor is non-negative and not in use.\<close>

definition fresh_choice :: "(int list \<Rightarrow> int) \<Rightarrow> bool" where
  "fresh_choice fresh \<longleftrightarrow> (\<forall>fds. 0 \<le> fresh fds \<and> fresh fds \<notin> set fds)"

section \<open>Connecting, listening, accepting\<close>

text \<open>
  The loop of \<open>connect\<close> over the addresses; for each one whether \<open>socket\<close> and \<open>connect\<close>
  succeed. The last argument is the variable \<open>s\<close> of the source.
\<close>

fun connect_loop :: "(int list \<Rightarrow> int) \<Rightarrow> (bool \<times> bool) list \<Rightarrow> os \<Rightarrow> int \<Rightarrow> os \<times> int" where
  "connect_loop fresh [] s fd = (s, fd)"
| "connect_loop fresh ((socket_ok, connect_ok) # ais) s fd =
     (case new_descriptor fresh socket_ok s of
        (s1, fd1) \<Rightarrow>
          if fd1 = QF_INVALID_SOCKET then connect_loop fresh ais s1 fd1
          else if connect_ok then (s1, fd1)
          else connect_loop fresh ais (close_impl fd1 s1) QF_INVALID_SOCKET)"

text \<open>The addresses that \<open>getaddrinfo\<close> finds with the outcomes of the calls on each, \<open>None\<close> when it fails.\<close>

definition tcp_connect ::
  "platform \<Rightarrow> (int list \<Rightarrow> int) \<Rightarrow> (bool \<times> bool) list option \<Rightarrow> os \<Rightarrow> os \<times> (string + int)" where
  "tcp_connect p fresh addresses s =
     (let s0 = net_startup p s
      in case addresses of
           None \<Rightarrow> (getaddrinfo_call False s0, Inl ''getaddrinfo failed'')
         | Some ais \<Rightarrow>
             (case connect_loop fresh ais (getaddrinfo_call True s0) QF_INVALID_SOCKET of
                (s1, fd) \<Rightarrow>
                  (let s2 = freeaddrinfo s1
                   in if fd = QF_INVALID_SOCKET then (s2, Inl ''connect failed'') else (s2, Inr fd))))"

record listen_calls =
  lc_getaddrinfo :: bool
  lc_socket :: bool
  lc_bind :: bool
  lc_listen :: bool

definition tcp_listen :: "platform \<Rightarrow> (int list \<Rightarrow> int) \<Rightarrow> listen_calls \<Rightarrow> os \<Rightarrow> os \<times> (string + int)" where
  "tcp_listen p fresh c s =
     (let s0 = net_startup p s; s1 = getaddrinfo_call (lc_getaddrinfo c) s0
      in if \<not> lc_getaddrinfo c then (s1, Inl ''getaddrinfo failed'')
         else (case new_descriptor fresh (lc_socket c) s1 of
                 (s2, fd) \<Rightarrow>
                   if fd = QF_INVALID_SOCKET then (freeaddrinfo s2, Inl ''socket failed'')
                   else if \<not> lc_bind c then (freeaddrinfo (close_impl fd s2), Inl ''bind failed'')
                   else (let s3 = freeaddrinfo s2
                         in if \<not> lc_listen c then (close_impl fd s3, Inl ''listen failed'') else (s3, Inr fd))))"

definition tcp_accept :: "(int list \<Rightarrow> int) \<Rightarrow> bool \<Rightarrow> os \<Rightarrow> os \<times> (string + int)" where
  "tcp_accept fresh ok s =
     (case new_descriptor fresh ok s of
        (s1, c) \<Rightarrow> if c = QF_INVALID_SOCKET then (s1, Inl ''accept failed'') else (s1, Inr c))"

section \<open>Socket objects\<close>

text \<open>The live objects with their member \<open>fd_\<close>, named by numbers.\<close>

record net_state =
  ns_os :: os
  ns_objs :: "(nat, int) hmap"

definition fd_of :: "net_state \<Rightarrow> nat \<Rightarrow> int" where
  "fd_of st x = (case map_of (ns_objs st) x of None \<Rightarrow> QF_INVALID_SOCKET | Some fd \<Rightarrow> fd)"

definition valid_socket :: "net_state \<Rightarrow> nat \<Rightarrow> bool" where
  "valid_socket st x \<longleftrightarrow> fd_of st x \<noteq> QF_INVALID_SOCKET"

definition set_fd :: "nat \<Rightarrow> int \<Rightarrow> net_state \<Rightarrow> net_state" where
  "set_fd x fd st = st\<lparr>ns_objs := AList.update x fd (ns_objs st)\<rparr>"

definition tcp_close :: "nat \<Rightarrow> net_state \<Rightarrow> net_state" where
  "tcp_close x st =
     (if fd_of st x \<noteq> QF_INVALID_SOCKET
      then set_fd x QF_INVALID_SOCKET (st\<lparr>ns_os := close_impl (fd_of st x) (ns_os st)\<rparr>) else st)"

text \<open>The move constructor, the move assignment and the destructor.\<close>

definition move_construct :: "nat \<Rightarrow> nat \<Rightarrow> net_state \<Rightarrow> net_state" where
  "move_construct x y st = set_fd y QF_INVALID_SOCKET (set_fd x (fd_of st y) st)"

definition move_assign :: "nat \<Rightarrow> nat \<Rightarrow> net_state \<Rightarrow> net_state" where
  "move_assign x y st =
     (if x \<noteq> y then let st1 = tcp_close x st in set_fd y QF_INVALID_SOCKET (set_fd x (fd_of st1 y) st1) else st)"

definition destroy :: "nat \<Rightarrow> net_state \<Rightarrow> net_state" where
  "destroy x st = (let st1 = tcp_close x st in st1\<lparr>ns_objs := AList.delete x (ns_objs st1)\<rparr>)"

text \<open>\<open>return TcpSocket(s)\<close> of the three factories: a new object that owns the descriptor.\<close>

definition adopt :: "nat \<Rightarrow> os \<times> (string + int) \<Rightarrow> net_state \<Rightarrow> net_state" where
  "adopt x r st =
     (case r of (s, Inl err) \<Rightarrow> st\<lparr>ns_os := s\<rparr> | (s, Inr fd) \<Rightarrow> set_fd x fd (st\<lparr>ns_os := s\<rparr>))"

text \<open>The operations of a program on its sockets. A new object has an unused name, the others name live objects.\<close>

datatype socket_op =
    S_default nat
  | S_connect nat "(bool \<times> bool) list option"
  | S_listen nat listen_calls
  | S_accept nat nat bool
  | S_move_construct nat nat
  | S_move_assign nat nat
  | S_close nat
  | S_destroy nat

definition live :: "net_state \<Rightarrow> nat \<Rightarrow> bool" where
  "live st x \<longleftrightarrow> map_of (ns_objs st) x \<noteq> None"

fun socket_op_ok :: "net_state \<Rightarrow> socket_op \<Rightarrow> bool" where
  "socket_op_ok st (S_default x) = (\<not> live st x)"
| "socket_op_ok st (S_connect x ais) = (\<not> live st x)"
| "socket_op_ok st (S_listen x c) = (\<not> live st x)"
| "socket_op_ok st (S_accept x l ok) = (\<not> live st x \<and> live st l)"
| "socket_op_ok st (S_move_construct x y) = (\<not> live st x \<and> live st y)"
| "socket_op_ok st (S_move_assign x y) = (live st x \<and> live st y)"
| "socket_op_ok st (S_close x) = live st x"
| "socket_op_ok st (S_destroy x) = live st x"

fun apply_socket_op :: "platform \<Rightarrow> (int list \<Rightarrow> int) \<Rightarrow> socket_op \<Rightarrow> net_state \<Rightarrow> net_state" where
  "apply_socket_op p fresh (S_default x) st = set_fd x QF_INVALID_SOCKET st"
| "apply_socket_op p fresh (S_connect x ais) st = adopt x (tcp_connect p fresh ais (ns_os st)) st"
| "apply_socket_op p fresh (S_listen x c) st = adopt x (tcp_listen p fresh c (ns_os st)) st"
| "apply_socket_op p fresh (S_accept x l ok) st = adopt x (tcp_accept fresh ok (ns_os st)) st"
| "apply_socket_op p fresh (S_move_construct x y) st = move_construct x y st"
| "apply_socket_op p fresh (S_move_assign x y) st = move_assign x y st"
| "apply_socket_op p fresh (S_close x) st = tcp_close x st"
| "apply_socket_op p fresh (S_destroy x) st = destroy x st"

inductive socket_step :: "platform \<Rightarrow> (int list \<Rightarrow> int) \<Rightarrow> net_state \<Rightarrow> net_state \<Rightarrow> bool" for p fresh where
  socket_stepI: "socket_op_ok st op \<Longrightarrow> socket_step p fresh st (apply_socket_op p fresh op st)"

inductive_cases socket_stepE: "socket_step p fresh st st'"

section \<open>What the factories do to the descriptor table\<close>

lemma net_startup_simps [simp]:
  "os_open (net_startup p s) = os_open s" "os_addrinfo (net_startup p s) = os_addrinfo s" "os_faults (net_startup p s) = os_faults s"
  by (simp_all add: net_startup_def split: platform.split)

lemma fresh_choiceD: "fresh_choice fresh \<Longrightarrow> fresh fds \<noteq> -1" "fresh_choice fresh \<Longrightarrow> 0 \<le> fresh fds" "fresh_choice fresh \<Longrightarrow> fresh fds \<notin> set fds"
  unfolding fresh_choice_def by (metis neg_0_le_iff_le not_one_le_zero, blast+)

lemma connect_loop_result:
  assumes "fresh_choice fresh"
  shows "connect_loop fresh ais s (-1) =
    (if \<exists>(so, co) \<in> set ais. so \<and> co then (s\<lparr>os_open := fresh (os_open s) # os_open s\<rparr>, fresh (os_open s)) else (s, -1))"
proof (induction ais)
  case (Cons a ais)
  obtain so co where a: "a = (so, co)" by (cases a)
  have "close_impl f (s\<lparr>os_open := f # os_open s\<rparr>) = s" for f by (simp add: close_impl_def)
  then show ?case using Cons by (auto simp: a new_descriptor_def fresh_choiceD(1) [OF assms])
qed simp

lemma tcp_connect_result:
  assumes "fresh_choice fresh"
  shows "tcp_connect p fresh addresses s =
    (let s0 = net_startup p s; f = fresh (os_open s) in
     case addresses of
       None \<Rightarrow> (s0, Inl ''getaddrinfo failed'')
     | Some ais \<Rightarrow>
         if \<exists>(so, co) \<in> set ais. so \<and> co then (s0\<lparr>os_open := f # os_open s\<rparr>, Inr f) else (s0, Inl ''connect failed''))"
  by (auto simp: tcp_connect_def Let_def getaddrinfo_call_def connect_loop_result [OF assms] freeaddrinfo_def
      fresh_choiceD(1) [OF assms] split: option.split)

lemma tcp_listen_result:
  assumes "fresh_choice fresh"
  shows "tcp_listen p fresh c s =
    (let s0 = net_startup p s; f = fresh (os_open s) in
     if \<not> lc_getaddrinfo c then (s0, Inl ''getaddrinfo failed'')
     else if \<not> lc_socket c then (s0, Inl ''socket failed'')
     else if \<not> lc_bind c then (s0, Inl ''bind failed'')
     else if \<not> lc_listen c then (s0, Inl ''listen failed'')
     else (s0\<lparr>os_open := f # os_open s\<rparr>, Inr f))"
  by (auto simp: tcp_listen_def Let_def getaddrinfo_call_def new_descriptor_def freeaddrinfo_def close_impl_def
      fresh_choiceD(1) [OF assms])

lemma tcp_accept_result:
  assumes "fresh_choice fresh"
  shows "tcp_accept fresh ok s =
    (if ok then (s\<lparr>os_open := fresh (os_open s) # os_open s\<rparr>, Inr (fresh (os_open s))) else (s, Inl ''accept failed''))"
  by (simp add: tcp_accept_def new_descriptor_def fresh_choiceD(1) [OF assms])

section \<open>Ownership\<close>

definition single :: "int \<Rightarrow> int multiset" where
  "single fd = (if fd = QF_INVALID_SOCKET then {#} else {#fd#})"

definition owned_fds :: "(nat, int) hmap \<Rightarrow> int multiset" where
  "owned_fds m = (\<Sum>(x, fd) \<leftarrow> m. single fd)"

text \<open>Every open descriptor is held by exactly one object, and no object holds a closed one.\<close>

definition owned :: "net_state \<Rightarrow> bool" where
  "owned st \<longleftrightarrow>
     distinct_keys (ns_objs st) \<and> owned_fds (ns_objs st) = mset (os_open (ns_os st)) \<and>
     distinct (os_open (ns_os st)) \<and> list_all (\<lambda>fd. 0 \<le> fd) (os_open (ns_os st)) \<and>
     os_faults (ns_os st) = 0 \<and> os_addrinfo (ns_os st) = 0"

lemma owned_fds_new: "map_of m x = None \<Longrightarrow> owned_fds (AList.update x fd m) = owned_fds m + single fd"
  by (induction m) (auto simp: owned_fds_def split: if_splits)

lemma owned_fds_update:
  assumes "distinct_keys m" "map_of m x = Some v"
  shows "owned_fds (AList.update x fd m) + single v = owned_fds m + single fd"
  using assms by (induction m) (auto simp: owned_fds_def ac_simps split: if_splits)

lemma owned_fds_delete:
  assumes "distinct_keys m" "map_of m x = Some v"
  shows "owned_fds (AList.delete x m) + single v = owned_fds m"
  using assms by (induction m) (auto simp: owned_fds_def ac_simps delete_id split: if_splits)

lemma owned_fd_open:
  assumes "owned st" "fd_of st x \<noteq> -1"
  shows "fd_of st x \<in> set (os_open (ns_os st))"
proof -
  obtain fd where x: "map_of (ns_objs st) x = Some fd" "fd_of st x = fd" "fd \<noteq> -1"
    using assms(2) by (auto simp: fd_of_def split: option.splits)
  have "owned_fds (AList.delete x (ns_objs st)) + single fd = mset (os_open (ns_os st))"
    using assms(1) owned_fds_delete [OF _ x(1)] by (simp add: owned_def)
  then have "fd \<in># mset (os_open (ns_os st))" using x(3) by (metis single_def union_iff union_single_eq_member add.commute)
  with x(2) show ?thesis by simp
qed

lemma owned_close:
  assumes "owned st"
  shows "owned (tcp_close x st)"
proof (cases "fd_of st x = -1")
  case False
  let ?fd = "fd_of st x" and ?op = "os_open (ns_os st)"
  have op: "?fd \<in> set ?op" by (rule owned_fd_open [OF assms False])
  have x: "map_of (ns_objs st) x = Some ?fd" using False by (auto simp: fd_of_def split: option.splits)
  have "owned_fds (AList.update x (-1) (ns_objs st)) + {#?fd#} = mset ?op"
    using owned_fds_update [OF _ x, of "-1"] assms False by (simp add: owned_def single_def)
  also have "\<dots> = mset (remove1 ?fd ?op) + {#?fd#}" using op by simp
  finally have "owned_fds (AList.update x (-1) (ns_objs st)) = mset (remove1 ?fd ?op)" by simp
  then show ?thesis
    using assms False op
    by (auto simp: tcp_close_def owned_def set_fd_def close_impl_def list_all_iff dest: notin_set_remove1)
qed (simp add: tcp_close_def assms)

text \<open>The contract of the factories: an error and the same table, or one new descriptor.\<close>

definition factory_result :: "os \<Rightarrow> os \<times> (string + int) \<Rightarrow> bool" where
  "factory_result s r \<longleftrightarrow>
     os_addrinfo (fst r) = os_addrinfo s \<and> os_faults (fst r) = os_faults s \<and>
     (case snd r of
        Inl err \<Rightarrow> os_open (fst r) = os_open s
      | Inr fd \<Rightarrow> os_open (fst r) = fd # os_open s \<and> 0 \<le> fd \<and> fd \<notin> set (os_open s))"

lemma factory_results:
  assumes "fresh_choice fresh"
  shows "factory_result s (tcp_connect p fresh ais s)" "factory_result s (tcp_listen p fresh c s)" "factory_result s (tcp_accept fresh ok s)"
  using fresh_choiceD [OF assms]
  by (auto simp: factory_result_def tcp_connect_result [OF assms] tcp_listen_result [OF assms] tcp_accept_result [OF assms]
      Let_def split: option.split)

lemma owned_adopt:
  assumes "owned st" "\<not> live st x" "factory_result (ns_os st) r"
  shows "owned (adopt x r st)"
proof (cases r)
  case (Pair s v)
  have new: "map_of (ns_objs st) x = None" using assms(2) by (simp add: live_def)
  show ?thesis
    using assms(1,3) Pair owned_fds_new [OF new]
    by (cases v) (auto simp: adopt_def owned_def factory_result_def set_fd_def single_def)
qed

lemma fd_of_set_fd: "fd_of (set_fd x fd st) y = (if y = x then fd else fd_of st y)"
  by (simp add: fd_of_def set_fd_def map_of_update)

text \<open>Handing a descriptor over from one object to another that holds none.\<close>

lemma owned_hand_over:
  assumes "owned st" "x \<noteq> y" "live st y" "\<not> live st x \<or> fd_of st x = -1"
  shows "owned (set_fd y (-1) (set_fd x (fd_of st y) st))"
proof -
  let ?m = "ns_objs st"
  obtain v where y: "map_of ?m y = Some v" and v: "fd_of st y = v" using assms(3) by (auto simp: live_def fd_of_def)
  have d: "distinct_keys ?m" using assms(1) by (simp add: owned_def)
  have 1: "owned_fds (AList.update x v ?m) = owned_fds ?m + single v"
  proof (cases "map_of ?m x")
    case None
    then show ?thesis by (rule owned_fds_new)
  next
    case (Some w)
    then have "w = -1" using assms(4) by (auto simp: live_def fd_of_def)
    with owned_fds_update [OF d Some, of v] show ?thesis by (simp add: single_def)
  qed
  have "map_of (AList.update x v ?m) y = Some v" using assms(2) y by (simp add: map_of_update)
  from owned_fds_update [OF distinct_keys_update [OF d] this, of "-1"] 1
  have "owned_fds (AList.update y (-1) (AList.update x v ?m)) = owned_fds ?m" by (simp add: single_def)
  then show ?thesis using assms(1) by (simp add: owned_def set_fd_def v)
qed

lemma live_close [simp]: "live (tcp_close x st) y = live st y"
  by (auto simp: live_def tcp_close_def set_fd_def map_of_update fd_of_def split: option.splits)

lemma closed_fd [simp]: "fd_of (tcp_close x st) x = -1"
  by (simp add: tcp_close_def fd_of_set_fd)

lemma owned_destroy:
  assumes "owned st" "live st x"
  shows "owned (destroy x st)"
proof -
  let ?st = "tcp_close x st"
  have o: "owned ?st" by (rule owned_close [OF assms(1)])
  obtain v where v: "map_of (ns_objs ?st) x = Some v" using assms(2) live_close [of x st x] by (auto simp: live_def)
  then have "v = -1" using closed_fd [of x st] by (simp add: fd_of_def)
  with owned_fds_delete [OF _ v] o show ?thesis by (simp add: destroy_def owned_def single_def Let_def)
qed

lemma owned_default:
  assumes "owned st" "\<not> live st x"
  shows "owned (set_fd x (-1) st)"
proof -
  have "map_of (ns_objs st) x = None" using assms(2) by (simp only: live_def not_not)
  from owned_fds_new [OF this, of "-1"] show ?thesis using assms(1) by (simp add: owned_def set_fd_def single_def)
qed

lemma owned_step:
  assumes "fresh_choice fresh" "owned st" "socket_op_ok st op"
  shows "owned (apply_socket_op p fresh op st)"
proof (cases op)
  case (S_move_construct x y)
  with assms show ?thesis by (auto simp: move_construct_def intro: owned_hand_over)
next
  case (S_move_assign x y)
  with assms show ?thesis by (auto simp: move_assign_def Let_def intro: owned_hand_over owned_close)
qed (use assms in \<open>simp_all add: owned_adopt factory_results owned_close owned_destroy owned_default\<close>)

section \<open>Runs\<close>

text \<open>The abstract view: the set of descriptors the process holds; a step adds or gives up at most one.\<close>

definition descriptor_step :: "int set \<Rightarrow> int set \<Rightarrow> bool" where
  "descriptor_step R R' \<longleftrightarrow> R' = R \<or> (\<exists>fd. fd \<notin> R \<and> R' = insert fd R) \<or> (\<exists>fd \<in> R. R' = R - {fd})"

lemma os_of_set_fd [simp]: "ns_os (set_fd x fd st) = ns_os st"
  by (simp add: set_fd_def)

lemma step_close:
  assumes "owned st"
  shows "descriptor_step (set (os_open (ns_os st))) (set (os_open (ns_os (tcp_close x st))))"
proof (cases "fd_of st x = -1")
  case False
  then have "fd_of st x \<in> set (os_open (ns_os st))" by (rule owned_fd_open [OF assms])
  then show ?thesis using False assms by (auto simp: descriptor_step_def tcp_close_def close_impl_def owned_def)
qed (simp add: descriptor_step_def tcp_close_def)

lemma step_adopt:
  assumes "factory_result (ns_os st) r"
  shows "descriptor_step (set (os_open (ns_os st))) (set (os_open (ns_os (adopt x r st))))"
  using assms by (auto simp: descriptor_step_def factory_result_def adopt_def split: prod.splits sum.splits)

lemma step_descriptors:
  assumes "fresh_choice fresh" "owned st"
  shows "descriptor_step (set (os_open (ns_os st))) (set (os_open (ns_os (apply_socket_op p fresh op st))))"
  using step_close [OF assms(2)] step_adopt factory_results [OF assms(1)]
  by (cases op) (auto simp: move_construct_def move_assign_def destroy_def Let_def descriptor_step_def)

definition no_sockets :: "net_state \<Rightarrow> bool" where
  "no_sockets st \<longleftrightarrow> ns_objs st = [] \<and> os_open (ns_os st) = [] \<and> os_faults (ns_os st) = 0 \<and> os_addrinfo (ns_os st) = 0"

text \<open>POSIX's rule, the lowest descriptor that is not in use, satisfies the promise.\<close>

definition lowest_free :: "int list \<Rightarrow> int" where
  "lowest_free fds = (case find (\<lambda>n. int n \<notin> set fds) [0..<Suc (length fds)] of None \<Rightarrow> int (length fds) | Some n \<Rightarrow> int n)"

lemma lowest_free_fresh: "fresh_choice lowest_free"
proof -
  have "0 \<le> lowest_free fds \<and> lowest_free fds \<notin> set fds" for fds :: "int list"
  proof (cases "find (\<lambda>n. int n \<notin> set fds) [0..<Suc (length fds)]")
    case None
    then have "\<forall>n \<in> set [0..<Suc (length fds)]. int n \<in> set fds" by (auto simp only: find_None_iff)
    then have "int ` {..length fds} \<subseteq> set fds"
      by (simp only: image_subset_iff set_upt atLeastLessThanSuc_atLeastAtMost atLeast0AtMost)
    then have "card (int ` {..length fds}) \<le> card (set fds)" by (rule card_mono [OF finite_set])
    then show ?thesis using card_length [of fds] by (simp add: card_image)
  next
    case (Some n)
    then have "int n \<notin> set fds" by (auto simp only: find_Some_iff)
    with Some show ?thesis by (simp only: lowest_free_def option.case) simp
  qed
  then show ?thesis by (simp add: fresh_choice_def)
qed

text \<open>What is proved of a program's sockets holds for every allocation rule with that promise.\<close>

locale descriptor_allocator =
  fixes p :: platform and fresh :: "int list \<Rightarrow> int"
  assumes choice: "fresh_choice fresh"

sublocale descriptor_allocator \<subseteq>
  sockets: simulation no_sockets "socket_step p fresh" owned "\<lambda>st. set (os_open (ns_os st))" descriptor_step
proof
  show "no_sockets st \<Longrightarrow> owned st" for st by (simp add: no_sockets_def owned_def owned_fds_def)
  show "owned st \<Longrightarrow> socket_step p fresh st st' \<Longrightarrow> owned st'" for st st'
    by (auto elim!: socket_stepE intro: owned_step [OF choice])
  show "owned st \<Longrightarrow> socket_step p fresh st st' \<Longrightarrow>
      descriptor_step (set (os_open (ns_os st))) (set (os_open (ns_os st')))" for st st'
    by (auto elim!: socket_stepE intro: step_descriptors [OF choice])
qed

context descriptor_allocator
begin

lemma run_owned: "no_sockets st0 \<Longrightarrow> (socket_step p fresh)\<^sup>*\<^sup>* st0 st \<Longrightarrow> owned st"
  by (rule sockets.run_inv [OF _ sockets.start_inv])

end

interpretation posix: descriptor_allocator Posix lowest_free
  by unfold_locales (rule lowest_free_fresh)

lemma owner_exists: "fd \<in># owned_fds m \<Longrightarrow> \<exists>x. (x, fd) \<in> set m \<and> fd \<noteq> -1"
  by (induction m) (auto simp: owned_fds_def single_def split: if_splits)

lemma owner_unique:
  assumes "owned st" "fd_of st x = fd" "fd_of st y = fd" "fd \<noteq> -1"
  shows "x = y"
proof (rule ccontr)
  assume "x \<noteq> y"
  let ?m = "ns_objs st"
  have m: "map_of ?m x = Some fd" "map_of ?m y = Some fd" using assms(2-4) by (auto simp: fd_of_def split: option.splits)
  have d: "distinct_keys ?m" using assms(1) by (simp add: owned_def)
  have y: "map_of (AList.delete x ?m) y = Some fd" using \<open>x \<noteq> y\<close> m(2) by (simp add: delete_conv)
  have 1: "owned_fds (AList.delete x ?m) + {#fd#} = mset (os_open (ns_os st))"
    using owned_fds_delete [OF d m(1)] assms(1,4) by (simp add: owned_def single_def)
  have 2: "owned_fds (AList.delete y (AList.delete x ?m)) + {#fd#} = owned_fds (AList.delete x ?m)"
    using owned_fds_delete [OF distinct_keys_delete [OF d] y] assms(4) by (simp add: single_def)
  have "2 \<le> count (mset (os_open (ns_os st))) fd" by (simp flip: 1 2)
  moreover have "count (mset (os_open (ns_os st))) fd \<le> 1"
    using assms(1) by (simp add: owned_def distinct_count_atmost_1)
  ultimately show False by simp
qed

text \<open>
  C27. After any sequence of connects, listens, accepts, moves, closes and destructions of
  socket objects, with any system call failing at any point, every open descriptor is held
  by exactly one object and no object holds a closed one, no descriptor has been closed
  twice, every address list is freed, and nothing is open once all objects are destroyed.
  Hypothesis: the system hands out descriptors that are not in use.
\<close>

theorem sockets_never_leak:
  assumes "fresh_choice fresh" "no_sockets st0" "(socket_step p fresh)\<^sup>*\<^sup>* st0 st"
  shows "(\<forall>fd. fd \<in> set (os_open (ns_os st)) \<longleftrightarrow> fd \<noteq> -1 \<and> (\<exists>!x. fd_of st x = fd)) \<and>
    os_faults (ns_os st) = 0 \<and> os_addrinfo (ns_os st) = 0 \<and>
    (ns_objs st \<noteq> [] \<or> os_open (ns_os st) = [])"
proof -
  have o: "owned st"
    by (rule descriptor_allocator.run_owned [OF descriptor_allocator.intro [OF assms(1)] assms(2,3)])
  have "fd \<noteq> -1 \<and> (\<exists>!x. fd_of st x = fd)" if "fd \<in> set (os_open (ns_os st))" for fd
  proof -
    from that o have "fd \<in># owned_fds (ns_objs st)" by (simp add: owned_def)
    from owner_exists [OF this] obtain x where x: "(x, fd) \<in> set (ns_objs st)" "fd \<noteq> -1" by blast
    then have "fd_of st x = fd" using o by (simp add: fd_of_def owned_def map_of_is_SomeI)
    with x(2) owner_unique [OF o] show ?thesis by blast
  qed
  moreover have "fd \<in> set (os_open (ns_os st))" if "fd \<noteq> -1" "\<exists>!x. fd_of st x = fd" for fd
    using that owned_fd_open [OF o] by blast
  moreover have "os_open (ns_os st) = []" if "ns_objs st = []" using o that by (simp add: owned_def owned_fds_def)
  moreover have "os_faults (ns_os st) = 0" "os_addrinfo (ns_os st) = 0" using o by (simp_all add: owned_def)
  ultimately show ?thesis by blast
qed

text \<open>
  connect succeeds exactly when some address of the list accepts, listen exactly when all
  four of its calls succeed; on every failure the table of descriptors is as before, and on
  success it has exactly one new descriptor, the returned one.
\<close>

theorem socket_factories_exact:
  assumes "fresh_choice fresh"
  shows "factory_result s (tcp_connect p fresh addresses s) \<and> factory_result s (tcp_listen p fresh c s) \<and>
    (isl (snd (tcp_connect p fresh addresses s)) \<longleftrightarrow> \<not> (\<exists>ais. addresses = Some ais \<and> (True, True) \<in> set ais)) \<and>
    (isl (snd (tcp_listen p fresh c s)) \<longleftrightarrow> \<not> (lc_getaddrinfo c \<and> lc_socket c \<and> lc_bind c \<and> lc_listen c))"
proof -
  have "isl (snd (tcp_connect p fresh addresses s)) \<longleftrightarrow> \<not> (\<exists>ais. addresses = Some ais \<and> (True, True) \<in> set ais)"
    by (auto simp: tcp_connect_result [OF assms] Let_def split: option.split)
  moreover have "isl (snd (tcp_listen p fresh c s)) \<longleftrightarrow> \<not> (lc_getaddrinfo c \<and> lc_socket c \<and> lc_bind c \<and> lc_listen c)"
    by (simp add: tcp_listen_result [OF assms] Let_def)
  ultimately show ?thesis using factory_results [OF assms] by blast
qed

definition no_sockets_yet :: net_state where
  "no_sockets_yet = \<lparr>ns_os = \<lparr>os_open = [], os_addrinfo = 0, os_faults = 0, os_wsock_init = False\<rparr>, ns_objs = []\<rparr>"

theorem sockets_never_leak_witness:
  "os_open (ns_os (apply_socket_op Posix lowest_free (S_connect 1 (Some [(True, False), (True, True)])) no_sockets_yet)) = [0] \<and>
   (\<exists>!x. fd_of (apply_socket_op Posix lowest_free (S_connect 1 (Some [(True, False), (True, True)])) no_sockets_yet) x = 0)"
proof -
  define st where "st = apply_socket_op Posix lowest_free (S_connect 1 (Some [(True, False), (True, True)])) no_sockets_yet"
  have "socket_step Posix lowest_free no_sockets_yet st"
    unfolding st_def by (rule socket_stepI) (simp add: live_def no_sockets_yet_def)
  then have run: "(socket_step Posix lowest_free)\<^sup>*\<^sup>* no_sockets_yet st" by (rule r_into_rtranclp)
  have "no_sockets no_sockets_yet" by (simp add: no_sockets_def no_sockets_yet_def)
  from sockets_never_leak [OF lowest_free_fresh this run]
  have own: "0 \<in> set (os_open (ns_os st)) \<longleftrightarrow> (0 :: int) \<noteq> -1 \<and> (\<exists>!x. fd_of st x = 0)" by blast
  have "os_open (ns_os st) = [0]" unfolding st_def by code_simp
  with own show ?thesis unfolding st_def [symmetric] by simp
qed

theorem socket_factories_exact_witness:
  "isl (snd (tcp_connect Posix lowest_free (Some [(True, False)]) (ns_os no_sockets_yet)))"
  using socket_factories_exact [OF lowest_free_fresh, of "ns_os no_sockets_yet" Posix "Some [(True, False)]"] by simp

end
