(* ===== verification/QF_Daemon.thy ===== *)
theory QF_Daemon
  imports QF_Client QF_Socket
begin

text \<open>
  The two daemons as programs: \<open>main\<close> of \<open>apps/coordinator/main.cpp\<close> with its options, start-up
  and accept loop, and \<open>main\<close> of \<open>apps/agent/main.cpp\<close> from its options to the idle loop. The
  outcomes of the system calls are arguments. The lemmas: what ends the accept loop, what
  it has done after any number of rounds, and what the start of an agent leaves in the
  coordinator's registry.
\<close>

section \<open>How a program ends\<close>

text \<open>
  An exit code with what was printed, an uncaught exception or undefined behaviour, the
  default action of a signal, or a program that keeps running in the given state.
\<close>

datatype 'a program = Exits int string | Crashes | Killed_by_signal | Keeps_running 'a string

section \<open>The coordinator\<close>

record coordinator_options =
  cp_port :: "16 word"
  cp_state_path :: string

fun coordinator_parse :: "string list \<Rightarrow> coordinator_options \<Rightarrow> coordinator_options option" where
  "coordinator_parse [] opt = Some opt"
| "coordinator_parse [a] opt = Some opt"
| "coordinator_parse (a # b # rest) opt =
     (if a = ''--port''
      then (case stoi b of None \<Rightarrow> None | Some n \<Rightarrow> coordinator_parse rest (opt\<lparr>cp_port := of_int n\<rparr>))
      else if a = ''--state'' then coordinator_parse rest (opt\<lparr>cp_state_path := b\<rparr>)
      else coordinator_parse (b # rest) opt)"

text \<open>The listening socket, the connections handed to session threads, and the name of the next one.\<close>

record daemon =
  dm_net :: net_state
  dm_listener :: nat
  dm_threads :: "nat list"
  dm_next :: nat
  dm_coordinator :: coordinator

text \<open>
  \<open>handle_session\<close> owns its socket: when sessions end, the sockets of their threads are
  destroyed. The thread objects stay in the vector.
\<close>

definition sessions_end :: "nat list \<Rightarrow> daemon \<Rightarrow> daemon" where
  "sessions_end xs dm = dm\<lparr>dm_net := fold destroy (filter (\<lambda>x. x \<in> set (dm_threads dm)) xs) (dm_net dm)\<rparr>"

text \<open>
  What happens around one round of the loop: the sessions that end before it, whether one of the
  sessions sends on a connection that its peer has closed, whether \<open>accept\<close> succeeds and
  whether the system can start another thread.
\<close>

record accept_event =
  ev_ends :: "nat list"
  ev_broken_pipe :: bool
  ev_accept :: bool
  ev_thread :: bool

text \<open>
  How the process can end in a round. \<open>send_all\<close> calls \<open>send\<close> without \<open>MSG_NOSIGNAL\<close> and no program
  changes the disposition of \<open>SIGPIPE\<close>; nothing catches what the constructor of \<open>std::thread\<close> throws.
\<close>

datatype process_end = Broken_pipe | No_thread

text \<open>
  One round: an accepted connection is moved into a new thread, a failure only sleeps. The object
  is named after the thread it ends up in.
\<close>

definition accept_round :: "platform \<Rightarrow> (int list \<Rightarrow> int) \<Rightarrow> accept_event \<Rightarrow> daemon \<Rightarrow> process_end + daemon" where
  "accept_round p fresh ev dm =
     (if p = Posix \<and> ev_broken_pipe ev then Inl Broken_pipe
      else (let dm0 = sessions_end (ev_ends ev) dm;
                r = tcp_accept fresh (ev_accept ev) (ns_os (dm_net dm0));
                dm1 = dm0\<lparr>dm_net := adopt (dm_next dm0) r (dm_net dm0)\<rparr>
            in case snd r of
                 Inl err \<Rightarrow> Inr dm1
               | Inr fd \<Rightarrow>
                   if \<not> ev_thread ev then Inl No_thread
                   else Inr (dm1\<lparr>dm_threads := dm_threads dm0 @ [dm_next dm0], dm_next := Suc (dm_next dm0)\<rparr>)))"

text \<open>\<open>running n\<close> is what the test of \<open>g_running\<close> before round \<open>n\<close> reads.\<close>

partial_function (option) accept_loop ::
  "platform \<Rightarrow> (int list \<Rightarrow> int) \<Rightarrow> (nat \<Rightarrow> bool) \<Rightarrow> (nat \<Rightarrow> accept_event) \<Rightarrow> nat \<Rightarrow> daemon \<Rightarrow> (process_end + daemon) option" where
  "accept_loop p fresh running ev n dm =
     (if \<not> running n then Some (Inr dm)
      else (case accept_round p fresh (ev n) dm of
              Inl e \<Rightarrow> Some (Inl e)
            | Inr dm' \<Rightarrow> accept_loop p fresh running ev (Suc n) dm'))"

text \<open>The value of the flag: it is initialised to true and no code assigns to it.\<close>

definition g_running :: "nat \<Rightarrow> bool" where
  "g_running n = True"

definition usage_coordinator :: string where
  "usage_coordinator = ''usage: quota-fabric-coordinator --port N [--state path]'' @ newline"

text \<open>
  \<open>main\<close> up to the accept loop, and with it. \<open>disk\<close> gives the contents of the file at a path
  that exists; \<open>Keeps_running\<close> is the state in which the loop starts.
\<close>

definition coordinator_boot ::
  "platform \<Rightarrow> (int list \<Rightarrow> int) \<Rightarrow> id_gens \<Rightarrow> int \<Rightarrow> int \<Rightarrow> (string \<Rightarrow> file_read option) \<Rightarrow> listen_calls \<Rightarrow> os \<Rightarrow> string list
     \<Rightarrow> daemon program" where
  "coordinator_boot p fresh ids oob now disk calls s args =
     (case coordinator_parse args \<lparr>cp_port = 0, cp_state_path = ''''\<rparr> of
        None \<Rightarrow> Crashes
      | Some opt \<Rightarrow>
          if cp_port opt = 0 then Exits 2 usage_coordinator
          else (case coordinator_start ids oob now (if cp_state_path opt = '''' then None else disk (cp_state_path opt)) of
                  None \<Rightarrow> Crashes
                | Some co \<Rightarrow>
                    (case tcp_listen p fresh calls s of
                       (s', Inl err) \<Rightarrow> Exits 1 (''cannot listen on port '' @ show_nat (unat (cp_port opt)) @ newline)
                     | (s', Inr fd) \<Rightarrow>
                         Keeps_running
                           \<lparr>dm_net = \<lparr>ns_os = s', ns_objs = [(0, fd)]\<rparr>, dm_listener = 0, dm_threads = [], dm_next = 1,
                            dm_coordinator = co\<rparr>
                           (''coordinator listening on '' @ show_nat (unat (cp_port opt)) @ '' epoch='' @
                            show_gen (im_epoch (co_engine co)) @ newline))))"

fun process_result :: "process_end \<Rightarrow> 'a program" where
  "process_result Broken_pipe = Killed_by_signal"
| "process_result No_thread = Crashes"

definition coordinator_main ::
  "platform \<Rightarrow> (int list \<Rightarrow> int) \<Rightarrow> id_gens \<Rightarrow> int \<Rightarrow> int \<Rightarrow> (string \<Rightarrow> file_read option) \<Rightarrow> listen_calls \<Rightarrow> os \<Rightarrow> string list
     \<Rightarrow> (nat \<Rightarrow> accept_event) \<Rightarrow> daemon program" where
  "coordinator_main p fresh ids oob now disk calls s args ev =
     (case coordinator_boot p fresh ids oob now disk calls s args of
        Keeps_running dm out \<Rightarrow>
          (case accept_loop p fresh g_running ev 0 dm of
             None \<Rightarrow> Keeps_running dm out
           | Some (Inl e) \<Rightarrow> process_result e
           | Some (Inr dm') \<Rightarrow> Exits 0 out)
      | e \<Rightarrow> e)"

section \<open>The agent\<close>

text \<open>
  \<open>conn\<close> is whether the connection is made, \<open>req\<close> a default-constructed request, \<open>clock n\<close> the
  time of the n-th observation. A run that reaches the idle loop keeps the state of its peer.
\<close>

definition agent_main ::
  "'s exchange \<Rightarrow> 's \<Rightarrow> bool \<Rightarrow> wire_request \<Rightarrow> agent_id \<times> agent_boot_id \<times> node_id \<Rightarrow> (nat \<Rightarrow> int) \<Rightarrow> string list \<Rightarrow> 's program" where
  "agent_main ex s conn req made clock args =
     (case agent_parse args agent_defaults of
        None \<Rightarrow> Crashes
      | Some opt \<Rightarrow>
          if ag_port opt = 0 then Exits 2 (''usage: quota-fabric-agent --port N'' @ newline)
          else if \<not> conn then Exits 1 (''cannot connect to coordinator'' @ newline)
          else (let hello = agent_hello req opt (fst made) (fst (snd made)) (snd (snd made))
                in case agent_register ex s hello of
                     Inl None \<Rightarrow> Crashes
                   | Inl (Some (code, msg)) \<Rightarrow> Exits code msg
                   | Inr (s1, welcome, line, inp) \<Rightarrow>
                       (let auth = agent_authority hello welcome;
                            qs = map (\<lambda>(n, x). agent_observation req hello auth (clock n) x)
                                   (zip [0..<length (ag_observe opt)] (ag_observe opt))
                        in case agent_report ex s1 inp 100 qs of
                             None \<Rightarrow> Crashes
                           | Some s2 \<Rightarrow> Keeps_running s2 line)))"

section \<open>The accept loop\<close>

text \<open>The state after \<open>k\<close> rounds, or what ended the process before.\<close>

fun rounds :: "platform \<Rightarrow> (int list \<Rightarrow> int) \<Rightarrow> (nat \<Rightarrow> accept_event) \<Rightarrow> nat \<Rightarrow> daemon \<Rightarrow> process_end + daemon" where
  "rounds p fresh ev 0 dm = Inr dm"
| "rounds p fresh ev (Suc k) dm =
     (case rounds p fresh ev k dm of Inl e \<Rightarrow> Inl e | Inr dm' \<Rightarrow> accept_round p fresh (ev k) dm')"

text \<open>The events that end the process.\<close>

definition fatal :: "platform \<Rightarrow> accept_event \<Rightarrow> process_end option" where
  "fatal p ev =
     (if p = Posix \<and> ev_broken_pipe ev then Some Broken_pipe
      else if ev_accept ev \<and> \<not> ev_thread ev then Some No_thread else None)"

lemma accept_round_fatal:
  assumes "fresh_choice fresh"
  shows "accept_round p fresh ev dm = Inl e \<longleftrightarrow> fatal p ev = Some e"
    "(\<exists>dm'. accept_round p fresh ev dm = Inr dm') \<longleftrightarrow> fatal p ev = None"
  by (auto simp: accept_round_def fatal_def Let_def tcp_accept_result [OF assms])

text \<open>The loop returns only when a test reads false or the process ends.\<close>

lemma accept_loop_returns:
  "accept_loop p fresh running ev n dm = Some r \<Longrightarrow> fresh_choice fresh \<Longrightarrow> \<exists>k \<ge> n. \<not> running k \<or> fatal p (ev k) \<noteq> None"
proof (induction p fresh running ev n dm r rule: accept_loop.raw_induct [rotated, consumes 1])
  case (1 loop p fresh running ev n dm r)
  show ?case
  proof (cases "running n \<and> fatal p (ev n) = None")
    case True
    then obtain dm' where "accept_round p fresh (ev n) dm = Inr dm'" using accept_round_fatal(2) [OF 1(3)] by blast
    with True 1(2) have "loop p fresh running ev (Suc n) dm' = Some r" by simp
    from 1(1) [OF this 1(3)] show ?thesis using Suc_leD by blast
  qed blast
qed

lemma accept_loop_dies:
  assumes "fresh_choice fresh" "\<forall>j. running j" "\<forall>j \<in> {n..<k}. fatal p (ev j) = None" "fatal p (ev k) = Some e" "n \<le> k"
  shows "accept_loop p fresh running ev n dm = Some (Inl e)"
  using assms(3,5)
proof (induction "k - n" arbitrary: n dm)
  case 0
  then have "n = k" by simp
  then show ?case
    using assms(2) accept_round_fatal(1) [OF assms(1), of p "ev k" dm e] assms(4) by (subst accept_loop.simps) simp
next
  case (Suc d)
  then have "fatal p (ev n) = None" by simp
  then obtain dm' where "accept_round p fresh (ev n) dm = Inr dm'" using accept_round_fatal(2) [OF assms(1)] by blast
  moreover have "accept_loop p fresh running ev (Suc n) dm' = Some (Inl e)" using Suc by (intro Suc(1)) auto
  ultimately show ?case using assms(2) by (subst accept_loop.simps) simp
qed

corollary accept_loop_forever:
  assumes "fresh_choice fresh" "\<forall>j. fatal p (ev j) = None"
  shows "accept_loop p fresh g_running ev n dm = None"
  using accept_loop_returns [of p fresh g_running ev n dm] assms by (fastforce simp: g_running_def)

section \<open>What the loop keeps\<close>

text \<open>
  Every open descriptor belongs to the listener or to a session, the listener is open and no
  session shares it.
\<close>

definition serving :: "daemon \<Rightarrow> bool" where
  "serving dm \<longleftrightarrow>
     owned (dm_net dm) \<and> valid_socket (dm_net dm) (dm_listener dm) \<and> dm_listener dm \<notin> set (dm_threads dm) \<and>
     dm_listener dm < dm_next dm \<and> distinct (dm_threads dm) \<and> (\<forall>x \<in> set (dm_threads dm). x < dm_next dm) \<and>
     (\<forall>x. live (dm_net dm) x \<longrightarrow> x = dm_listener dm \<or> x \<in> set (dm_threads dm))"

lemma destroy_absent: "\<not> live st x \<Longrightarrow> destroy x st = st"
proof -
  assume "\<not> live st x"
  then have "map_of (ns_objs st) x = None" by (simp only: live_def not_not)
  then have "fd_of st x = -1" "AList.delete x (ns_objs st) = ns_objs st"
    by (simp_all only: fd_of_def option.case delete_id [OF iffD1 [OF map_of_eq_None_iff]])
  then show ?thesis by (simp add: destroy_def tcp_close_def Let_def)
qed

lemma live_destroy: "live (destroy x st) y \<longleftrightarrow> y \<noteq> x \<and> live st y"
proof -
  have "live (destroy x st) y \<longleftrightarrow> y \<noteq> x \<and> live (tcp_close x st) y"
    by (simp add: destroy_def live_def Let_def delete_conv)
  then show ?thesis by simp
qed

lemma fd_of_destroy: "y \<noteq> x \<Longrightarrow> fd_of (destroy x st) y = fd_of st y"
  by (simp add: destroy_def Let_def fd_of_def delete_conv tcp_close_def set_fd_def map_of_update split: option.split)

lemma serving_destroy:
  assumes "serving dm" "x \<in> set (dm_threads dm)"
  shows "serving (dm\<lparr>dm_net := destroy x (dm_net dm)\<rparr>)"
proof -
  have "owned (destroy x (dm_net dm))"
    using assms owned_destroy destroy_absent by (cases "live (dm_net dm) x") (auto simp: serving_def)
  moreover have "x \<noteq> dm_listener dm" using assms by (auto simp: serving_def)
  ultimately show ?thesis
    using assms(1) fd_of_destroy [of "dm_listener dm" x] by (auto simp: serving_def valid_socket_def live_destroy)
qed

lemma serving_sessions_end:
  assumes "serving dm"
  shows "serving (sessions_end xs dm)"
  unfolding sessions_end_def using assms
proof (induction xs arbitrary: dm)
  case (Cons x xs)
  show ?case
  proof (cases "x \<in> set (dm_threads dm)")
    case True
    from Cons.IH [OF serving_destroy [OF Cons.prems this]] True show ?thesis by simp
  qed (use Cons in simp)
qed simp

lemma serving_accepted:
  assumes "fresh_choice fresh" "serving dm"
    and "dm1 = dm\<lparr>dm_net := adopt (dm_next dm) (tcp_accept fresh ok (ns_os (dm_net dm))) (dm_net dm)\<rparr>"
  shows "serving (if ok then dm1\<lparr>dm_threads := dm_threads dm @ [dm_next dm], dm_next := Suc (dm_next dm)\<rparr> else dm1)"
proof -
  let ?r = "tcp_accept fresh ok (ns_os (dm_net dm))"
  have new: "\<not> live (dm_net dm) (dm_next dm)" using assms(2) by (auto simp: serving_def)
  have "owned (adopt (dm_next dm) ?r (dm_net dm))"
    using assms(1,2) new by (intro owned_adopt factory_results) (simp_all add: serving_def)
  then show ?thesis
    using assms(2)
    by (auto simp: assms(3) serving_def tcp_accept_result [OF assms(1)] adopt_def valid_socket_def
        fd_of_def live_def set_fd_def map_of_update less_Suc_eq split: if_splits)
qed

lemma serving_accept_round:
  assumes "fresh_choice fresh" "serving dm" "accept_round p fresh ev dm = Inr dm'"
  shows "serving dm'" "length (dm_threads dm') = length (dm_threads dm) + (if ev_accept ev then 1 else 0)"
proof -
  define dm0 where "dm0 = sessions_end (ev_ends ev) dm"
  define dm1 where "dm1 = dm0\<lparr>dm_net := adopt (dm_next dm0) (tcp_accept fresh (ev_accept ev) (ns_os (dm_net dm0))) (dm_net dm0)\<rparr>"
  have dm': "dm' = (if ev_accept ev then dm1\<lparr>dm_threads := dm_threads dm0 @ [dm_next dm0], dm_next := Suc (dm_next dm0)\<rparr> else dm1)"
    using assms(3)
    by (auto simp: accept_round_def Let_def dm0_def [symmetric] dm1_def [symmetric] tcp_accept_result [OF assms(1)] split: if_splits)
       (simp_all add: dm1_def tcp_accept_result [OF assms(1)])
  have "serving dm0" unfolding dm0_def by (rule serving_sessions_end [OF assms(2)])
  from serving_accepted [OF assms(1) this dm1_def] show "serving dm'" by (simp add: dm')
  have "dm_threads dm0 = dm_threads dm" by (simp add: dm0_def sessions_end_def)
  then show "length (dm_threads dm') = length (dm_threads dm) + (if ev_accept ev then 1 else 0)" by (simp add: dm' dm1_def)
qed

lemma serving_rounds:
  assumes "fresh_choice fresh" "serving dm" "\<forall>j < k. fatal p (ev j) = None"
  shows "\<exists>dm'. rounds p fresh ev k dm = Inr dm' \<and> serving dm' \<and>
    length (dm_threads dm') = length (dm_threads dm) + length (filter (\<lambda>j. ev_accept (ev j)) [0..<k])"
  using assms(3)
proof (induction k)
  case (Suc k)
  then obtain dm1 where dm1: "rounds p fresh ev k dm = Inr dm1" "serving dm1"
    "length (dm_threads dm1) = length (dm_threads dm) + length (filter (\<lambda>j. ev_accept (ev j)) [0..<k])" by auto
  obtain dm2 where dm2: "accept_round p fresh (ev k) dm1 = Inr dm2"
    using Suc.prems accept_round_fatal(2) [OF assms(1)] by blast
  from serving_accept_round [OF assms(1) dm1(2) dm2] dm1 dm2 show ?case by simp
qed (simp add: assms)

lemma serving_boot:
  assumes "fresh_choice fresh" "no_sockets \<lparr>ns_os = s, ns_objs = []\<rparr>"
    and "coordinator_boot p fresh ids oob now disk calls s args = Keeps_running dm out"
  shows "serving dm \<and> dm_threads dm = []"
proof -
  let ?st = "\<lparr>ns_os = s, ns_objs = []\<rparr> :: net_state" and ?r = "tcp_listen p fresh calls s"
  obtain s' fd where r: "?r = (s', Inr fd)" and dm: "dm_net dm = \<lparr>ns_os = s', ns_objs = [(0, fd)]\<rparr>"
    "dm_listener dm = 0" "dm_threads dm = []" "dm_next dm = 1"
    using assms(3) by (auto simp: coordinator_boot_def split: option.splits if_splits prod.splits sum.splits)
  have "owned ?st" using assms(2) by (simp add: no_sockets_def owned_def owned_fds_def)
  then have "owned (adopt 0 ?r ?st)"
    by (rule owned_adopt) (simp_all add: live_def factory_results [OF assms(1)])
  then have "owned (dm_net dm)" by (simp add: r dm adopt_def set_fd_def)
  moreover have "fd \<noteq> -1" using factory_results(2) [OF assms(1), of s p calls] by (auto simp: r factory_result_def)
  ultimately show ?thesis by (auto simp: serving_def dm valid_socket_def fd_of_def live_def split: if_splits)
qed

text \<open>
  C26. A coordinator that is given a port, can build its engine and whose listen succeeds
  keeps accepting connections forever, unless one of two events happens: a session sends on
  a connection that its peer has closed, which on POSIX raises a SIGPIPE that nothing
  handles and kills the process, or no thread can be started for an accepted connection,
  which throws an exception that nothing catches. The first such event ends the process in
  that way. Until then, after any number of rounds, with accepts failing and sessions ending
  in any pattern, the listening socket is open, every open descriptor belongs to the
  listener or to one session, and one thread has been started for each successful accept.
  Failures of the allocator and undefined behaviour inside a session are not considered.
\<close>

theorem coordinator_accepts_until_killed:
  assumes "fresh_choice fresh" "no_sockets \<lparr>ns_os = s, ns_objs = []\<rparr>"
    and "coordinator_parse args \<lparr>cp_port = 0, cp_state_path = ''''\<rparr> = Some opt" "cp_port opt \<noteq> 0"
    and "coordinator_start ids oob now (if cp_state_path opt = '''' then None else disk (cp_state_path opt)) = Some co"
    and "lc_getaddrinfo calls" "lc_socket calls" "lc_bind calls" "lc_listen calls"
  shows "\<exists>dm out. dm_coordinator dm = co \<and>
    ((\<forall>n. fatal p (ev n) = None) \<longrightarrow>
       coordinator_main p fresh ids oob now disk calls s args ev = Keeps_running dm out) \<and>
    (\<forall>n e. (\<forall>j < n. fatal p (ev j) = None) \<and> fatal p (ev n) = Some e \<longrightarrow>
       coordinator_main p fresh ids oob now disk calls s args ev = process_result e) \<and>
    (\<forall>k. (\<forall>j < k. fatal p (ev j) = None) \<longrightarrow>
       (\<exists>dm'. rounds p fresh ev k dm = Inr dm' \<and> serving dm' \<and>
          length (dm_threads dm') = length (filter (\<lambda>j. ev_accept (ev j)) [0..<k])))"
proof -
  obtain dm out where dm: "coordinator_boot p fresh ids oob now disk calls s args = Keeps_running dm out" "dm_coordinator dm = co"
    using assms(3-) by (simp add: coordinator_boot_def tcp_listen_result [OF assms(1)] Let_def)
  have sv: "serving dm" "dm_threads dm = []" using serving_boot [OF assms(1,2) dm(1)] by simp_all
  have "coordinator_main p fresh ids oob now disk calls s args ev = Keeps_running dm out" if "\<forall>n. fatal p (ev n) = None"
    using accept_loop_forever [OF assms(1) that] dm by (simp add: coordinator_main_def)
  moreover have "coordinator_main p fresh ids oob now disk calls s args ev = process_result e"
    if "\<forall>j < n. fatal p (ev j) = None" "fatal p (ev n) = Some e" for n e
    using accept_loop_dies [OF assms(1), of g_running 0 n p ev e dm] that dm by (simp add: coordinator_main_def g_running_def)
  ultimately show ?thesis
    using serving_rounds [OF assms(1) sv(1)] sv(2) dm(2) by (intro exI [of _ dm] exI [of _ out]) auto
qed

abbreviation calm_event :: "bool \<Rightarrow> accept_event" where
  "calm_event a \<equiv> \<lparr>ev_ends = [], ev_broken_pipe = False, ev_accept = a, ev_thread = True\<rparr>"

theorem coordinator_accepts_until_killed_witness:
  "(\<exists>dm out. coordinator_main Posix lowest_free sample_ids 0 1 (\<lambda>_. None)
      \<lparr>lc_getaddrinfo = True, lc_socket = True, lc_bind = True, lc_listen = True\<rparr> (ns_os no_sockets_yet)
      [''--port'', ''7000''] (\<lambda>n. calm_event (even n)) = Keeps_running dm out \<and> dm_coordinator dm = sample_coordinator) \<and>
   coordinator_main Posix lowest_free sample_ids 0 1 (\<lambda>_. None)
      \<lparr>lc_getaddrinfo = True, lc_socket = True, lc_bind = True, lc_listen = True\<rparr> (ns_os no_sockets_yet)
      [''--port'', ''7000''] (\<lambda>n. (calm_event True)\<lparr>ev_broken_pipe := (n = 2)\<rparr>) = Killed_by_signal"
proof -
  let ?calls = "\<lparr>lc_getaddrinfo = True, lc_socket = True, lc_bind = True, lc_listen = True\<rparr>"
  have parse: "coordinator_parse [''--port'', ''7000''] \<lparr>cp_port = 0, cp_state_path = ''''\<rparr> =
      Some \<lparr>cp_port = 7000, cp_state_path = ''''\<rparr>" by code_simp
  have start: "coordinator_start sample_ids 0 1 None = Some sample_coordinator"
    by (simp add: coordinator_start_def sample_coordinator_def sample_engine_def)
  have free: "no_sockets \<lparr>ns_os = ns_os no_sockets_yet, ns_objs = []\<rparr>" by (simp add: no_sockets_def no_sockets_yet_def)
  note C = coordinator_accepts_until_killed [OF lowest_free_fresh free parse, of sample_ids 0 1 "\<lambda>_. None" sample_coordinator ?calls Posix]
  have calm: "fatal Posix (calm_event (even n)) = None" for n by (simp add: fatal_def)
  define ev where "ev n = (calm_event True)\<lparr>ev_broken_pipe := (n = 2)\<rparr>" for n :: nat
  have late: "\<forall>j < 2. fatal Posix (ev j) = None" "fatal Posix (ev 2) = Some Broken_pipe" by (simp_all add: fatal_def ev_def)
  have "\<exists>dm out. coordinator_main Posix lowest_free sample_ids 0 1 (\<lambda>_. None) ?calls (ns_os no_sockets_yet)
      [''--port'', ''7000''] (\<lambda>n. calm_event (even n)) = Keeps_running dm out \<and> dm_coordinator dm = sample_coordinator"
    using C [of "\<lambda>n. calm_event (even n)"] start calm by auto
  moreover have "coordinator_main Posix lowest_free sample_ids 0 1 (\<lambda>_. None) ?calls (ns_os no_sockets_yet)
      [''--port'', ''7000''] ev = process_result Broken_pipe"
    using C [of ev] start late by (simp del: process_result.simps) blast
  ultimately show ?thesis by (simp add: ev_def [abs_def])
qed

section \<open>The agent against the coordinator\<close>

lemma stoll_bounds: "stoll s = Some x \<Longrightarrow> x \<le> INT64_MAX"
  by (simp add: stoll_def Let_def split: if_splits)

lemma rv_parse_token_ok:
  assumes "rv_ok r" "rv_parse_token r tok = Some r'"
  shows "rv_ok r'"
  using assms(2)
  by (auto simp: rv_parse_token_def rv_set_def Let_def dest: stoll_bounds intro!: rv_ok_store assms(1)
      split: if_splits option.splits)

lemma rv_parse_ok:
  assumes "rv_parse s = Some v"
  shows "rv_ok v"
proof -
  have "rv_ok r \<Longrightarrow> rv_parse_loop r inp = Some v \<Longrightarrow> rv_ok v" for r inp
  proof (induction r inp rule: rv_parse_loop.induct)
    case (1 r inp)
    show ?case
    proof (cases "inp = []")
      case False
      with 1(3) obtain r' where r': "rv_parse_token r (takeWhile (\<lambda>c. c \<noteq> CHR '','') inp) = Some r'"
        and rest: "v = r' \<or> (dropWhile (\<lambda>c. c \<noteq> CHR '','') inp \<noteq> [] \<and>
          rv_parse_loop r' (tl (dropWhile (\<lambda>c. c \<noteq> CHR '','') inp)) = Some v)"
        by (subst (asm) rv_parse_loop.simps) (simp add: Let_def split: if_splits option.splits)
      from rv_parse_token_ok [OF 1(2) r'] 1(1) [OF False refl refl r'] rest show ?thesis by blast
    qed (use 1(2,3) in \<open>simp add: rv_parse_loop.simps\<close>)
  qed
  from this [of rv_empty s] assms show ?thesis by (simp add: rv_parse_def rv_ok_def rv_empty_def)
qed

definition observed_range :: "agent_options \<Rightarrow> bool" where
  "observed_range opt \<longleftrightarrow> (\<forall>x \<in> set (ag_observe opt). in_i64 (snd x))"

lemma observe_list_range: "x \<in> set (observe_list s) \<Longrightarrow> in_i64 (snd x)"
proof (cases "rv_parse s")
  case (Some v)
  have "- 9223372036854775808 \<le> rv_val v d" "rv_val v d \<le> 9223372036854775807" for d
    using rv_okD(1,2) [OF rv_parse_ok [OF Some], of d] by (simp_all add: i64_bounds)
  moreover assume "x \<in> set (observe_list s)"
  ultimately show ?thesis using Some by (auto simp: observe_list_def in_i64_def i64_bounds)
qed (simp add: observe_list_def)

lemma agent_option_range:
  "observed_range opt \<Longrightarrow> agent_option a b opt = Some (Some opt') \<Longrightarrow> observed_range opt'"
  using observe_list_range [of _ b] by (simp add: agent_option_def observed_range_def ball_Un split: if_splits) auto

lemma agent_parse_range: "observed_range opt \<Longrightarrow> agent_parse args opt = Some opt' \<Longrightarrow> observed_range opt'"
proof (induction args opt rule: agent_parse.induct)
  case (2 a rest opt)
  show ?case
  proof (cases rest)
    case (Cons b rest')
    with 2 show ?thesis using agent_option_range [OF 2(3), of a b] by (auto split: option.splits)
  qed (use 2 in simp)
qed simp

text \<open>The descriptor of the agent is not on the wire, so that the coordinator sees the request without it.\<close>

definition sent :: "wire_request \<Rightarrow> wire_request" where
  "sent q = q\<lparr>wq_agent := agent_descriptor_default\<rparr>"

lemma encode_sent: "encode_request (sent q) = encode_request q"
  by (simp add: sent_def encode_request_def)

lemma coordinator_answers:
  assumes "message_type_valid t" "request_encodable (sent q)" "length (encode_request q) \<le> unat kMaxFrameSize"
    and "handle_request co now (sent q) = Some (co', r)" "sendable_response r"
  shows "\<exists>f. coordinator_peer now co (encode_frame t corr 0 (encode_request q)) = Some (co', response_frame corr r) \<and>
    recv_frame 0 (response_frame corr r) = Inr (f, []) \<and> decode_response (fr_payload f) = Inr (seen_response r)"
proof -
  have "message_type_valid (if wr_ok r then MT_RESULT_OK else MT_RESULT_ERR)" by (simp add: message_type_valid_def)
  from recv_frame_encoded [OF this, of "encode_response r" corr 0 "[]"] assms(5)
  have "recv_frame 0 (response_frame corr r) =
      Inr (\<lparr>fr_type = if wr_ok r then MT_RESULT_OK else MT_RESULT_ERR, fr_flags = 0, fr_correlation = corr,
            fr_payload = encode_response r\<rparr>, [])"
    by (simp add: response_frame_def sendable_response_def)
  moreover have "decode_response (encode_response r) = Inr (seen_response r)"
    using assms(5) by (simp add: sendable_response_def decode_response_encoded)
  ultimately show ?thesis
    using coordinator_peer_frame [OF assms(1,2) _ assms(4), of corr] assms(3) by (simp add: encode_sent)
qed

section \<open>Registration\<close>

definition registered :: "wire_request \<Rightarrow> coordinator \<Rightarrow> coordinator" where
  "registered hello co = co\<lparr>co_agents := AList.update (wq_agent_id hello) (wq_agent_boot hello) (co_agents co)\<rparr>"

definition hello_text :: "wire_request \<Rightarrow> string" where
  "hello_text q = ''registered agent_id='' @ to_hex (wq_agent_id q) @ '' boot='' @ to_hex (wq_agent_boot q)"

lemma handle_hello:
  assumes "wq_type q = MT_HELLO"
  shows "handle_request co now (sent q) =
      Some (registered q co,
        plain_response (co_engine co) True (wr_code wire_response_default) (wr_message wire_response_default) (hello_text q))"
  using assms
  by (simp add: handle_request_def handle_type_def Let_def sent_def registered_def plain_response_def with_authority_def
      hello_text_def)

lemma hello_sendable:
  "sendable_response (plain_response im True (wr_code wire_response_default) (wr_message wire_response_default) (hello_text q))"
proof (rule plain_sendable)
  show "enum_valid violation_code_list violation_code_raw (wr_code wire_response_default)"
    using default_response_encodable by (simp add: response_encodable_def)
qed (simp_all add: wire_response_default_def hello_text_def)

text \<open>The refusals an observation of the agent can meet.\<close>

definition observation_refusals :: "(violation_code \<times> string) list" where
  "observation_refusals =
     [(VC_STALE_AUTHORITY, ''stale coordinator epoch''), (VC_STALE_QUOTA_GENERATION, ''stale quota generation''),
      (VC_STALE_POLICY, ''stale policy generation''), (VC_STALE_AUTHORITY, ''stale agent boot identity''),
      (VC_WRONG_TENANT, ''unknown tenant for observation'')]"

lemma check_authority_refusals:
  "\<not> st_ok (check_authority im q) \<Longrightarrow> \<exists>code msg. (code, msg) \<in> set observation_refusals \<and> check_authority im q = status_failure code msg"
  by (auto simp: check_authority_def observation_refusals_def split: if_splits)

lemma handle_agent_observation:
  assumes "\<not> tenant_exists (co_engine co) null_id"
  shows "\<exists>code msg. (code, msg) \<in> set observation_refusals \<and> handle_request co now (sent (agent_observation req hello auth n x)) =
      Some (co, with_authority (co_engine co) (response_from (status_failure code msg)))"
proof -
  let ?q = "sent (agent_observation req hello auth n x)"
  have t: "wq_type ?q = MT_OBSERVE" by (simp add: sent_def agent_observation_def split: prod.split)
  have h: "handle_type co now ?q =
      (if \<not> st_ok (check_authority (co_engine co) ?q) then Some (co, response_from (check_authority (co_engine co) ?q))
       else observe co now ?q)"
    by (simp add: handle_type_def t Let_def needs_authority_def unchecked_types_def act_def)
  have "observe co now ?q = Some (co, response_from (
      if map_of (co_agents co) (wq_agent_id hello) \<noteq> Some (wq_agent_boot hello)
      then status_failure VC_STALE_AUTHORITY ''stale agent boot identity''
      else status_failure VC_WRONG_TENANT ''unknown tenant for observation''))"
    using assms
    by (cases x)
       (simp add: observe_def sent_def agent_observation_def dimension_code_of apply_wire_observation_def apply_observation_def
         observation_of_def Let_def)
  moreover have "(VC_STALE_AUTHORITY, ''stale agent boot identity'') \<in> set observation_refusals"
    "(VC_WRONG_TENANT, ''unknown tenant for observation'') \<in> set observation_refusals"
    by (simp_all add: observation_refusals_def)
  ultimately have "\<exists>code msg. (code, msg) \<in> set observation_refusals \<and>
      observe co now ?q = Some (co, response_from (status_failure code msg))" by (auto split: if_splits)
  with check_authority_refusals [of "co_engine co" ?q] have "\<exists>code msg. (code, msg) \<in> set observation_refusals \<and>
      handle_type co now ?q = Some (co, response_from (status_failure code msg))" unfolding h by (cases "st_ok (check_authority (co_engine co) ?q)") (simp_all, metis)
  then show ?thesis by (auto simp: handle_request_def)
qed

lemma refusal_sendable:
  assumes "(code, msg) \<in> set observation_refusals"
  shows "sendable_response (with_authority im (response_from (status_failure code msg)))"
proof -
  have "with_authority im (response_from (status_failure code msg)) =
      plain_response im False code msg (wr_text wire_response_default)"
    by (simp add: plain_response_def with_authority_def response_from_def status_failure_def)
  moreover have "enum_valid violation_code_list violation_code_raw code" "length msg \<le> 200"
    using assms by (auto simp: observation_refusals_def enum_valid_def violation_code_raw_def)
  ultimately show ?thesis using plain_sendable [of code msg "wr_text wire_response_default"]
    by (simp add: wire_response_default_def)
qed

lemma registered_engine [simp]: "co_engine (registered q co) = co_engine co"
  by (simp add: registered_def)

lemma agent_register_welcome:
  assumes "wq_type q = MT_HELLO" "request_encodable (sent q)" "length (encode_request q) \<le> unat kMaxFrameSize"
  shows "\<exists>welcome line. agent_register (coordinator_peer now) co q = Inr (registered q co, welcome, line, []) \<and>
    (wr_epoch welcome, wr_quota_generation welcome, wr_policy_generation welcome) = engine_authority co"
proof -
  have "message_type_valid MT_HELLO" by (simp add: message_type_valid_def)
  from coordinator_answers [OF this assms(2,3) handle_hello [OF assms(1)] hello_sendable, of now co 1]
  show ?thesis by (auto simp: agent_register_def seen_response_def plain_response_def engine_authority_def)
qed

lemma hello_encodable:
  assumes "request_encodable req" "string_ok (ag_name opt)" "string_ok (ag_backend opt)"
  shows "request_encodable (sent (agent_hello req opt made boot node))"
  using assms by (simp add: request_encodable_def sent_def agent_hello_def Let_def message_type_valid_def)

lemma hello_length:
  "length (encode_request (agent_hello req opt made boot node)) \<le>
     length (encode_request req) + length (ag_name opt) + length (ag_backend opt)"
  by (simp add: encode_request_def agent_hello_def Let_def w_message_type_def w_id_def w_gen_def w_string_def)

lemma observation_encodable:
  assumes "request_encodable req" "in_i64 (snd x)" "0 \<le> n" "in_i64 n"
  shows "request_encodable (sent (agent_observation req hello auth n x))"
  using assms
  by (cases x) (simp add: request_encodable_def sent_def agent_observation_def message_type_valid_def obs_encodable_def
      enum_valid_def observation_kind_raw_def)

lemma observation_length:
  "length (encode_request (agent_observation req hello auth n x)) = length (encode_request req)"
  by (cases x) (simp add: encode_request_def agent_observation_def w_message_type_def w_authority_def w_id_def w_gen_def
      w_obs_def w_i64_def)

lemma agent_report_refused:
  assumes "\<not> tenant_exists (co_engine co) null_id" "request_encodable req" "length (encode_request req) \<le> unat kMaxFrameSize"
    and "\<forall>(n, x) \<in> set xs. 0 \<le> clock n \<and> in_i64 (clock n) \<and> in_i64 (snd x)"
  shows "agent_report (coordinator_peer now) co [] corr (map (\<lambda>(n, x). agent_observation req hello auth (clock n) x) xs) = Some co"
  using assms(4)
proof (induction xs arbitrary: corr)
  case (Cons a xs)
  obtain n x where a: "a = (n, x)" by (cases a)
  let ?q = "agent_observation req hello auth (clock n) x"
  have ok: "request_encodable (sent ?q)" "length (encode_request ?q) \<le> unat kMaxFrameSize"
    using Cons.prems assms(2,3) by (simp_all add: a observation_encodable observation_length)
  from handle_agent_observation [OF assms(1)] obtain code msg where
    r: "(code, msg) \<in> set observation_refusals" and
    h: "handle_request co now (sent ?q) = Some (co, with_authority (co_engine co) (response_from (status_failure code msg)))"
    by blast
  have "message_type_valid MT_OBSERVE" by (simp add: message_type_valid_def)
  from coordinator_answers [OF this ok h refusal_sendable [OF r], of corr] Cons show ?case by (auto simp: a)
qed simp

text \<open>
  C25. An agent started with a port against a running coordinator reaches its idle loop, and
  the coordinator has then registered its agent id with its boot id while the engine is
  unchanged, whatever observations the agent was told to report: each is refused because it
  names the null tenant. Hypotheses: the messages fit into a frame, clock readings are non-
  negative and no tenant has the null id.
\<close>

theorem agent_registers:
  assumes "agent_parse args agent_defaults = Some opt" "ag_port opt \<noteq> 0"
    and "request_encodable req" "string_ok (ag_name opt)" "string_ok (ag_backend opt)"
    and "length (encode_request req) + length (ag_name opt) + length (ag_backend opt) \<le> unat kMaxFrameSize"
    and "\<forall>n. 0 \<le> clock n \<and> in_i64 (clock n)" "\<not> tenant_exists (co_engine co) null_id"
  shows "\<exists>line. agent_main (coordinator_peer now) co True req (made, boot, node) clock args =
    Keeps_running (registered (agent_hello req opt made boot node) co) line"
proof -
  let ?hello = "agent_hello req opt made boot node"
  have t: "wq_type ?hello = MT_HELLO" by (simp add: agent_hello_def Let_def)
  have "length (encode_request ?hello) \<le> unat kMaxFrameSize" using hello_length assms(6) by (rule order_trans)
  from agent_register_welcome [OF t hello_encodable [OF assms(3-5)] this, of now co]
  obtain reply line where
    w: "agent_register (coordinator_peer now) co ?hello = Inr (registered ?hello co, reply, line, [])" by blast
  have "observed_range opt"
    by (rule agent_parse_range [OF _ assms(1)]) (simp add: observed_range_def agent_defaults_def)
  then have range: "\<forall>(n, x) \<in> set (zip ns (ag_observe opt)). 0 \<le> clock n \<and> in_i64 (clock n) \<and> in_i64 (snd x)" for ns
    using assms(7) by (auto simp: observed_range_def dest!: set_zip_rightD)
  have "length (encode_request req) \<le> unat kMaxFrameSize" using assms(6) by simp
  with range assms(3,8) have "agent_report (coordinator_peer now) (registered ?hello co) [] 100
      (map (\<lambda>(n, x). agent_observation req ?hello auth (clock n) x) (zip ns (ag_observe opt))) =
      Some (registered ?hello co)" for auth ns
    by (intro agent_report_refused) simp_all
  with w show ?thesis using assms(1,2) by (simp add: agent_main_def Let_def)
qed

theorem agent_registers_witness:
  "\<exists>opt line. agent_parse [''--port'', ''7000'', ''--observe'', ''kv_cache_bytes=3''] agent_defaults = Some opt \<and>
     ag_observe opt = [(KVCacheBytes, 3)] \<and>
     agent_main (coordinator_peer 5) sample_coordinator True (sample_request MT_PING) (null_id, null_id, null_id) (\<lambda>_. 4)
       [''--port'', ''7000'', ''--observe'', ''kv_cache_bytes=3''] =
     Keeps_running (registered (agent_hello (sample_request MT_PING) opt null_id null_id null_id) sample_coordinator) line"
proof -
  let ?args = "[''--port'', ''7000'', ''--observe'', ''kv_cache_bytes=3'']"
  let ?opt = "\<lparr>ag_port = 7000, ag_host = ''127.0.0.1'', ag_name = ''agent'', ag_backend = ''cpu'', ag_inventory = '''',
      ag_fixed_id = '''', ag_observe = [(KVCacheBytes, 3)]\<rparr>"
  have 1: "agent_parse ?args agent_defaults = Some ?opt" by code_simp
  have 2: "request_encodable (sample_request MT_PING)" by (simp add: sample_request_encodable message_type_valid_def)
  have 3: "string_ok (ag_name ?opt)" "string_ok (ag_backend ?opt)" by (simp_all add: string_ok_def max_string_def)
  have 4: "length (encode_request (sample_request MT_PING)) + length (ag_name ?opt) + length (ag_backend ?opt) \<le> unat kMaxFrameSize"
    by (simp add: kMaxFrameSize_def encode_request_def w_message_type_def w_authority_def w_gen_def w_id_def w_group_def
      w_string_def w_quota_def write_quota_def w_obs_def w_i64_def w_bool_def length_vector sample_request_def
      wire_request_default_def wire_observation_default_def)
  have 5: "\<not> tenant_exists (co_engine sample_coordinator) null_id"
    by (simp add: sample_coordinator_def set_policy_def coordinator_policy_valid sample_engine_def impl_initial_def
        tenant_exists_def contains_key_def)
  from agent_registers [OF 1 _ 2 3 4, of "\<lambda>_. 4" sample_coordinator 5 null_id null_id null_id] 5 1
  show ?thesis by (auto simp: in_i64_def i64_bounds)
qed

end
