(* ===== verification/QF_Time.thy ===== *)
theory QF_Time
  imports QF_Text
begin

text \<open>
  The clock functions of \<open>core/time.hpp\<close> and \<open>core/time.cpp\<close>. Everywhere else in the
  development a reading of the monotonic clock is an argument of the operation; here is the
  conversion to milliseconds and the operator-facing time stamp. The readings of the clocks
  and the conversion to local time are arguments. The lemmas: the conversion is monotonic,
  and a time stamp determines the time it was made from.
\<close>

section \<open>The monotonic clock\<close>

text \<open>Division of C++ truncates towards zero.\<close>

definition mono_now_millis :: "int \<Rightarrow> int" where
  "mono_now_millis nanos = sgn nanos * (\<bar>nanos\<bar> div 1000000)"

lemma mono_now_millis_mono:
  assumes "a \<le> b"
  shows "mono_now_millis a \<le> mono_now_millis b"
proof (cases "0 \<le> a")
  case True
  with assms show ?thesis by (cases "a = 0") (auto simp: mono_now_millis_def zdiv_mono1 sgn_if)
next
  case False
  show ?thesis
  proof (cases "0 \<le> b")
    case True
    then have "0 \<le> mono_now_millis b" by (simp add: mono_now_millis_def sgn_if)
    moreover have "mono_now_millis a \<le> 0" using False by (simp add: mono_now_millis_def sgn_if)
    ultimately show ?thesis by simp
  next
    case nb: False
    with False assms show ?thesis by (simp add: mono_now_millis_def sgn_if zdiv_mono1)
  qed
qed

section \<open>The time stamp\<close>

text \<open>The members of \<open>std::tm\<close> that the format reads: years since 1900, months from 0.\<close>

record tm =
  tm_year :: int
  tm_mon :: nat
  tm_mday :: nat
  tm_hour :: nat
  tm_min :: nat
  tm_sec :: nat

definition two_digits :: "nat \<Rightarrow> string" where
  "two_digits n = [digit_char (n div 10), digit_char (n mod 10)]"

text \<open>\<open>std::put_time\<close> with the format \<open>%Y-%m-%dT%H:%M:%S\<close>.\<close>

definition put_time :: "tm \<Rightarrow> string" where
  "put_time t =
     show_int (1900 + tm_year t) @ ''-'' @ two_digits (tm_mon t + 1) @ ''-'' @ two_digits (tm_mday t) @ ''T'' @
     two_digits (tm_hour t) @ '':'' @ two_digits (tm_min t) @ '':'' @ two_digits (tm_sec t)"

definition wall_timestamp :: "(int \<Rightarrow> tm) \<Rightarrow> int \<Rightarrow> string" where
  "wall_timestamp localtime now = put_time (localtime now)"

definition tm_ok :: "tm \<Rightarrow> bool" where
  "tm_ok t \<longleftrightarrow> 0 \<le> 1900 + tm_year t \<and> tm_mon t < 12 \<and> tm_mday t < 32 \<and> tm_hour t < 24 \<and> tm_min t < 60 \<and> tm_sec t < 61"

lemma two_digits_inj: "n < 100 \<Longrightarrow> m < 100 \<Longrightarrow> two_digits n = two_digits m \<longleftrightarrow> n = m"
proof -
  assume "n < 100" "m < 100"
  then have "digits_value (two_digits n) = n" "digits_value (two_digits m) = m"
    by (simp_all add: two_digits_def digits_value_def digit_char_simps)
  then show ?thesis by metis
qed

lemma length_two_digits [simp]: "length (two_digits n) = 2"
  by (simp add: two_digits_def)

lemma show_nat_inj: "show_nat n = show_nat m \<longleftrightarrow> n = m"
  by (metis digits_value_show_nat)

text \<open>Two times with the same stamp agree in every member the format reads.\<close>

lemma put_time_inj:
  assumes "tm_ok s" "tm_ok t" "put_time s = put_time t"
  shows "tm_year s = tm_year t \<and> tm_mon s = tm_mon t \<and> tm_mday s = tm_mday t \<and> tm_hour s = tm_hour t \<and>
    tm_min s = tm_min t \<and> tm_sec s = tm_sec t"
proof -
  have split: "u @ a = v @ b \<Longrightarrow> length a = length b \<Longrightarrow> u = v \<and> a = b" for u v a b :: string by simp
  have "show_int (1900 + tm_year s) = show_int (1900 + tm_year t)"
    and "two_digits (tm_mon s + 1) = two_digits (tm_mon t + 1)" "two_digits (tm_mday s) = two_digits (tm_mday t)"
    and "two_digits (tm_hour s) = two_digits (tm_hour t)" "two_digits (tm_min s) = two_digits (tm_min t)"
    and "two_digits (tm_sec s) = two_digits (tm_sec t)"
    using assms(3) by (auto simp: put_time_def dest!: split)
  then show ?thesis
    using assms(1,2) by (simp add: two_digits_inj tm_ok_def show_int_def show_nat_inj eq_nat_nat_iff)
qed

end
