(* ===== verification/QF_Standalone.thy ===== *)
theory QF_Standalone
  imports QF_Accounted
begin

text \<open>
  A tenant outside every group, in an engine where nothing is lent: the decision of the engine
  is then a table over four numbers, and a sequence of reservations runs like a counter with
  two thresholds. The example programs of the repository are of this kind.
\<close>

section \<open>Tenants without a group\<close>

definition standalone :: "impl \<Rightarrow> tenant_id \<Rightarrow> resource_quota \<Rightarrow> bool" where
  "standalone im t q \<longleftrightarrow>
     wf_state im \<and> in_step im t \<and> request_fits im t rv_empty \<and> im_lends im = [] \<and>
     (\<exists>tn. map_of (im_tenants im) t = Some tn \<and> ten_group tn = None) \<and>
     map_of (im_local_quota im) t = Some q"

lemma standaloneD:
  assumes "standalone im t q"
  shows "wf_state im" "in_step im t" "im_lends im = []" "tenant_exists im t" "ancestor_groups im t = []"
    "quota_chain im t = [q]" "quota_ok q" "request_fits im t rv_empty"
proof -
  obtain tn where tn: "map_of (im_tenants im) t = Some tn" "ten_group tn = None"
    using assms by (auto simp: standalone_def)
  show "wf_state im" "in_step im t" "im_lends im = []" "request_fits im t rv_empty" using assms by (simp_all add: standalone_def)
  show "tenant_exists im t" using tn by (simp add: tenant_exists_def contains_key_def)
  show anc: "ancestor_groups im t = []" by (simp add: ancestor_groups_def tn)
  show chain: "quota_chain im t = [q]"
    using assms by (simp add: quota_chain_def anc List.map_filter_simps standalone_def)
  show "quota_ok q" using quota_chain_ok [of im q t] \<open>wf_state im\<close> by (simp add: chain wf_stateD)
qed

text \<open>Its effective limits are those of its own quota.\<close>

lemma standalone_lattice:
  assumes "standalone im t q"
  shows "q_guaranteed (effective_lattice im t) = q_guaranteed q" "q_soft_limit (effective_lattice im t) = q_soft_limit q"
    "q_hard_limit (effective_lattice im t) = q_hard_limit q" "q_burst_limit (effective_lattice im t) = q_burst_limit q"
    "q_borrowable (effective_lattice im t) = q_borrowable q"
    "q_physical_capacity (effective_lattice im t) = q_physical_capacity q"
    "q_burst_rule (effective_lattice im t) = q_burst_rule q"
  using standaloneD(6,7) [OF assms]
  by (simp_all add: merge_min_single quota_ok_def) (simp add: effective_lattice_def Let_def)

lemma standalone_limits:
  assumes "standalone im t q"
  shows "guarantee_at (effective_lattice im t) d = guarantee_at q d" "soft_at (effective_lattice im t) d = soft_at q d"
    "hard_at (effective_lattice im t) d = hard_at q d"
    "has_entitlement (effective_lattice im t) = has_entitlement q"
  using standalone_lattice [OF assms] by (simp_all only: guarantee_at_def soft_at_def hard_at_def has_entitlement_def)

section \<open>The decision table\<close>

definition table_code :: "resource_quota \<Rightarrow> resource_dimension \<Rightarrow> bool \<Rightarrow> int \<Rightarrow> decision_code" where
  "table_code q d burst n =
     (if n \<le> guarantee_at q d then DC_ALLOW_GUARANTEED
      else if n \<le> soft_at q d then DC_ALLOW
      else if n \<le> hard_at q d then (if burst then DC_ALLOW_BURST else DC_DENY_SOFT)
      else DC_DENY_HARD)"

definition table_consumable_code :: "resource_quota \<Rightarrow> resource_dimension \<Rightarrow> int \<Rightarrow> decision_code" where
  "table_consumable_code q d n =
     (if n \<le> guarantee_at q d then DC_ALLOW_GUARANTEED
      else if n \<le> max (soft_at q d) (hard_at q d) then DC_ALLOW else DC_DENY_HARD)"

definition committed_at :: "impl \<Rightarrow> tenant_id \<Rightarrow> resource_dimension \<Rightarrow> int" where
  "committed_at im t d = rv_get (committed_of (usage_of im t)) d"

lemma committed_at_bounds:
  assumes "wf_state im"
  shows "0 \<le> committed_at im t d" "committed_at im t d \<le> INT64_MAX"
  using rv_okD [OF rv_ok_committed_of [OF wf_stateD(2) [OF assms]]] by (simp_all add: committed_at_def)

lemma standalone_committed:
  assumes "standalone im t q"
  shows "committed_at im t d = rv_get (us_consumption (usage_of im t)) d + rv_get (us_reserved (usage_of im t)) d"
  unfolding committed_at_def
  using usages_okD [OF wf_stateD(2) [OF standaloneD(1) [OF assms]], of t] standaloneD(8) [OF assms]
  by (intro committed_of_val) (simp_all add: request_fits_def list_all_iff all_dimensions_UNIV)

lemma scalar_simps [simp]:
  "0 \<le> x \<Longrightarrow> rv_get (rv_from_scalar d x) e = (if e = d then x else 0)"
  "0 \<le> x \<Longrightarrow> rv_present (rv_from_scalar d x) e = (e = d)"
  by (simp_all add: rv_from_scalar_def)

lemma classify_scalar:
  assumes "has_entitlement (effective_lattice im t)" "0 \<le> x"
    and "rank_of DC_ALLOW_GUARANTEED \<le> rank_of (dim_code im now t (rv_from_scalar d x) d)"
  shows "dec_code (classify im now t (rv_from_scalar d x)) = dim_code im now t (rv_from_scalar d x) d"
proof -
  have ne: "\<not> rv_is_empty (rv_from_scalar d x)" using assms(2) by (auto simp: rv_is_empty_iff)
  from classify_most_restrictive_aux [OF ne assms(1), of now] assms(2,3) show ?thesis
    by (auto split: option.splits simp: rank_of_def split: decision_code.splits)
qed

lemma sat_add_min:
  "0 \<le> a \<Longrightarrow> a \<le> INT64_MAX \<Longrightarrow> 0 \<le> b \<Longrightarrow> b \<le> INT64_MAX \<Longrightarrow> sat_add a b \<le> INT64_MAX"
  by (simp add: sat_add_nonneg)

lemma standalone_dim_code:
  assumes "standalone im t q" "0 \<le> x" "x \<le> INT64_MAX" "\<not> is_consumable d"
    and "\<not> rv_present (q_physical_capacity q) d"
  shows "dim_code im now t (rv_from_scalar d x) d =
    table_code q d (burst_ok im now d t q 0 0) (min INT64_MAX (committed_at im t d + x))"
proof -
  note S = standaloneD [OF assms(1)] standalone_limits [OF assms(1)] standalone_lattice [OF assms(1)]
  note u = usages_okD [OF wf_stateD(2) [OF S(1)], of t]
  note c = committed_at_bounds [OF S(1), of t d]
  have n: "sat_add (committed_at im t d) x = min INT64_MAX (committed_at im t d + x)"
    using assms(2,3) c by (simp add: sat_add_nonneg)
  have "sat_add (sat_add (min INT64_MAX (committed_at im t d + x)) (rv_get (us_borrowed_consumed (usage_of im t)) d))
      (rv_get (us_burst (usage_of im t)) d) \<le> INT64_MAX"
    using assms(2,3) c u by (intro sat_add_min) (auto simp: sat_add_nonneg rv_okD)
  moreover have "burst_ok im now d t (effective_lattice im t) k l = burst_ok im now d t q 0 0" for k l
    by (simp only: burst_ok_def S)
  moreover have "physical_allowance im d (effective_lattice im t) = INT64_MAX"
    unfolding physical_allowance_def using assms(5) by (simp only: S) simp
  moreover have "committed_at im t d = rv_get (committed_of (usage_of im t)) d" by (simp add: committed_at_def)
  ultimately show ?thesis
    unfolding dim_code_def
    using assms(2,4) n
    by (simp add: Let_def requested_amount_def current_committed_scalar_def S(3,5) standalone_limits [OF assms(1)] parent_hard_ok_def pool_ok_def
        borrow_available_def table_code_def)
qed

lemma standalone_consumable_code:
  assumes "standalone im t q" "0 \<le> x" "is_consumable d"
  shows "dim_code im now t (rv_from_scalar d x) d =
    table_consumable_code q d (sat_add (rw_usage (us_windows (usage_of im t) d) now) x)"
  using assms(2,3)
  by (simp add: dim_code_def Let_def requested_amount_def current_committed_scalar_def consumable_code_def
      standalone_limits [OF assms(1)] table_consumable_code_def le_max_iff_disj)

lemma rank_of_table:
  "rank_of DC_ALLOW_GUARANTEED \<le> rank_of (table_code q d burst n)"
  "rank_of DC_ALLOW_GUARANTEED \<le> rank_of (table_consumable_code q d n)"
  by (simp_all add: table_code_def table_consumable_code_def rank_of_def)

lemma classify_standalone_aux:
  assumes "standalone im t q" "has_entitlement q" "0 \<le> x" "x \<le> INT64_MAX"
    and "\<not> rv_present (q_physical_capacity q) d"
  shows "dec_code (classify im now t (rv_from_scalar d x)) =
    (if is_consumable d then table_consumable_code q d (sat_add (rw_usage (us_windows (usage_of im t) d) now) x)
     else table_code q d (burst_ok im now d t q 0 0) (min INT64_MAX (committed_at im t d + x)))"
  using classify_scalar [of im t x now d] standalone_limits(4) [OF assms(1)] assms rank_of_table
    standalone_dim_code [OF assms(1,3,4) _ assms(5), of now] standalone_consumable_code [OF assms(1,3), of d now]
  by (cases "is_consumable d") simp_all

text \<open>
  C8. For a tenant outside all groups and a request on one dimension, classify is a decision
  table over the total after the request: on a persistent dimension ALLOW_GUARANTEED up to
  the guarantee, ALLOW up to the soft limit, then ALLOW_BURST up to the hard limit when a
  burst is possible and DENY_SOFT otherwise, and DENY_HARD beyond; on a rolling dimension
  the window total plus the request is ALLOW_GUARANTEED up to the guarantee, ALLOW up to the
  larger of soft and hard limit and DENY_HARD beyond. Totals beyond INT64_MAX count as
  INT64_MAX. Hypotheses: the engine is well formed and has no lending records, the tenant
  has a quota with an entitlement and counters that match its records, and the quota gives
  the dimension no physical capacity.
\<close>

theorem classify_standalone:
  assumes "standalone im t q" "has_entitlement q" "0 \<le> x" "x \<le> INT64_MAX"
    and "\<not> rv_present (q_physical_capacity q) d"
  shows "dec_code (classify im now t (rv_from_scalar d x)) =
    (if is_consumable d then table_consumable_code q d (sat_add (rw_usage (us_windows (usage_of im t) d) now) x)
     else table_code q d (burst_ok im now d t q 0 0) (min INT64_MAX (committed_at im t d + x)))"
  by (rule classify_standalone_aux [OF assms])

section \<open>Reservations of a standalone tenant\<close>

lemma reserve_denied:
  assumes "valid_authority im auth" "tenant_exists im t" "\<not> dec_allowed (classify im now t req)"
  shows "reserve im now t req auth = (im, Inl (deny_status (classify im now t req)))"
  using assms by (simp add: reserve_def valid_authority_def stale_epoch_def stale_quota_gen_def)

text \<open>The burst that a reservation on one dimension records.\<close>

definition scalar_burst :: "resource_quota \<Rightarrow> resource_dimension \<Rightarrow> int \<Rightarrow> int \<Rightarrow> resource_vector" where
  "scalar_burst q d c x =
     (let bp = burst_part c (sat_add c x) (soft_at q d) (hard_at q d)
      in if bp > 0 then rv_put rv_empty d bp else rv_empty)"

lemma reserve_loop_scalar:
  assumes "0 \<le> x" "\<not> is_consumable d" "dim_borrow cb eff (rv_from_scalar d x) d = 0" "distinct ds"
  shows "reserve_loop now t (rv_from_scalar d x) auth eff cb ds im burst ids =
    (im, Inr (if d \<in> set ds \<and> burst_part (rv_get cb d) (sat_add (rv_get cb d) x) (soft_at eff d) (hard_at eff d) > 0
       then rv_put burst d (burst_part (rv_get cb d) (sat_add (rv_get cb d) x) (soft_at eff d) (hard_at eff d)) else burst, ids))"
  using assms(4)
proof (induction ds arbitrary: burst)
  case (Cons e ds)
  then show ?case using assms(1-3) by (cases "e = d") (auto simp: Let_def dim_borrow_def)
qed simp

lemma reserve_scalar:
  assumes "valid_authority im auth" "tenant_exists im t" "dec_allowed (classify im now t (rv_from_scalar d x))"
    and "0 \<le> x" "\<not> is_consumable d" "dim_borrow (committed_of (usage_of im t)) (effective_lattice im t) (rv_from_scalar d x) d = 0"
  shows "reserve im now t (rv_from_scalar d x) auth =
    map_prod id Inr (record_reservation now t (rv_from_scalar d x) auth
      (scalar_burst (effective_lattice im t) d (committed_at im t d) x) []
      (activate_burst now t (effective_lattice im t) (scalar_burst (effective_lattice im t) d (committed_at im t d) x)
        (usage_mut t (\<lambda>u. u) im)))"
  using assms reserve_loop_scalar [OF assms(4-6) distinct_all_dimensions, of now t auth "usage_mut t (\<lambda>u. u) im" rv_empty "[]"]
  by (simp add: reserve_def valid_authority_def stale_epoch_def stale_quota_gen_def Let_def scalar_burst_def
      committed_at_def map_prod_def all_dimensions_UNIV split: prod.split)

lemma record_configuration:
  assumes "record_reservation now t req auth burst ids (activate_burst now t eff b (usage_mut t (\<lambda>u. u) im)) = (im', res)"
  shows "im_local_quota im' = im_local_quota im" "im_quota_generation im' = im_quota_generation im"
    "im_policy im' = im_policy im"
    "ig_reservation (im_ids im') = snd (make_id (ig_reservation (im_ids im)) :: reservation_id \<times> id_gen)"
    "us_windows (usage_of im' t) = us_windows (usage_of im t)"
    "im_settings im' = im_settings im" "im_group_quota im' = im_group_quota im"
  using assms by (auto simp: record_reservation_def activate_burst_def Let_def split: prod.splits if_splits)

lemma table_allowed_hard:
  "code_allowed (table_code q d burst n) \<Longrightarrow> n \<le> guarantee_at q d \<or> n \<le> soft_at q d \<or> n \<le> hard_at q d"
  by (auto simp: table_code_def code_allowed_def split: if_splits)

text \<open>An ordered quota: guarantee below soft limit below hard limit.\<close>

definition ordered_at :: "resource_quota \<Rightarrow> resource_dimension \<Rightarrow> bool" where
  "ordered_at q d \<longleftrightarrow> guarantee_at q d \<le> hard_at q d \<and> soft_at q d \<le> hard_at q d"

text \<open>What a reservation on dimension \<open>d\<close> leaves alone.\<close>

definition same_elsewhere :: "impl \<Rightarrow> impl \<Rightarrow> tenant_id \<Rightarrow> resource_dimension \<Rightarrow> bool" where
  "same_elsewhere im im' t d \<longleftrightarrow>
     (\<forall>e. e \<noteq> d \<longrightarrow> committed_at im' t e = committed_at im t e) \<and>
     us_windows (usage_of im' t) = us_windows (usage_of im t) \<and>
     (us_lent (usage_of im t) = rv_empty \<longrightarrow> us_lent (usage_of im' t) = rv_empty)"

lemma same_elsewhere_refl: "same_elsewhere im im t d"
  by (simp add: same_elsewhere_def)

lemma same_elsewhere_trans: "same_elsewhere im im1 t d \<Longrightarrow> same_elsewhere im1 im2 t d \<Longrightarrow> same_elsewhere im im2 t d"
  by (simp add: same_elsewhere_def)

lemma borrow_part_within: "0 \<le> c \<Longrightarrow> 0 \<le> x \<Longrightarrow> c + x \<le> h \<Longrightarrow> h \<le> INT64_MAX \<Longrightarrow> borrow_part c (c + x) h = 0"
  by (simp add: borrow_part_def sub64_def s64_id i64_bounds Let_def)

lemma reserve_standalone:
  assumes S: "standalone im t q" and q: "has_entitlement q" "\<not> rv_present (q_physical_capacity q) d" "ordered_at q d"
    and x: "0 \<le> x" "\<not> is_consumable d" "committed_at im t d + x \<le> INT64_MAX"
    and a: "valid_authority im auth" "fresh_reservation im"
    and ok: "code_allowed (table_code q d (burst_ok im now d t q 0 0) (committed_at im t d + x))"
  obtains im' res where "reserve im now t (rv_from_scalar d x) auth = (im', Inr res)" "unborrowed im' res"
    "record_reservation now t (rv_from_scalar d x) auth (scalar_burst q d (committed_at im t d) x) []
       (activate_burst now t (effective_lattice im t) (scalar_burst q d (committed_at im t d) x)
         (usage_mut t (\<lambda>u. u) im)) = (im', res)"
    "standalone im' t q" "valid_authority im' auth" "committed_at im' t d = committed_at im t d + x"
    "same_elsewhere im im' t d"
proof -
  let ?req = "rv_from_scalar d x" and ?c = "committed_at im t d"
  note D = standaloneD [OF S] and L = standalone_limits [OF S]
  note c = committed_at_bounds [OF D(1), of t d]
  have xm: "x \<le> INT64_MAX" using c x by simp
  have le: "?c + x \<le> hard_at q d" using table_allowed_hard [OF ok] q(3) by (auto simp: ordered_at_def)
  have "dec_allowed (classify im now t ?req)"
    using classify_standalone_aux [OF S q(1) x(1) xm q(2), of now] ok x by (simp add: dec_allowed_def min_absorb2)
  moreover have "dim_borrow (committed_of (usage_of im t)) (effective_lattice im t) ?req d = 0"
    using borrow_part_within [OF c(1) x(1) le] hard_at_bounds [OF D(7), of d] c x
    by (simp add: dim_borrow_def L committed_at_def [symmetric] sat_add_exact)
  ultimately have r: "reserve im now t ?req auth = map_prod id Inr (record_reservation now t ?req auth
      (scalar_burst q d ?c x) [] (activate_burst now t (effective_lattice im t) (scalar_burst q d ?c x) (usage_mut t (\<lambda>u. u) im)))"
    using reserve_scalar [OF a(1) D(4) _ x(1,2)] by (simp add: scalar_burst_def L)
  obtain im' res where rc: "record_reservation now t ?req auth (scalar_burst q d ?c x) []
      (activate_burst now t (effective_lattice im t) (scalar_burst q d ?c x) (usage_mut t (\<lambda>u. u) im)) = (im', res)"
    by fastforce
  have R: "reserve im now t ?req auth = (im', Inr res)" by (simp add: r rc)
  have U: "unborrowed im' res" by (simp add: unborrowed_def record_reservation_simps(6) [OF rc] map_of_update)
  note RU = reserve_unborrowed [OF R U] and C = record_configuration [OF rc]
  have okr: "rv_ok ?req" using xm by (simp add: rv_ok_from_scalar)
  have fits: "request_fits im t ?req"
    using D(8) x(1,3) by (simp add: request_fits_def list_all_iff all_dimensions_UNIV standalone_committed [OF S])
  have fits': "request_fits im' t rv_empty"
    using fits reserve_committed(2) [OF D(1) okr R U a(2) D(2) fits] reserve_counters(2) [OF R U a(2) D(2)]
    by (simp add: request_fits_def list_all_iff add.assoc)
  show thesis
  proof (rule that [OF R U rc])
    have "wf_state im'" using wf_reserve [OF D(1) okr, of now t auth] R by simp
    moreover have "in_step im' t" by (rule reserve_counters(3) [OF R U a(2) D(2)])
    ultimately show "standalone im' t q" using S by (simp add: standalone_def RU C fits')
    show "valid_authority im' auth" using a(1) by (simp add: valid_authority_def RU C)
    have com: "committed_at im' t e = committed_at im t e + rv_get ?req e" for e
      using reserve_committed(1) [OF D(1) okr R U a(2) D(2) fits, of e] by (simp add: committed_at_def)
    then show "committed_at im' t d = ?c + x" using x(1) by simp
    have "us_lent (usage_of im' t) = rv_empty"
      using record_reservation_simps(17) [OF rc] D(3) by (simp add: computed_lent_def RU(9))
    with com x(1) show "same_elsewhere im im' t d" by (simp add: same_elsewhere_def C(5))
  qed
qed

section \<open>Sequences of reservations\<close>

text \<open>The identifiers that the next calls of the generator make.\<close>

fun next_ids :: "nat \<Rightarrow> id_gen \<Rightarrow> reservation_id list" where
  "next_ids 0 g = []"
| "next_ids (Suc n) g = fst (make_id g) # next_ids n (snd (make_id g :: reservation_id \<times> id_gen))"

definition fresh_ids :: "nat \<Rightarrow> impl \<Rightarrow> bool" where
  "fresh_ids n im \<longleftrightarrow>
     (let ids = next_ids n (ig_reservation (im_ids im))
      in distinct ids \<and>
         list_all (\<lambda>i. map_of (im_reservations im) i = None \<and> map_of (im_funding im) i = None \<and>
           list_all (\<lambda>(aid, a). al_reservation a \<noteq> i) (im_allocations im)) ids)"

lemma fresh_ids_Suc: "fresh_ids (Suc n) im \<Longrightarrow> fresh_reservation im"
  by (simp add: fresh_ids_def fresh_reservation_def next_reservation_id_def Let_def)

lemma next_ids_prefix: "\<exists>zs. next_ids (Suc n) g = next_ids n g @ zs"
  by (induction n arbitrary: g) auto

lemma fresh_ids_less: "fresh_ids (Suc n) im \<Longrightarrow> fresh_ids n im"
  using next_ids_prefix [of n "ig_reservation (im_ids im)"] by (auto simp: fresh_ids_def Let_def simp del: next_ids.simps)

lemma fresh_ids_record:
  assumes "fresh_ids (Suc n) im"
    and "record_reservation now t req auth burst ids (activate_burst now t eff b (usage_mut t (\<lambda>u. u) im)) = (im', res)"
  shows "fresh_ids n im'"
proof -
  let ?i = "fst (make_id (ig_reservation (im_ids im))) :: reservation_id"
  note R = record_reservation_simps [OF assms(2)] and C = record_configuration [OF assms(2)]
  have i: "res_id res = ?i" by (simp add: R(1) next_reservation_id_def activate_burst_def)
  have m: "im_reservations im' = emplace ?i res (im_reservations im)"
    "im_funding im' = AList.update ?i \<lparr>fu_burst = burst, fu_borrows = ids\<rparr> (im_funding im)"
    "im_allocations im' = im_allocations im"
    using R(5-7) by (simp_all add: i activate_burst_def)
  show ?thesis
    using assms(1) by (auto simp: fresh_ids_def Let_def C(4) m map_of_emplace map_of_update list_all_iff)
qed

text \<open>
  The abstract counter: a request is granted when the table allows the new total, and a
  refusal leaves the counter alone.
\<close>

definition counter_step :: "resource_quota \<Rightarrow> resource_dimension \<Rightarrow> int \<Rightarrow> int \<Rightarrow> int \<times> decision_code" where
  "counter_step q d c x =
     (let code = table_code q d False (c + x) in (if code_allowed code then c + x else c, code))"

fun counter_run :: "resource_quota \<Rightarrow> resource_dimension \<Rightarrow> int \<Rightarrow> int list \<Rightarrow> int \<times> decision_code list" where
  "counter_run q d c [] = (c, [])"
| "counter_run q d c (x # xs) =
     (case counter_step q d c x of (c', code) \<Rightarrow> case counter_run q d c' xs of (c'', codes) \<Rightarrow> (c'', code # codes))"

fun reserve_run ::
  "impl \<Rightarrow> tenant_id \<Rightarrow> resource_dimension \<Rightarrow> authority \<Rightarrow> (int \<times> int) list \<Rightarrow> impl \<times> reservation quota_result list" where
  "reserve_run im t d auth [] = (im, [])"
| "reserve_run im t d auth ((now, x) # rs) =
     (case reserve im now t (rv_from_scalar d x) auth of
        (im', r) \<Rightarrow> case reserve_run im' t d auth rs of (im'', out) \<Rightarrow> (im'', r # out))"

definition answers :: "reservation quota_result \<Rightarrow> decision_code \<Rightarrow> bool" where
  "answers r code =
     (case r of
        Inr res \<Rightarrow> code_allowed code
      | Inl st \<Rightarrow> \<not> code_allowed code \<and> \<not> st_ok st \<and>
          st_code st = (if code = DC_DENY_SOFT then VC_SOFT_LIMIT_EXCEEDED else VC_HARD_LIMIT_EXCEEDED))"

definition unburstable :: "resource_quota \<Rightarrow> resource_dimension \<Rightarrow> bool" where
  "unburstable q d \<longleftrightarrow> rv_get (q_burst_limit q) d \<le> 0"

lemma unburstable_not_ok:
  assumes "standalone im t q" "unburstable q d"
  shows "\<not> burst_ok im now d t q n s"
  using assms(2) rv_okD(1) [OF usages_okD(4) [OF wf_stateD(2) [OF standaloneD(1) [OF assms(1)]]], of t d]
  by (auto simp: burst_ok_def unburstable_def Let_def split: if_splits)

lemma table_refusal: "\<not> code_allowed (table_code q d burst n) \<Longrightarrow> table_code q d burst n \<in> {DC_DENY_SOFT, DC_DENY_HARD}"
  by (auto simp: table_code_def code_allowed_def split: if_splits)

text \<open>What a quota has to be like for the reduction to a counter.\<close>

definition countable_quota :: "resource_quota \<Rightarrow> resource_dimension \<Rightarrow> bool" where
  "countable_quota q d \<longleftrightarrow> has_entitlement q \<and> \<not> rv_present (q_physical_capacity q) d \<and> ordered_at q d \<and>
     unburstable q d \<and> \<not> is_consumable d"

lemma reserve_counter_step:
  assumes S: "standalone im t q" and q: "countable_quota q d"
    and x: "0 \<le> x" "committed_at im t d + x \<le> INT64_MAX"
    and a: "valid_authority im auth" "fresh_ids (Suc n) im"
  obtains im' r where "reserve im now t (rv_from_scalar d x) auth = (im', r)"
    "answers r (snd (counter_step q d (committed_at im t d) x))"
    "standalone im' t q" "valid_authority im' auth" "fresh_ids n im'"
    "committed_at im' t d = fst (counter_step q d (committed_at im t d) x)" "same_elsewhere im im' t d"
proof -
  let ?code = "table_code q d False (committed_at im t d + x)"
  note D = standaloneD [OF S]
  have Q: "has_entitlement q" "\<not> rv_present (q_physical_capacity q) d" "ordered_at q d" "\<not> is_consumable d"
    and b: "burst_ok im now d t q 0 0 = False"
    using q unburstable_not_ok [OF S] by (simp_all add: countable_quota_def)
  show thesis
  proof (cases "code_allowed ?code")
    case True
    from reserve_standalone [OF S Q(1-3) x(1) Q(4) x(2) a(1) fresh_ids_Suc [OF a(2)], of now] True b
    obtain im' res where r: "reserve im now t (rv_from_scalar d x) auth = (im', Inr res)"
      "record_reservation now t (rv_from_scalar d x) auth (scalar_burst q d (committed_at im t d) x) []
       (activate_burst now t (effective_lattice im t) (scalar_burst q d (committed_at im t d) x)
         (usage_mut t (\<lambda>u. u) im)) = (im', res)"
      "standalone im' t q" "valid_authority im' auth" "committed_at im' t d = committed_at im t d + x"
      "same_elsewhere im im' t d"
      by metis
    show thesis
      by (rule that [OF r(1) _ r(3,4) fresh_ids_record [OF a(2) r(2)] _ r(6)])
        (use True r(5) in \<open>simp_all add: counter_step_def answers_def\<close>)
  next
    case False
    have code: "dec_code (classify im now t (rv_from_scalar d x)) = ?code"
      using classify_standalone_aux [OF S Q(1) x(1) _ Q(2), of now] committed_at_bounds [OF D(1), of t d] x Q(4) b
      by (simp add: min_absorb2)
    with False have "\<not> dec_allowed (classify im now t (rv_from_scalar d x))" by (simp add: dec_allowed_def)
    from reserve_denied [OF a(1) D(4) this]
    show thesis
      by (rule that [OF _ _ S a(1) fresh_ids_less [OF a(2)] _ same_elsewhere_refl])
        (use False table_refusal [OF False] code in \<open>auto simp: counter_step_def answers_def deny_status_def status_failure_def\<close>)
  qed
qed

lemma counter_step_bounds:
  "0 \<le> x \<Longrightarrow> c \<le> fst (counter_step q d c x)" "0 \<le> x \<Longrightarrow> fst (counter_step q d c x) \<le> c + x"
  by (simp_all add: counter_step_def Let_def)

lemma reserve_run_counts_aux:
  assumes "standalone im t q" "countable_quota q d" "valid_authority im auth" "fresh_ids (length rs) im"
    and "list_all (\<lambda>(now, x). 0 \<le> x) rs" "committed_at im t d + sum_list (map snd rs) \<le> INT64_MAX"
    and "reserve_run im t d auth rs = (im', out)" "counter_run q d (committed_at im t d) (map snd rs) = (c', codes)"
  shows "list_all2 answers out codes \<and> committed_at im' t d = c' \<and> standalone im' t q \<and> valid_authority im' auth \<and>
    same_elsewhere im im' t d"
  using assms(1,3-)
proof (induction rs arbitrary: im im' out c' codes)
  case (Cons r rs)
  obtain now x where r: "r = (now, x)" by (cases r)
  have x: "0 \<le> x" "0 \<le> sum_list (map snd rs)"
    using Cons.prems(4) r by (simp, intro sum_list_nonneg) (auto simp: list_all_iff)
  from Cons.prems(3) have f: "fresh_ids (Suc (length rs)) im" by simp
  have "committed_at im t d + x \<le> INT64_MAX" using Cons.prems(5) x r by simp
  from reserve_counter_step [OF Cons.prems(1) assms(2) x(1) this Cons.prems(2) f]
  obtain im1 v where s: "reserve im now t (rv_from_scalar d x) auth = (im1, v)"
    "answers v (snd (counter_step q d (committed_at im t d) x))"
    "standalone im1 t q" "valid_authority im1 auth" "fresh_ids (length rs) im1"
    "committed_at im1 t d = fst (counter_step q d (committed_at im t d) x)" "same_elsewhere im im1 t d"
    by metis
  obtain out1 codes1 where rest: "reserve_run im1 t d auth rs = (im', out1)" "out = v # out1"
    "counter_run q d (committed_at im1 t d) (map snd rs) = (c', codes1)"
    "codes = snd (counter_step q d (committed_at im t d) x) # codes1"
    using Cons.prems(6,7) s(1,6) by (auto simp: r split: prod.splits)
  have "committed_at im1 t d + sum_list (map snd rs) \<le> INT64_MAX"
    using Cons.prems(5) counter_step_bounds(2) [OF x(1), of q d "committed_at im t d"] s(6) r by simp
  from Cons.IH [OF s(3-5) _ this rest(1,3)] Cons.prems(4) s(2) rest(2,4) show ?case
    using same_elsewhere_trans [OF s(7)] by simp
qed (simp add: same_elsewhere_refl)

text \<open>
  C3. Let a tenant outside all groups have a quota with an entitlement that gives a
  persistent dimension no burst and no physical capacity and keeps guarantee and soft limit
  within the hard limit. Then any sequence of reservations on that dimension behaves as one
  integer counter with limits: every answer is a grant or a refusal exactly as the counter
  decides, with the status that belongs to the counter's verdict, and the committed usage
  afterwards is the counter's value. Hypotheses: the engine is well formed and has no
  lending records, the tenant's counters match its records and their sum is in the int64
  range, the authority is current, the reservation ids drawn are unused, and the amounts are
  non-negative with a sum in the int64 range.
\<close>

theorem reserve_run_counts:
  assumes "standalone im t q" "countable_quota q d" "valid_authority im auth" "fresh_ids (length rs) im"
    and "list_all (\<lambda>(now, x). 0 \<le> x) rs" "committed_at im t d + sum_list (map snd rs) \<le> INT64_MAX"
    and "reserve_run im t d auth rs = (im', out)" "counter_run q d (committed_at im t d) (map snd rs) = (c', codes)"
  shows "list_all2 answers out codes \<and> committed_at im' t d = c'"
  using reserve_run_counts_aux [OF assms] by blast

section \<open>Compliance and envelope\<close>

lemma fold_sv_set: "fold (\<lambda>d v. sv_set v d (f d)) ds v e = (if e \<in> set ds then f e else v e)"
  by (induction ds arbitrary: v) (auto simp: sv_set_def)

lemma envelope_available_guaranteed:
  "env_available_guaranteed (envelope im now t) d =
     sub64 (sub64 (guarantee_at (effective_lattice im t) d)
       (current_committed_scalar im now t d (committed_of (usage_of im t)))) (rv_get (us_lent (usage_of im t)) d)"
  by (simp add: envelope_def compute_envelope_def Let_def fold_sv_set all_dimensions_UNIV)

text \<open>Usage on one dimension only: nothing in the windows, nothing lent.\<close>

definition only_on :: "impl \<Rightarrow> tenant_id \<Rightarrow> resource_dimension \<Rightarrow> bool" where
  "only_on im t d \<longleftrightarrow> \<not> is_consumable d \<and>
     (\<forall>e. e \<noteq> d \<longrightarrow> current_committed_scalar im 0 t e (committed_of (usage_of im t)) = 0) \<and>
     us_lent (usage_of im t) = rv_empty"

lemma only_on_current:
  assumes "only_on im t d"
  shows "current_committed_scalar im now t e (committed_of (usage_of im t)) = (if e = d then committed_at im t d else 0)"
  using assms by (auto simp: only_on_def committed_at_def current_committed_scalar_def rw_usage_def)

lemma only_on_same:
  assumes "only_on im t d" "same_elsewhere im im' t d"
  shows "only_on im' t d"
  using assms by (auto simp: only_on_def same_elsewhere_def current_committed_scalar_def committed_at_def split: if_splits)

lemma limits_nonneg: "quota_ok q \<Longrightarrow> 0 \<le> soft_at q d \<and> 0 \<le> hard_at q d"
  by (simp add: soft_at_def hard_at_def quota_ok_def rv_okD i64_bounds)

lemma standalone_compliance:
  assumes "standalone im t q" "only_on im t d"
  shows "compute_compliance im now t (effective_lattice im t) (committed_of (usage_of im t)) =
    (if committed_at im t d > hard_at q d then CS_OVER_HARD
     else if committed_at im t d > soft_at q d then CS_OVER_SOFT else CS_COMPLIANT)"
proof -
  have "\<not> recall_due im now t (effective_lattice im t) (committed_of (usage_of im t)) e" for e
    using assms(2) by (simp add: recall_due_def only_on_def)
  moreover have "(\<exists>e. f e < current_committed_scalar im now t e (committed_of (usage_of im t))) \<longleftrightarrow> f d < committed_at im t d"
    if "\<And>e. 0 \<le> f e" for f
    using that by (auto simp: only_on_current [OF assms(2)] not_less [symmetric] split: if_splits)
  ultimately show ?thesis
    using limits_nonneg [OF standaloneD(7) [OF assms(1)]]
    by (simp add: compute_compliance_cases standalone_limits [OF assms(1)])
qed

section \<open>A tenant by itself\<close>

definition lone_engine :: impl where
  "lone_engine = sample_engine\<lparr>im_tenants := [(solo, solo_tenant None)], im_local_quota := [(solo, vram_quota 10)]\<rparr>"

lemma lone_engine_simps [simp]:
  "im_tenants lone_engine = [(solo, solo_tenant None)]" "im_local_quota lone_engine = [(solo, vram_quota 10)]"
  "im_groups lone_engine = []" "im_group_quota lone_engine = []" "im_usage lone_engine = []"
  "im_reservations lone_engine = []" "im_funding lone_engine = []" "im_allocations lone_engine = []"
  "im_borrows lone_engine = []" "im_lends lone_engine = []" "im_events lone_engine = []" "im_ids lone_engine = sample_ids"
  by (simp_all add: lone_engine_def sample_engine_def impl_initial_def)

lemma lone_usage [simp]: "usage_of lone_engine t = empty_usage"
  by (simp add: usage_of_def)

lemma lone_committed: "committed_at lone_engine t d = 0"
  by (simp add: committed_at_def)

lemma lone_standalone: "standalone lone_engine solo (vram_quota 10)"
proof -
  have "hier_ok (im_groups lone_engine)" by (simp add: hier_ok_def)
  then have "wf_state lone_engine"
    by (simp add: wf_state_def quotas_ok_def usages_ok_def records_ok_def keys_ok_def events_bounded_def
        no_cooldown_def quota_ok_def rv_ok_vram i64_bounds)
  then show ?thesis
    by (simp add: standalone_def solo_tenant_def in_step_def reserved_remaining_def computed_consumed_def request_fits_def
        empty_usage_def list_all_iff i64_bounds)
qed

lemma vram_quota_countable: "0 \<le> x \<Longrightarrow> countable_quota (vram_quota x) AcceleratorVRAM"
  by (auto simp: countable_quota_def has_entitlement_def rv_present_count_zero rv_is_empty_iff ordered_at_def
      guarantee_at_def soft_at_def hard_at_def unburstable_def is_consumable_def)

lemma lone_authority: "valid_authority lone_engine (sample_authority lone_engine)"
  by (simp add: sample_authority_def valid_authority_def)

lemma lone_fresh: "fresh_ids 3 lone_engine"
proof -
  have "distinct (next_ids 3 (sample_gen 3))" by code_simp
  then show ?thesis by (simp add: fresh_ids_def list_all_iff sample_ids_def Let_def)
qed

theorem reserve_run_counts_witness:
  "\<exists>im' out. reserve_run lone_engine solo AcceleratorVRAM (sample_authority lone_engine) [(3, 7), (4, 4), (5, 3)] = (im', out) \<and>
    list_all2 answers out [DC_ALLOW_GUARANTEED, DC_DENY_HARD, DC_ALLOW_GUARANTEED] \<and>
    committed_at im' solo AcceleratorVRAM = 10"
proof -
  obtain im' out where run: "reserve_run lone_engine solo AcceleratorVRAM (sample_authority lone_engine)
      [(3, 7), (4, 4), (5, 3)] = (im', out)" by fastforce
  have cnt: "counter_run (vram_quota 10) AcceleratorVRAM (committed_at lone_engine solo AcceleratorVRAM)
      (map snd [(3 :: int, 7), (4, 4), (5, 3)]) = (10, [DC_ALLOW_GUARANTEED, DC_DENY_HARD, DC_ALLOW_GUARANTEED])"
    by (simp add: lone_committed counter_step_def table_code_def code_allowed_def guarantee_at_def soft_at_def hard_at_def)
  from reserve_run_counts [OF lone_standalone vram_quota_countable lone_authority _ _ _ run cnt] lone_fresh run show ?thesis
    by (simp add: lone_committed i64_bounds eval_nat_numeral)
qed

theorem classify_standalone_witness:
  "dec_code (classify lone_engine 3 solo (rv_from_scalar AcceleratorVRAM 11)) = DC_DENY_HARD"
proof -
  have "has_entitlement (vram_quota 10)" using vram_quota_countable [of 10] by (simp add: countable_quota_def)
  from classify_standalone [OF lone_standalone this, of 11 AcceleratorVRAM 3] show ?thesis
    by (simp add: lone_committed table_code_def guarantee_at_def soft_at_def hard_at_def is_consumable_def i64_bounds)
qed

end
