(* ===== verification/QF_Examples.thy ===== *)
theory QF_Examples
  imports QF_Standalone
begin

text \<open>
  The example programs of the repository (\<open>src/examples\<close>). A \<open>main\<close> is a function of the
  identifier generators, of the value of an out-of-range cast and of the clock, whose \<open>n\<close>-th
  reading is \<open>clk n\<close>; its value is the list of the lines it prints. The helper functions are
  the same in every file. What each program prints is proved for all clocks and all generators
  that do not repeat an identifier.
\<close>

section \<open>Helpers\<close>

type_synonym clock = "nat \<Rightarrow> int"

definition ex_V :: "int \<Rightarrow> resource_vector" where
  "ex_V b = rv_from_scalar AcceleratorVRAM b"

definition ex_CT :: "int \<Rightarrow> resource_vector" where
  "ex_CT ms = rv_from_scalar AcceleratorComputeTime ms"

definition ex_TB :: "int \<Rightarrow> resource_vector" where
  "ex_TB b = rv_from_scalar TransferBytes b"

definition ex_MR :: "int \<Rightarrow> resource_vector" where
  "ex_MR b = rv_from_scalar ModelResidencyBytes b"

definition ex_KV :: "int \<Rightarrow> resource_vector" where
  "ex_KV b = rv_from_scalar KVCacheBytes b"

definition ex_window :: "resource_quota \<Rightarrow> resource_quota" where
  "ex_window q = q\<lparr>q_burst_rule := (q_burst_rule q)\<lparr>bu_window := 30000000000\<rparr>\<rparr>"

definition ex_Q :: "tenant_id \<Rightarrow> resource_quota" where
  "ex_Q t = ex_window (resource_quota_default\<lparr>q_tenant := t\<rparr>)"

definition ex_QV :: "tenant_id \<Rightarrow> int \<Rightarrow> int \<Rightarrow> int \<Rightarrow> int \<Rightarrow> int \<Rightarrow> resource_quota" where
  "ex_QV t g soft hard burst bor =
     (ex_window (resource_quota_default\<lparr>q_tenant := t, q_guaranteed := ex_V g, q_soft_limit := ex_V soft,
        q_hard_limit := ex_V hard, q_burst_limit := ex_V burst, q_borrowable := ex_V bor\<rparr>))
      \<lparr>q_borrow_rule := borrow_rule_default\<lparr>bw_borrow_enabled := True, bw_lend_enabled := True\<rparr>\<rparr>"

definition make_engine :: "id_gens \<Rightarrow> int \<Rightarrow> int \<Rightarrow> impl" where
  "make_engine ids oob now =
     fst (set_policy (impl_initial engine_settings_default ids oob) now (quota_policy_default\<lparr>pol_name := ''example''\<rparr>))"

definition ex_AUTH :: "impl \<Rightarrow> authority" where
  "ex_AUTH e = \<lparr>au_epoch = im_epoch e, au_agent = null_id, au_boot = null_id,
     au_quota_generation = im_quota_generation e, au_policy_generation = pol_generation (im_policy e),
     au_resource_generation = gen_initial\<rparr>"

text \<open>\<open>OBS\<close> makes an agent id and a boot id; they are arguments, like the clock reading.\<close>

definition ex_OBS ::
  "agent_id \<Rightarrow> agent_boot_id \<Rightarrow> int \<Rightarrow> tenant_id \<Rightarrow> resource_dimension \<Rightarrow> int \<Rightarrow> observation_kind \<Rightarrow> observation" where
  "ex_OBS agent boot now t d amt k =
     \<lparr>ob_tenant = t, ob_allocation = null_id, ob_dimension = d, ob_amount = amt, ob_kind = k, ob_at = now,
      ob_resource_generation = gen_initial, ob_agent = agent, ob_boot = boot, ob_source = ''''\<rparr>"

text \<open>\<open>TenantId t; ef.create_tenant(name, grp, priority, &t);\<close>\<close>

definition ex_tenant ::
  "impl \<Rightarrow> int \<Rightarrow> string \<Rightarrow> tenant_group_id option \<Rightarrow> 32 word \<Rightarrow> impl \<times> tenant_id" where
  "ex_tenant ef now name grp priority =
     (case create_tenant_auto ef now name grp priority of
        (ef', st, ti) \<Rightarrow> (ef', case ti of Some t \<Rightarrow> t | None \<Rightarrow> null_id))"

definition allow_text :: "'a quota_result \<Rightarrow> string" where
  "allow_text r = (case r of Inr v \<Rightarrow> ''ALLOW'' | Inl st \<Rightarrow> ''DENY'')"

definition code_text :: "'a quota_result \<Rightarrow> string" where
  "code_text r = violation_code_name (case r of Inr v \<Rightarrow> VC_NONE | Inl st \<Rightarrow> st_code st)"

section \<open>The programs\<close>

definition basic_hard_quota :: "id_gens \<Rightarrow> int \<Rightarrow> clock \<Rightarrow> string list" where
  "basic_hard_quota ids oob clk =
     (let (ef0, t) = ex_tenant (make_engine ids oob (clk 0)) (clk 1) ''t'' None 50;
          ef1 = fst (set_tenant_quota ef0 (clk 2) t (ex_QV t 4096 4096 4096 0 0));
          a = ex_AUTH ef1;
          (ef2, r) = reserve ef1 (clk 3) t (ex_V 1024) a;
          (ef3, r2) = reserve ef2 (clk 4) t (ex_V 4096) a;
          (ef4, r3) = reserve ef3 (clk 5) t (ex_V 1) a
      in [''reserve 1024MB: '' @ allow_text r @ '' ('' @ code_text r @ '')'',
          ''reserve 4096MB (exact hard): '' @ allow_text r2,
          ''reserve 1MB over hard: '' @ allow_text r3 @ '' ('' @ code_text r3 @ '')''])"

definition soft_quota :: "id_gens \<Rightarrow> int \<Rightarrow> clock \<Rightarrow> string list" where
  "soft_quota ids oob clk =
     (let (ef0, t) = ex_tenant (make_engine ids oob (clk 0)) (clk 1) ''t'' None 50;
          ef1 = fst (set_tenant_quota ef0 (clk 2) t (ex_QV t 1024 2048 8192 0 0));
          a = ex_AUTH ef1;
          (ef2, r) = reserve ef1 (clk 3) t (ex_V 2048) a;
          (ef3, r2) = reserve ef2 (clk 4) t (ex_V 4096) a;
          env = envelope ef3 (clk 5) t
      in [''reserve 2048 within soft: '' @ allow_text r,
          ''reserve 4096 over soft (no burst): '' @ allow_text r2 @ '' ('' @ code_text r2 @ '')'',
          ''envelope compliance='' @ compliance_state_name (env_compliance env)])"

definition guarantee_example :: "id_gens \<Rightarrow> int \<Rightarrow> clock \<Rightarrow> string list" where
  "guarantee_example ids oob clk =
     (let (ef0, t) = ex_tenant (make_engine ids oob (clk 0)) (clk 1) ''t'' None 50;
          ef1 = fst (set_tenant_quota ef0 (clk 2) t (ex_QV t 4096 8192 8192 0 0));
          a = ex_AUTH ef1;
          (ef2, r) = reserve ef1 (clk 3) t (ex_V 4096) a;
          env = envelope ef2 (clk 4) t;
          (ef3, r2) = reserve ef2 (clk 5) t (ex_V 4096) a
      in [''guaranteed reserve allowed='' @ show_int (case r of Inr v \<Rightarrow> 1 | Inl st \<Rightarrow> 0) @
            '' available_guaranteed='' @ show_int (env_available_guaranteed env AcceleratorVRAM),
          ''above guarantee within soft: '' @ allow_text r2])"

definition burst_example :: "id_gens \<Rightarrow> int \<Rightarrow> clock \<Rightarrow> string list" where
  "burst_example ids oob clk =
     (let (ef0, t) = ex_tenant (make_engine ids oob (clk 0)) (clk 1) ''t'' None 50;
          ef1 = fst (set_tenant_quota ef0 (clk 2) t (ex_QV t 0 2048 4096 1024 0));
          a = ex_AUTH ef1;
          (ef2, r) = reserve ef1 (clk 3) t (ex_V 3072) a;
          env = envelope ef2 (clk 4) t;
          (ef3, r2) = reserve ef2 (clk 5) t (ex_V 1024) a
      in [''burst reserve 3072: '' @ (case r of Inr v \<Rightarrow> ''ALLOW_BURST'' | Inl st \<Rightarrow> ''DENY''),
          ''burst_use='' @ show_int (rv_get (env_burst_usage env) AcceleratorVRAM) @
            '' active='' @ show_int (if env_burst_active env then 1 else 0),
          ''second burst 1024 (exhausted): '' @ allow_text r2 @ '' ('' @ code_text r2 @ '')''])"

definition quota_lowering :: "id_gens \<Rightarrow> int \<Rightarrow> clock \<Rightarrow> string list" where
  "quota_lowering ids oob clk =
     (let (ef0, t) = ex_tenant (make_engine ids oob (clk 0)) (clk 1) ''t'' None 50;
          ef1 = fst (set_tenant_quota ef0 (clk 2) t (ex_QV t 4096 4096 4096 0 0));
          a = ex_AUTH ef1;
          (ef2, r) = reserve ef1 (clk 3) t (ex_V 4096) a;
          ef3 = fst (set_tenant_quota ef2 (clk 4) t (ex_QV t 1024 1024 1024 0 0))
      in [''after lowering hard to 1024 with 4096 reserved: compliance='' @
            compliance_state_name (compliance_after_lowering ef3 (clk 5) t)])"

text \<open>The four programs about observations set one limit vector for guarantee, soft and hard limit.\<close>

definition ex_flat :: "tenant_id \<Rightarrow> resource_vector \<Rightarrow> resource_quota" where
  "ex_flat t v = (ex_Q t)\<lparr>q_guaranteed := v, q_soft_limit := v, q_hard_limit := v\<rparr>"

definition compute_time_budget :: "id_gens \<Rightarrow> int \<Rightarrow> agent_id \<Rightarrow> agent_boot_id \<Rightarrow> clock \<Rightarrow> string list" where
  "compute_time_budget ids oob agent boot clk =
     (let (ef0, t) = ex_tenant (make_engine ids oob (clk 0)) (clk 1) ''t'' None 50;
          ef1 = fst (set_tenant_quota ef0 (clk 2) t (ex_flat t (ex_CT 5000)));
          before = dec_code (evaluate_reservation ef1 (clk 3) t (ex_CT 1000));
          ef2 = fst (apply_observation ef1 (clk 5)
            (ex_OBS agent boot (clk 4) t AcceleratorComputeTime 4800 OK_COMPUTE_INTERVAL));
          after = dec_code (evaluate_reservation ef2 (clk 6) t (ex_CT 1000))
      in [''compute budget before='' @ decision_code_name before @ '' after='' @ decision_code_name after])"

definition transfer_budget :: "id_gens \<Rightarrow> int \<Rightarrow> agent_id \<Rightarrow> agent_boot_id \<Rightarrow> clock \<Rightarrow> string list" where
  "transfer_budget ids oob agent boot clk =
     (let (ef0, t) = ex_tenant (make_engine ids oob (clk 0)) (clk 1) ''t'' None 50;
          ef1 = fst (set_tenant_quota ef0 (clk 2) t (ex_flat t (ex_TB (1 * 2 ^ 30))));
          before = dec_code (evaluate_reservation ef1 (clk 3) t (ex_TB (256 * 2 ^ 20)));
          ef2 = fst (apply_observation ef1 (clk 5)
            (ex_OBS agent boot (clk 4) t TransferBytes (900 * 2 ^ 20) OK_TRANSFER_CONSUMED));
          after = dec_code (evaluate_reservation ef2 (clk 6) t (ex_TB (256 * 2 ^ 20)))
      in [''transfer before='' @ decision_code_name before @ '' after='' @ decision_code_name after])"

definition kv_tensor_state :: "id_gens \<Rightarrow> int \<Rightarrow> agent_id \<Rightarrow> agent_boot_id \<Rightarrow> clock \<Rightarrow> string list" where
  "kv_tensor_state ids oob agent boot clk =
     (let (ef0, t) = ex_tenant (make_engine ids oob (clk 0)) (clk 1) ''t'' None 50;
          ef1 = fst (set_tenant_quota ef0 (clk 2) t (ex_flat t (ex_KV (1 * 2 ^ 30))));
          ef2 = fst (apply_observation ef1 (clk 4)
            (ex_OBS agent boot (clk 3) t KVCacheBytes (512 * 2 ^ 20) OK_KV_USAGE_CHANGE));
          env = envelope ef2 (clk 5) t
      in [''KV state consumed='' @ show_int (rv_get (env_current_consumption env) KVCacheBytes) @
            '' / quota='' @ show_int (rv_get (env_guaranteed env) KVCacheBytes)])"

definition model_residency :: "id_gens \<Rightarrow> int \<Rightarrow> agent_id \<Rightarrow> agent_boot_id \<Rightarrow> clock \<Rightarrow> string list" where
  "model_residency ids oob agent boot clk =
     (let (ef0, t) = ex_tenant (make_engine ids oob (clk 0)) (clk 1) ''t'' None 50;
          ef1 = fst (set_tenant_quota ef0 (clk 2) t (ex_flat t (ex_MR (1 * 2 ^ 30))));
          ef2 = fst (apply_observation ef1 (clk 4)
            (ex_OBS agent boot (clk 3) t ModelResidencyBytes (256 * 2 ^ 20) OK_MODEL_RESIDENCY_ADDED));
          env = envelope ef2 (clk 5) t
      in [''model residency consumed='' @ show_int (rv_get (env_current_consumption env) ModelResidencyBytes) @
            '' / guaranteed='' @ show_int (rv_get (env_guaranteed env) ModelResidencyBytes)])"

section \<open>The engine the programs start from\<close>

lemma ex_window_simps [simp]:
  "q_guaranteed (ex_window q) = q_guaranteed q" "q_soft_limit (ex_window q) = q_soft_limit q"
  "q_hard_limit (ex_window q) = q_hard_limit q" "q_burst_limit (ex_window q) = q_burst_limit q"
  "q_borrowable (ex_window q) = q_borrowable q" "q_physical_capacity (ex_window q) = q_physical_capacity q"
  "bu_window (q_burst_rule (ex_window q)) = 30000000000"
  by (simp_all add: ex_window_def)

lemma ex_QV_simps [simp]:
  "q_guaranteed (ex_QV t g sf h b w) = ex_V g" "q_soft_limit (ex_QV t g sf h b w) = ex_V sf"
  "q_hard_limit (ex_QV t g sf h b w) = ex_V h" "q_burst_limit (ex_QV t g sf h b w) = ex_V b"
  "q_borrowable (ex_QV t g sf h b w) = ex_V w" "q_physical_capacity (ex_QV t g sf h b w) = rv_empty"
  "bu_window (q_burst_rule (ex_QV t g sf h b w)) = 30000000000"
  by (simp_all add: ex_QV_def resource_quota_default_def)

lemma ex_flat_simps [simp]:
  "q_guaranteed (ex_flat t v) = v" "q_soft_limit (ex_flat t v) = v" "q_hard_limit (ex_flat t v) = v"
  "q_burst_limit (ex_flat t v) = rv_empty" "q_borrowable (ex_flat t v) = rv_empty"
  "q_physical_capacity (ex_flat t v) = rv_empty"
  by (simp_all add: ex_flat_def ex_Q_def resource_quota_default_def)

text \<open>A quota as \<open>set_tenant_quota\<close> stores it.\<close>

definition stored_quota :: "impl \<Rightarrow> tenant_id \<Rightarrow> resource_quota \<Rightarrow> resource_quota" where
  "stored_quota im t q = q\<lparr>q_tenant := t, q_generation := im_quota_generation im,
     q_policy_generation := pol_generation (im_policy im)\<rparr>"

lemma stored_quota_simps [simp]:
  "q_guaranteed (stored_quota im t q) = q_guaranteed q" "q_soft_limit (stored_quota im t q) = q_soft_limit q"
  "q_hard_limit (stored_quota im t q) = q_hard_limit q" "q_burst_limit (stored_quota im t q) = q_burst_limit q"
  "q_borrowable (stored_quota im t q) = q_borrowable q" "q_burst_rule (stored_quota im t q) = q_burst_rule q"
  "q_physical_capacity (stored_quota im t q) = q_physical_capacity q"
  "guarantee_at (stored_quota im t q) d = guarantee_at q d" "soft_at (stored_quota im t q) d = soft_at q d"
  "hard_at (stored_quota im t q) d = hard_at q d" "has_entitlement (stored_quota im t q) = has_entitlement q"
  by (simp_all add: stored_quota_def guarantee_at_def soft_at_def hard_at_def has_entitlement_def)

definition pristine :: "impl \<Rightarrow> bool" where
  "pristine im \<longleftrightarrow> wf_state im \<and> im_usage im = [] \<and> im_reservations im = [] \<and> im_funding im = [] \<and>
     im_allocations im = [] \<and> im_borrows im = [] \<and> im_lends im = []"

lemma make_engine_simps:
  "im_tenants (make_engine ids oob now) = []" "im_local_quota (make_engine ids oob now) = []"
  "im_settings (make_engine ids oob now) = engine_settings_default" "im_ids (make_engine ids oob now) = ids"
  "pristine (make_engine ids oob now)"
proof -
  let ?im = "impl_initial engine_settings_default ids oob"
  have i: "im_tenants ?im = []" "im_local_quota ?im = []" "im_settings ?im = engine_settings_default" "im_ids ?im = ids"
    "im_usage ?im = []" "im_reservations ?im = []" "im_funding ?im = []" "im_allocations ?im = []"
    "im_borrows ?im = []" "im_lends ?im = []"
    by (simp_all add: impl_initial_def)
  then show "im_tenants (make_engine ids oob now) = []" "im_local_quota (make_engine ids oob now) = []"
    "im_settings (make_engine ids oob now) = engine_settings_default" "im_ids (make_engine ids oob now) = ids"
    by (simp_all add: make_engine_def set_policy_def split: option.split)
  from i show "pristine (make_engine ids oob now)"
    by (auto simp: pristine_def make_engine_def set_policy_def wf_emit_event wf_generations wf_initial split: option.split)
qed

lemma ex_tenant_first:
  assumes "ex_tenant (make_engine ids oob now0) now name None pr = (ef, t)"
  shows "pristine ef" "\<exists>tn. map_of (im_tenants ef) t = Some tn \<and> ten_group tn = None"
    "im_local_quota ef = []" "ig_reservation (im_ids ef) = ig_reservation ids"
proof -
  obtain i :: tenant_id and gen where i: "make_id (ig_tenant ids) = (i, gen)"
    by (cases "make_id (ig_tenant ids) :: tenant_id \<times> id_gen")
  note M = make_engine_simps [of ids oob now0]
  have "pristine ef \<and> (\<exists>tn. map_of (im_tenants ef) t = Some tn \<and> ten_group tn = None) \<and> im_local_quota ef = [] \<and>
    ig_reservation (im_ids ef) = ig_reservation ids"
    using assms M
    by (auto simp: ex_tenant_def create_tenant_auto_def create_tenant_def i Let_def tenant_exists_def contains_key_def
        pristine_def engine_settings_default_def status_success_def emplace_def wf_emit_event wf_ids wf_tenants)
  then show "pristine ef" "\<exists>tn. map_of (im_tenants ef) t = Some tn \<and> ten_group tn = None"
    "im_local_quota ef = []" "ig_reservation (im_ids ef) = ig_reservation ids" by simp_all
qed

text \<open>After the first quota of the tenant: nothing is used yet, and the authority is current.\<close>

lemma ex_start:
  assumes "ex_tenant (make_engine ids oob now0) now name None pr = (ef0, t)" "quota_ok q"
    and "ef = fst (set_tenant_quota ef0 now' t q)"
  shows "standalone ef t (stored_quota ef0 t q)" "valid_authority ef (ex_AUTH ef)" "pristine ef"
    "committed_at ef t d = 0" "usage_of ef t = empty_usage"
    "fresh_ids n ef \<longleftrightarrow> distinct (next_ids n (ig_reservation ids))"
proof -
  note T = ex_tenant_first [OF assms(1)]
  have ex: "tenant_exists ef0 t" using T(2) by (auto simp: tenant_exists_def contains_key_def)
  have ef: "ef = emit_event now' ET_QUOTA_UPDATE t ''tenant quota updated''
      (ef0\<lparr>im_local_quota := [(t, stored_quota ef0 t q)], im_quota_generation := gen_next (im_quota_generation ef0)\<rparr>)"
    using ex T(3) by (simp add: assms(3) set_tenant_quota_def contains_key_def stored_quota_def)
  have wf: "wf_state ef" using wf_set_tenant_quota [OF _ assms(2)] T(1) by (simp add: assms(3) pristine_def)
  with T(1) show p: "pristine ef" by (simp add: pristine_def ef)
  then show u: "usage_of ef t = empty_usage" by (simp add: pristine_def usage_of_def)
  then show "committed_at ef t d = 0" by (simp add: committed_at_def)
  show "valid_authority ef (ex_AUTH ef)" by (simp add: valid_authority_def ex_AUTH_def)
  have "in_step ef t" using p u by (simp add: in_step_def pristine_def reserved_remaining_def computed_consumed_def empty_usage_def)
  moreover have "request_fits ef t rv_empty" by (simp add: request_fits_def u empty_usage_def list_all_iff i64_bounds)
  ultimately show "standalone ef t (stored_quota ef0 t q)"
    using wf p T(2) by (simp add: standalone_def pristine_def) (simp add: ef)
  show "fresh_ids n ef \<longleftrightarrow> distinct (next_ids n (ig_reservation ids))"
    using p T(4) by (auto simp: fresh_ids_def pristine_def ef list_all_iff)
qed

lemma ex_QV_limits [simp]:
  assumes "0 \<le> g" "0 \<le> sf" "0 \<le> h"
  shows "guarantee_at (ex_QV t g sf h b w) AcceleratorVRAM = g" "soft_at (ex_QV t g sf h b w) AcceleratorVRAM = sf"
    "hard_at (ex_QV t g sf h b w) AcceleratorVRAM = h"
  using assms by (simp_all add: guarantee_at_def soft_at_def hard_at_def ex_V_def)

lemma ex_QV_ok:
  assumes "g \<le> INT64_MAX" "sf \<le> INT64_MAX" "h \<le> INT64_MAX" "b \<le> INT64_MAX" "w \<le> INT64_MAX"
  shows "quota_ok (ex_QV t g sf h b w)"
  using assms by (simp add: quota_ok_def ex_V_def rv_ok_from_scalar)

lemma ex_QV_coherent:
  "0 \<le> g \<Longrightarrow> g \<le> sf \<Longrightarrow> sf \<le> h \<Longrightarrow> lattice_coherent (ex_QV t g sf h b w)"
  by (simp add: lattice_coherent_def list_all_iff ex_V_def)

lemma digit_chars:
  "digit_char 0 = CHR ''0''" "digit_char 1 = CHR ''1''" "digit_char 2 = CHR ''2''" "digit_char 3 = CHR ''3''"
  "digit_char 4 = CHR ''4''" "digit_char 5 = CHR ''5''" "digit_char 6 = CHR ''6''" "digit_char 7 = CHR ''7''"
  "digit_char 8 = CHR ''8''" "digit_char 9 = CHR ''9''"
  by code_simp+

lemma show_small: "show_int 0 = ''0''" "show_int 1 = ''1''" "show_int 1024 = ''1024''"
  "show_int 268435456 = ''268435456''" "show_int 536870912 = ''536870912''" "show_int 1073741824 = ''1073741824''"
  by (simp_all add: show_int_def show_nat.simps digit_chars digit_chars(2) [simplified])

lemma entitled_guarantee: "rv_present (q_guaranteed q) d \<Longrightarrow> has_entitlement q"
  by (auto simp: has_entitlement_def rv_present_count_zero rv_is_empty_iff)

lemma ex_QV_countable:
  assumes "0 \<le> g" "g \<le> h" "0 \<le> sf" "sf \<le> h"
  shows "countable_quota (stored_quota im t (ex_QV t' g sf h 0 w)) AcceleratorVRAM"
  using assms entitled_guarantee [of "ex_QV t' g sf h 0 w" AcceleratorVRAM]
  by (simp add: countable_quota_def ordered_at_def unburstable_def ex_V_def is_consumable_def)

lemma answers_texts:
  "answers r DC_ALLOW_GUARANTEED \<Longrightarrow> allow_text r = ''ALLOW''" "answers r DC_ALLOW \<Longrightarrow> allow_text r = ''ALLOW''"
  "answers r DC_DENY_SOFT \<Longrightarrow> allow_text r = ''DENY''" "answers r DC_DENY_HARD \<Longrightarrow> allow_text r = ''DENY''"
  "answers r DC_ALLOW_GUARANTEED \<Longrightarrow> code_text r = ''NONE''" "answers r DC_ALLOW \<Longrightarrow> code_text r = ''NONE''"
  "answers r DC_DENY_SOFT \<Longrightarrow> code_text r = ''SOFT_LIMIT_EXCEEDED''"
  "answers r DC_DENY_HARD \<Longrightarrow> code_text r = ''HARD_LIMIT_EXCEEDED''"
  by (auto simp: answers_def allow_text_def code_text_def code_allowed_def split: sum.splits)

lemma table_code_stored [simp]: "table_code (stored_quota im t q) d b n = table_code q d b n"
  by (simp add: table_code_def)

lemma counter_run_stored: "counter_run (stored_quota im t q) d c xs = counter_run q d c xs"
  by (induction xs arbitrary: c) (simp_all add: counter_step_def)

lemma only_on_unused: "usage_of im t = empty_usage \<Longrightarrow> \<not> is_consumable d \<Longrightarrow> only_on im t d"
  by (simp add: only_on_def current_committed_scalar_def rw_usage_def rw_initial_def empty_usage_def committed_of_def)

text \<open>A program that sets one quota without a burst and then makes reservations counts.\<close>

definition limits_ok :: "int \<Rightarrow> int \<Rightarrow> int \<Rightarrow> int \<Rightarrow> bool" where
  "limits_ok g sf h w \<longleftrightarrow> 0 \<le> g \<and> g \<le> h \<and> 0 \<le> sf \<and> sf \<le> h \<and> h \<le> INT64_MAX \<and> w \<le> INT64_MAX"

definition requests_ok :: "id_gens \<Rightarrow> (int \<times> int) list \<Rightarrow> bool" where
  "requests_ok ids rs \<longleftrightarrow> distinct (next_ids (length rs) (ig_reservation ids)) \<and>
     list_all (\<lambda>(now, x). 0 \<le> x) rs \<and> sum_list (map snd rs) \<le> INT64_MAX"

lemma ex_run:
  assumes T: "ex_tenant (make_engine ids oob now0) now name None pr = (ef0, t)"
    and ef1: "ef1 = fst (set_tenant_quota ef0 now' t (ex_QV t g sf h 0 w))"
    and run: "reserve_run ef1 t AcceleratorVRAM (ex_AUTH ef1) rs = (im', out)"
    and count: "counter_run (ex_QV t g sf h 0 w) AcceleratorVRAM 0 (map snd rs) = (c', codes)"
    and ok: "limits_ok g sf h w" "requests_ok ids rs"
  shows "list_all2 answers out codes" "committed_at im' t AcceleratorVRAM = c'"
    "standalone im' t (stored_quota ef0 t (ex_QV t g sf h 0 w))" "only_on im' t AcceleratorVRAM"
    "valid_authority im' (ex_AUTH ef1)"
proof -
  have "quota_ok (ex_QV t g sf h 0 w)" using ok(1) by (intro ex_QV_ok) (simp_all add: i64_bounds limits_ok_def)
  note S = ex_start [OF T this ef1]
  have "list_all2 answers out codes \<and> committed_at im' t AcceleratorVRAM = c' \<and>
    standalone im' t (stored_quota ef0 t (ex_QV t g sf h 0 w)) \<and> valid_authority im' (ex_AUTH ef1) \<and>
    same_elsewhere ef1 im' t AcceleratorVRAM"
    by (rule reserve_run_counts_aux [OF S(1) ex_QV_countable S(2) _ _ _ run])
      (use ok count in \<open>simp_all add: S(4,6) counter_run_stored limits_ok_def requests_ok_def\<close>)
  moreover have "only_on ef1 t AcceleratorVRAM" by (rule only_on_unused [OF S(5)]) (simp add: is_consumable_def)
  ultimately show "list_all2 answers out codes" "committed_at im' t AcceleratorVRAM = c'"
    "standalone im' t (stored_quota ef0 t (ex_QV t g sf h 0 w))" "only_on im' t AcceleratorVRAM"
    "valid_authority im' (ex_AUTH ef1)" by (simp_all add: only_on_same)
qed

lemmas counting_simps = counter_step_def table_code_def code_allowed_def i64_bounds limits_ok_def requests_ok_def eval_nat_numeral

text \<open>A new quota of a standalone tenant.\<close>

lemma standalone_requota:
  assumes "standalone im t q" "quota_ok q'" "lattice_coherent q'"
  shows "standalone (fst (set_tenant_quota im now t q')) t (stored_quota im t q')"
    "usage_of (fst (set_tenant_quota im now t q')) t' = usage_of im t'"
proof -
  note D = standaloneD [OF assms(1)]
  have ef: "fst (set_tenant_quota im now t q') = emit_event now ET_QUOTA_UPDATE t ''tenant quota updated''
      (im\<lparr>im_local_quota := AList.update t (stored_quota im t q') (im_local_quota im),
          im_quota_generation := gen_next (im_quota_generation im)\<rparr>)"
    using D(4) assms(3) by (simp add: set_tenant_quota_def stored_quota_def)
  show u: "usage_of (fst (set_tenant_quota im now t q')) t' = usage_of im t'" for t' by (simp add: ef usage_of_def)
  have "wf_state (fst (set_tenant_quota im now t q'))" using wf_set_tenant_quota [OF D(1) assms(2)] .
  moreover have "in_step (fst (set_tenant_quota im now t q')) t"
    using D(2) u by (simp add: in_step_def) (simp add: ef reserved_remaining_def computed_consumed_def alloc_used_by_def cong: if_cong)
  ultimately show "standalone (fst (set_tenant_quota im now t q')) t (stored_quota im t q')"
    using assms(1) u by (simp add: standalone_def request_fits_def) (simp add: ef map_of_update)
qed

section \<open>What the programs print\<close>

text \<open>
  The program reserves 1024 of 4096; the next 4096 do not fit any more and are refused, and
  the last 1 is granted, contrary to the labels 'exact hard' and 'over hard' in what it
  prints.
\<close>

theorem basic_hard_quota_prints:
  assumes "distinct (next_ids 3 (ig_reservation ids))"
  shows "basic_hard_quota ids oob clk =
    [''reserve 1024MB: ALLOW (NONE)'', ''reserve 4096MB (exact hard): DENY'', ''reserve 1MB over hard: ALLOW (NONE)'']"
proof -
  obtain ef0 t where T: "ex_tenant (make_engine ids oob (clk 0)) (clk 1) ''t'' None 50 = (ef0, t)"
    by (cases "ex_tenant (make_engine ids oob (clk 0)) (clk 1) ''t'' None 50")
  define ef1 where ef1: "ef1 = fst (set_tenant_quota ef0 (clk 2) t (ex_QV t 4096 4096 4096 0 0))"
  obtain ef2 r ef3 r2 ef4 r3 where R: "reserve ef1 (clk 3) t (ex_V 1024) (ex_AUTH ef1) = (ef2, r)"
    "reserve ef2 (clk 4) t (ex_V 4096) (ex_AUTH ef1) = (ef3, r2)" "reserve ef3 (clk 5) t (ex_V 1) (ex_AUTH ef1) = (ef4, r3)"
    by (metis surj_pair)
  have run: "reserve_run ef1 t AcceleratorVRAM (ex_AUTH ef1) [(clk 3, 1024), (clk 4, 4096), (clk 5, 1)] = (ef4, [r, r2, r3])"
    using R by (simp add: ex_V_def)
  have "list_all2 answers [r, r2, r3] [DC_ALLOW_GUARANTEED, DC_DENY_HARD, DC_ALLOW_GUARANTEED]"
    by (rule ex_run(1) [OF T ef1 run]) (use assms in \<open>simp_all add: counting_simps\<close>)
  then show ?thesis
    using R by (simp add: basic_hard_quota_def T ef1 [symmetric] Let_def answers_texts del: One_nat_def)
qed

text \<open>
  The program soft\_quota: 4096 on top of 2048 is refused for the soft limit of 2048, and the
  tenant, exactly at that limit, is compliant.
\<close>

theorem soft_quota_prints:
  assumes "distinct (next_ids 2 (ig_reservation ids))"
  shows "soft_quota ids oob clk =
    [''reserve 2048 within soft: ALLOW'', ''reserve 4096 over soft (no burst): DENY (SOFT_LIMIT_EXCEEDED)'',
     ''envelope compliance=COMPLIANT'']"
proof -
  obtain ef0 t where T: "ex_tenant (make_engine ids oob (clk 0)) (clk 1) ''t'' None 50 = (ef0, t)"
    by (cases "ex_tenant (make_engine ids oob (clk 0)) (clk 1) ''t'' None 50")
  define ef1 where ef1: "ef1 = fst (set_tenant_quota ef0 (clk 2) t (ex_QV t 1024 2048 8192 0 0))"
  obtain ef2 r ef3 r2 where R: "reserve ef1 (clk 3) t (ex_V 2048) (ex_AUTH ef1) = (ef2, r)"
    "reserve ef2 (clk 4) t (ex_V 4096) (ex_AUTH ef1) = (ef3, r2)"
    by (metis surj_pair)
  have run: "reserve_run ef1 t AcceleratorVRAM (ex_AUTH ef1) [(clk 3, 2048), (clk 4, 4096)] = (ef3, [r, r2])"
    using R by (simp add: ex_V_def)
  have cnt: "counter_run (ex_QV t 1024 2048 8192 0 0) AcceleratorVRAM 0 (map snd [(clk 3, 2048), (clk 4, 4096)]) =
      (2048, [DC_ALLOW, DC_DENY_SOFT])" by (simp add: counting_simps)
  note E = ex_run [OF T ef1 run cnt]
  have ok: "limits_ok 1024 2048 8192 0" "requests_ok ids [(clk 3, 2048), (clk 4, 4096)]"
    using assms by (simp_all add: counting_simps)
  have "env_compliance (envelope ef3 (clk 5) t) = CS_COMPLIANT"
    using standalone_compliance [OF E(3,4) [OF ok], of "clk 5"] E(2) [OF ok] by (simp add: envelope_def compute_envelope_def Let_def)
  moreover have "list_all2 answers [r, r2] [DC_ALLOW, DC_DENY_SOFT]" by (rule E(1) [OF ok])
  ultimately show ?thesis
    using R by (simp add: soft_quota_def T ef1 [symmetric] Let_def answers_texts del: One_nat_def)
qed

text \<open>
  The program guarantee: the guaranteed amount is granted and leaves no guarantee available, and
  what lies between guarantee and soft limit is granted as well.
\<close>

theorem guarantee_prints:
  assumes "distinct (next_ids 2 (ig_reservation ids))"
  shows "guarantee_example ids oob clk =
    [''guaranteed reserve allowed=1 available_guaranteed=0'', ''above guarantee within soft: ALLOW'']"
proof -
  obtain ef0 t where T: "ex_tenant (make_engine ids oob (clk 0)) (clk 1) ''t'' None 50 = (ef0, t)"
    by (cases "ex_tenant (make_engine ids oob (clk 0)) (clk 1) ''t'' None 50")
  define ef1 where ef1: "ef1 = fst (set_tenant_quota ef0 (clk 2) t (ex_QV t 4096 8192 8192 0 0))"
  obtain ef2 r ef3 r2 where R: "reserve ef1 (clk 3) t (ex_V 4096) (ex_AUTH ef1) = (ef2, r)"
    "reserve ef2 (clk 5) t (ex_V 4096) (ex_AUTH ef1) = (ef3, r2)"
    by (metis surj_pair)
  have run: "reserve_run ef1 t AcceleratorVRAM (ex_AUTH ef1) [(clk 3, 4096)] = (ef2, [r])"
    "reserve_run ef1 t AcceleratorVRAM (ex_AUTH ef1) [(clk 3, 4096), (clk 5, 4096)] = (ef3, [r, r2])"
    using R by (simp_all add: ex_V_def)
  have cnt: "counter_run (ex_QV t 4096 8192 8192 0 0) AcceleratorVRAM 0 (map snd [(clk 3, 4096)]) = (4096, [DC_ALLOW_GUARANTEED])"
    "counter_run (ex_QV t 4096 8192 8192 0 0) AcceleratorVRAM 0 (map snd [(clk 3, 4096), (clk 5, 4096)]) =
      (8192, [DC_ALLOW_GUARANTEED, DC_ALLOW])" by (simp_all add: counting_simps)
  have ok: "limits_ok 4096 8192 8192 0" "requests_ok ids [(clk 3, 4096)]" "requests_ok ids [(clk 3, 4096), (clk 5, 4096)]"
    using assms by (simp_all add: counting_simps)
  note E = ex_run [OF T ef1 run(1) cnt(1) ok(1,2)]
  have "env_available_guaranteed (envelope ef2 (clk 4) t) AcceleratorVRAM = 0"
    using E(4) by (simp add: envelope_available_guaranteed standalone_limits [OF E(3)] only_on_current [OF E(4)] E(2)
        only_on_def sub64_def s64_id i64_bounds)
  moreover have "list_all2 answers [r, r2] [DC_ALLOW_GUARANTEED, DC_ALLOW]"
    by (rule ex_run(1) [OF T ef1 run(2) cnt(2) ok(1,3)])
  moreover have "(case r of Inr v \<Rightarrow> 1 | Inl st \<Rightarrow> 0) = (1 :: int)"
    using E(1) by (simp add: answers_def code_allowed_def split: sum.splits)
  ultimately show ?thesis
    using R by (simp add: guarantee_example_def T ef1 [symmetric] Let_def answers_texts show_small del: One_nat_def)
qed

text \<open>
  Lowering the limits below what is reserved keeps the reservation and makes the tenant
  OVER_HARD.
\<close>

theorem quota_lowering_prints:
  "quota_lowering ids oob clk = [''after lowering hard to 1024 with 4096 reserved: compliance=OVER_HARD'']"
proof -
  obtain ef0 t where T: "ex_tenant (make_engine ids oob (clk 0)) (clk 1) ''t'' None 50 = (ef0, t)"
    by (cases "ex_tenant (make_engine ids oob (clk 0)) (clk 1) ''t'' None 50")
  define ef1 where ef1: "ef1 = fst (set_tenant_quota ef0 (clk 2) t (ex_QV t 4096 4096 4096 0 0))"
  obtain ef2 r where R: "reserve ef1 (clk 3) t (ex_V 4096) (ex_AUTH ef1) = (ef2, r)"
    by (metis surj_pair)
  define ef3 where ef3: "ef3 = fst (set_tenant_quota ef2 (clk 4) t (ex_QV t 1024 1024 1024 0 0))"
  have run: "reserve_run ef1 t AcceleratorVRAM (ex_AUTH ef1) [(clk 3, 4096)] = (ef2, [r])" using R by (simp add: ex_V_def)
  have cnt: "counter_run (ex_QV t 4096 4096 4096 0 0) AcceleratorVRAM 0 (map snd [(clk 3, 4096)]) = (4096, [DC_ALLOW_GUARANTEED])"
    by (simp add: counting_simps)
  have ok: "limits_ok 4096 4096 4096 0" "requests_ok ids [(clk 3, 4096)]" by (simp_all add: counting_simps)
  note E = ex_run [OF T ef1 run cnt ok]
  have S: "standalone ef3 t (stored_quota ef2 t (ex_QV t 1024 1024 1024 0 0))" "usage_of ef3 t = usage_of ef2 t"
    using standalone_requota [OF E(3), of "ex_QV t 1024 1024 1024 0 0" "clk 4"]
    by (simp_all add: ef3 i64_bounds ex_QV_ok ex_QV_coherent)
  have "only_on ef3 t AcceleratorVRAM" "committed_at ef3 t AcceleratorVRAM = 4096"
    using E(2) S(2) only_on_same [OF E(4), of ef3] by (simp_all add: same_elsewhere_def committed_at_def)
  from standalone_compliance [OF S(1) this(1), of "clk 5"] this(2)
  have "compliance_after_lowering ef3 (clk 5) t = CS_OVER_HARD"
    by (simp add: compliance_after_lowering_def compute_envelope_def Let_def)
  then show ?thesis
    using R by (simp add: quota_lowering_def T ef1 [symmetric] ef3 [symmetric] Let_def del: One_nat_def)
qed

text \<open>The burst that a first reservation opens.\<close>

lemma record_first_burst:
  assumes "record_reservation now t req auth b [] (activate_burst now t eff b (usage_mut t (\<lambda>u. u) im)) = (im', res)"
    and "im_funding im = []" "im_reservations im = []" "rv_ok b" "\<not> rv_is_empty b"
    and "now < add64 now (bu_window (q_burst_rule eff))"
  shows "us_burst (usage_of im' t) = b" "us_burst_active (usage_of im' t)"
    "us_burst_expires (usage_of im' t) = add64 now (bu_window (q_burst_rule eff))"
proof -
  have "funded_burst (im1\<lparr>im_funding := [(rid, \<lparr>fu_burst = b, fu_borrows = []\<rparr>)],
      im_reservations := [(rid, new_reservation im2 now rid t req auth)]\<rparr>) t = b" for im1 im2 rid
    using assms(4) by (simp add: funded_burst_def new_reservation_def active_res_def rv_acc_empty_left)
  with assms show "us_burst (usage_of im' t) = b" "us_burst_active (usage_of im' t)"
    "us_burst_expires (usage_of im' t) = add64 now (bu_window (q_burst_rule eff))"
    by (auto simp: record_reservation_def activate_burst_def Let_def emplace_def contains_key_def synced_def split: prod.splits)
qed

lemma ex_burst_code:
  "table_code (ex_QV t 0 2048 4096 1024 0) AcceleratorVRAM b 3072 = (if b then DC_ALLOW_BURST else DC_DENY_SOFT)"
  "table_code (ex_QV t 0 2048 4096 1024 0) AcceleratorVRAM b 4096 = (if b then DC_ALLOW_BURST else DC_DENY_SOFT)"
  by (simp_all add: table_code_def)

lemma ex_burst_vector: "scalar_burst (stored_quota im t' (ex_QV t 0 2048 4096 1024 0)) AcceleratorVRAM 0 3072 = ex_V 1024"
proof -
  have "burst_part 0 3072 2048 4096 = 1024"
    by (simp add: burst_part_def clamp64_def sub64_def s64_id i64_bounds Let_def)
  moreover have "rv_put rv_empty AcceleratorVRAM 1024 = ex_V 1024"
    by (rule rv_eqI) (simp_all add: ex_V_def rv_from_scalar_def)
  ultimately show ?thesis by (simp add: scalar_burst_def sat_add_exact i64_bounds)
qed

text \<open>
  The part of the reservation beyond the soft limit is recorded as burst; a second request
  beyond it is refused because the burst limit is used up.
\<close>

theorem burst_prints:
  assumes "0 \<le> clk 3" "clk 3 + 30000000000 \<le> INT64_MAX"
  shows "burst_example ids oob clk =
    [''burst reserve 3072: ALLOW_BURST'', ''burst_use=1024 active=1'',
     ''second burst 1024 (exhausted): DENY (SOFT_LIMIT_EXCEEDED)'']"
proof -
  obtain ef0 t where T: "ex_tenant (make_engine ids oob (clk 0)) (clk 1) ''t'' None 50 = (ef0, t)"
    by (cases "ex_tenant (make_engine ids oob (clk 0)) (clk 1) ''t'' None 50")
  let ?q = "stored_quota ef0 t (ex_QV t 0 2048 4096 1024 0)"
  define ef1 where ef1: "ef1 = fst (set_tenant_quota ef0 (clk 2) t (ex_QV t 0 2048 4096 1024 0))"
  have "quota_ok (ex_QV t 0 2048 4096 1024 0)" by (intro ex_QV_ok) (simp_all add: i64_bounds)
  note S = ex_start [OF T this ef1]
  have q: "has_entitlement ?q" "\<not> rv_present (q_physical_capacity ?q) AcceleratorVRAM" "ordered_at ?q AcceleratorVRAM"
    "\<not> is_consumable AcceleratorVRAM"
    using entitled_guarantee [of ?q AcceleratorVRAM] by (simp_all add: ex_V_def ordered_at_def is_consumable_def)
  have fresh: "fresh_ids (Suc 0) ef1" by (simp add: S(6))
  have b1: "burst_ok ef1 (clk 3) AcceleratorVRAM t ?q 0 0"
    using assms by (simp add: burst_ok_def S(5) empty_usage_def Let_def ex_V_def)
  obtain ef2 res where r: "reserve ef1 (clk 3) t (ex_V 3072) (ex_AUTH ef1) = (ef2, Inr res)"
    "record_reservation (clk 3) t (ex_V 3072) (ex_AUTH ef1) (ex_V 1024) []
       (activate_burst (clk 3) t (effective_lattice ef1 t) (ex_V 1024) (usage_mut t (\<lambda>u. u) ef1)) = (ef2, res)"
    "standalone ef2 t ?q" "valid_authority ef2 (ex_AUTH ef1)" "committed_at ef2 t AcceleratorVRAM = 3072"
    using reserve_standalone [OF S(1) q(1-3) _ q(4) _ S(2) fresh_ids_Suc [OF fresh], of 3072 "clk 3"] b1
    by (simp add: S(4) ex_burst_code ex_burst_vector code_allowed_def i64_bounds ex_V_def [symmetric]) blast
  have U: "us_burst (usage_of ef2 t) = ex_V 1024" "us_burst_active (usage_of ef2 t)"
    using record_first_burst [OF r(2)] S(3) assms
    by (simp_all add: pristine_def ex_V_def rv_ok_from_scalar rv_is_empty_iff standalone_lattice [OF S(1)] add64_nonneg i64_bounds)
  have "\<not> burst_ok ef2 (clk 5) AcceleratorVRAM t ?q 0 0"
    using U by (simp add: burst_ok_def Let_def ex_V_def)
  then have code: "dec_code (classify ef2 (clk 5) t (ex_V 1024)) = DC_DENY_SOFT"
    using classify_standalone_aux [OF r(3) q(1) _ _ q(2), of 1024 "clk 5"] q(4) r(5)
    by (simp add: ex_burst_code ex_V_def i64_bounds)
  then have r2: "reserve ef2 (clk 5) t (ex_V 1024) (ex_AUTH ef1) = (ef2, Inl (deny_status (classify ef2 (clk 5) t (ex_V 1024))))"
    by (intro reserve_denied [OF r(4) standaloneD(4) [OF r(3)]]) (simp add: dec_allowed_def code_allowed_def)
  show ?thesis
    using r(1) r2 U code
    by (simp add: burst_example_def T ef1 [symmetric] Let_def envelope_def compute_envelope_def allow_text_def code_text_def
        deny_status_def status_failure_def show_small ex_V_def del: One_nat_def)
qed

section \<open>Observations of the programs\<close>

lemma observe_window:
  assumes "standalone im t q" "0 < now" "now \<le> INT64_MAX" "0 \<le> amt" "amt \<le> INT64_MAX"
    and "k = OK_COMPUTE_INTERVAL \<and> d = AcceleratorComputeTime \<or> k = OK_TRANSFER_CONSUMED \<and> d = TransferBytes"
    and "us_windows (usage_of im t) d = rw_initial"
    and "im' = fst (apply_observation im clk (ex_OBS agent boot now t d amt k))"
  shows "standalone im' t q" "rw_usage (us_windows (usage_of im' t) d) now' = amt"
proof -
  note D = standaloneD [OF assms(1)]
  let ?u = "usage_of im t"
  have "\<not> now \<le> sub64 now default_window_ns"
    using assms(2,3) by (simp add: sub64_def s64_id default_window_ns_def i64_bounds)
  then have w: "us_windows (window_add d now amt ?u) d = \<lparr>rw_window_ns = default_window_ns, rw_samples = [(now, amt)], rw_total = amt\<rparr>"
    using assms(4,5) by (simp add: window_add_def assms(7) rw_initial_def rw_add_def rw_expire_def sat_add_exact Let_def)
  have c: "us_consumption (window_add d now amt ?u) = us_consumption ?u" "us_reserved (window_add d now amt ?u) = us_reserved ?u"
    "us_cooldown_until (window_add d now amt ?u) = us_cooldown_until ?u" "usage_ok (window_add d now amt ?u) = usage_ok ?u"
    by (simp_all add: window_add_def Let_def usage_ok_def)
  define im1 where "im1 = usage_mut t (window_add d now amt) (usage_mut t (\<lambda>u. u) im)"
  have im': "im' = emit_event clk ET_VIOLATION t (''observation '' @ resource_dimension_name d) im1"
    using assms(2,6) D(4) by (auto simp: assms(8) apply_observation_def ex_OBS_def observe_kind_def im1_def)
  have u: "usage_of im1 t = window_add d now amt ?u" by (simp add: im1_def)
  then show "rw_usage (us_windows (usage_of im' t) d) now' = amt" by (simp add: im' w rw_usage_def)
  have "wf_state im1"
    unfolding im1_def using D(1)
    by (intro wf_usage_mut wf_usage_touch) (simp_all add: c usage_ok_of wf_stateD no_cooldownD)
  moreover have "in_step im1 t" using D(2) by (simp add: in_step_def u c) (simp add: im1_def)
  moreover have "request_fits im1 t rv_empty" using D(8) by (simp add: request_fits_def u c)
  ultimately have "standalone im1 t q" using assms(1) by (simp add: standalone_def) (simp add: im1_def)
  then show "standalone im' t q"
    by (auto simp: im' standalone_def wf_emit_event in_step_def request_fits_def)
qed

lemma ex_flat_ok: "x \<le> INT64_MAX \<Longrightarrow> quota_ok (ex_flat t (rv_from_scalar d x))"
  by (simp add: quota_ok_def rv_ok_from_scalar)

text \<open>A budget of \<open>lim\<close>, of which \<open>used\<close> is reported, seen by a request for \<open>x\<close> before and after.\<close>

lemma ex_budget:
  assumes T: "ex_tenant (make_engine ids oob now0) now name None pr = (ef0, t)"
    and ef1: "ef1 = fst (set_tenant_quota ef0 now' t (ex_flat t (rv_from_scalar d lim)))"
    and ef2: "ef2 = fst (apply_observation ef1 clk (ex_OBS agent boot obs t d used k))"
    and k: "k = OK_COMPUTE_INTERVAL \<and> d = AcceleratorComputeTime \<or> k = OK_TRANSFER_CONSUMED \<and> d = TransferBytes"
    and x: "0 \<le> x" "x \<le> lim" "0 \<le> used" "lim < used + x" "used + x \<le> INT64_MAX" "0 < obs" "obs \<le> INT64_MAX"
  shows "dec_code (evaluate_reservation ef1 n t (rv_from_scalar d x)) = DC_ALLOW_GUARANTEED"
    "dec_code (evaluate_reservation ef2 n t (rv_from_scalar d x)) = DC_DENY_HARD"
proof -
  let ?q = "stored_quota ef0 t (ex_flat t (rv_from_scalar d lim))"
  have "quota_ok (ex_flat t (rv_from_scalar d lim))" using x by (intro ex_flat_ok) simp
  note S = ex_start [OF T this ef1]
  have c: "is_consumable d" using k by (auto simp: is_consumable_def)
  have q: "has_entitlement ?q" "\<not> rv_present (q_physical_capacity ?q) d"
    using entitled_guarantee [of ?q d] x by simp_all
  have lim: "guarantee_at ?q d = lim" "soft_at ?q d = lim" "hard_at ?q d = lim"
    using x by (simp_all add: guarantee_at_def soft_at_def hard_at_def)
  have w: "us_windows (usage_of ef1 t) d = rw_initial" by (simp add: S(5) empty_usage_def)
  have "sat_add 0 x = x" "sat_add used x = used + x" using x by (simp_all add: sat_add_exact)
  moreover have "used \<le> INT64_MAX" using x by simp
  note O = observe_window [OF S(1) x(6,7,3) this k w ef2]
  moreover have "x \<le> INT64_MAX" using x by simp
  ultimately show "dec_code (evaluate_reservation ef1 n t (rv_from_scalar d x)) = DC_ALLOW_GUARANTEED"
    "dec_code (evaluate_reservation ef2 n t (rv_from_scalar d x)) = DC_DENY_HARD"
    using classify_standalone_aux [OF S(1) q(1) x(1) _ q(2), of n] classify_standalone_aux [OF O(1) q(1) x(1) _ q(2), of n]
      c w lim x
    by (simp_all add: evaluate_reservation_def table_consumable_code_def rw_usage_def rw_initial_def)
qed

text \<open>
  The program compute\_time\_budget: 1000 of 5000 milliseconds are within the guarantee before
  an interval of 4800 is reported, and beyond the hard limit afterwards.
\<close>

theorem compute_time_budget_prints:
  assumes "0 < clk 4" "clk 4 \<le> INT64_MAX"
  shows "compute_time_budget ids oob agent boot clk = [''compute budget before=ALLOW_GUARANTEED after=DENY_HARD'']"
proof -
  obtain ef0 t where T: "ex_tenant (make_engine ids oob (clk 0)) (clk 1) ''t'' None 50 = (ef0, t)"
    by (cases "ex_tenant (make_engine ids oob (clk 0)) (clk 1) ''t'' None 50")
  define ef1 where ef1: "ef1 = fst (set_tenant_quota ef0 (clk 2) t (ex_flat t (rv_from_scalar AcceleratorComputeTime 5000)))"
  define ef2 where ef2: "ef2 = fst (apply_observation ef1 (clk 5) (ex_OBS agent boot (clk 4) t AcceleratorComputeTime 4800 OK_COMPUTE_INTERVAL))"
  note B = ex_budget [OF T ef1 ef2]
  show ?thesis
    using assms by (simp add: compute_time_budget_def T Let_def ex_CT_def ef1 [symmetric] ef2 [symmetric] B i64_bounds del: One_nat_def)
qed

text \<open>The program transfer\_budget, with 256 of 1024 MiB and a reported transfer of 900 MiB.\<close>

theorem transfer_budget_prints:
  assumes "0 < clk 4" "clk 4 \<le> INT64_MAX"
  shows "transfer_budget ids oob agent boot clk = [''transfer before=ALLOW_GUARANTEED after=DENY_HARD'']"
proof -
  obtain ef0 t where T: "ex_tenant (make_engine ids oob (clk 0)) (clk 1) ''t'' None 50 = (ef0, t)"
    by (cases "ex_tenant (make_engine ids oob (clk 0)) (clk 1) ''t'' None 50")
  define ef1 where ef1: "ef1 = fst (set_tenant_quota ef0 (clk 2) t (ex_flat t (rv_from_scalar TransferBytes 1073741824)))"
  define ef2 where ef2: "ef2 = fst (apply_observation ef1 (clk 5) (ex_OBS agent boot (clk 4) t TransferBytes 943718400 OK_TRANSFER_CONSUMED))"
  note B = ex_budget [OF T ef1 ef2]
  show ?thesis
    using assms by (simp add: transfer_budget_def T Let_def ex_TB_def ef1 [symmetric] ef2 [symmetric] B i64_bounds del: One_nat_def)
qed

text \<open>Observations that write the consumption counter, and the envelope afterwards.\<close>

lemma observe_consumption:
  assumes "standalone im t q" "usage_of im t = empty_usage" "im_allocations im = []" "0 \<le> amt" "amt \<le> INT64_MAX"
    and "k = OK_KV_USAGE_CHANGE \<or> k = OK_MODEL_RESIDENCY_ADDED \<and> d = ModelResidencyBytes"
    and "im' = fst (apply_observation im clk (ex_OBS agent boot now t d amt k))"
  shows "rv_get (env_current_consumption (envelope im' n t)) d = amt"
    "env_guaranteed (envelope im' n t) = q_guaranteed q"
proof -
  note D = standaloneD [OF assms(1)]
  have a: "add64 0 amt = amt" using assms(4,5) by (simp add: add64_nonneg)
  have im': "im' = emit_event clk ET_VIOLATION t (''observation '' @ resource_dimension_name d)
      (usage_mut t (consumption_set d amt) (usage_mut t (\<lambda>u. u) im))"
    using assms(6) D(4) a
    by (auto simp: assms(7) apply_observation_def ex_OBS_def observe_kind_def assms(2,3) empty_usage_def Let_def)
  show "rv_get (env_current_consumption (envelope im' n t)) d = amt"
    using assms(4) by (simp add: im' envelope_def compute_envelope_def Let_def consumption_set_def assms(2) empty_usage_def)
  have "quota_chain im' t = quota_chain im t" by (simp add: im' quota_chain_def ancestor_groups_def cong: option.case_cong)
  then show "env_guaranteed (envelope im' n t) = q_guaranteed q"
    using standalone_lattice(1) [OF assms(1)] by (simp add: envelope_def compute_envelope_def Let_def)
qed

text \<open>The program kv\_tensor\_state prints the reported consumption against the quota.\<close>

theorem kv_tensor_state_prints:
  "kv_tensor_state ids oob agent boot clk = [''KV state consumed=536870912 / quota=1073741824'']"
proof -
  obtain ef0 t where T: "ex_tenant (make_engine ids oob (clk 0)) (clk 1) ''t'' None 50 = (ef0, t)"
    by (cases "ex_tenant (make_engine ids oob (clk 0)) (clk 1) ''t'' None 50")
  define ef1 where ef1: "ef1 = fst (set_tenant_quota ef0 (clk 2) t (ex_flat t (rv_from_scalar KVCacheBytes 1073741824)))"
  note S = ex_start [OF T ex_flat_ok ef1]
  define ef2 where ef2: "ef2 = fst (apply_observation ef1 (clk 4) (ex_OBS agent boot (clk 3) t KVCacheBytes 536870912 OK_KV_USAGE_CHANGE))"
  note O = observe_consumption [OF S(1,5) _ _ _ _ ef2]
  show ?thesis
    using S(3) by (simp add: kv_tensor_state_def T Let_def ex_KV_def ef1 [symmetric] ef2 [symmetric] O i64_bounds pristine_def
        show_small del: One_nat_def)
qed

text \<open>The program model\_residency prints the reported residency against the guarantee.\<close>

theorem model_residency_prints:
  "model_residency ids oob agent boot clk = [''model residency consumed=268435456 / guaranteed=1073741824'']"
proof -
  obtain ef0 t where T: "ex_tenant (make_engine ids oob (clk 0)) (clk 1) ''t'' None 50 = (ef0, t)"
    by (cases "ex_tenant (make_engine ids oob (clk 0)) (clk 1) ''t'' None 50")
  define ef1 where ef1: "ef1 = fst (set_tenant_quota ef0 (clk 2) t (ex_flat t (rv_from_scalar ModelResidencyBytes 1073741824)))"
  note S = ex_start [OF T ex_flat_ok ef1]
  define ef2 where ef2: "ef2 = fst (apply_observation ef1 (clk 4)
      (ex_OBS agent boot (clk 3) t ModelResidencyBytes 268435456 OK_MODEL_RESIDENCY_ADDED))"
  note O = observe_consumption [OF S(1,5) _ _ _ _ ef2]
  show ?thesis
    using S(3) by (simp add: model_residency_def T Let_def ex_MR_def ef1 [symmetric] ef2 [symmetric] O i64_bounds pristine_def
        show_small del: One_nat_def)
qed

end
