(* ===== verification/QF_Examples_Groups.thy ===== *)
theory QF_Examples_Groups
  imports QF_Examples
begin

text \<open>
  The example program \<open>hierarchy\<close> (\<open>src/examples/hierarchy.cpp\<close>): a team below an organisation,
  and a tenant of the team without a quota of its own, for which the smaller of the two group
  quotas is in force.
\<close>

definition hierarchy :: "id_gens \<Rightarrow> int \<Rightarrow> clock \<Rightarrow> string list" where
  "hierarchy ids oob clk =
     (let (ef0, org) = create_group_autoid (make_engine ids oob (clk 0)) ''org'' GK_ORGANIZATION None;
          (ef1, team) = create_group_autoid ef0 ''team'' GK_TEAM (Some org);
          ef2 = fst (set_group_quota ef1 (clk 1) org (ex_QV null_id 10000 10000 10000 0 0));
          ef3 = fst (set_group_quota ef2 (clk 2) team (ex_QV null_id 8000 8000 8000 0 0));
          (ef4, a) = ex_tenant ef3 (clk 3) ''a'' (Some team) 50;
          auth = ex_AUTH ef4;
          (ef5, r) = reserve ef4 (clk 4) a (ex_V 4000) auth;
          (ef6, r2) = reserve ef5 (clk 5) a (ex_V 8000) auth
      in [''reserve 4000 under parent ceiling: '' @ allow_text r,
          ''reserve 8000 (exceeds team 8000 after 4000): '' @ allow_text r2 @ '' ('' @ code_text r2 @ '')''])"

section \<open>Two levels of groups\<close>

definition vram_limits :: "resource_quota \<Rightarrow> int \<Rightarrow> bool" where
  "vram_limits q x \<longleftrightarrow> q_guaranteed q = ex_V x \<and> q_soft_limit q = ex_V x \<and> q_hard_limit q = ex_V x \<and>
     q_physical_capacity q = rv_empty"

definition two_level :: "impl \<Rightarrow> tenant_id \<Rightarrow> tenant_group_id \<Rightarrow> tenant_group_id \<Rightarrow> bool" where
  "two_level im a org team \<longleftrightarrow>
     wf_state im \<and> org \<noteq> team \<and> im_local_quota im = [] \<and>
     (\<exists>tn. im_tenants im = [(a, tn)] \<and> ten_group tn = Some team) \<and>
     (\<exists>G H. im_groups im = [(org, G), (team, H)] \<and> grp_parent G = None \<and> grp_parent H = Some org) \<and>
     (\<exists>oq tq. im_group_quota im = [(org, oq), (team, tq)] \<and> vram_limits oq 10000 \<and> vram_limits tq 8000)"

lemma two_level_walk:
  assumes "two_level im a org team"
  shows "ancestor_groups im a = [org, team]" "tenant_exists im a"
    "\<And>tn. (a, tn) \<in> set (im_tenants im) \<Longrightarrow> has_ancestor im tn team"
  using assms
  by (auto simp: two_level_def ancestor_groups_def has_ancestor_def tenant_exists_def contains_key_def eval_nat_numeral)

lemma two_level_chain:
  assumes "two_level im a org team"
  obtains oq tq where "quota_chain im a = [oq, tq]" "vram_limits oq 10000" "vram_limits tq 8000"
    "map_of (im_group_quota im) org = Some oq" "map_of (im_group_quota im) team = Some tq"
proof -
  obtain oq tq where g: "im_group_quota im = [(org, oq), (team, tq)]" "vram_limits oq 10000" "vram_limits tq 8000"
    "org \<noteq> team" "im_local_quota im = []"
    using assms by (auto simp: two_level_def)
  have "quota_chain im a = [oq, tq]"
    using g by (simp add: quota_chain_def two_level_walk [OF assms] List.map_filter_simps)
  with g show thesis by (intro that) simp_all
qed

lemma merge_two:
  assumes "f oq = ex_V 10000" "f tq = ex_V 8000"
  shows "merge_min rv_empty [oq, tq] f = ex_V 8000"
  by (rule rv_eqI) (auto simp: merge_min_val assms ex_V_def rv_ok_from_scalar i64_bounds chain_limits_def)

lemma two_level_lattice:
  assumes "two_level im a org team"
  shows "guarantee_at (effective_lattice im a) AcceleratorVRAM = 8000" "soft_at (effective_lattice im a) AcceleratorVRAM = 8000"
    "hard_at (effective_lattice im a) AcceleratorVRAM = 8000" "has_entitlement (effective_lattice im a)"
    "physical_allowance im d (effective_lattice im a) = INT64_MAX"
proof -
  obtain oq tq where c: "quota_chain im a = [oq, tq]" "vram_limits oq 10000" "vram_limits tq 8000"
    using two_level_chain [OF assms] by metis
  then have g: "q_guaranteed (effective_lattice im a) = ex_V 8000" "q_soft_limit (effective_lattice im a) = ex_V 8000"
    "q_hard_limit (effective_lattice im a) = ex_V 8000"
    by (simp_all add: vram_limits_def merge_two)
  then show "guarantee_at (effective_lattice im a) AcceleratorVRAM = 8000" "soft_at (effective_lattice im a) AcceleratorVRAM = 8000"
    "hard_at (effective_lattice im a) AcceleratorVRAM = 8000"
    by (simp_all only: guarantee_at_def soft_at_def hard_at_def) (simp_all add: ex_V_def)
  show "has_entitlement (effective_lattice im a)"
    by (rule entitled_guarantee [of _ AcceleratorVRAM]) (simp only: g, simp add: ex_V_def)
  have "\<not> rv_present (q_physical_capacity (effective_lattice im a)) d"
    using c by (simp add: vram_limits_def merge_min_val)
  then show "physical_allowance im d (effective_lattice im a) = INT64_MAX" by (simp only: physical_allowance_def) simp
qed

lemma two_level_allowed:
  assumes "two_level im a org team" "usage_of im a = empty_usage" "0 \<le> x" "x \<le> 8000"
  shows "dec_allowed (classify im now a (ex_V x))"
proof -
  obtain oq tq where q: "map_of (im_group_quota im) org = Some oq" "map_of (im_group_quota im) team = Some tq"
    "vram_limits oq 10000" "vram_limits tq 8000"
    using two_level_chain [OF assms(1)] by metis
  have "subtree_committed im g = rv_empty" for g
    using assms(1,2) by (auto simp: subtree_committed_def two_level_def empty_usage_def)
  then have "parent_hard_ok im [org, team] AcceleratorVRAM x"
    using q assms(3,4) by (simp add: parent_hard_ok_def vram_limits_def ex_V_def sat_add_exact i64_bounds)
  moreover have "current_committed_scalar im now a AcceleratorVRAM (committed_of (usage_of im a)) = 0"
    by (simp add: current_committed_scalar_def assms(2) is_consumable_def)
  moreover have "sat_add 0 x = x" "sat_add x 0 = x" using assms(3,4) by (simp_all add: sat_add_exact i64_bounds)
  ultimately have "code_allowed (dim_code im now a (ex_V x) AcceleratorVRAM)"
    using assms(2-4) two_level_lattice [OF assms(1)]
    by (simp add: dim_code_def Let_def two_level_walk [OF assms(1)] is_consumable_def requested_amount_def ex_V_def
        empty_usage_def code_allowed_def i64_bounds)
  moreover have "\<not> rv_is_empty (ex_V x)" using assms(3) by (auto simp: rv_is_empty_iff ex_V_def)
  ultimately show ?thesis
    using classify_most_restrictive_aux [OF _ two_level_lattice(4) [OF assms(1)]] assms(3) by (simp add: ex_V_def)
qed

lemma two_level_refused:
  assumes "two_level im a org team" "0 \<le> x" "x \<le> INT64_MAX"
    and "\<forall>d. subtree_total im team d \<le> INT64_MAX" "8000 < subtree_total im team AcceleratorVRAM + x"
  shows "dec_code (classify im now a (ex_V x)) = DC_DENY_PARENT"
proof -
  obtain tq where q: "map_of (im_group_quota im) team = Some tq" "vram_limits tq 8000"
    using two_level_chain [OF assms(1)] by metis
  have u: "usages_ok im" using assms(1) by (simp add: two_level_def wf_stateD)
  have s: "rv_get (subtree_committed im team) AcceleratorVRAM = subtree_total im team AcceleratorVRAM"
    by (rule subtree_committed_total [OF u assms(4)])
  moreover have "0 \<le> subtree_total im team AcceleratorVRAM" using rv_okD(1) [OF rv_ok_subtree [OF u]] s by metis
  ultimately have "sat_add (rv_get (subtree_committed im team) AcceleratorVRAM) x > 8000"
    using assms(2-5) by (simp add: sat_add_nonneg i64_bounds)
  then have "\<not> parent_hard_ok im [org, team] AcceleratorVRAM x"
    using q by (simp add: parent_hard_ok_def vram_limits_def ex_V_def)
  then have "dim_code im now a (rv_from_scalar AcceleratorVRAM x) AcceleratorVRAM = DC_DENY_PARENT"
    using assms(2) by (simp add: dim_code_def Let_def two_level_walk [OF assms(1)] is_consumable_def requested_amount_def)
  with classify_scalar [OF two_level_lattice(4) [OF assms(1)] assms(2), of now AcceleratorVRAM]
  show ?thesis by (simp add: ex_V_def rank_of_def)
qed

lemma two_level_reserve:
  assumes L: "two_level im a org team" and u: "usage_of im a = empty_usage" "in_step im a"
    and v: "valid_authority im auth" "fresh_reservation im" and x: "0 \<le> x" "x \<le> 8000"
  obtains im' res where "reserve im now a (ex_V x) auth = (im', Inr res)" "two_level im' a org team" "valid_authority im' auth"
    "\<And>d. subtree_total im' team d = (if d = AcceleratorVRAM then x else 0)"
proof -
  have wf: "wf_state im" using L by (simp add: two_level_def)
  have ok: "rv_ok (ex_V x)" using x by (simp add: ex_V_def rv_ok_from_scalar i64_bounds)
  have c: "committed_at im a AcceleratorVRAM = 0" by (simp add: committed_at_def u)
  have "dim_borrow (committed_of (usage_of im a)) (effective_lattice im a) (ex_V x) AcceleratorVRAM = 0"
    using borrow_part_within [of 0 x 8000] x
    by (simp add: dim_borrow_def two_level_lattice [OF L] u ex_V_def sat_add_exact i64_bounds)
  then have r: "reserve im now a (ex_V x) auth = map_prod id Inr (record_reservation now a (ex_V x) auth
      (scalar_burst (effective_lattice im a) AcceleratorVRAM 0 x) []
      (activate_burst now a (effective_lattice im a) (scalar_burst (effective_lattice im a) AcceleratorVRAM 0 x)
        (usage_mut a (\<lambda>u. u) im)))"
    using reserve_scalar [OF v(1) two_level_walk(2) [OF L], of now AcceleratorVRAM x] two_level_allowed [OF L u(1) x, of now] x(1) c
    by (simp add: ex_V_def is_consumable_def)
  obtain im' res where rc: "record_reservation now a (ex_V x) auth (scalar_burst (effective_lattice im a) AcceleratorVRAM 0 x) []
      (activate_burst now a (effective_lattice im a) (scalar_burst (effective_lattice im a) AcceleratorVRAM 0 x)
        (usage_mut a (\<lambda>u. u) im)) = (im', res)"
    by fastforce
  have R: "reserve im now a (ex_V x) auth = (im', Inr res)" by (simp add: r rc)
  have U: "unborrowed im' res" by (simp add: unborrowed_def record_reservation_simps(6) [OF rc] map_of_update)
  note RU = reserve_unborrowed [OF R U] and C = record_configuration [OF rc]
  show thesis
  proof (rule that [OF R])
    have "wf_state im'" using wf_reserve [OF wf ok, of now a auth] R by simp
    then show "two_level im' a org team" using L by (simp add: two_level_def RU C)
    show "valid_authority im' auth" using v(1) by (simp add: valid_authority_def RU C)
    have fits: "request_fits im a (ex_V x)" using x by (simp add: request_fits_def u empty_usage_def list_all_iff i64_bounds ex_V_def)
    have "subtree_total im team d = 0" for d
      using L u(1) by (auto simp: subtree_total_def two_level_def empty_usage_def)
    then show "subtree_total im' team d = (if d = AcceleratorVRAM then x else 0)" for d
      using reserve_subtree_total [OF wf ok R U v(2) u(2) fits, of team d] two_level_walk(1) [OF L] x(1) by (simp add: ex_V_def)
  qed
qed

section \<open>What the program prints\<close>

lemma make_engine_groups: "im_groups (make_engine ids oob now) = []" "im_group_quota (make_engine ids oob now) = []"
  by (simp_all add: make_engine_def set_policy_def impl_initial_def split: option.split)

lemma pristine_new_group:
  assumes "pristine im" "fresh_group im parent" "create_group_autoid im name kind parent = (im', g)"
  shows "pristine im'" "g = next_group_id im" "im_tenants im' = im_tenants im" "im_local_quota im' = im_local_quota im"
    "im_group_quota im' = im_group_quota im" "im_settings im' = im_settings im"
    "ig_group (im_ids im') = snd (make_id (ig_group (im_ids im)) :: tenant_group_id \<times> id_gen)"
    "\<exists>G. im_groups im' = emplace g G (im_groups im) \<and> grp_parent G = parent"
  using assms wf_new_group [OF _ assms(2), of name kind]
  by (auto simp: create_group_autoid_def new_group_def pristine_def next_group_id_def Let_def split: prod.splits)

lemma pristine_group_quota:
  assumes "pristine im" "group_exists im g" "quota_ok q" "im' = fst (set_group_quota im now g q)"
  shows "pristine im'" "im_tenants im' = im_tenants im" "im_local_quota im' = im_local_quota im"
    "im_groups im' = im_groups im" "im_settings im' = im_settings im"
    "\<exists>q'. im_group_quota im' = AList.update g q' (im_group_quota im) \<and> q_guaranteed q' = q_guaranteed q \<and>
      q_soft_limit q' = q_soft_limit q \<and> q_hard_limit q' = q_hard_limit q \<and> q_physical_capacity q' = q_physical_capacity q"
  using assms wf_set_group_quota [OF _ assms(3), of im now g]
  by (auto simp: set_group_quota_def pristine_def)

lemma pristine_tenant:
  assumes "pristine im" "group_exists im g" "im_tenants im = []" "im_settings im = engine_settings_default"
    and "ex_tenant im now name (Some g) pr = (im', t)"
  shows "pristine im'" "\<exists>tn. im_tenants im' = [(t, tn)] \<and> ten_group tn = Some g" "im_local_quota im' = im_local_quota im"
    "im_groups im' = im_groups im" "im_group_quota im' = im_group_quota im"
  using assms wf_create_tenant_auto [of im now name "Some g" pr]
  by (auto simp: ex_tenant_def create_tenant_auto_def create_tenant_def pristine_def Let_def tenant_exists_def group_exists_def
      contains_key_def engine_settings_default_def status_success_def emplace_def split: prod.splits if_splits)

lemma pristine_unused:
  assumes "pristine im"
  shows "usage_of im t = empty_usage" "in_step im t" "fresh_reservation im"
  using assms by (simp_all add: pristine_def usage_of_def in_step_def fresh_reservation_def reserved_remaining_def computed_consumed_def)

text \<open>The generator makes two different group identifiers.\<close>

definition two_group_ids :: "id_gens \<Rightarrow> bool" where
  "two_group_ids ids \<longleftrightarrow>
     (let (g1, gen) = make_id (ig_group ids) :: tenant_group_id \<times> id_gen in fst (make_id gen) \<noteq> g1)"

lemma hierarchy_start:
  assumes ids: "two_group_ids ids"
    and g0: "create_group_autoid (make_engine ids oob now0) ''org'' GK_ORGANIZATION None = (ef0, org)"
    and g1: "create_group_autoid ef0 ''team'' GK_TEAM (Some org) = (ef1, team)"
    and q2: "ef2 = fst (set_group_quota ef1 now1 org (ex_QV null_id 10000 10000 10000 0 0))"
    and q3: "ef3 = fst (set_group_quota ef2 now2 team (ex_QV null_id 8000 8000 8000 0 0))"
    and t4: "ex_tenant ef3 now3 ''a'' (Some team) 50 = (ef4, a)"
  shows "two_level ef4 a org team" "pristine ef4"
proof -
  note M = make_engine_simps [of ids oob now0] make_engine_groups [of ids oob now0]
  have "fresh_group (make_engine ids oob now0) None" by (simp add: fresh_group_def M)
  note A = pristine_new_group [OF M(5) this g0, unfolded M]
  obtain G where G: "im_groups ef0 = [(org, G)]" "grp_parent G = None" using A(8) by (auto simp: emplace_def)
  have nt: "next_group_id ef0 \<noteq> org" using ids A(2,7) by (simp add: next_group_id_def two_group_ids_def M case_prod_beta)
  have "fresh_group ef0 (Some org)" using nt by (simp add: fresh_group_def G)
  note B = pristine_new_group [OF A(1) this g1]
  obtain H where H: "im_groups ef1 = [(org, G), (team, H)]" "grp_parent H = Some org"
    using B(2,8) nt by (auto simp: emplace_def G)
  have "group_exists ef1 org" by (simp add: group_exists_def contains_key_def H)
  note C = pristine_group_quota [OF B(1) this _ q2]
  have "group_exists ef2 team" using C(4) by (simp add: group_exists_def contains_key_def H ex_QV_ok i64_bounds)
  note D = pristine_group_quota [OF C(1) this _ q3]
  have k: "quota_ok (ex_QV null_id 10000 10000 10000 0 0)" "quota_ok (ex_QV null_id 8000 8000 8000 0 0)"
    by (simp_all add: ex_QV_ok i64_bounds)
  have "group_exists ef3 team" using C(4) D(4) k by (simp add: group_exists_def contains_key_def H)
  note E = pristine_tenant [OF D(1) this _ _ t4]
  show p: "pristine ef4" using E(1) k A B C D M by simp
  have "two_level ef4 a org team"
    using p E(2-5) C(2-6) D(2-6) k A(3-6) B(2-6) M G H nt
    by (auto simp: two_level_def pristine_def vram_limits_def)
  then show "two_level ef4 a org team" .
qed

text \<open>
  The program hierarchy: 4000 are granted below the team's quota of 8000, and 8000 more are
  refused because of the parent limit.
\<close>

theorem hierarchy_prints:
  assumes "two_group_ids ids"
  shows "hierarchy ids oob clk = [''reserve 4000 under parent ceiling: ALLOW'',
    ''reserve 8000 (exceeds team 8000 after 4000): DENY (PARENT_LIMIT_EXCEEDED)'']"
proof -
  obtain ef0 org ef1 team where G: "create_group_autoid (make_engine ids oob (clk 0)) ''org'' GK_ORGANIZATION None = (ef0, org)"
    "create_group_autoid ef0 ''team'' GK_TEAM (Some org) = (ef1, team)"
    by (metis surj_pair)
  define ef2 where ef2: "ef2 = fst (set_group_quota ef1 (clk 1) org (ex_QV null_id 10000 10000 10000 0 0))"
  define ef3 where ef3: "ef3 = fst (set_group_quota ef2 (clk 2) team (ex_QV null_id 8000 8000 8000 0 0))"
  obtain ef4 a where T: "ex_tenant ef3 (clk 3) ''a'' (Some team) 50 = (ef4, a)"
    by (metis surj_pair)
  note S = hierarchy_start [OF assms G ef2 ef3 T]
  have v: "valid_authority ef4 (ex_AUTH ef4)" by (simp add: valid_authority_def ex_AUTH_def)
  obtain ef5 res where r: "reserve ef4 (clk 4) a (ex_V 4000) (ex_AUTH ef4) = (ef5, Inr res)" "two_level ef5 a org team"
    "valid_authority ef5 (ex_AUTH ef4)" "\<And>d. subtree_total ef5 team d = (if d = AcceleratorVRAM then 4000 else 0)"
    using two_level_reserve [OF S(1) pristine_unused(1,2) [OF S(2)] v pristine_unused(3) [OF S(2)], of 4000 "clk 4"] by auto
  have code: "dec_code (classify ef5 (clk 5) a (ex_V 8000)) = DC_DENY_PARENT"
    by (rule two_level_refused [OF r(2)]) (simp_all add: r(4) i64_bounds)
  then have r2: "reserve ef5 (clk 5) a (ex_V 8000) (ex_AUTH ef4) = (ef5, Inl (deny_status (classify ef5 (clk 5) a (ex_V 8000))))"
    by (intro reserve_denied [OF r(3) two_level_walk(2) [OF r(2)]]) (simp add: dec_allowed_def code_allowed_def)
  show ?thesis
    using r(1) r2 code
    by (simp add: hierarchy_def G T ef2 [symmetric] ef3 [symmetric] Let_def allow_text_def code_text_def deny_status_def
        status_failure_def del: One_nat_def)
qed

end
