(* ===== verification/QF_Examples_Borrow.thy ===== *)
theory QF_Examples_Borrow
  imports QF_Examples_Groups
begin

text \<open>
  The example programs about two tenants, of which one lends its guarantee to the other:
  \<open>borrowing\<close>, \<open>lending\<close> and \<open>recall\<close> (\<open>src/examples\<close>).
\<close>

definition ex_pair :: "id_gens \<Rightarrow> int \<Rightarrow> clock \<Rightarrow> impl \<times> tenant_id \<times> tenant_id" where
  "ex_pair ids oob clk =
     (let (ef0, l) = ex_tenant (make_engine ids oob (clk 0)) (clk 1) ''lender'' None 10;
          (ef1, b) = ex_tenant ef0 (clk 2) ''borrower'' None 90;
          ef2 = fst (set_tenant_quota ef1 (clk 3) l (ex_QV l 8192 8192 8192 0 8192));
          ef3 = fst (set_tenant_quota ef2 (clk 4) b (ex_QV b 0 0 0 0 0))
      in (ef3, l, b))"

definition borrowing :: "id_gens \<Rightarrow> int \<Rightarrow> clock \<Rightarrow> string list" where
  "borrowing ids oob clk =
     (let (ef, l, b) = ex_pair ids oob clk;
          a = ex_AUTH ef;
          (ef', br) = borrow ef (clk 5) b (ex_V 2048) a;
          env = envelope ef' (clk 6) b;
          lv = envelope ef' (clk 7) l
      in [''borrow 2048: '' @ (case br of Inr v \<Rightarrow> ''OK'' | Inl st \<Rightarrow> ''DENY''),
          ''borrower borrowed='' @ show_int (rv_get (env_borrowed env) AcceleratorVRAM),
          ''lender lent='' @ show_int (rv_get (env_lent lv) AcceleratorVRAM) @
            '' avail_guaranteed='' @ show_int (env_available_guaranteed lv AcceleratorVRAM)])"

definition lending :: "id_gens \<Rightarrow> int \<Rightarrow> clock \<Rightarrow> string list" where
  "lending ids oob clk =
     (let (ef, l, b) = ex_pair ids oob clk;
          a = ex_AUTH ef;
          (ef', ld) = lend ef (clk 5) l b (ex_V 1024) a;
          lv = envelope ef' (clk 6) l
      in [''lend 1024: '' @ (case ld of Inr v \<Rightarrow> ''OK'' | Inl st \<Rightarrow> ''DENY''),
          ''lender lent='' @ show_int (rv_get (env_lent lv) AcceleratorVRAM)])"

text \<open>The program returns without a line when the borrow fails.\<close>

definition recall :: "id_gens \<Rightarrow> int \<Rightarrow> clock \<Rightarrow> string list" where
  "recall ids oob clk =
     (let (ef, l, b) = ex_pair ids oob clk;
          a = ex_AUTH ef
      in case borrow ef (clk 5) b (ex_V 2048) a of
           (ef', Inl st) \<Rightarrow> []
         | (ef', Inr br) \<Rightarrow>
             (let rec = recall_decision ef' (clk 6) l;
                  ef'' = fst (recall_borrow ef' (clk 7) (br_id br) a);
                  env = envelope ef'' (clk 8) l
              in [''recall decisions:'' @ concat (map (\<lambda>r. '' '' @ recall_action_name r) rec),
                  ''after recall lender lent='' @ show_int (rv_get (env_lent env) AcceleratorVRAM)]))"

section \<open>Two tenants\<close>

text \<open>The generator makes two different tenant identifiers.\<close>

definition two_tenant_ids :: "id_gens \<Rightarrow> bool" where
  "two_tenant_ids ids \<longleftrightarrow>
     (let (t1, gen) = make_id (ig_tenant ids) :: tenant_id \<times> id_gen in fst (make_id gen) \<noteq> t1)"

definition next_tenant_id :: "impl \<Rightarrow> tenant_id" where
  "next_tenant_id im = fst (make_id (ig_tenant (im_ids im)))"

lemma pristine_lone_tenant:
  assumes "pristine im" "length (im_tenants im) < 1000000" "im_settings im = engine_settings_default"
    and "map_of (im_tenants im) (next_tenant_id im) = None" "ex_tenant im now name None pr = (im', t)"
  shows "pristine im'" "t = next_tenant_id im" "\<exists>tn. im_tenants im' = im_tenants im @ [(t, tn)] \<and> ten_group tn = None"
    "im_local_quota im' = im_local_quota im" "im_settings im' = im_settings im"
    "ig_tenant (im_ids im') = snd (make_id (ig_tenant (im_ids im)) :: tenant_id \<times> id_gen)"
  using assms wf_create_tenant_auto [of im now name None pr]
  by (auto simp: ex_tenant_def create_tenant_auto_def create_tenant_def pristine_def Let_def tenant_exists_def next_tenant_id_def
      contains_key_def engine_settings_default_def status_success_def emplace_def split: prod.splits if_splits)

lemma pristine_first_quota:
  assumes "pristine im" "tenant_exists im t" "map_of (im_local_quota im) t = None" "quota_ok q"
    and "im' = fst (set_tenant_quota im now t q)"
  shows "pristine im'" "im_tenants im' = im_tenants im"
    "im_local_quota im' = AList.update t (stored_quota im t q) (im_local_quota im)"
  using assms wf_set_tenant_quota [OF _ assms(4), of im now t]
  by (auto simp: set_tenant_quota_def pristine_def contains_key_def stored_quota_def)

lemma pristine_standalone:
  assumes "pristine im" "map_of (im_tenants im) t = Some tn" "ten_group tn = None" "map_of (im_local_quota im) t = Some q"
  shows "standalone im t q"
  using assms pristine_unused(1,2) [OF assms(1), of t]
  by (simp add: standalone_def pristine_def request_fits_def empty_usage_def list_all_iff i64_bounds)

lemma ex_pair_start:
  assumes "two_tenant_ids ids" "ex_pair ids oob clk = (ef, l, b)"
  shows "pristine ef" "l \<noteq> b" "\<exists>tl tb. im_tenants ef = [(l, tl), (b, tb)]"
    "\<exists>im q. standalone ef l (stored_quota im l (ex_QV l 8192 8192 8192 0 8192)) \<and>
       standalone ef b (stored_quota q b (ex_QV b 0 0 0 0 0))"
proof -
  obtain ef0 ef1 ef2 where t: "ex_tenant (make_engine ids oob (clk 0)) (clk 1) ''lender'' None 10 = (ef0, l)"
    "ex_tenant ef0 (clk 2) ''borrower'' None 90 = (ef1, b)"
    and ef2: "ef2 = fst (set_tenant_quota ef1 (clk 3) l (ex_QV l 8192 8192 8192 0 8192))"
    and ef: "ef = fst (set_tenant_quota ef2 (clk 4) b (ex_QV b 0 0 0 0 0))"
    using assms(2) by (auto simp: ex_pair_def Let_def split: prod.splits)
  note M = make_engine_simps [of ids oob "clk 0"]
  have m: "length (im_tenants (make_engine ids oob (clk 0))) < 1000000"
    "map_of (im_tenants (make_engine ids oob (clk 0))) (next_tenant_id (make_engine ids oob (clk 0))) = None"
    by (simp_all add: M)
  note A = pristine_lone_tenant [OF M(5) m(1) M(3) m(2) t(1)]
  obtain tl where tl: "im_tenants ef0 = [(l, tl)]" "ten_group tl = None" using A(3) by (auto simp: M)
  have ne: "next_tenant_id ef0 \<noteq> l"
    using assms(1) A(2,6) by (simp add: next_tenant_id_def two_tenant_ids_def M case_prod_beta)
  have s: "length (im_tenants ef0) < 1000000" "im_settings ef0 = engine_settings_default" "map_of (im_tenants ef0) (next_tenant_id ef0) = None"
    using A(5) ne by (simp_all add: tl M)
  note B = pristine_lone_tenant [OF A(1) s t(2)]
  show ne': "l \<noteq> b" using B(2) ne by simp
  obtain tb where tb: "im_tenants ef1 = [(l, tl), (b, tb)]" "ten_group tb = None" using B(3) by (auto simp: tl)
  have lq: "im_local_quota ef1 = []" using A(4) B(4) M by simp
  have e: "tenant_exists ef1 l" "map_of (im_local_quota ef1) l = None" "quota_ok (ex_QV l 8192 8192 8192 0 8192)"
    by (simp_all add: tenant_exists_def contains_key_def tb lq ex_QV_ok i64_bounds)
  note C = pristine_first_quota [OF B(1) e ef2]
  have e2: "tenant_exists ef2 b" "map_of (im_local_quota ef2) b = None" "quota_ok (ex_QV b 0 0 0 0 0)"
    using ne' by (simp_all add: tenant_exists_def contains_key_def C tb lq ex_QV_ok i64_bounds)
  note D = pristine_first_quota [OF C(1) e2 ef]
  show "pristine ef" by (rule D(1))
  show "\<exists>tl tb. im_tenants ef = [(l, tl), (b, tb)]" by (simp add: D C tb)
  have "standalone ef l (stored_quota ef1 l (ex_QV l 8192 8192 8192 0 8192))"
    by (rule pristine_standalone [OF D(1), of _ tl]) (use ne' tl in \<open>simp_all add: D C tb lq\<close>)
  moreover have "standalone ef b (stored_quota ef2 b (ex_QV b 0 0 0 0 0))"
    by (rule pristine_standalone [OF D(1), of _ tb]) (use ne' tb in \<open>simp_all add: D C lq\<close>)
  ultimately show "\<exists>im q. standalone ef l (stored_quota im l (ex_QV l 8192 8192 8192 0 8192)) \<and>
       standalone ef b (stored_quota q b (ex_QV b 0 0 0 0 0))" by blast
qed

section \<open>What the lender gives\<close>

text \<open>The state before a borrow, and what all three programs need of it.\<close>

definition lending_pair :: "impl \<Rightarrow> tenant_id \<Rightarrow> tenant_id \<Rightarrow> bool" where
  "lending_pair ef l b \<longleftrightarrow> pristine ef \<and> l \<noteq> b \<and> (\<exists>tl tb. im_tenants ef = [(l, tl), (b, tb)]) \<and>
     (\<exists>im. standalone ef l (stored_quota im l (ex_QV l 8192 8192 8192 0 8192)))"

lemma lending_pair_covers:
  assumes "lending_pair ef l b" "0 \<le> x" "x \<le> 8192"
  shows "lender_covers ef l (ex_V x)" "find_lender ef b (ex_V x) = Some l" "tenant_exists ef b" "tenant_exists ef l"
proof -
  obtain im where S: "standalone ef l (stored_quota im l (ex_QV l 8192 8192 8192 0 8192))"
    and p: "pristine ef" and t: "\<exists>tl tb. im_tenants ef = [(l, tl), (b, tb)]" and ne: "l \<noteq> b"
    using assms(1) by (auto simp: lending_pair_def)
  have "q_borrowable (effective_lattice ef l) = ex_V 8192" by (simp only: standalone_lattice [OF S]) simp
  moreover from this have "available_to_lend ef l AcceleratorVRAM = 8192"
    unfolding available_to_lend_def Let_def
    by (simp only:) (simp add: standalone_limits [OF S] pristine_unused(1) [OF p] ex_V_def empty_usage_def
        sub64_def s64_id i64_bounds committed_of_def)
  ultimately show cov: "lender_covers ef l (ex_V x)"
    unfolding lender_covers_def using assms(2,3) by (simp only:) (simp add: list_all_iff ex_V_def)
  then show "find_lender ef b (ex_V x) = Some l" using t ne by (auto simp: find_lender_def)
  show "tenant_exists ef b" "tenant_exists ef l" using t by (auto simp: tenant_exists_def contains_key_def)
qed

lemma lending_pair_draw:
  assumes "lending_pair ef l b" "0 < x" "x \<le> 8192"
  obtains im rec where "borrow_impl ef now b (ex_V x) auth None = (im, Inr rec)"
    "draw_from ef now l b (ex_V x) None = (im, rec)" "l \<noteq> b"
    "im_lends im = [(br_lending rec, new_lending ef now (br_lending rec) l b (ex_V x))]" "im_borrows im = [(br_id rec, rec)]"
    "us_lent (usage_of im l) = ex_V x" "quota_chain im t = quota_chain ef t"
    "committed_of (usage_of im l) = rv_empty"
proof -
  obtain im rec where d: "draw_from ef now l b (ex_V x) None = (im, rec)" by fastforce
  have p: "pristine ef" and ne: "l \<noteq> b" using assms(1) by (auto simp: lending_pair_def)
  note D = draw_from_simps [OF d ne]
  have ok: "rv_ok (ex_V x)" using assms(2,3) by (simp add: ex_V_def rv_ok_from_scalar i64_bounds)
  have "quota_chain im t = quota_chain ef t"
    using d by (auto simp: draw_from_def Let_def quota_chain_def ancestor_groups_def split: prod.splits cong: option.case_cong)
  moreover have "im_lends im = [(br_lending rec, new_lending ef now (br_lending rec) l b (ex_V x))]" "im_borrows im = [(br_id rec, rec)]"
    using p by (simp_all add: D(9,10) pristine_def emplace_def contains_key_def)
  moreover have "us_lent (usage_of im l) = ex_V x" "committed_of (usage_of im l) = rv_empty"
    using pristine_unused(1) [OF p] ok by (simp_all add: D(15-17) empty_usage_def rv_acc_empty_left committed_of_def)
  ultimately show thesis
    using lending_pair_covers(2) [OF assms(1), of x] assms(2,3) d ne by (intro that) (simp_all add: borrow_impl_def)
qed

lemma guarantee_at_chain: "quota_chain im' t = quota_chain im t \<Longrightarrow>
    guarantee_at (effective_lattice im' t) d = guarantee_at (effective_lattice im t) d"
  by (simp add: guarantee_at_def)

lemma ex_pair_lending:
  assumes "two_tenant_ids ids" "ex_pair ids oob clk = (ef, l, b)"
  shows "lending_pair ef l b" "valid_authority ef (ex_AUTH ef)"
    "guarantee_at (effective_lattice ef l) AcceleratorVRAM = 8192"
proof -
  note S = ex_pair_start [OF assms]
  show "lending_pair ef l b" using S by (auto simp: lending_pair_def)
  show "valid_authority ef (ex_AUTH ef)" by (simp add: valid_authority_def ex_AUTH_def)
  show "guarantee_at (effective_lattice ef l) AcceleratorVRAM = 8192"
    using S(4) by (auto simp: standalone_limits)
qed

lemma show_lent: "show_int 2048 = ''2048''" "show_int 6144 = ''6144''"
  by (simp_all add: show_int_def show_nat.simps digit_chars digit_chars(2) [simplified])

lemma borrow_granted:
  assumes "lending_pair ef l b" "valid_authority ef auth" "borrow_impl ef now b (ex_V x) auth None = (im, Inr rec)"
    and "0 \<le> x" "x \<le> 8192"
  shows "borrow ef now b (ex_V x) auth = (sync_usage now b im, Inr rec)"
  using assms lending_pair_covers(3) [OF assms(1)] by (simp add: borrow_def valid_authority_def stale_epoch_def)

lemma quota_chain_sync [simp]: "quota_chain (sync_usage now t im) t' = quota_chain im t'"
  by (simp add: sync_usage_def quota_chain_def ancestor_groups_def cong: option.case_cong)

section \<open>What the programs print\<close>

text \<open>
  The program borrowing: the borrow succeeds, both sides account for it, and the lender's
  available guarantee is lower by the amount.
\<close>

theorem borrowing_prints:
  assumes "two_tenant_ids ids"
  shows "borrowing ids oob clk =
    [''borrow 2048: OK'', ''borrower borrowed=2048'', ''lender lent=2048 avail_guaranteed=6144'']"
proof -
  obtain ef l b where P: "ex_pair ids oob clk = (ef, l, b)" by (metis surj_pair)
  note S = ex_pair_lending [OF assms P]
  obtain im rec where d: "borrow_impl ef (clk 5) b (ex_V 2048) (ex_AUTH ef) None = (im, Inr rec)"
    "draw_from ef (clk 5) l b (ex_V 2048) None = (im, rec)" "l \<noteq> b" "im_borrows im = [(br_id rec, rec)]"
    "us_lent (usage_of im l) = ex_V 2048" "quota_chain im l = quota_chain ef l" "committed_of (usage_of im l) = rv_empty"
    using lending_pair_draw [OF S(1), of 2048 "clk 5" "ex_AUTH ef" l] by simp blast
  note D = draw_from_simps [OF d(2,3)]
  have r: "borrow ef (clk 5) b (ex_V 2048) (ex_AUTH ef) = (sync_usage (clk 5) b im, Inr rec)"
    by (rule borrow_granted [OF S(1,2) d(1)]) simp_all
  have "computed_borrowed im b = ex_V 2048"
    by (simp add: computed_borrowed_def d(4) D(4,6,8) rv_acc_empty_left ex_V_def rv_ok_from_scalar i64_bounds)
  then have "rv_get (env_borrowed (envelope (sync_usage (clk 5) b im) (clk 6) b)) AcceleratorVRAM = 2048"
    by (simp add: envelope_def compute_envelope_def Let_def ex_V_def)
  moreover have "rv_get (env_lent (envelope (sync_usage (clk 5) b im) (clk 7) l)) AcceleratorVRAM = 2048"
    using d(3,5) by (simp add: envelope_def compute_envelope_def Let_def ex_V_def)
  moreover have "guarantee_at (effective_lattice (sync_usage (clk 5) b im) l) AcceleratorVRAM = 8192"
    using guarantee_at_chain [of "sync_usage (clk 5) b im" l ef AcceleratorVRAM] d(6) S(3) by simp
  then have "env_available_guaranteed (envelope (sync_usage (clk 5) b im) (clk 7) l) AcceleratorVRAM = 6144"
    using d(3,5,7) by (simp add: envelope_available_guaranteed current_committed_scalar_def is_consumable_def ex_V_def
        sub64_def s64_id i64_bounds)
  ultimately show ?thesis using r by (simp add: borrowing_def P Let_def show_lent)
qed

text \<open>The program lending: the offer is made and accounted for.\<close>

theorem lending_prints:
  assumes "two_tenant_ids ids"
  shows "lending ids oob clk = [''lend 1024: OK'', ''lender lent=1024'']"
proof -
  obtain ef l b where P: "ex_pair ids oob clk = (ef, l, b)" by (metis surj_pair)
  note S = ex_pair_lending [OF assms P]
  obtain im rec where d: "borrow_impl ef (clk 5) b (ex_V 1024) (ex_AUTH ef) None = (im, Inr rec)"
    "l \<noteq> b" "im_lends im = [(br_lending rec, new_lending ef (clk 5) (br_lending rec) l b (ex_V 1024))]"
    using lending_pair_draw [OF S(1), of 1024 "clk 5" "ex_AUTH ef" l] by simp blast
  let ?ef = "sync_usage (clk 5) b (sync_usage (clk 5) l im)"
  have r: "lend ef (clk 5) l b (ex_V 1024) (ex_AUTH ef) =
      (?ef, Inr (new_lending ef (clk 5) (br_lending rec) l b (ex_V 1024)))"
    using S(2) d lending_pair_covers(1,4) [OF S(1), of 1024]
    by (simp add: lend_def valid_authority_def stale_epoch_def Let_def)
  have "computed_lent im l = ex_V 1024"
    by (simp add: computed_lent_def d(3) new_lending_def rv_acc_empty_left ex_V_def rv_ok_from_scalar i64_bounds
        rv_present_count_zero rv_is_empty_iff)
  then have "rv_get (env_lent (envelope ?ef (clk 6) l)) AcceleratorVRAM = 1024"
    using d(2) by (simp add: envelope_def compute_envelope_def Let_def ex_V_def)
  then show ?thesis using r by (simp add: lending_def P Let_def show_small)
qed

lemma rv_sub_sat_self:
  assumes "rv_ok v"
  shows "rv_get (rv_sub_sat v v) d = 0" "rv_ok (rv_sub_sat v v)"
proof -
  show "rv_get (rv_sub_sat v v) d = 0" using assms rv_minus_self [OF assms, of d] by (simp add: rv_sub_sat_eq)
  show "rv_ok (rv_sub_sat v v)" using assms by (simp add: rv_ok_sub_sat)
qed

lemma recall_decision_fits:
  assumes "tenant_exists im l" "\<And>d. \<not> recall_due im now l (effective_lattice im l) (committed_of (usage_of im l)) d"
    and "im_borrows im = [(k, rec)]" "br_lender rec = l" "\<not> br_recalled rec"
  shows "recall_decision im now l = [RA_NO_ACTION, RA_REQUEST_RECLAIM]"
  using assms by (simp add: recall_decision_def Let_def compute_compliance_cases)

text \<open>
  The program recall: nothing forces the recall, but a borrow is outstanding; after the recall
  nothing is lent.
\<close>

theorem recall_prints:
  assumes "two_tenant_ids ids"
  shows "recall ids oob clk = [''recall decisions: NO_ACTION REQUEST_RECLAIM'', ''after recall lender lent=0'']"
proof -
  obtain ef l b where P: "ex_pair ids oob clk = (ef, l, b)" by (metis surj_pair)
  note S = ex_pair_lending [OF assms P]
  obtain im rec where d: "borrow_impl ef (clk 5) b (ex_V 2048) (ex_AUTH ef) None = (im, Inr rec)"
    "draw_from ef (clk 5) l b (ex_V 2048) None = (im, rec)" "l \<noteq> b"
    "im_lends im = [(br_lending rec, new_lending ef (clk 5) (br_lending rec) l b (ex_V 2048))]" "im_borrows im = [(br_id rec, rec)]"
    "us_lent (usage_of im l) = ex_V 2048" "quota_chain im l = quota_chain ef l" "committed_of (usage_of im l) = rv_empty"
    using lending_pair_draw [OF S(1), of 2048 "clk 5" "ex_AUTH ef" l] by simp blast
  note D = draw_from_simps [OF d(2,3)]
  let ?ef = "sync_usage (clk 5) b im" and ?l = "new_lending ef (clk 5) (br_lending rec) l b (ex_V 2048)"
  have r: "borrow ef (clk 5) b (ex_V 2048) (ex_AUTH ef) = (?ef, Inr rec)"
    by (rule borrow_granted [OF S(1,2) d(1)]) simp_all
  have ok: "rv_ok (ex_V 2048)" by (simp add: ex_V_def rv_ok_from_scalar i64_bounds)
  have g: "guarantee_at (effective_lattice ?ef l) AcceleratorVRAM = 8192"
    using guarantee_at_chain [of ?ef l ef AcceleratorVRAM] d(7) S(3) by simp
  have "\<not> recall_due ?ef (clk 6) l (effective_lattice ?ef l) (committed_of (usage_of ?ef l)) e" for e
    using g d(3,6,8)
    by (cases "e = AcceleratorVRAM")
      (auto simp: recall_due_def guarantee_at_def current_committed_scalar_def is_consumable_def ex_V_def sat_add_exact i64_bounds
        split: if_splits)
  then have dec: "recall_decision ?ef (clk 6) l = [RA_NO_ACTION, RA_REQUEST_RECLAIM]"
    using lending_pair_covers(4) [OF S(1), of 0] D(3,8,11) d(5)
    by (intro recall_decision_fits) (simp_all add: tenant_exists_def)
  have m: "map_of (im_borrows ?ef) (br_id rec) = Some rec" "map_of (im_lends ?ef) (br_lending rec) = Some ?l"
    by (simp_all add: d(4,5))
  note B = return_borrow_records [OF m(1) D(8) _ m(2), of "clk 7", unfolded D(6), OF ok]
  let ?im = "fst (return_borrow ?ef (clk 7) (br_id rec) (ex_V 2048))"
  have rb: "fst (recall_borrow ?ef (clk 7) (br_id rec) (ex_AUTH ef)) =
      emit_event (clk 7) ET_RECALL b ''borrow recalled'' (sync_usage (clk 7) l (sync_usage (clk 7) b ?im))"
    using B(1) m(1) D(3,4,6,12) S(2)
    by (simp add: recall_borrow_def stale_epoch_def valid_authority_def status_success_def case_prod_beta)
  have "computed_lent ?im l = rv_acc rv_empty (rv_sub_sat (ex_V 2048) (ex_V 2048)) \<or> computed_lent ?im l = rv_empty"
    by (simp add: computed_lent_def B(3) d(4) new_lending_def)
  then have "rv_get (computed_lent ?im l) AcceleratorVRAM = 0"
    using rv_acc_empty_left [OF rv_sub_sat_self(2) [OF ok]] rv_sub_sat_self(1) [OF ok] by auto
  then have "rv_get (env_lent (envelope (fst (recall_borrow ?ef (clk 7) (br_id rec) (ex_AUTH ef))) (clk 8) l)) AcceleratorVRAM = 0"
    using d(3) by (simp add: envelope_def compute_envelope_def Let_def rb) (simp add: sync_usage_def)
  then show ?thesis using r dec by (simp add: recall_def P Let_def show_small)
qed

end
