(* ===== verification/QF_Examples_Cuda.thy ===== *)
theory QF_Examples_Cuda
  imports QF_Cuda QF_Examples
begin

text \<open>
  The example program \<open>cuda_quota_proof\<close> (\<open>src/examples/cuda_quota_proof.cpp\<close>): discovery, an
  allocation of one GiB held while a workload of \<open>2 ^ 22\<close> elements runs, and its report. What
  the runtime answers are arguments, as in \<open>QF_Cuda\<close>; \<open>fmt\<close> is the format \<open>%.3f\<close> of the
  elapsed time. The value is the exit code, the printed lines and what was acquired and released.
\<close>

datatype proof_action = Block_acquire | Block_release | Workload_action cuda_action

definition cuda_quota_proof ::
  "discovery \<Rightarrow> bool \<Rightarrow> 'e workload_io \<Rightarrow> ('e \<Rightarrow> string) \<Rightarrow> 'e \<Rightarrow> int \<times> string list \<times> proof_action list" where
  "cuda_quota_proof rt malloc_ok io fmt zero =
     (let cuda = discover rt;
          bytes = 1 * 2 ^ 30;
          device = ''Device: '' @ display_name (cb_device cuda) @ '' total='' @
            show_int (di_total_memory (cb_device cuda) div 2 ^ 30) @ '' GiB free='' @
            show_int (di_free_memory (cb_device cuda) div 2 ^ 30) @ '' GiB'';
          run = run_workload (1 * 2 ^ 22) io;
          work = map Workload_action (wr_trace run)
      in if \<not> cb_available cuda then (1, [''CUDA unavailable: '' @ cb_error cuda], [])
         else if \<not> alloc bytes malloc_ok then (1, [device, ''cudaMalloc failed''], [])
         else (case wr_outputs run of
                 None \<Rightarrow> (1, [device, ''workload failed''], [Block_acquire] @ work @ [Block_release])
               | Some (cksum, moved) \<Rightarrow>
                   (0, [device, ''real kernel: elapsed='' @ fmt (case wr_elapsed run of Some e \<Rightarrow> e | None \<Rightarrow> zero) @
                          '' ms, moved='' @ show_int moved @ '' bytes, checksum='' @ show_int cksum],
                    [Block_acquire] @ work @ [Block_release])))"

section \<open>Nothing leaks\<close>

text \<open>
  On every path of the program, failures of the runtime included, the block of device memory
  and every resource of the workload is released exactly as often as it is acquired.
\<close>

theorem cuda_quota_proof_no_leak:
  "case cuda_quota_proof rt malloc_ok io fmt zero of (code, out, tr) \<Rightarrow>
     count (mset tr) Block_acquire = count (mset tr) Block_release \<and>
     (\<forall>r. count (mset tr) (Workload_action (Acquire r)) = count (mset tr) (Workload_action (Release r)))"
proof -
  have c: "count (mset (map Workload_action xs)) (Workload_action a) = count (mset xs) a"
    "count (mset (map Workload_action xs)) Block_acquire = 0" "count (mset (map Workload_action xs)) Block_release = 0" for xs a
    by (induction xs) auto
  have "balanced (wr_trace (run_workload (1 * 2 ^ 22) io))" by (rule workload_balanced)
  then show ?thesis
    by (auto simp: cuda_quota_proof_def Let_def c [unfolded mset_map] balanced_def split: option.split)
qed

section \<open>The report\<close>

lemma expected_sum_closed:
  assumes "n + 7 \<le> 2 ^ 32"
  shows "expected_sum n = of_nat (n * (n + 13) div 2)"
proof -
  have "(ucast (7 + of_nat i :: 32 word) :: 64 word) = of_nat (7 + i)" if "i < n" for i
  proof -
    have "unat (7 + of_nat i :: 32 word) = 7 + i"
      using that assms by (simp add: unat_word_ariths unat_of_nat)
    then show ?thesis by (metis of_nat_unat)
  qed
  then have "expected_sum n = (\<Sum>i<n. of_nat (7 + i))" by (simp add: expected_sum_def)
  also have "\<dots> = of_nat (\<Sum>i<n. 7 + i)" by (simp only: of_nat_sum)
  also have "(\<Sum>i<n. 7 + i) = n * (n + 13) div 2"
  proof -
    have "2 * (\<Sum>i<n. 7 + i) = n * (n + 13)" by (induction n) (simp_all add: algebra_simps)
    then show ?thesis by simp
  qed
  finally show ?thesis .
qed

text \<open>
  When the runtime succeeds at everything, the program exits with 0 and reports 33554432 bytes
  moved and the checksum 8796120285184, the sum of the numbers from 7 to 2^22 + 6, under every
  schedule of the threads.
\<close>

theorem cuda_quota_proof_reports:
  assumes "cb_available (discover rt)" "malloc_ok" "length (wi_memory io) = 4194304"
    and "schedule_of (ceil_div (of_nat 4194304) 256) (wi_order1 io)" "schedule_of (ceil_div (of_nat 4194304) 256) (wi_order2 io)"
    and "wi_malloc_in io" "wi_malloc_out io" "wi_malloc_acc io" "wi_memset io" "wi_copy io" "wi_last_error io"
  shows "\<exists>device tr. cuda_quota_proof rt malloc_ok io fmt zero = (0, [device,
    ''real kernel: elapsed='' @ fmt (wi_elapsed io) @ '' ms, moved=33554432 bytes, checksum=8796120285184''], tr)"
proof -
  have "wr_outputs (run_workload (int 4194304) io) = Some (sint (expected_sum 4194304), 8 * int 4194304)"
    using workload_result [OF _ _ assms(3-11)] by simp
  moreover have "expected_sum 4194304 = 8796120285184" by (simp add: expected_sum_closed)
  ultimately have w: "wr_outputs (run_workload 4194304 io) = Some (8796120285184, 33554432)" by simp
  then have e: "wr_elapsed (run_workload 4194304 io) = Some (wi_elapsed io)"
    by (auto simp: run_workload_def Let_def failed_run_def split: if_splits)
  have d: "show_int 33554432 = ''33554432''" "show_int 8796120285184 = ''8796120285184''"
    by (simp_all add: show_int_def show_nat.simps digit_chars digit_chars(2) [simplified])
  show ?thesis
    using assms(1,2) w e d by (simp add: cuda_quota_proof_def Let_def alloc_def)
qed

end
