(* ===== verification/QF_Examples_Persist.thy ===== *)
theory QF_Examples_Persist
  imports QF_File QF_Examples
begin

text \<open>
  The example program \<open>persistence_recovery\<close> (\<open>src/examples/persistence_recovery.cpp\<close>): an engine
  with one reservation is saved, loaded into a second engine and inspected. \<open>save_err\<close> and
  \<open>load_err\<close> are the texts that \<open>save_to\<close> and \<open>load_from\<close> store in \<open>*err\<close> when they fail. The
  outcomes of the file operations are arguments; \<open>rd\<close> says what reading delivers for the file's
  contents.
\<close>

definition save_err :: "string \<Rightarrow> nat \<Rightarrow> file_io \<Rightarrow> string" where
  "save_err path n io =
     (if \<not> fio_open io then ''cannot open temp file''
      else if fio_fwrite io n \<noteq> n \<or> \<not> fio_fclose io then ''write/flush failed''
      else if \<not> fio_rename io then ''rename failed for '' @ path
      else '''')"

definition load_err :: "impl \<Rightarrow> int \<Rightarrow> file_read \<Rightarrow> string" where
  "load_err im now file =
     (case file of
        Cannot_open \<Rightarrow> ''cannot open file''
      | Read_failed \<Rightarrow> ''read failed''
      | Contents blob \<Rightarrow>
          (case read_file_header blob of
             Inl (Decode_error e) \<Rightarrow> e
           | Inl (Load_fail m) \<Rightarrow> m
           | Inr (len, body) \<Rightarrow>
               (let expected = le_word (take 4 (drop (unat len) body)) :: 32 word;
                    actual = crc32 (take (unat len) body)
                in if len \<noteq> of_nat (length body) - 4 then ''length mismatch''
                   else if expected \<noteq> actual
                     then ''checksum mismatch (expected '' @ show_nat (unat expected) @ '' actual '' @ show_nat (unat actual) @
                       '' len '' @ show_nat (unat len) @ '')''
                   else st_message (snd (deserialize_state im now (take (unat len) body))))))"

text \<open>
  The exit code, the printed lines and the files afterwards; \<open>None\<close> when \<open>load_from\<close> reads out
  of bounds.
\<close>

definition persistence_recovery ::
  "id_gens \<Rightarrow> int \<Rightarrow> clock \<Rightarrow> string \<Rightarrow> file_io \<Rightarrow> (byte list option \<Rightarrow> file_read) \<Rightarrow> (string \<rightharpoonup> byte list)
     \<Rightarrow> (int \<times> string list \<times> (string \<rightharpoonup> byte list)) option" where
  "persistence_recovery ids oob clk path io rd disk =
     (let (ef0, t) = ex_tenant (make_engine ids oob (clk 0)) (clk 1) ''recover'' None 50;
          ef1 = fst (set_tenant_quota ef0 (clk 2) t (ex_flat t (ex_V 8192)));
          a = ex_AUTH ef1;
          (ef2, r) = reserve ef1 (clk 3) t (ex_V 2048) a;
          (ef3, st, disk') = save_to ef2 (clk 4) path io disk;
          new = impl_initial engine_settings_default (im_ids ef3) oob
      in if \<not> st_ok st then Some (1, [''save failed: '' @ save_err path (length (save_blob (serialize_state ef2))) io], disk')
         else case load_from new (clk 5) (rd (disk' path)) of
                None \<Rightarrow> None
              | Some (ef4, st2) \<Rightarrow>
                  if \<not> st_ok st2 then Some (1, [''load failed: '' @ load_err new (clk 5) (rd (disk' path))], disk')
                  else (let (ef5, snap) = snapshot ef4 (clk 6);
                            env = envelope ef5 (clk 7) t
                        in Some (0, [''recovered: tenants='' @ show_nat (length (sn_tenants snap)) @
                             '' reservations='' @ show_nat (length (sn_reservations snap)) @
                             '' epoch='' @ show_int (sint (ucast (gen_value (sn_epoch snap)) :: 32 word)),
                             ''recovered reserved='' @ show_int (rv_get (env_reserved env) AcceleratorVRAM)],
                             disk'(path := None))))"

section \<open>The saved engine\<close>

lemma make_engine_header:
  "im_groups (make_engine ids oob now) = []" "im_group_quota (make_engine ids oob now) = []"
  "im_epoch (make_engine ids oob now) = gen_initial" "header_persistable (make_engine ids oob now)"
  by (auto simp: make_engine_def set_policy_def impl_initial_def header_persistable_def quota_policy_default_def
      overcommit_policy_default_def string_ok_def max_string_def enum_valid_def overcommit_mode_raw_def split: option.split)

lemma ex_tenant_record:
  assumes "ex_tenant (make_engine ids oob now0) now name None pr = (ef, t)"
  shows "im_tenants ef = [(t, \<lparr>ten_id = t, ten_group = None, ten_name = name, ten_priority = pr, ten_service_class = ''''\<rparr>)]"
    "im_groups ef = []" "im_group_quota ef = []" "im_epoch ef = gen_initial" "im_policy ef = im_policy (make_engine ids oob now0)"
  using assms make_engine_simps [of ids oob now0] make_engine_header [of ids oob now0]
  by (auto simp: ex_tenant_def create_tenant_auto_def create_tenant_def Let_def tenant_exists_def contains_key_def
      engine_settings_default_def status_success_def emplace_def split: prod.splits if_splits)

lemma ex_flat_limits:
  assumes "0 \<le> x"
  shows "guarantee_at (ex_flat t (rv_from_scalar d x)) d = x" "soft_at (ex_flat t (rv_from_scalar d x)) d = x"
    "hard_at (ex_flat t (rv_from_scalar d x)) d = x" "has_entitlement (ex_flat t (rv_from_scalar d x))"
  using assms entitled_guarantee [of "ex_flat t (rv_from_scalar d x)" d]
  by (simp_all add: guarantee_at_def soft_at_def hard_at_def)

lemma ex_flat_encodable: "x \<le> INT64_MAX \<Longrightarrow> quota_encodable (stored_quota im t (ex_flat t (ex_V x)))"
  by (simp add: quota_encodable_def quota_ok_def ex_V_def rv_ok_from_scalar stored_quota_def ex_flat_def ex_Q_def ex_window_def
      resource_quota_default_def burst_rule_default_def borrow_rule_default_def enum_valid_def overcommit_mode_raw_def
      in_i64_def i64_bounds)

text \<open>An engine with one tenant and one reservation of 2048, as the program saves it.\<close>

definition one_reservation :: "impl \<Rightarrow> tenant_id \<Rightarrow> reservation \<Rightarrow> bool" where
  "one_reservation im t res \<longleftrightarrow>
     (\<exists>tn. im_tenants im = [(t, tn)] \<and> ten_id tn = t \<and> tenant_encodable tn \<and> ten_group tn = None) \<and>
     (\<exists>im0. im_local_quota im = [(t, stored_quota im0 t (ex_flat t (ex_V 8192)))]) \<and>
     im_groups im = [] \<and> im_group_quota im = [] \<and> im_allocations im = [] \<and> im_borrows im = [] \<and> im_lends im = [] \<and>
     im_reservations im = [(res_id res, res)] \<and> im_funding im = [(res_id res, \<lparr>fu_burst = rv_empty, fu_borrows = []\<rparr>)] \<and>
     res_tenant res = t \<and> res_resources res = ex_V 2048 \<and> active_res res \<and> reservation_encodable res \<and>
     im_epoch im = gen_initial \<and> header_persistable im"

lemma recover_state:
  assumes T: "ex_tenant (make_engine ids oob now0) now1 ''recover'' None 50 = (ef0, t)"
    and ef1: "ef1 = fst (set_tenant_quota ef0 now2 t (ex_flat t (ex_V 8192)))"
    and R: "reserve ef1 now3 t (ex_V 2048) (ex_AUTH ef1) = (ef2, r)" and now3: "in_i64 now3"
  shows "\<exists>res. one_reservation ef2 t res"
proof -
  let ?q = "stored_quota ef0 t (ex_flat t (ex_V 8192))"
  note E = ex_tenant_record [OF T]
  have "quota_ok (ex_flat t (ex_V 8192))" unfolding ex_V_def by (rule ex_flat_ok) (simp add: i64_bounds)
  note S = ex_start [OF T this ef1]
  have ef: "im_local_quota ef1 = [(t, ?q)]" "im_tenants ef1 = im_tenants ef0" "im_groups ef1 = []" "im_group_quota ef1 = []"
    "im_epoch ef1 = gen_initial" "im_policy ef1 = im_policy ef0"
    using E ex_tenant_first(3) [OF T]
    by (simp_all add: ef1 set_tenant_quota_def tenant_exists_def contains_key_def stored_quota_def)
  have q: "has_entitlement ?q" "\<not> rv_present (q_physical_capacity ?q) AcceleratorVRAM" "ordered_at ?q AcceleratorVRAM"
    "\<not> is_consumable AcceleratorVRAM"
    using ex_flat_limits [of 8192 t AcceleratorVRAM] by (simp_all add: ex_V_def ordered_at_def is_consumable_def)
  have fresh: "fresh_ids (Suc 0) ef1" by (simp add: S(6))
  have code: "code_allowed (table_code ?q AcceleratorVRAM bst (committed_at ef1 t AcceleratorVRAM + 2048))" for bst
    using ex_flat_limits [of 8192 t AcceleratorVRAM] by (simp add: S(4) table_code_def ex_V_def code_allowed_def)
  have burst: "scalar_burst ?q AcceleratorVRAM (committed_at ef1 t AcceleratorVRAM) 2048 = rv_empty"
    using ex_flat_limits [of 8192 t AcceleratorVRAM]
    by (simp add: S(4) scalar_burst_def ex_V_def burst_part_def clamp64_def sub64_def s64_id i64_bounds sat_add_exact Let_def)
  have pre: "0 \<le> (2048 :: int)" "committed_at ef1 t AcceleratorVRAM + 2048 \<le> INT64_MAX" by (simp_all add: S(4) i64_bounds)
  obtain im' res where rc: "reserve ef1 now3 t (rv_from_scalar AcceleratorVRAM 2048) (ex_AUTH ef1) = (im', Inr res)"
    "record_reservation now3 t (rv_from_scalar AcceleratorVRAM 2048) (ex_AUTH ef1) rv_empty []
       (activate_burst now3 t (effective_lattice ef1 t) rv_empty (usage_mut t (\<lambda>u. u) ef1)) = (im', res)"
    by (rule reserve_standalone [OF S(1) q(1-3) pre(1) q(4) pre(2) S(2) fresh_ids_Suc [OF fresh] code, of now3, unfolded burst])
  then have eq: "im' = ef2" using R by (simp add: ex_V_def)
  note RR = record_reservation_simps [OF rc(2), unfolded eq] and C = record_configuration [OF rc(2), unfolded eq]
  have p: "pristine ef1" by (rule S(3))
  have res: "res = new_reservation ef1 now3 (res_id res) t (ex_V 2048) (ex_AUTH ef1)"
    using rc(2) by (auto simp: record_reservation_def activate_burst_def Let_def ex_V_def new_reservation_def split: prod.splits)
  have "res_tenant res = t" "res_resources res = ex_V 2048" "active_res res" "reservation_encodable res"
    by (subst res, use now3 in \<open>simp add: new_reservation_def active_res_def reservation_encodable_def ex_V_def rv_ok_from_scalar
        i64_bounds in_i64_def string_ok_def max_string_def enum_valid_def reservation_status_raw_def\<close>)+
  moreover have "im_reservations ef2 = [(res_id res, res)]" "im_funding ef2 = [(res_id res, \<lparr>fu_burst = rv_empty, fu_borrows = []\<rparr>)]"
    "im_allocations ef2 = []" "im_borrows ef2 = []" "im_lends ef2 = []"
    using p RR(5-9) by (simp_all add: activate_burst_def pristine_def emplace_def contains_key_def)
  moreover have "im_groups ef2 = []" "im_tenants ef2 = im_tenants ef0" "im_epoch ef2 = gen_initial"
    using RR(10-12) ef by (simp_all add: activate_burst_def)
  moreover have "header_persistable ef2"
    using make_engine_header(4) [of ids oob now0] E(5) ef(6) C(3) by (simp add: header_persistable_def)
  moreover have "\<exists>tn. im_tenants ef0 = [(t, tn)] \<and> ten_id tn = t \<and> tenant_encodable tn \<and> ten_group tn = None"
    using E(1) by (simp add: tenant_encodable_def string_ok_def max_string_def)
  ultimately have "one_reservation ef2 t res" using C(1,7) ef by (simp add: one_reservation_def) blast
  then show ?thesis by blast
qed

lemma one_reservation_persistable:
  assumes "one_reservation im t res"
  shows "persistable engine_settings_default im" "length (serialize_state im) + 4 < 2 ^ 64"
proof -
  obtain tn im0 where S: "im_tenants im = [(t, tn)]" "ten_id tn = t" "tenant_encodable tn" "ten_group tn = None"
    "im_local_quota im = [(t, stored_quota im0 t (ex_flat t (ex_V 8192)))]"
    using assms by (auto simp: one_reservation_def)
  have q: "quota_encodable (stored_quota im0 t (ex_flat t (ex_V 8192)))" by (rule ex_flat_encodable) (simp add: i64_bounds)
  show "persistable engine_settings_default im"
    using assms S q
    by (simp add: one_reservation_def persistable_def maps_persistable_def maps_bounded_def maps_distinct_def
        engine_settings_default_def funding_encodable_def stored_quota_def)
  have "length (pol_name (im_policy im)) \<le> max_string" "length (pol_description (im_policy im)) \<le> max_string"
    "length (ten_name tn) \<le> max_string" "length (ten_service_class tn) \<le> max_string" "length (res_label res) \<le> max_string"
    using assms S(3) by (simp_all add: one_reservation_def header_persistable_def tenant_encodable_def reservation_encodable_def string_ok_def)
  then show "length (serialize_state im) + 4 < 2 ^ 64"
    using assms S
    by (simp add: one_reservation_def serialize_state_def write_header_def w_map_def w_gen_def w_string_def write_quota_def
        w_id_def w_i64_def w_bool_def length_vector write_tenant_def w_id_opt_def write_reservation_def write_funding_def
        max_string_def)
qed

lemma one_reservation_loaded:
  assumes "one_reservation im t res"
  obtains im' where
    "load_from (impl_initial engine_settings_default ids oob) now (Contents (save_blob (serialize_state im))) = Some (im', status_success)"
    "us_reserved (usage_of im' t) = ex_V 2048" "length (im_tenants im') = 1" "length (im_reservations im') = 1"
    "im_epoch im' = gen_initial"
proof -
  note P = one_reservation_persistable [OF assms]
  let ?new = "impl_initial engine_settings_default ids oob"
  let ?re = "restored im ?new"
  define im' where "im' = (sync_all now (map fst (im_tenants ?re)) ?re)\<lparr>im_loaded := True\<rparr>"
  have "im_settings ?new = engine_settings_default" "blank_maps ?new" by (simp_all add: impl_initial_def blank_maps_def)
  then have load: "load_from ?new now (Contents (save_blob (serialize_state im))) = Some (im', status_success)"
    using load_state_written [of ?new im] P(1) by (simp add: load_from_saved [OF P(2)] deserialize_state_def im'_def)
  obtain tn where re: "im_tenants ?re = [(t, tn)]" "im_reservations ?re = [(res_id res, res)]" "im_allocations ?re = []"
    "im_epoch ?re = gen_initial"
    using assms by (auto simp: restored_def one_reservation_def with_header_def)
  have "reserved_remaining ?re t = ex_V 2048"
    using assms by (simp add: one_reservation_def reserved_remaining_def re alloc_used_by_def remaining_of_def rv_acc_empty_left
        ex_V_def rv_ok_from_scalar i64_bounds)
  moreover have "counters (usage_of (sync_all now [t] ?re) t) = aggregates ?re t" by (simp add: counters_sync_all)
  ultimately have "us_reserved (usage_of im' t) = ex_V 2048" by (simp add: counters_def aggregates_def im'_def re usage_of_def)
  with load show thesis by (rule that) (simp_all add: im'_def re)
qed

section \<open>What the program prints\<close>

text \<open>
  When the file operations succeed, the program recovers the tenant, its reservation, the epoch
  and the reserved amount, and leaves neither the state file nor the temporary file behind.
\<close>

theorem persistence_recovery_prints:
  assumes "in_i64 (clk 3)" "fio_open io" "\<And>n. fio_fwrite io n = n" "fio_fflush io" "fio_fclose io" "fio_rename io"
    and "\<And>blob. rd (Some blob) = Contents blob"
  shows "persistence_recovery ids oob clk path io rd disk =
    Some (0, [''recovered: tenants=1 reservations=1 epoch=1'', ''recovered reserved=2048''],
      disk(path @ ''.tmp'' := None, path := None))"
proof -
  obtain ef0 t where T: "ex_tenant (make_engine ids oob (clk 0)) (clk 1) ''recover'' None 50 = (ef0, t)"
    by (cases "ex_tenant (make_engine ids oob (clk 0)) (clk 1) ''recover'' None 50")
  define ef1 where ef1: "ef1 = fst (set_tenant_quota ef0 (clk 2) t (ex_flat t (ex_V 8192)))"
  obtain ef2 r where R: "reserve ef1 (clk 3) t (ex_V 2048) (ex_AUTH ef1) = (ef2, r)" by (metis surj_pair)
  from recover_state [OF T ef1 R assms(1)] obtain res where "one_reservation ef2 t res" ..
  from one_reservation_loaded [OF this, of "im_ids ef2" oob "clk 5"] obtain ef4 where
    load: "load_from (impl_initial engine_settings_default (im_ids ef2) oob) (clk 5) (Contents (save_blob (serialize_state ef2))) =
      Some (ef4, status_success)" and u: "us_reserved (usage_of ef4 t) = ex_V 2048"
    and snap: "length (im_tenants ef4) = 1" "length (im_reservations ef4) = 1" "im_epoch ef4 = gen_initial" by metis
  from u have env: "rv_get (env_reserved (envelope (ef4\<lparr>im_sequence := n\<rparr>) m t)) AcceleratorVRAM = 2048" for n m
    by (simp add: envelope_def compute_envelope_def Let_def ex_V_def usage_of_def)
  have save: "save_to ef2 (clk 4) path io disk = (persisted ef2 (clk 4) path,
      status_success, disk(path @ ''.tmp'' := None, path \<mapsto> save_blob (serialize_state ef2)))"
    using assms(2-6) by (simp add: save_to_def atomic_replace_def stream_contents_def Let_def)
  have show1: "show_nat 1 = ''1''" "show_int 1 = ''1''" "show_int 2048 = ''2048''"
    by (simp_all add: show_int_def show_nat.simps digit_chars digit_chars(2) [simplified])
  show ?thesis
    using R load env snap assms(7)
    by (simp add: show1 persisted_def persistence_recovery_def T ef1 [symmetric] save Let_def snapshot_def gen_initial_def del: One_nat_def)
qed

end
