(* ===== verification/Spec2Isabelle.thy ===== *)
theory Spec2Isabelle
  imports QF_Gaps QF_File QF_Net QF_Client QF_Signed QF_Cuda QF_Governed QF_Serving QF_Socket QF_Daemon QF_Time
    QF_Examples_Borrow QF_Examples_Cuda QF_Examples_Persist
begin

text \<open>
  Quota Fabric is a multi-tenant quota engine. A coordinator process holds the engine and
  serves it over a framed TCP protocol; agents report usage and a command-line tool sends
  requests. This development models the engine, its persistence, the protocol, the
  coordinator and the two clients, and proves the properties that make them correct.

  \<^bold>\<open>Parts, theories and sources.\<close> Paths are relative to \<open>src/include/quota_fabric\<close> for headers,
  to \<open>src/src\<close> for implementation files and to \<open>src/apps\<close> for programs.

  \<^item> Foundations. \<open>QF_Prelude\<close>: 64-bit arithmetic with wrap-around, association-list maps and
    the collections of simplification rules. \<open>QF_Ids\<close>: \<open>core/ids.hpp\<close>, \<open>core/identity.hpp\<close>.
    \<open>QF_Enums\<close>: \<open>core/enums.hpp\<close>, \<open>core/enum_defs.hpp\<close>. \<open>QF_Dimensions\<close>, \<open>QF_Vector\<close>,
    \<open>QF_Signed\<close>, \<open>QF_Text\<close>: \<open>core/resource_dimension\<close> and \<open>core/resource_vector\<close>. \<open>QF_Double\<close>:
    the IEEE doubles the engine computes with, as bit patterns. \<open>QF_Records\<close>: the structs of
    \<open>core\<close>. \<open>QF_Policy\<close>: \<open>policy/policy\<close>. \<open>QF_Window\<close>: the rolling windows. \<open>QF_Time\<close>: \<open>core/time\<close>.
  \<^item> The engine, \<open>accounting/engine.cpp\<close>. \<open>QF_Engine_State\<close>: \<open>QuotaFabric::Impl\<close> as the record
    \<open>impl\<close> and the functions that read it; \<open>QF_Lattice\<close>: hierarchy walks and effective
    limits; \<open>QF_Classify\<close>, \<open>QF_Decision\<close>: evaluation of requests, compliance, envelopes;
    \<open>QF_Accounting\<close>: recomputed usage; \<open>QF_Borrow\<close>, \<open>QF_Lifecycle\<close>, \<open>QF_Observe\<close>: the public
    operations.
  \<^item> Properties of the engine. \<open>QF_Invariants\<close>, \<open>QF_Machine\<close>: operations as a state machine
    and its invariants; \<open>QF_Fencing\<close>: stale authority; \<open>QF_Safety\<close>: limits after a
    reservation; \<open>QF_Lending\<close>: borrowing; \<open>QF_Accounted\<close>: closure of the accounting;
    \<open>QF_Ledger\<close>: the abstract specification, a ledger of granted reservations in which every
    tenant and group is an account with a limit; \<open>QF_Governed\<close>: the engine refines it
    (\<open>QF_Simulation\<close> is the general argument); \<open>QF_Sample\<close>: concrete engines on which the theorems are applied; \<open>QF_Gaps\<close>: behaviour
    that differs from the documented intent; \<open>QF_Standalone\<close>: a tenant outside all groups, for
    which \<open>classify\<close> is a decision table and a run of reservations a counter with limits.
  \<^item> Persistence. \<open>QF_Codec\<close>: \<open>persistence/codec.hpp\<close>; \<open>QF_Persist\<close>: \<open>serialize_state\<close> and
    \<open>deserialize_state\<close>; \<open>QF_Recovery\<close>: what a restart restores; \<open>QF_File\<close>: \<open>crc32\<close>,
    \<open>save_to\<close>, \<open>load_from\<close>; \<open>QF_Restart\<close>: the life of an engine across saving and loading.
  \<^item> Protocol. \<open>QF_Frame\<close>: \<open>protocol/frame\<close>; \<open>QF_Net\<close>: the send and receive loops of
    \<open>protocol/net.cpp\<close>; \<open>QF_Socket\<close>: the life cycle of its \<open>TcpSocket\<close> objects;
    \<open>QF_Message\<close>: \<open>protocol/message\<close> and \<open>core/agent.hpp\<close>.
  \<^item> Programs. \<open>QF_Coordinator\<close>: the sessions of \<open>coordinator/main.cpp\<close>; \<open>QF_Serving\<close>: its
    sessions as runs of the engine; \<open>QF_Client\<close>:
    \<open>ctl/main.cpp\<close>, the steps of \<open>agent/main.cpp\<close>, and \<open>core/envelope.cpp\<close>; \<open>QF_Daemon\<close>: the \<open>main\<close>
    functions of the coordinator and the agent.
  \<^item> CUDA backend. \<open>QF_Cuda\<close>: \<open>backends/cuda/cuda_backend\<close>, with the answers of the CUDA
    runtime and the order in which threads run as arguments.
  \<^item> Example programs, \<open>src/examples\<close>. \<open>QF_Examples\<close>: the programs with one tenant;
    \<open>QF_Examples_Groups\<close>: \<open>hierarchy\<close>; \<open>QF_Examples_Borrow\<close>: \<open>borrowing\<close>, \<open>lending\<close>, \<open>recall\<close>;
    \<open>QF_Examples_Persist\<close>: \<open>persistence_recovery\<close>; \<open>QF_Examples_Cuda\<close>: \<open>cuda_quota_proof\<close>. A
    program is a function from the id generators, the clock readings and the outcomes of
    system calls to the lines it prints; the helpers repeated in every file are modelled once.

  \<^bold>\<open>How state and operations correspond.\<close> An operation of the engine is a function from the
  state and the clock reading \<open>now\<close> to the new state and its status or result
  (\<open>quota_status + 'a\<close>). The recursive master lock of the sources makes each public operation
  atomic, so that concurrent use is a sequence of operations (\<open>engine_op\<close>, \<open>apply_op\<close>,
  \<open>reachable\<close>). \<open>Op_persisted\<close> is what a successful \<open>save_to\<close> does to the engine; \<open>save_to\<close> and
  \<open>load_from\<close> themselves, which involve files, join the other operations in \<open>lifetime\<close>. One clock reading per operation stands for the readings inside it. An
  \<open>std::unordered_map\<close> is an association list in its iteration order, new keys last. An
  \<open>std::int64_t\<close> is an \<open>int\<close> whose arithmetic wraps where the code does not check; other
  integers are words. Identifiers come from the modelled generators, and theorems that need
  a fresh one say so. An enumeration has one constructor more for the values that a cast
  can produce without an enumerator. \<open>std::clamp\<close> with crossed bounds and an index beyond an
  array are explicit (\<open>im_cast_oob\<close> is the value of a cast that is out of range, \<open>None\<close> an
  access out of bounds in \<open>load_from\<close> and \<open>handle_request\<close>).

  A reader takes the bytes that are left and returns an error or a value and the rest; a
  writer is the list of bytes it appends. \<open>deserialize_state\<close> keeps what it assigned before an
  error. File-system calls are a record of outcomes (\<open>file_io\<close>), among them how much of the
  data a write takes and how much of it is kept when flushing or closing fails; the bytes
  that \<open>load_from\<close> reads through raw pointers are read by \<open>read_range\<close>, which is \<open>None\<close> outside
  the buffer. A socket is the list of bytes it
  delivers, which \<open>QF_Net\<close> justifies for any segmentation by the operating system. A request
  to the coordinator is \<open>handle_request\<close> when nobody interferes; \<open>served\<close> admits other
  sessions between its authority check and its execution. The operating system's side of the
  sockets is a table of open descriptors; the outcome of every system call and the rule that
  picks a descriptor are arguments. A \<open>main\<close> function returns an exit code with what it
  printed, an uncaught exception, the end by a signal, or the state in which it keeps running.

  \<^bold>\<open>Loops and fuel.\<close> The ancestor walk of the engine is a \<open>partial_function\<close> and does not
  return on a cyclic hierarchy. Executable code uses a walk with \<open>Suc (length groups)\<close> steps;
  \<open>hierarchy_walk_returns\<close> shows that this is enough on every hierarchy without a cycle, and
  all reachable states have one. The accept loop of the coordinator is a \<open>partial_function\<close> too,
  and \<open>accept_loop_returns\<close> and \<open>accept_loop_dies\<close> say when it returns. All other loops are recursive functions with termination
  proofs; the session loop ends because every frame consumes at least its header.

  \<^bold>\<open>Interfaces.\<close> Locales state the contracts between parts and are interpreted on the model:
  record maps and ordered choices in the engine, \<open>fenced_operation\<close> and \<open>generation_fenced\<close>
  for operations that carry an authority, \<open>codec\<close>, \<open>stable_reader\<close>, \<open>typed_reader\<close> and
  \<open>coded_enum\<close> for the encodings, \<open>lossy_codec\<close> for the messages whose encoders drop
  members, \<open>map_member\<close> for the maps that loading fills,
  \<open>authority_peer\<close> for what the control tool expects of the coordinator, \<open>simulation\<close> for an
  invariant and an abstraction kept along runs (the engine against the ledger, the sessions of
  the coordinator against the engine), and \<open>descriptor_allocator\<close>, which makes the sockets of a
  program an instance of it.

  \<^bold>\<open>What is shown.\<close> Along every run of reservations without borrowing, releases, commits,
  borrows, recalls and configuration changes the engine refines the ledger, so that no tenant
  and no group ever holds more than its hard limit; the same holds in a coordinator for whatever
  its peers send, because every request is at most one operation of the engine. Reservations stay within the hard limits of the tenant and of every
  ancestor group; the verdict of \<open>classify\<close> is the most restrictive over the dimensions;
  stale authority is rejected by the engine, at the coordinator's boundary and again when
  the epoch moves between the check and the execution of a request; all states
  in the life of an engine, across saving and loading of its own states, and all states of
  a coordinator whatever payloads arrive, are well formed; the counters agree with
  the records along every run of the accounting group's operations; borrowing preserves the
  lender's guarantee; release and recall undo reserve and borrow; saving is atomic, a saved
  state is restored, and truncated or altered files are refused; the state file's encoders and
  decoders are inverse to each other, those of requests and responses up to the members that
  are stated to be lost, and every decoded request is well typed; sessions answer every
  frame in order; the control tool's command is accepted and its answer arrives; every open
  descriptor belongs to exactly one socket object, so that none leaks and none is closed
  twice; the coordinator, once it listens, accepts connections until a signal or a failed thread start ends
  the process, and every session has its own socket; a starting agent is registered with its boot id and changes nothing else;
  the CUDA
  workload computes its checksum under every schedule and releases all it acquires; the lines
  that every example program prints are stated and proved from the engine's lemmas. Bounds and
  refinements: reservations of a tenant without groups against a counter with limits, CRC-32 against
  division by the generator polynomial, frames on sockets against the byte
  stream, the effective lattice against the minimum over the ancestor chain, checked
  vector addition, and exactly which inputs make a read go out of bounds.

  \<^bold>\<open>Not modelled.\<close> The effects that only the operating system sees (socket options, sleeping,
  half-closing a connection, the wire of TCP), the interleaving of threads below the
  granularity of an engine operation, the time the CUDA events measure (an opaque argument),
  the Windows error text of a failed rename, and tests and benchmarks, which
  only exercise the library. Exceptions of the allocator are not considered.
\<close>

end
